(* ===== verification/Prelude.thy ===== *)
theory Prelude
  imports Main "HOL-Library.List_Lexorder" "HOL-Library.Char_ord"
begin

text \<open>
  Shared vocabulary of the development: the theorem collections, Rust's saturating
  arithmetic, byte strings with the \<open>str\<close> operations the program calls (\<open>trim\<close>,
  \<open>split_once\<close>, \<open>is_ascii\<close>, \<open>eq_ignore_ascii_case\<close>, decimal formatting), and the
  two locales every stateful component is verified through: a system whose steps keep
  an invariant, and one whose steps also move along a preorder.

  A Rust \<open>str\<close> is modelled by its UTF-8 bytes, so \<open>length\<close> is \<open>str::len\<close> and the
  lexicographic order of \<open>string\<close> is Rust's order on \<open>String\<close> keys.
\<close>

named_theorems rust_defs \<open>definitions of the Rust library operations\<close>
named_theorems step_frame \<open>fields a step leaves alone\<close>

section \<open>Error chains\<close>

text \<open>A run of early returns is decided guard by guard.\<close>

lemma guard_Inl_eq_Inr [simp]: "(if P then Inl e else x) = Inr a \<longleftrightarrow> \<not> P \<and> x = Inr a"
  by simp

lemma guard_None_eq_Some [simp]: "(if P then None else x) = Some a \<longleftrightarrow> \<not> P \<and> x = Some a"
  by simp

section \<open>Saturating machine arithmetic\<close>

text \<open>Time stamps are \<open>i64\<close> seconds, kept as \<open>int\<close> with the saturation written out.\<close>

definition i64_max :: int where "i64_max = 2 ^ 63 - 1"
definition i64_min :: int where "i64_min = - (2 ^ 63)"
definition u64_max :: nat where "u64_max = 2 ^ 64 - 1"

definition clamp_i64 :: "int \<Rightarrow> int" where
  "clamp_i64 x = (if x < i64_min then i64_min else if i64_max < x then i64_max else x)"

text \<open>\<open>i64::saturating_sub\<close>.\<close>
definition sat_sub :: "int \<Rightarrow> int \<Rightarrow> int" where
  "sat_sub a b = clamp_i64 (a - b)"

text \<open>\<open>u64::saturating_add\<close> and \<open>u64::saturating_mul\<close>.\<close>
definition sat_add_u64 :: "nat \<Rightarrow> nat \<Rightarrow> nat" where
  "sat_add_u64 a b = min (a + b) u64_max"
definition sat_mul_u64 :: "nat \<Rightarrow> nat \<Rightarrow> nat" where
  "sat_mul_u64 a b = min (a * b) u64_max"

lemmas [rust_defs] = clamp_i64_def sat_sub_def sat_add_u64_def sat_mul_u64_def

text \<open>Against a bound inside the range, saturation is not observable.\<close>

lemma sat_sub_le_iff: "0 \<le> c \<Longrightarrow> c < i64_max \<Longrightarrow> sat_sub a b \<le> c \<longleftrightarrow> a - b \<le> c"
  by (auto simp: rust_defs i64_max_def i64_min_def)

lemma sat_sub_less_iff: "0 \<le> c \<Longrightarrow> c \<le> i64_max \<Longrightarrow> sat_sub a b < c \<longleftrightarrow> a - b < c"
  by (auto simp: rust_defs i64_max_def i64_min_def)

lemma sat_add_u64_le [simp]: "sat_add_u64 a b \<le> u64_max"
  by (simp add: rust_defs)

section \<open>Byte strings\<close>

definition is_ascii :: "string \<Rightarrow> bool" where
  "is_ascii s = list_all (\<lambda>c. of_char c < (128 :: nat)) s"

definition ascii_control :: "char \<Rightarrow> bool" where
  "ascii_control c = (of_char c < (32 :: nat) \<or> of_char c = (127 :: nat))"

definition ascii_lower_char :: "char \<Rightarrow> char" where
  "ascii_lower_char c =
     (if (65 :: nat) \<le> of_char c \<and> of_char c \<le> (90 :: nat) then char_of (of_char c + 32 :: nat) else c)"

definition ascii_lower :: "string \<Rightarrow> string" where
  "ascii_lower s = map ascii_lower_char s"

definition eq_ignore_ascii_case :: "string \<Rightarrow> string \<Rightarrow> bool" where
  "eq_ignore_ascii_case s t = (ascii_lower s = ascii_lower t)"

definition ascii_digit :: "char \<Rightarrow> bool" where
  "ascii_digit c = ((48 :: nat) \<le> of_char c \<and> of_char c \<le> (57 :: nat))"

definition ascii_alpha :: "char \<Rightarrow> bool" where
  "ascii_alpha c = ((65 :: nat) \<le> of_char c \<and> of_char c \<le> (90 :: nat)
     \<or> (97 :: nat) \<le> of_char c \<and> of_char c \<le> (122 :: nat))"

definition ascii_alnum :: "char \<Rightarrow> bool" where
  "ascii_alnum c = (ascii_digit c \<or> ascii_alpha c)"

definition ascii_hexdigit :: "char \<Rightarrow> bool" where
  "ascii_hexdigit c = (ascii_digit c
     \<or> (65 :: nat) \<le> of_char c \<and> of_char c \<le> (70 :: nat)
     \<or> (97 :: nat) \<le> of_char c \<and> of_char c \<le> (102 :: nat))"

definition starts_with :: "string \<Rightarrow> string \<Rightarrow> bool" where
  "starts_with p s = (take (length p) s = p)"

lemma ascii_lower_append [simp]: "ascii_lower (s @ t) = ascii_lower s @ ascii_lower t"
  by (simp add: ascii_lower_def)

lemma length_ascii_lower [simp]: "length (ascii_lower s) = length s"
  by (simp add: ascii_lower_def)

lemma of_char_ascii_lower_char:
  "of_char (ascii_lower_char c) =
     (if (65 :: nat) \<le> of_char c \<and> of_char c \<le> (90 :: nat) then of_char c + 32 else of_char c :: nat)"
  by (simp add: ascii_lower_char_def)

lemma ascii_lower_char_idem [simp]: "ascii_lower_char (ascii_lower_char c) = ascii_lower_char c"
  by (simp add: ascii_lower_char_def)

lemma ascii_lower_idem [simp]: "ascii_lower (ascii_lower s) = ascii_lower s"
  by (simp add: ascii_lower_def)

lemma eq_ignore_ascii_case_equiv:
  "eq_ignore_ascii_case s s"
  "eq_ignore_ascii_case s t \<Longrightarrow> eq_ignore_ascii_case t s"
  "eq_ignore_ascii_case s t \<Longrightarrow> eq_ignore_ascii_case t u \<Longrightarrow> eq_ignore_ascii_case s u"
  by (simp_all add: eq_ignore_ascii_case_def)

lemma starts_with_Nil [simp]: "starts_with [] s"
  by (simp add: starts_with_def)

lemma starts_with_Cons [simp]:
  "starts_with (p # ps) [] = False"
  "starts_with (p # ps) (c # cs) = (p = c \<and> starts_with ps cs)"
  by (auto simp: starts_with_def)

lemma starts_with_length: "starts_with w s \<Longrightarrow> length w \<le> length s"
  unfolding starts_with_def by (metis length_take min.cobounded1)

text \<open>The UTF-8 encodings of the characters with Unicode's \<open>White_Space\<close> property.\<close>

definition white_space :: "string list" where
  "white_space =
     map (\<lambda>b. map char_of b)
       ([[9], [10], [11], [12], [13], [32], [194, 133], [194, 160], [225, 154, 128],
         [226, 128, 168], [226, 128, 169], [226, 128, 175], [226, 129, 159], [227, 128, 128]]
        @ map (\<lambda>x. [226, 128, x]) [128, 129, 130, 131, 132, 133, 134, 135, 136, 137, 138 :: nat])"

text \<open>\<open>strip ws s\<close> removes leading occurrences of the non-empty strings \<open>ws\<close>.\<close>

function strip :: "string list \<Rightarrow> string \<Rightarrow> string" where
  "strip ws s =
     (case find (\<lambda>w. w \<noteq> [] \<and> starts_with w s) ws of
        None \<Rightarrow> s
      | Some w \<Rightarrow> strip ws (drop (length w) s))"
  by pat_completeness auto
termination
proof (relation "measure (\<lambda>(ws, s). length s)")
  fix ws s w
  assume "find (\<lambda>w. w \<noteq> [] \<and> starts_with w s) ws = Some w"
  then have "w \<noteq> []" and "starts_with w s"
    by (auto simp: find_Some_iff)
  then have "0 < length w" and "length w \<le> length s"
    by (simp_all add: starts_with_length)
  then have "length s - length w < length s"
    by linarith
  then show "((ws, drop (length w) s), (ws, s)) \<in> measure (\<lambda>(ws, s). length s)"
    by simp
qed simp

declare strip.simps [simp del]

text \<open>\<open>str::trim\<close>: white space removed at both ends.\<close>

definition trim :: "string \<Rightarrow> string" where
  "trim s = rev (strip (map rev white_space) (rev (strip white_space s)))"

text \<open>\<open>str::split_once\<close> on a one-byte separator, and \<open>split(c).next()\<close>.\<close>

fun split_once :: "char \<Rightarrow> string \<Rightarrow> (string \<times> string) option" where
  "split_once c [] = None"
| "split_once c (x # xs) =
     (if x = c then Some ([], xs)
      else map_option (\<lambda>(a, b). (x # a, b)) (split_once c xs))"

definition before_char :: "char \<Rightarrow> string \<Rightarrow> string" where
  "before_char c s = takeWhile (\<lambda>x. x \<noteq> c) s"

lemma split_once_None: "split_once c s = None \<longleftrightarrow> c \<notin> set s"
  by (induction s) auto

lemma split_once_Some:
  "split_once c s = Some (a, b) \<longleftrightarrow> s = a @ c # b \<and> c \<notin> set a"
proof (induction s arbitrary: a)
  case (Cons x xs)
  then show ?case by (cases a) auto
qed simp

lemma split_once_append [simp]: "c \<notin> set a \<Longrightarrow> split_once c (a @ c # b) = Some (a, b)"
  by (simp add: split_once_Some)

section \<open>Decimal formatting\<close>

fun dec_nat :: "nat \<Rightarrow> string" where
  "dec_nat n = (if n < 10 then [char_of (48 + n)] else dec_nat (n div 10) @ [char_of (48 + n mod 10)])"

declare dec_nat.simps [simp del]

text \<open>\<open>format!("{}", i)\<close> for a signed integer.\<close>

definition dec_int :: "int \<Rightarrow> string" where
  "dec_int i = (if i < 0 then CHR ''-'' # dec_nat (nat (- i)) else dec_nat (nat i))"

definition dec_value :: "string \<Rightarrow> nat" where
  "dec_value s = foldl (\<lambda>v c. 10 * v + (of_char c - 48)) 0 s"

lemma dec_value_dec_nat [simp]: "dec_value (dec_nat n) = n"
proof (induction n rule: dec_nat.induct)
  case (1 n)
  then show ?case
    by (subst dec_nat.simps) (auto simp: dec_value_def)
qed

lemma dec_nat_inject [simp]: "dec_nat m = dec_nat n \<longleftrightarrow> m = n"
  by (metis dec_value_dec_nat)

lemma dec_nat_digits: "c \<in> set (dec_nat n) \<Longrightarrow> ascii_digit c"
proof (induction n rule: dec_nat.induct)
  case (1 n)
  have small: "ascii_digit (char_of (48 + k))" if "k < 10" for k :: nat
    using that by (simp add: ascii_digit_def)
  from 1 small show ?case
    by (subst (asm) dec_nat.simps) (auto split: if_splits)
qed

lemma dec_int_inject [simp]: "dec_int i = dec_int j \<longleftrightarrow> i = j"
proof -
  have minus: "CHR ''-'' \<notin> set (dec_nat n)" for n
    using dec_nat_digits by (fastforce simp: ascii_digit_def)
  then have "dec_nat n \<noteq> CHR ''-'' # s" for n s
    by (metis list.set_intros(1))
  then show ?thesis
    by (auto simp: dec_int_def dest: sym)
qed

lemma dec_int_chars: "c \<in> set (dec_int i) \<Longrightarrow> ascii_digit c \<or> c = CHR ''-''"
  by (auto simp: dec_int_def dest: dec_nat_digits split: if_splits)

text \<open>\<open>str::parse::<u64>\<close>: an optional plus, then digits, within range.\<close>

definition unsigned_digits :: "string \<Rightarrow> string" where
  "unsigned_digits s = (case s of c # t \<Rightarrow> if c = CHR ''+'' then t else s | [] \<Rightarrow> [])"

definition parse_u64 :: "string \<Rightarrow> nat option" where
  "parse_u64 s = (let d = unsigned_digits s in
     if d = [] \<or> \<not> list_all ascii_digit d \<or> 2 ^ 64 \<le> dec_value d then None else Some (dec_value d))"

section \<open>Systems, invariants and preorders of states\<close>

text \<open>
  The contract between a component's operations and the properties of its runs: each
  step keeps the invariant. The run lemmas are proved once here.
\<close>

locale guarded_system =
  fixes step :: "'s \<Rightarrow> 'e \<Rightarrow> 's"
    and inv :: "'s \<Rightarrow> bool"
  assumes step_inv: "inv s \<Longrightarrow> inv (step s e)"
begin

lemma run_inv: "inv s \<Longrightarrow> inv (foldl step s es)"
  by (induction es arbitrary: s) (simp_all add: step_inv)

lemma run_prefix_inv: "inv s \<Longrightarrow> inv (foldl step s (take n es))"
  by (rule run_inv)

end

text \<open>A system whose steps also only move upwards in a preorder on the good states.\<close>

locale monotone_system = guarded_system +
  fixes le :: "'s \<Rightarrow> 's \<Rightarrow> bool"
  assumes le_refl: "le s s"
    and le_trans: "le s t \<Longrightarrow> le t u \<Longrightarrow> le s u"
    and step_le: "inv s \<Longrightarrow> le s (step s e)"
begin

lemma run_le: "inv s \<Longrightarrow> le s (foldl step s es)"
proof (induction es arbitrary: s)
  case Nil
  then show ?case by (simp add: le_refl)
next
  case (Cons e es)
  then have "le s (step s e)" and "le (step s e) (foldl step (step s e) es)"
    by (simp_all add: step_le step_inv)
  then show ?case by (auto intro: le_trans)
qed

lemma run_le_later: "inv s \<Longrightarrow> le (foldl step s es) (foldl step s (es @ fs))"
  by (simp add: run_le run_inv)

end

end
