(* ===== verification/BTree.thy ===== *)
theory BTree
  imports Prelude
begin

text \<open>
  \<open>std::collections::BTreeMap\<close> as a list of entries in ascending key order: iteration
  order is list order, \<open>get\<close> is \<open>map_of\<close>, \<open>insert\<close> keeps the order, and \<open>retain\<close>
  may rewrite the values it keeps, as the program's closures do.
\<close>

type_synonym ('k, 'v) btree = "('k \<times> 'v) list"

definition bt_ok :: "('k :: linorder, 'v) btree \<Rightarrow> bool" where
  "bt_ok m = sorted_wrt (<) (map fst m)"

abbreviation bt_get :: "('k, 'v) btree \<Rightarrow> 'k \<Rightarrow> 'v option" where
  "bt_get \<equiv> map_of"

definition bt_has :: "('k, 'v) btree \<Rightarrow> 'k \<Rightarrow> bool" where
  "bt_has m k = (bt_get m k \<noteq> None)"

fun bt_put :: "'k :: linorder \<Rightarrow> 'v \<Rightarrow> ('k, 'v) btree \<Rightarrow> ('k, 'v) btree" where
  "bt_put k v [] = [(k, v)]"
| "bt_put k v ((a, b) # m) =
     (if k = a then (k, v) # m
      else if k < a then (k, v) # (a, b) # m
      else (a, b) # bt_put k v m)"

definition bt_del :: "'k \<Rightarrow> ('k, 'v) btree \<Rightarrow> ('k, 'v) btree" where
  "bt_del k m = filter (\<lambda>(a, _). a \<noteq> k) m"

definition bt_values :: "('k, 'v) btree \<Rightarrow> 'v list" where
  "bt_values m = map snd m"

text \<open>\<open>for v in m.values_mut()\<close>.\<close>
definition bt_map :: "('v \<Rightarrow> 'w) \<Rightarrow> ('k, 'v) btree \<Rightarrow> ('k, 'w) btree" where
  "bt_map f m = map (\<lambda>(k, v). (k, f v)) m"

text \<open>\<open>m.retain(..)\<close>: the closure may change the value it keeps.\<close>
definition bt_retain :: "('v \<Rightarrow> 'v) \<Rightarrow> ('v \<Rightarrow> bool) \<Rightarrow> ('k, 'v) btree \<Rightarrow> ('k, 'v) btree" where
  "bt_retain f keep m = filter (\<lambda>(_, v). keep v) (bt_map f m)"

subsection \<open>Lookup after each operation\<close>

lemma bt_get_put [simp]: "bt_get (bt_put k v m) = (bt_get m)(k \<mapsto> v)"
  by (induction m) (auto simp: fun_eq_iff)

lemma bt_get_del [simp]: "bt_get (bt_del k m) = (bt_get m)(k := None)"
  by (induction m) (auto simp: bt_del_def fun_eq_iff)

lemma bt_get_map [simp]: "bt_get (bt_map f m) k = map_option f (bt_get m k)"
  by (induction m) (auto simp: bt_map_def)

lemma bt_has_put [simp]: "bt_has (bt_put k v m) a \<longleftrightarrow> a = k \<or> bt_has m a"
  by (auto simp: bt_has_def)

lemma bt_has_iff: "bt_has m k \<longleftrightarrow> k \<in> fst ` set m"
  by (simp add: bt_has_def map_of_eq_None_iff)

lemma keys_bt_put: "fst ` set (bt_put k v m) = insert k (fst ` set m)"
  by (induction k v m rule: bt_put.induct) (simp_all add: insert_commute)

lemma set_bt_put: "bt_ok m \<Longrightarrow> set (bt_put k v m) = insert (k, v) {e \<in> set m. fst e \<noteq> k}"
  by (induction m) (force split: if_splits simp: bt_ok_def)+

subsection \<open>The order is kept\<close>

lemma bt_ok_simps [simp]:
  "bt_ok []"
  "bt_ok ((k, v) # m) \<longleftrightarrow> (\<forall>e \<in> set m. k < fst e) \<and> bt_ok m"
  by (auto simp: bt_ok_def)

lemma bt_ok_put [simp, intro]: "bt_ok m \<Longrightarrow> bt_ok (bt_put k v m)"
proof (induction m)
  case (Cons e m)
  obtain a b where e: "e = (a, b)" by (cases e)
  have "\<forall>x \<in> set (bt_put k v m). a < fst x" if "a < k"
    using that Cons.prems keys_bt_put [of k v m] by (fastforce simp: e)
  with Cons e show ?case by auto
qed simp

lemma bt_ok_filter [simp, intro]: "bt_ok m \<Longrightarrow> bt_ok (filter P m)"
  by (simp add: bt_ok_def sorted_wrt_map sorted_wrt_filter)

lemma bt_ok_del [simp, intro]: "bt_ok m \<Longrightarrow> bt_ok (bt_del k m)"
  by (simp add: bt_del_def)

lemma map_fst_bt_map [simp]: "map fst (bt_map f m) = map fst m"
  by (simp add: bt_map_def split_def)

lemma bt_ok_map [simp]: "bt_ok (bt_map f m) = bt_ok m"
  by (simp add: bt_ok_def)

lemma bt_ok_retain [simp, intro]: "bt_ok m \<Longrightarrow> bt_ok (bt_retain f keep m)"
  by (simp add: bt_retain_def)

lemma bt_ok_distinct: "bt_ok m \<Longrightarrow> distinct (map fst m)"
  by (simp add: bt_ok_def strict_sorted_iff)

lemma bt_get_in_iff: "bt_ok m \<Longrightarrow> bt_get m k = Some v \<longleftrightarrow> (k, v) \<in> set m"
  by (simp add: bt_ok_distinct)

lemma bt_get_filter:
  "bt_ok m \<Longrightarrow> bt_get (filter (\<lambda>(k, v). P k v) m) k =
     (case bt_get m k of None \<Rightarrow> None | Some v \<Rightarrow> if P k v then Some v else None)"
proof (induction m)
  case (Cons e m)
  have "bt_get (filter (\<lambda>(k, v). P k v) m) (fst e) = None"
    using Cons.prems by (cases e) (auto simp: map_of_eq_None_iff)
  with Cons show ?case
    by (cases e) (auto split: option.splits)
qed simp

lemma bt_get_retain:
  "bt_ok m \<Longrightarrow> bt_get (bt_retain f keep m) k =
     (case bt_get m k of None \<Rightarrow> None | Some v \<Rightarrow> if keep (f v) then Some (f v) else None)"
  by (simp add: bt_retain_def bt_get_filter split: option.splits)

subsection \<open>Sizes\<close>

lemma length_bt_put:
  "bt_ok m \<Longrightarrow> length (bt_put k v m) = (if bt_has m k then length m else Suc (length m))"
proof (induction m)
  case (Cons e m)
  then show ?case
    by (cases e) (force simp: bt_has_iff)
qed (simp add: bt_has_def)

lemma length_bt_retain_le: "length (bt_retain f keep m) \<le> length m"
  by (simp add: bt_retain_def bt_map_def le_trans [OF length_filter_le])

lemma in_bt_values: "bt_ok m \<Longrightarrow> v \<in> set (bt_values m) \<longleftrightarrow> (\<exists>k. bt_get m k = Some v)"
  by (force simp: bt_values_def bt_get_in_iff)

lemma in_bt_values_put:
  "bt_ok m \<Longrightarrow> v \<in> set (bt_values (bt_put k w m)) \<longleftrightarrow>
     v = w \<or> (\<exists>a. a \<noteq> k \<and> bt_get m a = Some v)"
  by (auto simp: in_bt_values)

subsection \<open>Maps whose values carry their key\<close>

definition bt_keyed :: "('v \<Rightarrow> 'k :: linorder) \<Rightarrow> ('k, 'v) btree \<Rightarrow> bool" where
  "bt_keyed key m = (bt_ok m \<and> (\<forall>k v. bt_get m k = Some v \<longrightarrow> key v = k))"

lemma bt_keyed_get: "bt_keyed key m \<Longrightarrow> bt_get m k = Some v \<Longrightarrow> key v = k"
  by (simp add: bt_keyed_def)

lemma bt_keyed_ok: "bt_keyed key m \<Longrightarrow> bt_ok m"
  by (simp add: bt_keyed_def)

lemma bt_keyed_Nil [simp]: "bt_keyed key []"
  by (simp add: bt_keyed_def)

lemma bt_keyed_put [intro]: "bt_keyed key m \<Longrightarrow> key v = k \<Longrightarrow> bt_keyed key (bt_put k v m)"
  by (auto simp: bt_keyed_def)

lemma bt_keyed_map [intro]:
  "bt_keyed key m \<Longrightarrow> (\<And>v. key (f v) = key v) \<Longrightarrow> bt_keyed key (bt_map f m)"
  by (auto simp: bt_keyed_def)

lemma bt_values_filter_key:
  assumes "bt_keyed key m"
  shows "filter (\<lambda>v. key v = i \<and> P v) (bt_values m) =
     (case bt_get m i of None \<Rightarrow> [] | Some v \<Rightarrow> if P v then [v] else [])"
proof -
  have "filter (\<lambda>v. key v = i \<and> P v) (bt_values m) =
     (case bt_get m i of None \<Rightarrow> [] | Some v \<Rightarrow> if P v then [v] else [])"
    if "bt_ok m" "\<forall>(k, v) \<in> set m. key v = k" for m
    using that
  proof (induction m)
    case (Cons e m)
    obtain k v where e: "e = (k, v)" by (cases e)
    have "bt_get m k = None"
      using Cons.prems by (auto simp: e map_of_eq_None_iff)
    with Cons e show ?case
      by (auto simp: bt_values_def split: option.splits)
  qed (simp add: bt_values_def)
  moreover from assms have "bt_ok m" and "\<forall>(k, v) \<in> set m. key v = k"
    by (auto simp: bt_keyed_def bt_get_in_iff)
  ultimately show ?thesis by blast
qed

end
