(* ===== verification/Rollouts.thy ===== *)
theory Rollouts
  imports BTree
begin

text \<open>
  Repair of the first record of Codex rollouts (\<open>src/central/sessions.rs\<close>): old sessions are
  moved to the central provider by replacing one token of their metadata line, with the
  original line saved first, and moved back from the saved lines. Codex keeps running
  meanwhile, so every look at the file system is preceded by whatever other processes did
  since the last one (\<open>tl_sched\<close>), and every call into the host may fail. The JSON parser is
  the parameter \<open>json_host\<close>.
\<close>

section \<open>The session directories\<close>

type_synonym path = "string list"

datatype file_kind = RegularFile | SymlinkFile | OtherFile

text \<open>\<open>ro_inode\<close> stands for device and inode, times are in nanoseconds.\<close>

record rollout =
  ro_kind :: file_kind
  ro_inode :: nat
  ro_bytes :: string
  ro_mtime :: int
  ro_ctime :: int
  ro_links :: nat
  ro_held :: bool

datatype backup = Saved string bool | BadBackup

text \<open>Paths are relative to the Codex home; a backup has the path its rollout had. \<open>h_unsafe\<close> says
  that a directory on the way to the backup is a link or not a directory.\<close>

record home =
  h_dirs :: "string list"
  h_rollouts :: "(path, rollout) btree"
  h_backups :: "(path, backup) btree"
  h_unsafe :: "path \<Rightarrow> bool"
  h_now :: int
  h_next :: nat

section \<open>What other processes do\<close>

text \<open>Any change of a file's content, name or links moves its change time forward, whatever
  modification time is set; opening a file does not.\<close>

datatype deed =
  WriteTo path string int | Create path file_kind string int | Move path path | Unlink path
| SetLinks path nat | Hold path bool | Idle nat

fun act :: "home \<Rightarrow> deed \<Rightarrow> home" where
  "act h (WriteTo p b m) =
     (case bt_get (h_rollouts h) p of
        None \<Rightarrow> h
      | Some f \<Rightarrow> h\<lparr>h_rollouts := bt_put p (f\<lparr>ro_bytes := b, ro_mtime := m, ro_ctime := h_now h + 1\<rparr>) (h_rollouts h),
                    h_now := h_now h + 1\<rparr>)"
| "act h (Create p k b m) =
     h\<lparr>h_rollouts := bt_put p \<lparr>ro_kind = k, ro_inode = h_next h, ro_bytes = b, ro_mtime = m, ro_ctime = h_now h + 1,
          ro_links = 1, ro_held = False\<rparr> (h_rollouts h), h_now := h_now h + 1, h_next := Suc (h_next h)\<rparr>"
| "act h (Move p q) =
     (case bt_get (h_rollouts h) p of
        None \<Rightarrow> h
      | Some f \<Rightarrow> h\<lparr>h_rollouts := bt_put q (f\<lparr>ro_ctime := h_now h + 1\<rparr>) (bt_del p (h_rollouts h)),
                    h_now := h_now h + 1\<rparr>)"
| "act h (Unlink p) = h\<lparr>h_rollouts := bt_del p (h_rollouts h), h_now := h_now h + 1\<rparr>"
| "act h (SetLinks p n) =
     (case bt_get (h_rollouts h) p of
        None \<Rightarrow> h
      | Some f \<Rightarrow> h\<lparr>h_rollouts := bt_put p (f\<lparr>ro_links := n, ro_ctime := h_now h + 1\<rparr>) (h_rollouts h),
                    h_now := h_now h + 1\<rparr>)"
| "act h (Hold p b) =
     (case bt_get (h_rollouts h) p of
        None \<Rightarrow> h
      | Some f \<Rightarrow> h\<lparr>h_rollouts := bt_put p (f\<lparr>ro_held := b\<rparr>) (h_rollouts h)\<rparr>)"
| "act h (Idle n) = h\<lparr>h_now := h_now h + int n\<rparr>"

section \<open>The tool\<close>

datatype provider_action = DryRun | Rewrite | Restore

record summary =
  sm_scanned :: nat
  sm_changed :: nat
  sm_unchanged :: nat
  sm_open :: nat
  sm_unsafe :: nat
  sm_no_backup :: nat
  sm_recent :: nat
  sm_errors :: nat

datatype rollout_error =
  HostFailed | NotRegular | HeaderTooLong | InvalidMetadata | ChangedDuringInspection | ChangedDuringCopy
| UnsafeBackupDirectory | UnsafeBackupLink | BackupNotPrivate | BackupTooLong | BackupDiffers
| RestoreMismatch | SeveralBackups | NoMatchingBackup | NeedsRestore

text \<open>A replacement of a file: when and as what it was last inspected, what was under its name at the
  rename, and the bytes installed.\<close>

record replacement =
  rp_clock :: int
  rp_path :: path
  rp_seen :: rollout
  rp_gone :: "rollout option"
  rp_bytes :: string

text \<open>\<open>tl_buffer\<close> is how many bytes behind the header the buffered reader already held;
  \<open>tl_log\<close> notes every replacement of a file.\<close>

record tool =
  tl_home :: home
  tl_sched :: "(deed list \<times> bool) list"
  tl_buffer :: nat
  tl_sum :: summary
  tl_log :: "replacement list"

text \<open>The next look at the host: what others did before it, and whether the call succeeds.\<close>

definition look :: "tool \<Rightarrow> bool \<times> tool" where
  "look t = (case tl_sched t of
     [] \<Rightarrow> (True, t)
   | (ds, ok) # sched \<Rightarrow> (ok, t\<lparr>tl_sched := sched, tl_home := foldl act (tl_home t) ds\<rparr>))"

definition count_in :: "(summary \<Rightarrow> summary) \<Rightarrow> tool \<Rightarrow> tool" where
  "count_in f t = t\<lparr>tl_sum := f (tl_sum t)\<rparr>"

definition recent_window :: int where "recent_window = 3600 * 1000000000"

text \<open>A modification time in the future has no duration since and counts as recent.\<close>

definition recently_changed :: "home \<Rightarrow> rollout \<Rightarrow> bool" where
  "recently_changed h f = (max 0 (h_now h - ro_mtime f) < recent_window)"

definition skipped_recent :: "tool \<Rightarrow> rollout_error option \<times> tool" where
  "skipped_recent t = (None, count_in (\<lambda>s. s\<lparr>sm_recent := sm_recent s + 1\<rparr>) t)"

definition same_file :: "rollout \<Rightarrow> rollout \<Rightarrow> bool" where
  "same_file a b = (ro_inode a = ro_inode b \<and> length (ro_bytes a) = length (ro_bytes b)
     \<and> ro_mtime a = ro_mtime b \<and> ro_ctime a = ro_ctime b)"

text \<open>An open file handle follows its inode under whatever name it has now; a file without a
  name reads as when it was opened.\<close>

definition handle :: "rollout \<Rightarrow> home \<Rightarrow> rollout" where
  "handle f h = (case find (\<lambda>(_, g). ro_inode g = ro_inode f) (h_rollouts h) of None \<Rightarrow> f | Some (_, g) \<Rightarrow> g)"

section \<open>The metadata line\<close>

definition lf :: char where "lf = CHR 0x0A"
definition max_header :: nat where "max_header = 8 * 1024 * 1024"
definition provider_json :: string where
  "provider_json = [CHR 0x22] @ ''codexctl-central'' @ [CHR 0x22]"

text \<open>What the JSON parser answers: for a line its \<open>type\<close> and the offset and length of the raw
  \<open>payload\<close>, for a payload those of \<open>model_provider\<close>, for a token the string it denotes.\<close>

record json_host =
  jh_record :: "string \<Rightarrow> (string option \<times> (nat \<times> nat) option) option"
  jh_payload :: "string \<Rightarrow> (nat \<times> nat) option option"
  jh_string :: "string \<Rightarrow> string option"

definition replacement_line :: "json_host \<Rightarrow> string \<Rightarrow> rollout_error + string option" where
  "replacement_line jh line =
     (if line = [] then Inr None
      else case jh_record jh line of
        None \<Rightarrow> Inl InvalidMetadata
      | Some (kind, payload) \<Rightarrow>
          if kind \<noteq> Some ''session_meta'' then Inr None
          else (case payload of
              None \<Rightarrow> Inr None
            | Some (at0, n) \<Rightarrow>
                (case jh_payload jh (take n (drop at0 line)) of
                   None \<Rightarrow> Inl InvalidMetadata
                 | Some None \<Rightarrow> Inr None
                 | Some (Some (off, k)) \<Rightarrow>
                     let start = at0 + off in
                     (case jh_string jh (take k (drop start line)) of
                        None \<Rightarrow> Inl InvalidMetadata
                      | Some provider \<Rightarrow>
                          if provider \<noteq> ''openai'' then Inr None
                          else Inr (Some (take start line @ provider_json @ drop (start + k) line))))))"

fun take_line :: "string \<Rightarrow> string" where
  "take_line [] = []"
| "take_line (c # s) = (if c = lf then [c] else c # take_line s)"

definition header_line :: "string \<Rightarrow> rollout_error + string" where
  "header_line bytes =
     (let line = take_line (take (max_header + 1) bytes) in
      if max_header < length line then Inl HeaderTooLong else Inr line)"

section \<open>Backups\<close>

definition has_jsonl :: "path \<Rightarrow> bool" where
  "has_jsonl p = (p \<noteq> [] \<and> 6 < length (last p) \<and> drop (length (last p) - 6) (last p) = ''.jsonl'')"

fun read_backup :: "backup option \<Rightarrow> rollout_error + string" where
  "read_backup None = Inl HostFailed"
| "read_backup (Some BadBackup) = Inl NotRegular"
| "read_backup (Some (Saved line owner_only)) =
     (if \<not> owner_only then Inl BackupNotPrivate
      else if max_header < length line then Inl BackupTooLong else Inr line)"

text \<open>\<open>index_backups\<close>: the paths by file name; a link among the backups is refused.\<close>

definition index_backups :: "home \<Rightarrow> rollout_error + path list" where
  "index_backups h =
     (if \<exists>(p, b) \<in> set (h_backups h). b = BadBackup then Inl UnsafeBackupLink
      else Inr (filter has_jsonl (map fst (h_backups h))))"

definition named :: "path list \<Rightarrow> path \<Rightarrow> path list" where
  "named index p = filter (\<lambda>q. last q = last p) index"

fun match_backup ::
    "json_host \<Rightarrow> home \<Rightarrow> string \<Rightarrow> path list \<Rightarrow> string option \<Rightarrow> rollout_error + string option" where
  "match_backup jh h current [] found = Inr found"
| "match_backup jh h current (q # qs) found =
     (case read_backup (bt_get (h_backups h) q) of
        Inl e \<Rightarrow> Inl e
      | Inr saved \<Rightarrow>
          if saved = current then
            (if found \<noteq> None then Inl SeveralBackups else match_backup jh h current qs (Some saved))
          else (case replacement_line jh saved of
              Inl e \<Rightarrow> Inl e
            | Inr r \<Rightarrow>
                if r = Some current then
                  (if found \<noteq> None then Inl SeveralBackups else match_backup jh h current qs (Some saved))
                else match_backup jh h current qs found))"

definition restore_backup ::
    "json_host \<Rightarrow> home \<Rightarrow> path \<Rightarrow> string \<Rightarrow> path list \<Rightarrow> rollout_error + string option" where
  "restore_backup jh h p current index =
     (if bt_has (h_backups h) p then map_sum id Some (read_backup (bt_get (h_backups h) p))
      else if named index p = [] then Inr None
      else case match_backup jh h current (named index p) None of
          Inl e \<Rightarrow> Inl e
        | Inr None \<Rightarrow> Inl NoMatchingBackup
        | Inr (Some saved) \<Rightarrow> Inr (Some saved))"

text \<open>The backup is there even if syncing its directory fails afterwards.\<close>

definition save_backup :: "path \<Rightarrow> string \<Rightarrow> tool \<Rightarrow> rollout_error option \<times> tool" where
  "save_backup p line t =
     (case look t of (ok, t) \<Rightarrow>
        if \<not> ok then (Some HostFailed, t)
        else (case bt_get (h_backups (tl_home t)) p of
            Some b \<Rightarrow> (case read_backup (Some b) of
                Inl e \<Rightarrow> (Some e, t)
              | Inr saved \<Rightarrow> (if saved \<noteq> line then Some BackupDiffers else None, t))
          | None \<Rightarrow>
              (case look (t\<lparr>tl_home := (tl_home t)\<lparr>h_backups := bt_put p (Saved line True) (h_backups (tl_home t))\<rparr>\<rparr>)
               of (synced, t) \<Rightarrow> (if synced then None else Some HostFailed, t))))"

section \<open>One rollout\<close>

datatype rollout_plan = NoBackup | Keep | Install string

definition planned :: "json_host \<Rightarrow> provider_action \<Rightarrow> path list \<Rightarrow> path \<Rightarrow> string \<Rightarrow> home \<Rightarrow> rollout_error + rollout_plan" where
  "planned jh action index p original h =
     (if action = Restore then
        (case restore_backup jh h p original index of
           Inl e \<Rightarrow> Inl e
         | Inr None \<Rightarrow> Inr NoBackup
         | Inr (Some saved) \<Rightarrow>
             if saved = original then Inr Keep
             else (case replacement_line jh saved of
                 Inl e \<Rightarrow> Inl e
               | Inr r \<Rightarrow> if r \<noteq> Some original then Inl RestoreMismatch else Inr (Install saved)))
      else (case replacement_line jh original of
          Inl e \<Rightarrow> Inl e
        | Inr None \<Rightarrow> Inr Keep
        | Inr (Some line) \<Rightarrow> Inr (Install line)))"

text \<open>The rename replaces whatever has the name by then; the new file keeps the modification time. The
  directory is synced last.\<close>

definition install :: "path \<Rightarrow> rollout \<Rightarrow> int \<Rightarrow> rollout \<Rightarrow> string \<Rightarrow> tool \<Rightarrow> rollout_error option \<times> tool" where
  "install p before clock seen content t =
     (let h = tl_home t;
          f = \<lparr>ro_kind = RegularFile, ro_inode = h_next h, ro_bytes = content, ro_mtime = ro_mtime before,
               ro_ctime = h_now h + 1, ro_links = 1, ro_held = False\<rparr>;
          t = count_in (\<lambda>s. s\<lparr>sm_changed := sm_changed s + 1\<rparr>)
                (t\<lparr>tl_home := h\<lparr>h_rollouts := bt_put p f (h_rollouts h), h_now := h_now h + 1, h_next := Suc (h_next h)\<rparr>,
                   tl_log := tl_log t @ [\<lparr>rp_clock = clock, rp_path = p, rp_seen = seen,
                     rp_gone = bt_get (h_rollouts h) p, rp_bytes = content\<rparr>]\<rparr>)
      in case look t of (ok, t) \<Rightarrow> (if ok then None else Some HostFailed, t))"

text \<open>The last inspection before the rename. Others may still act, and the rename fail, in between.\<close>

definition recheck :: "path \<Rightarrow> rollout \<Rightarrow> string \<Rightarrow> tool \<Rightarrow> rollout_error option \<times> tool" where
  "recheck p before content t =
     (case look t of (ok, t) \<Rightarrow>
        (case bt_get (h_rollouts (tl_home t)) p of
           None \<Rightarrow> (Some HostFailed, t)
         | Some latest \<Rightarrow>
             if \<not> ok then (Some HostFailed, t)
             else if recently_changed (tl_home t) latest then skipped_recent t
             else if \<not> same_file before latest then (Some ChangedDuringCopy, t)
             else (case look t of (renamed, t') \<Rightarrow>
               if \<not> renamed then (Some HostFailed, t')
               else install p before (h_now (tl_home t)) latest content t')))"

definition check_open :: "path \<Rightarrow> rollout \<Rightarrow> string \<Rightarrow> tool \<Rightarrow> rollout_error option \<times> tool" where
  "check_open p before content t =
     (case look t of (ok, t) \<Rightarrow>
        if \<not> ok then (Some HostFailed, t)
        else (case look t of (answered, t) \<Rightarrow>
            if \<not> answered then (Some HostFailed, t)
            else if (case bt_get (h_rollouts (tl_home t)) p of None \<Rightarrow> False | Some f \<Rightarrow> ro_held f)
            then (None, count_in (\<lambda>s. s\<lparr>sm_open := sm_open s + 1\<rparr>) t)
            else recheck p before content t))"

definition copy_and_swap ::
    "provider_action \<Rightarrow> path \<Rightarrow> rollout \<Rightarrow> rollout \<Rightarrow> string \<Rightarrow> string \<Rightarrow> tool \<Rightarrow> rollout_error option \<times> tool" where
  "copy_and_swap action p before f original updated t =
     (case look t of (ok, t) \<Rightarrow>
        let copied = handle f (tl_home t); n = length original;
            content = updated @ take (tl_buffer t) (drop n (ro_bytes f)) @ drop (n + tl_buffer t) (ro_bytes copied) in
        if \<not> ok then (Some HostFailed, t)
        else if recently_changed (tl_home t) copied then skipped_recent t
        else if \<not> same_file before copied then (Some ChangedDuringCopy, t)
        else if action = Rewrite then
          (case save_backup p original t of
             (Some e, t) \<Rightarrow> (Some e, t)
           | (None, t) \<Rightarrow> check_open p before content t)
        else check_open p before content t)"

definition repair ::
    "json_host \<Rightarrow> provider_action \<Rightarrow> path list \<Rightarrow> path \<Rightarrow> rollout \<Rightarrow> tool \<Rightarrow> rollout_error option \<times> tool" where
  "repair jh action index p before t =
     (case look t of (ok, t) \<Rightarrow>
        (case bt_get (h_rollouts (tl_home t)) p of
           None \<Rightarrow> (Some HostFailed, t)
         | Some opened \<Rightarrow>
             if \<not> ok then (Some HostFailed, t)
             else if ro_kind opened \<noteq> RegularFile then (Some NotRegular, t)
             else if recently_changed (tl_home t) opened then skipped_recent t
             else if \<not> same_file before opened then (Some ChangedDuringInspection, t)
             else (case look t of (ok, t) \<Rightarrow>
               let f = handle opened (tl_home t) in
               if \<not> ok then (Some HostFailed, t)
               else (case header_line (ro_bytes f) of
                   Inl e \<Rightarrow> (Some e, t)
                 | Inr original \<Rightarrow>
                     if h_unsafe (tl_home t) p then (Some UnsafeBackupDirectory, t)
                     else (case planned jh action index p original (tl_home t) of
                         Inl e \<Rightarrow> (Some e, t)
                       | Inr NoBackup \<Rightarrow> (None, count_in (\<lambda>s. s\<lparr>sm_no_backup := sm_no_backup s + 1\<rparr>) t)
                       | Inr Keep \<Rightarrow> (None, count_in (\<lambda>s. s\<lparr>sm_unchanged := sm_unchanged s + 1\<rparr>) t)
                       | Inr (Install updated) \<Rightarrow>
                           if action = DryRun then (None, count_in (\<lambda>s. s\<lparr>sm_changed := sm_changed s + 1\<rparr>) t)
                           else copy_and_swap action p before f original updated t)))))"

section \<open>All rollouts\<close>

definition visit ::
    "json_host \<Rightarrow> provider_action \<Rightarrow> nat set \<Rightarrow> path list \<Rightarrow> path \<Rightarrow> tool \<Rightarrow> rollout_error option \<times> tool" where
  "visit jh action opened index p t =
     (case look t of (ok, t) \<Rightarrow>
        if \<not> ok then (Some HostFailed, t)
        else (case bt_get (h_rollouts (tl_home t)) p of
            None \<Rightarrow> (None, t)
          | Some f \<Rightarrow>
              if ro_kind f = SymlinkFile then (None, count_in (\<lambda>s. s\<lparr>sm_unsafe := sm_unsafe s + 1\<rparr>) t)
              else if ro_kind f = RegularFile \<and> has_jsonl p then
                (let t = count_in (\<lambda>s. s\<lparr>sm_scanned := sm_scanned s + 1\<rparr>) t in
                 if ro_links f \<noteq> 1 then (None, count_in (\<lambda>s. s\<lparr>sm_unsafe := sm_unsafe s + 1\<rparr>) t)
                 else if ro_inode f \<in> opened then (None, count_in (\<lambda>s. s\<lparr>sm_open := sm_open s + 1\<rparr>) t)
                 else if recently_changed (tl_home t) f then skipped_recent t
                 else repair jh action index p f t)
              else (None, t)))"

fun visit_all ::
    "json_host \<Rightarrow> provider_action \<Rightarrow> nat set \<Rightarrow> path list \<Rightarrow> path list \<Rightarrow> tool \<Rightarrow> rollout_error option \<times> tool" where
  "visit_all jh action opened index [] t = (None, t)"
| "visit_all jh action opened index (p # ps) t =
     (case visit jh action opened index p t of
        (Some e, t) \<Rightarrow> (Some e, t)
      | (None, t) \<Rightarrow> visit_all jh action opened index ps t)"

text \<open>The entries of a directory are visited by name, which is the order of the paths.\<close>

definition entries :: "string \<Rightarrow> home \<Rightarrow> path list" where
  "entries dir h = filter (\<lambda>p. p \<noteq> [] \<and> hd p = dir) (map fst (h_rollouts h))"

definition held_files :: "home \<Rightarrow> nat set" where
  "held_files h = set (map (\<lambda>(_, f). ro_inode f) (filter (\<lambda>(_, f). ro_held f) (h_rollouts h)))"

fun visit_dirs :: "json_host \<Rightarrow> provider_action \<Rightarrow> nat set \<Rightarrow> path list \<Rightarrow> string list \<Rightarrow> tool \<Rightarrow> rollout_error option \<times> tool" where
  "visit_dirs jh action opened index [] t = (None, t)"
| "visit_dirs jh action opened index (d # ds) t =
     (case visit_all jh action opened index (entries d (tl_home t)) t of
        (Some e, t) \<Rightarrow> (Some e, t)
      | (None, t) \<Rightarrow> visit_dirs jh action opened index ds t)"

definition repair_sessions :: "json_host \<Rightarrow> provider_action \<Rightarrow> tool \<Rightarrow> rollout_error option \<times> tool" where
  "repair_sessions jh action t =
     (case (if h_dirs (tl_home t) = [] then (True, t) else look t) of (ok, t) \<Rightarrow>
        let opened = (if h_dirs (tl_home t) = [] then {} else held_files (tl_home t)) in
        if \<not> ok then (Some HostFailed, t)
        else (case (if action = Restore then index_backups (tl_home t) else Inr []) of
            Inl e \<Rightarrow> (Some e, t)
          | Inr index \<Rightarrow> visit_dirs jh action opened index [''sessions'', ''archived_sessions''] t))"

definition run_sessions :: "json_host \<Rightarrow> provider_action \<Rightarrow> tool \<Rightarrow> rollout_error option \<times> tool" where
  "run_sessions jh action t =
     (case repair_sessions jh action t of (r, t) \<Rightarrow>
        (r, count_in (\<lambda>s. s\<lparr>sm_errors := of_bool (r \<noteq> None)\<rparr>) t))"

text \<open>Local mode is refused while a repaired session has not been restored.\<close>

fun unrestored :: "json_host \<Rightarrow> home \<Rightarrow> path list \<Rightarrow> path list \<Rightarrow> rollout_error option" where
  "unrestored jh h index [] = None"
| "unrestored jh h index (p # ps) =
     (case bt_get (h_rollouts h) p of
        None \<Rightarrow> Some HostFailed
      | Some f \<Rightarrow>
          (case header_line (ro_bytes f) of
             Inl e \<Rightarrow> Some e
           | Inr current \<Rightarrow>
               (case restore_backup jh h p current index of
                  Inl e \<Rightarrow> Some e
                | Inr None \<Rightarrow> unrestored jh h index ps
                | Inr (Some saved) \<Rightarrow> if current \<noteq> saved then Some NeedsRestore else unrestored jh h index ps)))"

definition require_restored :: "json_host \<Rightarrow> home \<Rightarrow> rollout_error option" where
  "require_restored jh h =
     (case index_backups h of
        Inl e \<Rightarrow> Some e
      | Inr index \<Rightarrow>
          if index = [] then None
          else if \<exists>(p, f) \<in> set (h_rollouts h). p \<noteq> [] \<and> hd p \<in> {''sessions'', ''archived_sessions''} \<and> ro_kind f = SymlinkFile
          then Some UnsafeBackupLink
          else unrestored jh h index
            (filter (\<lambda>p. p \<noteq> [] \<and> hd p \<in> {''sessions'', ''archived_sessions''} \<and> has_jsonl p \<and> named index p \<noteq> []
               \<and> (case bt_get (h_rollouts h) p of Some f \<Rightarrow> ro_kind f = RegularFile | None \<Rightarrow> False))
             (map fst (h_rollouts h))))"

end
