(* ===== verification/RolloutFacts.thy ===== *)
theory RolloutFacts
  imports Rollouts
begin

text \<open>
  What the repair of rollouts promises while Codex keeps running: it replaces a file only by
  that file's own content under another metadata line, keeps every backup it ever made, and
  a repaired session comes back with everything appended to it since.
\<close>

section \<open>Files in time\<close>

definition home_ok :: "home \<Rightarrow> bool" where
  "home_ok h = (bt_ok (h_rollouts h)
     \<and> (\<forall>p f. bt_get (h_rollouts h) p = Some f \<longrightarrow> ro_ctime f \<le> h_now h \<and> ro_inode f < h_next h)
     \<and> (\<forall>p q f g. bt_get (h_rollouts h) p = Some f \<longrightarrow> bt_get (h_rollouts h) q = Some g
          \<longrightarrow> ro_inode f = ro_inode g \<longrightarrow> p = q))"

text \<open>A file whose change time is not after a moment was there at that moment, under the same
  name and with the same content.\<close>

definition later :: "home \<Rightarrow> home \<Rightarrow> bool" where
  "later h h' = (h_now h \<le> h_now h' \<and> h_backups h' = h_backups h \<and> h_unsafe h' = h_unsafe h
     \<and> (\<forall>p f'. bt_get (h_rollouts h') p = Some f' \<longrightarrow> ro_ctime f' \<le> h_now h \<longrightarrow>
          (\<exists>f. bt_get (h_rollouts h) p = Some f \<and> f' = f\<lparr>ro_held := ro_held f'\<rparr>)))"

lemma later_refl [simp]: "later h h"
  by (simp add: later_def)

lemma later_trans:
  assumes "later h1 h2" "later h2 h3"
  shows "later h1 h3"
proof -
  have "\<exists>f. bt_get (h_rollouts h1) p = Some f \<and> f3 = f\<lparr>ro_held := ro_held f3\<rparr>"
    if f3: "bt_get (h_rollouts h3) p = Some f3" "ro_ctime f3 \<le> h_now h1" for p f3
  proof -
    from f3 assms obtain f2 where f2: "bt_get (h_rollouts h2) p = Some f2" "f3 = f2\<lparr>ro_held := ro_held f3\<rparr>"
      unfolding later_def by (metis order_trans)
    then have "ro_ctime f2 \<le> h_now h1" using f3(2) by (metis rollout.ext_inject rollout.surjective rollout.update_convs(7))
    with f2 assms obtain f1 where "bt_get (h_rollouts h1) p = Some f1" "f2 = f1\<lparr>ro_held := ro_held f2\<rparr>"
      unfolding later_def by blast
    with f2(2) show ?thesis by (metis rollout.fold_congs(7) rollout.surjective rollout.update_convs(7))
  qed
  with assms show ?thesis by (auto simp: later_def)
qed

lemma act_ok: "home_ok h \<Longrightarrow> home_ok (act h d)"
  by (cases d) (auto simp: home_ok_def split: option.splits if_splits, (fastforce simp: less_Suc_eq)+)

lemma act_later: "home_ok h \<Longrightarrow> later h (act h d)"
  by (cases d) (auto simp: home_ok_def later_def split: option.splits if_splits)

interpretation files: monotone_system act home_ok later
  by unfold_locales (auto intro: act_ok act_later later_trans)


lemma handle_at:
  assumes "home_ok h" "bt_get (h_rollouts h) p = Some g" "ro_inode g = ro_inode f"
  shows "handle f h = g"
proof -
  have "(p, g) \<in> set (h_rollouts h)" using assms(2) by (rule map_of_SomeD)
  then obtain e where e: "find (\<lambda>(_, g). ro_inode g = ro_inode f) (h_rollouts h) = Some e"
    using assms(3) by (cases "find (\<lambda>(_, g). ro_inode g = ro_inode f) (h_rollouts h)") (auto simp: find_None_iff)
  obtain q k where qk: "e = (q, k)" by fastforce
  with e have "(q, k) \<in> set (h_rollouts h)" "ro_inode k = ro_inode f" by (auto simp: find_Some_iff) (metis nth_mem)
  moreover from this(1) assms(1) have "bt_get (h_rollouts h) q = Some k"
    by (simp add: home_ok_def bt_get_in_iff)
  ultimately have "q = p" using assms unfolding home_ok_def by metis
  with \<open>bt_get (h_rollouts h) q = Some k\<close> assms(2) have "k = g" by simp
  then show ?thesis by (simp add: handle_def e qk)
qed

section \<open>The tool in time\<close>

text \<open>Backups are only added, and the log only grows.\<close>

definition tool_le :: "tool \<Rightarrow> tool \<Rightarrow> bool" where
  "tool_le t t' = (h_now (tl_home t) \<le> h_now (tl_home t')
     \<and> (\<forall>p f'. bt_get (h_rollouts (tl_home t')) p = Some f' \<longrightarrow> ro_ctime f' \<le> h_now (tl_home t) \<longrightarrow>
          (\<exists>f. bt_get (h_rollouts (tl_home t)) p = Some f \<and> f' = f\<lparr>ro_held := ro_held f'\<rparr>))
     \<and> (\<forall>p b. bt_get (h_backups (tl_home t)) p = Some b \<longrightarrow> bt_get (h_backups (tl_home t')) p = Some b)
     \<and> tl_buffer t' = tl_buffer t)"

definition tool_ok :: "tool \<Rightarrow> bool" where "tool_ok t = home_ok (tl_home t)"

lemma tool_le_refl [simp]: "tool_le t t"
  by (simp add: tool_le_def)

lemma held_trans:
  "f3 = f2\<lparr>ro_held := ro_held f3\<rparr> \<Longrightarrow> f2 = f1\<lparr>ro_held := ro_held f2\<rparr> \<Longrightarrow> f3 = f1\<lparr>ro_held := ro_held f3\<rparr>"
  by (metis rollout.fold_congs(7) rollout.surjective rollout.update_convs(7))

lemma held_ctime: "f' = f\<lparr>ro_held := b\<rparr> \<Longrightarrow> ro_ctime f' = ro_ctime f"
  by simp

lemma tool_le_trans:
  assumes "tool_le t1 t2" "tool_le t2 t3"
  shows "tool_le t1 t3"
proof -
  have "\<exists>f. bt_get (h_rollouts (tl_home t1)) p = Some f \<and> f3 = f\<lparr>ro_held := ro_held f3\<rparr>"
    if f3: "bt_get (h_rollouts (tl_home t3)) p = Some f3" "ro_ctime f3 \<le> h_now (tl_home t1)" for p f3
  proof -
    from f3 assms obtain f2 where f2: "bt_get (h_rollouts (tl_home t2)) p = Some f2" "f3 = f2\<lparr>ro_held := ro_held f3\<rparr>"
      unfolding tool_le_def by (metis order_trans)
    from f2(2) f3(2) have "ro_ctime f2 \<le> h_now (tl_home t1)" by (metis held_ctime)
    with f2 assms obtain f1 where "bt_get (h_rollouts (tl_home t1)) p = Some f1" "f2 = f1\<lparr>ro_held := ro_held f2\<rparr>"
      unfolding tool_le_def by blast
    with f2(2) held_trans show ?thesis by blast
  qed
  with assms show ?thesis by (auto simp: tool_le_def)
qed

lemma tool_le_count [simp]: "tool_le t (count_in f t') = tool_le t t'"
  by (simp add: tool_le_def count_in_def)

lemma tool_ok_count [simp]: "tool_ok (count_in f t) = tool_ok t"
  by (simp add: tool_ok_def count_in_def)

lemma count_in_fields [simp]:
  "tl_home (count_in f t) = tl_home t" "tl_log (count_in f t) = tl_log t" "tl_sched (count_in f t) = tl_sched t"
  "tl_buffer (count_in f t) = tl_buffer t"
  by (simp_all add: count_in_def)

lemma look_step:
  assumes "look t = (ok, t')" "tool_ok t"
  shows "tool_ok t' \<and> tool_le t t' \<and> tl_log t' = tl_log t \<and> h_backups (tl_home t') = h_backups (tl_home t)"
proof (cases "tl_sched t")
  case Nil
  then show ?thesis using assms by (simp add: look_def)
next
  case (Cons e sched)
  obtain ds k where e: "e = (ds, k)" by fastforce
  have t': "t' = t\<lparr>tl_sched := sched, tl_home := foldl act (tl_home t) ds\<rparr>"
    using assms(1) Cons e by (simp add: look_def)
  have "later (tl_home t) (foldl act (tl_home t) ds)" "home_ok (foldl act (tl_home t) ds)"
    using assms(2) files.run_le files.run_inv by (simp_all add: tool_ok_def)
  then show ?thesis by (auto simp: t' tool_ok_def tool_le_def later_def)
qed

text \<open>What the rename itself does to the files: the new one has a fresh inode and change time.\<close>

definition replacing :: "int \<Rightarrow> path \<Rightarrow> rollout \<Rightarrow> string \<Rightarrow> home \<Rightarrow> replacement" where
  "replacing clock p seen content h =
     \<lparr>rp_clock = clock, rp_path = p, rp_seen = seen, rp_gone = bt_get (h_rollouts h) p, rp_bytes = content\<rparr>"

lemma install_step:
  assumes "install p before clock seen content t = (r, t')" "tool_ok t"
  shows "tool_ok t' \<and> tool_le t t'
     \<and> tl_log t' = tl_log t @ [replacing clock p seen content (tl_home t)]"
proof -
  define t1 where "t1 = count_in (\<lambda>s. s\<lparr>sm_changed := sm_changed s + 1\<rparr>)
      (t\<lparr>tl_home := act (tl_home t) (Create p RegularFile content (ro_mtime before)),
        tl_log := tl_log t @ [replacing clock p seen content (tl_home t)]\<rparr>)"
  have ok: "home_ok (tl_home t)" using assms(2) by (simp add: tool_ok_def)
  then have "tool_ok t1"
    using act_ok [OF ok, of "Create p RegularFile content (ro_mtime before)"]
    unfolding t1_def tool_ok_count by (simp add: tool_ok_def del: act.simps)
  moreover have "tool_le t t1"
    using act_later [OF ok, of "Create p RegularFile content (ro_mtime before)"]
    unfolding t1_def tool_le_count by (simp add: tool_le_def later_def del: act.simps)
  moreover obtain ok where l1: "look t1 = (ok, t')"
    using assms(1) by (auto simp: install_def t1_def replacing_def Let_def split: prod.splits)
  moreover have "tool_ok t' \<and> tool_le t1 t' \<and> tl_log t' = tl_log t1"
    using look_step [OF l1] calculation(1) by blast
  moreover have "tl_log t1 = tl_log t @ [replacing clock p seen content (tl_home t)]"
    by (simp add: t1_def)
  ultimately show ?thesis using tool_le_trans by metis
qed


lemma save_backup_step:
  assumes "save_backup p line t = (r, t')" "tool_ok t"
  shows "tool_ok t' \<and> tool_le t t' \<and> tl_log t' = tl_log t
     \<and> (r = None \<longrightarrow> bt_get (h_backups (tl_home t')) p = Some (Saved line True))"
proof -
  obtain ok t1 where l: "look t = (ok, t1)" by fastforce
  note step = look_step [OF l assms(2)]
  have "tool_ok t' \<and> tool_le t1 t' \<and> tl_log t' = tl_log t1
     \<and> (r = None \<longrightarrow> bt_get (h_backups (tl_home t')) p = Some (Saved line True))"
  proof (cases "bt_get (h_backups (tl_home t1)) p")
    case None
    let ?t2 = "t1\<lparr>tl_home := (tl_home t1)\<lparr>h_backups := bt_put p (Saved line True) (h_backups (tl_home t1))\<rparr>\<rparr>"
    have put: "tool_ok ?t2" "tool_le t1 ?t2"
      using step None by (auto simp: tool_ok_def home_ok_def tool_le_def)
    obtain synced t3 where l3: "look ?t2 = (synced, t3)" by fastforce
    note step3 = look_step [OF l3 put(1)]
    have "t' = t1 \<and> r \<noteq> None \<or> t' = t3" using assms(1) l None l3 by (auto simp: save_backup_def split: if_splits)
    then show ?thesis using step step3 put(2) tool_le_trans [OF put(2)] by auto
  next
    case (Some b)
    have "b = Saved line True" if "read_backup (Some b) = Inr line"
      using that by (cases b) (auto split: if_splits)
    with Some assms(1) l step show ?thesis
      by (auto simp: save_backup_def split: if_splits sum.splits)
  qed
  with step tool_le_trans show ?thesis by metis
qed

text \<open>The file replaced, if one was: what it was at the last inspection, and at the rename.\<close>

definition swapped :: "path \<Rightarrow> rollout \<Rightarrow> rollout \<Rightarrow> string \<Rightarrow> tool \<Rightarrow> tool \<Rightarrow> bool" where
  "swapped p before latest content t t' = (same_file before latest \<and> (\<exists>t2 t3. tool_le t t2 \<and> tool_le t2 t3 \<and> tool_le t3 t'
     \<and> bt_get (h_rollouts (tl_home t2)) p = Some latest \<and> \<not> recently_changed (tl_home t2) latest
     \<and> tl_log t' = tl_log t @ [replacing (h_now (tl_home t2)) p latest content (tl_home t3)]))"

lemma swapped_from:
  assumes "tool_le t0 t" "tl_log t = tl_log t0" "swapped p before latest content t t'"
  shows "swapped p before latest content t0 t'"
proof -
  from assms(3) obtain t2 t3 where "same_file before latest" "tool_le t t2" "tool_le t2 t3" "tool_le t3 t'"
     "bt_get (h_rollouts (tl_home t2)) p = Some latest" "\<not> recently_changed (tl_home t2) latest"
     "tl_log t' = tl_log t @ [replacing (h_now (tl_home t2)) p latest content (tl_home t3)]"
    unfolding swapped_def by blast
  moreover from this(2) assms(1) have "tool_le t0 t2" using tool_le_trans by blast
  ultimately show ?thesis unfolding swapped_def using assms(2) by auto
qed

lemma tool_le_backup:
  "tool_le t t' \<Longrightarrow> bt_get (h_backups (tl_home t)) q = Some b \<Longrightarrow> bt_get (h_backups (tl_home t')) q = Some b"
  by (simp add: tool_le_def)

lemma recheck_step:
  assumes "recheck p before content t = (r, t')" "tool_ok t"
  shows "tool_ok t' \<and> tool_le t t' \<and> (tl_log t' = tl_log t \<or> (\<exists>latest. swapped p before latest content t t'))"
proof -
  obtain ok t1 where l: "look t = (ok, t1)" by fastforce
  note step = look_step [OF l assms(2)]
  show ?thesis
  proof (cases "\<exists>latest. bt_get (h_rollouts (tl_home t1)) p = Some latest \<and> ok \<and> \<not> recently_changed (tl_home t1) latest
      \<and> same_file before latest")
    case True
    then obtain latest where la: "bt_get (h_rollouts (tl_home t1)) p = Some latest" "ok"
      "\<not> recently_changed (tl_home t1) latest" "same_file before latest" by blast
    obtain renamed t3 where l3: "look t1 = (renamed, t3)" by fastforce
    note step3 = look_step [OF l3 conjunct1 [OF step]]
    show ?thesis
    proof (cases renamed)
      case False
      then have "t' = t3" using assms(1) l la l3 by (simp add: recheck_def)
      then show ?thesis using step step3 tool_le_trans [of t t1 t3] by simp
    next
      case True
      then have "install p before (h_now (tl_home t1)) latest content t3 = (r, t')"
        using assms(1) l la l3 by (simp add: recheck_def)
      from install_step [OF this] step step3
      have new: "tool_ok t' \<and> tool_le t3 t' \<and> tl_log t' = tl_log t @ [replacing (h_now (tl_home t1)) p latest content (tl_home t3)]"
        by simp
      have "swapped p before latest content t t'"
        unfolding swapped_def by (intro conjI exI [of _ t1] exI [of _ t3]) (use la step step3 new in simp_all)
      moreover have "tool_le t t'" using new step step3 tool_le_trans by blast
      ultimately show ?thesis using new by blast
    qed
  next
    case False
    then consider g where "t' = count_in g t1" | "t' = t1"
      using assms(1) l by (auto simp: recheck_def skipped_recent_def split: option.splits if_splits)
    then show ?thesis using step by cases auto
  qed
qed

lemma check_open_step:
  assumes "check_open p before content t = (r, t')" "tool_ok t"
  shows "tool_ok t' \<and> tool_le t t' \<and> (tl_log t' = tl_log t \<or> (\<exists>latest. swapped p before latest content t t'))"
proof -
  obtain ok t1 where l1: "look t = (ok, t1)" by fastforce
  note step1 = look_step [OF l1 assms(2)]
  obtain answered t2 where l2: "look t1 = (answered, t2)" by fastforce
  note step2 = look_step [OF l2 conjunct1 [OF step1]]
  have le2: "tool_le t t2" "tl_log t2 = tl_log t" using step1 step2 tool_le_trans by auto
  consider "t' = t1" | f where "t' = count_in f t2" | "t' = t2" | "recheck p before content t2 = (r, t')"
    using assms(1) l1 l2 by (auto simp: check_open_def split: if_splits)
  then show ?thesis
  proof cases
    case 4
    from recheck_step [OF this conjunct1 [OF step2]] have "tool_ok t'" "tool_le t2 t'"
      "tl_log t' = tl_log t2 \<or> (\<exists>latest. swapped p before latest content t2 t')" by simp_all
    moreover from this(3) have "tl_log t' = tl_log t \<or> (\<exists>latest. swapped p before latest content t t')"
      unfolding le2(2) using swapped_from [OF le2] by blast
    ultimately show ?thesis using tool_le_trans [OF le2(1)] by blast
  qed (use step1 step2 le2 in auto)
qed

lemma swap_bytes:
  assumes "tool_ok t" "tool_le t t2" "bt_get (h_rollouts (tl_home t2)) p = Some latest" "same_file before latest"
    and "ro_ctime before \<le> h_now (tl_home t)" "ro_inode f = ro_inode before"
  shows "ro_bytes (handle f (tl_home t)) = ro_bytes latest \<and> ro_inode (handle f (tl_home t)) = ro_inode before
    \<and> ro_links (handle f (tl_home t)) = ro_links latest \<and> ro_kind (handle f (tl_home t)) = ro_kind latest
    \<and> bt_get (h_rollouts (tl_home t)) p = Some (handle f (tl_home t))"
proof -
  have "ro_ctime latest \<le> h_now (tl_home t)" using assms(4,5) by (simp add: same_file_def)
  with assms(2,3) obtain g where g: "bt_get (h_rollouts (tl_home t)) p = Some g" "latest = g\<lparr>ro_held := ro_held latest\<rparr>"
    unfolding tool_le_def by blast
  have eqs: "ro_bytes latest = ro_bytes g" "ro_inode latest = ro_inode g" "ro_links latest = ro_links g"
    "ro_kind latest = ro_kind g"
    using arg_cong [OF g(2), of ro_bytes] arg_cong [OF g(2), of ro_inode] arg_cong [OF g(2), of ro_links]
      arg_cong [OF g(2), of ro_kind] by simp_all
  then have "ro_inode g = ro_inode f" using assms(4,6) by (simp add: same_file_def)
  from handle_at [OF _ g(1) this] assms(1) have "handle f (tl_home t) = g" by (simp add: tool_ok_def)
  with eqs g(1) assms(4) show ?thesis by (simp add: same_file_def)
qed

lemma tool_le_ctime: "tool_le t t' \<Longrightarrow> c \<le> h_now (tl_home t) \<Longrightarrow> c \<le> h_now (tl_home t')"
  by (simp add: tool_le_def)

lemma copied_content: "take b (drop n xs) @ drop (n + b) xs = drop n xs"
  by (metis add.commute append_take_drop_id drop_drop)

lemma copy_and_swap_step:
  assumes "copy_and_swap action p before f original updated t = (r, t')" "tool_ok t"
    and f: "f = handle opened (tl_home t)" "ro_inode opened = ro_inode before"
    and "ro_ctime before \<le> h_now (tl_home t)"
  shows "tool_ok t' \<and> tool_le t t' \<and> (tl_log t' = tl_log t \<or>
     (\<exists>latest. swapped p before latest (updated @ drop (length original) (ro_bytes latest)) t t'
        \<and> ro_bytes f = ro_bytes latest \<and> ro_links f = ro_links latest \<and> ro_kind f = ro_kind latest
        \<and> (action = Rewrite \<longrightarrow> bt_get (h_backups (tl_home t')) p = Some (Saved original True))))"
proof -
  obtain ok t1 where l: "look t = (ok, t1)" by fastforce
  note step = look_step [OF l assms(2)]
  define copied where "copied = handle f (tl_home t1)"
  define content where "content = updated @ take (tl_buffer t1) (drop (length original) (ro_bytes f))
      @ drop (length original + tl_buffer t1) (ro_bytes copied)"
  consider g where "t' = count_in g t1" | "t' = t1"
    | e where "action = Rewrite" "save_backup p original t1 = (Some e, t')"
    | t2 where "action = Rewrite" "save_backup p original t1 = (None, t2)" "check_open p before content t2 = (r, t')"
    | "action \<noteq> Rewrite" "check_open p before content t1 = (r, t')"
    using assms(1) l
    by (auto simp: copy_and_swap_def content_def copied_def Let_def skipped_recent_def split: if_splits option.splits prod.splits)
  then have main: "tool_ok t' \<and> tool_le t1 t' \<and> (tl_log t' = tl_log t1 \<or> ((\<exists>latest. swapped p before latest content t1 t')
      \<and> (action = Rewrite \<longrightarrow> bt_get (h_backups (tl_home t')) p = Some (Saved original True))))"
  proof cases
    case 3
    from save_backup_step [OF this(2)] step show ?thesis by simp
  next
    case (4 t2)
    from save_backup_step [OF 4(2)] step
    have s2: "tool_ok t2" "tool_le t1 t2" "tl_log t2 = tl_log t1" "bt_get (h_backups (tl_home t2)) p = Some (Saved original True)"
      by simp_all
    from check_open_step [OF 4(3) s2(1)] have o: "tool_ok t'" "tool_le t2 t'"
      "tl_log t' = tl_log t2 \<or> (\<exists>latest. swapped p before latest content t2 t')"
      by simp_all
    from o(3) have "tl_log t' = tl_log t1 \<or> (\<exists>latest. swapped p before latest content t1 t')"
      unfolding s2(3) using swapped_from [OF s2(2,3)] by blast
    with o s2 tool_le_backup [OF o(2) s2(4)] tool_le_trans [OF s2(2) o(2)] show ?thesis by blast
  next
    case 5
    from check_open_step [OF this(2)] step 5(1) show ?thesis by simp
  qed (use step in auto)
  have swap: "swapped p before latest (updated @ drop (length original) (ro_bytes latest)) t t'
        \<and> ro_bytes f = ro_bytes latest \<and> ro_links f = ro_links latest \<and> ro_kind f = ro_kind latest"
    if sw: "swapped p before latest content t1 t'" for latest
  proof -
    from sw obtain t2 where sw2: "tool_le t1 t2" "bt_get (h_rollouts (tl_home t2)) p = Some latest"
      "same_file before latest"
      unfolding swapped_def by blast
    have le: "tool_le t t2" using step sw2(1) tool_le_trans by blast
    from swap_bytes [OF assms(2) le sw2(2,3) assms(5) f(2)] f(1)
    have fb: "ro_bytes f = ro_bytes latest" "ro_inode f = ro_inode before" "ro_links f = ro_links latest"
      "ro_kind f = ro_kind latest" by simp_all
    have "ro_ctime before \<le> h_now (tl_home t1)" using step assms(5) tool_le_ctime by blast
    from swap_bytes [OF conjunct1 [OF step] sw2(1,2,3) this fb(2)]
    have "ro_bytes copied = ro_bytes latest" unfolding copied_def by blast
    then have "content = updated @ drop (length original) (ro_bytes latest)"
      by (simp add: content_def fb copied_content)
    with swapped_from [OF _ _ sw] step fb show ?thesis by auto
  qed
  have "tool_le t t'" using main step tool_le_trans by blast
  with main swap step show ?thesis by auto
qed


section \<open>Where a restored line comes from\<close>

lemma read_backup_saved: "read_backup b = Inr line \<Longrightarrow> b = Some (Saved line True) \<and> length line \<le> max_header"
  by (cases b rule: read_backup.cases) (auto split: if_splits)

lemma match_backup_found:
  "match_backup jh h current qs found = Inr (Some saved) \<Longrightarrow>
     found = Some saved \<or> (\<exists>q \<in> set qs. read_backup (bt_get (h_backups h) q) = Inr saved)"
proof (induction qs arbitrary: found)
  case (Cons q qs)
  then show ?case by (auto split: sum.splits if_splits)
qed simp

lemma restore_backup_found:
  assumes "restore_backup jh h p current index = Inr (Some saved)"
  shows "\<exists>q. last q = last p \<and> bt_get (h_backups h) q = Some (Saved saved True)"
proof (cases "bt_has (h_backups h) p")
  case True
  with assms have "read_backup (bt_get (h_backups h) p) = Inr saved"
    by (cases "read_backup (bt_get (h_backups h) p)") (simp_all add: restore_backup_def)
  then show ?thesis using read_backup_saved by blast
next
  case False
  with assms have "match_backup jh h current (named index p) None = Inr (Some saved)"
    by (auto simp: restore_backup_def split: if_splits sum.splits option.splits)
  from match_backup_found [OF this] show ?thesis
    using read_backup_saved by (fastforce simp: named_def)
qed

text \<open>What a replacement must be: the old content under another line, which the old line's
  replacement or the line it was saved as determines.\<close>

definition entry_ok ::
    "json_host \<Rightarrow> provider_action \<Rightarrow> home \<Rightarrow> replacement \<Rightarrow> bool" where
  "entry_ok jh action h e =
     (let old = rp_seen e; p = rp_path e in
     ro_kind old = RegularFile \<and> ro_links old = 1 \<and> has_jsonl p \<and> recent_window \<le> rp_clock e - ro_mtime old
     \<and> (\<forall>f. rp_gone e = Some f \<and> ro_ctime f \<le> rp_clock e \<longrightarrow> f = old\<lparr>ro_held := ro_held f\<rparr>)
     \<and> (\<exists>original updated. header_line (ro_bytes old) = Inr original
          \<and> rp_bytes e = updated @ drop (length original) (ro_bytes old)
          \<and> (case action of
               DryRun \<Rightarrow> False
             | Rewrite \<Rightarrow> replacement_line jh original = Inr (Some updated)
                 \<and> bt_get (h_backups h) p = Some (Saved original True)
             | Restore \<Rightarrow> replacement_line jh updated = Inr (Some original)
                 \<and> (\<exists>q. last q = last p \<and> bt_get (h_backups h) q = Some (Saved updated True)))))"

definition log_ok :: "json_host \<Rightarrow> provider_action \<Rightarrow> tool \<Rightarrow> bool" where
  "log_ok jh action t = (\<forall>e \<in> set (tl_log t). entry_ok jh action (tl_home t) e)"

lemma entry_ok_mono: "tool_le t t' \<Longrightarrow> entry_ok jh action (tl_home t) e \<Longrightarrow> entry_ok jh action (tl_home t') e"
  by (cases action) (auto simp: entry_ok_def Let_def dest: tool_le_backup)

lemma log_ok_mono: "tool_le t t' \<Longrightarrow> tl_log t' = tl_log t \<Longrightarrow> log_ok jh action t \<Longrightarrow> log_ok jh action t'"
  by (auto simp: log_ok_def intro: entry_ok_mono)

definition step_ok :: "json_host \<Rightarrow> provider_action \<Rightarrow> tool \<Rightarrow> tool \<Rightarrow> bool" where
  "step_ok jh action t t' = (tool_ok t' \<and> tool_le t t' \<and> (log_ok jh action t \<longrightarrow> log_ok jh action t'))"

lemma step_ok_refl [simp]: "step_ok jh action t t = tool_ok t"
  by (simp add: step_ok_def)

lemma step_ok_trans: "step_ok jh action t1 t2 \<Longrightarrow> step_ok jh action t2 t3 \<Longrightarrow> step_ok jh action t1 t3"
  by (auto simp: step_ok_def intro: tool_le_trans)

lemma step_ok_count [simp]: "step_ok jh action t (count_in f t') = step_ok jh action t t'"
  by (simp add: step_ok_def log_ok_def)

lemma look_ok: "look t = (ok, t') \<Longrightarrow> tool_ok t \<Longrightarrow> step_ok jh action t t'"
  unfolding step_ok_def using look_step [of t ok t'] log_ok_mono [of t t' jh action] by blast

lemma ok_ctime: "tool_ok t \<Longrightarrow> bt_get (h_rollouts (tl_home t)) p = Some f \<Longrightarrow> ro_ctime f \<le> h_now (tl_home t)"
  by (simp add: tool_ok_def home_ok_def)

lemma swapped_entry:
  assumes "swapped p before latest (updated @ drop (length original) (ro_bytes latest)) t t'"
    and "bt_get (h_rollouts (tl_home t0)) p = Some before" "tool_ok t0" "tool_le t0 t"
    and "ro_kind before = RegularFile" "ro_links before = 1" "has_jsonl p"
    and "header_line (ro_bytes latest) = Inr original"
    and "action = Rewrite \<and> replacement_line jh original = Inr (Some updated)
           \<and> bt_get (h_backups (tl_home t')) p = Some (Saved original True)
         \<or> action = Restore \<and> replacement_line jh updated = Inr (Some original)
           \<and> (\<exists>q. last q = last p \<and> bt_get (h_backups (tl_home t')) q = Some (Saved updated True))"
    and "log_ok jh action t" "tool_le t t'"
  shows "log_ok jh action t'"
proof -
  obtain t2 t3 where t2: "same_file before latest" "tool_le t t2" "tool_le t2 t3" "bt_get (h_rollouts (tl_home t2)) p = Some latest"
    "\<not> recently_changed (tl_home t2) latest"
    "tl_log t' = tl_log t @ [replacing (h_now (tl_home t2)) p latest (updated @ drop (length original) (ro_bytes latest)) (tl_home t3)]"
    using assms(1) unfolding swapped_def by blast
  have "ro_ctime latest \<le> h_now (tl_home t0)"
    using ok_ctime [OF assms(3,2)] t2(1) by (simp add: same_file_def)
  moreover have "tool_le t0 t2" using assms(4) t2(2) tool_le_trans by blast
  ultimately have "latest = before\<lparr>ro_held := ro_held latest\<rparr>"
    using t2(4) assms(2) unfolding tool_le_def by fastforce
  from arg_cong [OF this, of ro_kind] arg_cong [OF this, of ro_links] assms(5,6)
  have kind: "ro_kind latest = RegularFile" "ro_links latest = 1" by simp_all
  have gone: "f = latest\<lparr>ro_held := ro_held f\<rparr>"
    if "bt_get (h_rollouts (tl_home t3)) p = Some f" "ro_ctime f \<le> h_now (tl_home t2)" for f
    using t2(3,4) that unfolding tool_le_def by fastforce
  from kind t2(5) assms(7,8,9) gone
  have "entry_ok jh action (tl_home t')
      (replacing (h_now (tl_home t2)) p latest (updated @ drop (length original) (ro_bytes latest)) (tl_home t3))"
    by (cases action) (auto simp: entry_ok_def replacing_def recently_changed_def recent_window_def)
  with assms(10,11) t2(6) entry_ok_mono show ?thesis by (auto simp: log_ok_def)
qed


lemma planned_install:
  assumes "planned jh action index p original h = Inr (Install updated)"
  shows "action \<noteq> Restore \<and> replacement_line jh original = Inr (Some updated)
    \<or> action = Restore \<and> replacement_line jh updated = Inr (Some original)
      \<and> (\<exists>q. last q = last p \<and> bt_get (h_backups h) q = Some (Saved updated True))"
  using assms restore_backup_found [of jh h p original index updated]
  by (auto simp: planned_def split: if_splits sum.splits option.splits)

lemma repair_step:
  assumes "repair jh action index p before t = (r, t')" "tool_ok t"
    and "bt_get (h_rollouts (tl_home t)) p = Some before"
    and "ro_kind before = RegularFile" "ro_links before = 1" "has_jsonl p"
  shows "step_ok jh action t t'"
proof -
  obtain ok1 t1 where l1: "look t = (ok1, t1)" by fastforce
  note s1 = look_step [OF l1 assms(2)]
  note k1 = look_ok [OF l1 assms(2), of jh action]
  obtain ok2 t2 where l2: "look t1 = (ok2, t2)" by fastforce
  note s2 = look_step [OF l2 conjunct1 [OF s1]]
  note k2 = step_ok_trans [OF k1 look_ok [OF l2 conjunct1 [OF s1], of jh action]]
  consider "t' = t1" | g where "t' = count_in g t1" | "t' = t2" | g where "t' = count_in g t2"
    | opened original updated where "same_file before opened" "ro_kind opened = RegularFile"
        "header_line (ro_bytes (handle opened (tl_home t2))) = Inr original"
        "planned jh action index p original (tl_home t2) = Inr (Install updated)" "action \<noteq> DryRun"
        "copy_and_swap action p before (handle opened (tl_home t2)) original updated t2 = (r, t')"
    using assms(1) l1 l2
    by (auto simp: repair_def Let_def skipped_recent_def split: option.splits if_splits sum.splits rollout_plan.splits)
  then show ?thesis
  proof cases
    case (5 opened original updated)
    let ?f = "handle opened (tl_home t2)"
    have inode: "ro_inode opened = ro_inode before" using 5(1) by (simp add: same_file_def)
    have now: "ro_ctime before \<le> h_now (tl_home t2)"
      using ok_ctime [OF assms(2,3)] s1 s2 by (auto intro: tool_le_ctime)
    from copy_and_swap_step [OF 5(6) conjunct1 [OF s2] refl inode now]
    have post: "tool_ok t'" "tool_le t2 t'" "tl_log t' = tl_log t2 \<or>
       (\<exists>latest. swapped p before latest (updated @ drop (length original) (ro_bytes latest)) t2 t'
          \<and> ro_bytes ?f = ro_bytes latest
          \<and> (action = Rewrite \<longrightarrow> bt_get (h_backups (tl_home t')) p = Some (Saved original True)))"
      by blast+
    have "log_ok jh action t'" if lo: "log_ok jh action t2"
      using post(3)
    proof
      assume "tl_log t' = tl_log t2"
      with post(2) lo log_ok_mono show ?thesis by blast
    next
      assume "\<exists>latest. swapped p before latest (updated @ drop (length original) (ro_bytes latest)) t2 t'
          \<and> ro_bytes ?f = ro_bytes latest
          \<and> (action = Rewrite \<longrightarrow> bt_get (h_backups (tl_home t')) p = Some (Saved original True))"
      then obtain latest where la: "swapped p before latest (updated @ drop (length original) (ro_bytes latest)) t2 t'"
        "ro_bytes ?f = ro_bytes latest"
        "action = Rewrite \<Longrightarrow> bt_get (h_backups (tl_home t')) p = Some (Saved original True)" by blast
      have head: "header_line (ro_bytes latest) = Inr original" using 5(3) la(2) by simp
      have why: "action = Rewrite \<and> replacement_line jh original = Inr (Some updated)
           \<and> bt_get (h_backups (tl_home t')) p = Some (Saved original True)
         \<or> action = Restore \<and> replacement_line jh updated = Inr (Some original)
           \<and> (\<exists>q. last q = last p \<and> bt_get (h_backups (tl_home t')) q = Some (Saved updated True))"
        using planned_install [OF 5(4)] la(3) 5(5) tool_le_backup [OF post(2)] by (cases action) auto
      have "tool_le t t2" using s1 s2 tool_le_trans by blast
      from swapped_entry [OF la(1) assms(3,2) this assms(4,5,6) head why lo post(2)] show ?thesis .
    qed
    with post k2 tool_le_trans show ?thesis unfolding step_ok_def by blast
  qed (use k1 k2 in auto)
qed

lemma visit_step:
  assumes "visit jh action opened index p t = (r, t')" "tool_ok t"
  shows "step_ok jh action t t'"
proof -
  obtain ok t1 where l: "look t = (ok, t1)" by fastforce
  note k1 = look_ok [OF l assms(2), of jh action]
  have ok1: "tool_ok t1" using k1 by (simp add: step_ok_def)
  define t2 where "t2 = count_in (\<lambda>s. s\<lparr>sm_scanned := sm_scanned s + 1\<rparr>) t1"
  consider "t' = t1" | g where "t' = count_in g t1" | g where "t' = count_in g t2"
    | f where "bt_get (h_rollouts (tl_home t2)) p = Some f" "ro_kind f = RegularFile" "ro_links f = 1" "has_jsonl p"
        "repair jh action index p f t2 = (r, t')"
    using assms(1) l
    by (auto simp: visit_def t2_def Let_def skipped_recent_def split: option.splits if_splits)
  then show ?thesis
  proof cases
    case (4 f)
    from repair_step [OF 4(5) _ 4(1,2,3,4)] ok1 have "step_ok jh action t2 t'" by (simp add: t2_def)
    moreover have "step_ok jh action t t2" using k1 by (simp add: t2_def)
    ultimately show ?thesis using step_ok_trans by blast
  qed (use k1 in \<open>auto simp: t2_def\<close>)
qed

lemma visit_all_step:
  "visit_all jh action opened index ps t = (r, t') \<Longrightarrow> tool_ok t \<Longrightarrow> step_ok jh action t t'"
proof (induction ps arbitrary: t)
  case (Cons p ps)
  obtain e t1 where v: "visit jh action opened index p t = (e, t1)" by fastforce
  note k = visit_step [OF v Cons.prems(2)]
  show ?case
  proof (cases e)
    case None
    with Cons.prems v have "visit_all jh action opened index ps t1 = (r, t')" by simp
    from Cons.IH [OF this] k step_ok_trans show ?thesis unfolding step_ok_def by blast
  next
    case (Some x)
    with Cons.prems v k show ?thesis by simp
  qed
qed simp

lemma visit_dirs_step:
  "visit_dirs jh action opened index ds t = (r, t') \<Longrightarrow> tool_ok t \<Longrightarrow> step_ok jh action t t'"
proof (induction ds arbitrary: t)
  case (Cons d ds)
  obtain e t1 where v: "visit_all jh action opened index (entries d (tl_home t)) t = (e, t1)" by fastforce
  note k = visit_all_step [OF v Cons.prems(2)]
  show ?case
  proof (cases e)
    case None
    with Cons.prems v have "visit_dirs jh action opened index ds t1 = (r, t')" by simp
    from Cons.IH [OF this] k step_ok_trans show ?thesis unfolding step_ok_def by blast
  next
    case (Some x)
    with Cons.prems v k show ?thesis by simp
  qed
qed simp

lemma run_sessions_step:
  assumes "run_sessions jh action t = (r, t')" "tool_ok t"
  shows "step_ok jh action t t'"
proof -
  obtain t1 where r: "repair_sessions jh action t = (r, t1)" "\<exists>g. t' = count_in g t1"
    using assms(1) by (auto simp: run_sessions_def split: prod.splits)
  obtain ok t2 where l: "(if h_dirs (tl_home t) = [] then (True, t) else look t) = (ok, t2)" by fastforce
  then have k: "step_ok jh action t t2" using assms(2) look_ok by (auto split: if_splits)
  consider "t1 = t2" | opened index where "visit_dirs jh action opened index [''sessions'', ''archived_sessions''] t2 = (r, t1)"
    using r(1) l by (auto simp: repair_sessions_def Let_def split: if_splits sum.splits)
  then have "step_ok jh action t t1"
    using k visit_dirs_step step_ok_trans unfolding step_ok_def by cases blast+
  with r(2) show ?thesis by auto
qed


section \<open>Lines\<close>

text \<open>A JSON string token is not empty and contains no line break.\<close>

definition json_tokens :: "json_host \<Rightarrow> bool" where
  "json_tokens jh = (\<forall>tok v. jh_string jh tok = Some v \<longrightarrow> tok \<noteq> [] \<and> lf \<notin> set tok)"

lemma take_line_iff:
  "take_line (l @ rest) = l \<longleftrightarrow> lf \<notin> set (butlast l) \<and> (rest = [] \<or> l \<noteq> [] \<and> last l = lf)"
proof (induction l)
  case Nil
  then show ?case by (cases rest) auto
next
  case (Cons c l)
  then show ?case by (cases l) auto
qed

lemma take_line_prefix: "\<exists>rest. s = take_line s @ rest"
  by (induction s) auto

lemma length_take_line_take: "length (take_line (take n s)) \<le> n"
proof -
  obtain rest where "take n s = take_line (take n s) @ rest" using take_line_prefix by blast
  then have "length (take_line (take n s)) \<le> length (take n s)" by (metis le_add1 length_append)
  then show ?thesis by simp
qed

lemma take_line_take: "take_line (take n s) = take n (take_line s)"
proof (induction s arbitrary: n)
  case (Cons c s)
  then show ?case by (cases n) auto
qed simp

lemma header_line_iff: "header_line s = Inr l \<longleftrightarrow> take_line s = l \<and> length l \<le> max_header"
  by (auto simp: header_line_def Let_def take_line_take)

lemma header_line_long: "header_line s = Inl e \<longleftrightarrow> e = HeaderTooLong \<and> max_header < length (take_line s)"
  by (auto simp: header_line_def Let_def take_line_take)

lemma replacement_shape:
  assumes "replacement_line jh line = Inr (Some new)" "json_tokens jh"
  shows "\<exists>pre tok post. line = pre @ tok @ post \<and> new = pre @ provider_json @ post \<and> tok \<noteq> [] \<and> lf \<notin> set tok"
proof -
  obtain start k where sk: "new = take start line @ provider_json @ drop (start + k) line"
      "jh_string jh (take k (drop start line)) = Some ''openai''"
    using assms(1) by (auto simp: replacement_line_def Let_def split: if_splits option.splits prod.splits)
  have "line = take start line @ take k (drop start line) @ drop (start + k) line"
    by (metis add.commute append_take_drop_id drop_drop)
  with sk assms(2) show ?thesis unfolding json_tokens_def by blast
qed

lemma provider_json_line: "lf \<notin> set provider_json" "provider_json \<noteq> []"
  by (simp_all add: provider_json_def lf_def)

lemma replaced_header:
  assumes "replacement_line jh line = Inr (Some new)" "json_tokens jh" "take_line (line @ rest) = line"
    and "extra = [] \<or> lf \<in> set (new @ rest)"
  shows "take_line ((new @ rest) @ extra) = new"
proof -
  obtain pre tok post where sh: "line = pre @ tok @ post" "new = pre @ provider_json @ post" "tok \<noteq> []" "lf \<notin> set tok"
    using replacement_shape [OF assms(1,2)] by blast
  have line: "lf \<notin> set (butlast line)" "rest = [] \<or> line \<noteq> [] \<and> last line = lf"
    using assms(3) take_line_iff by blast+
  have new: "lf \<notin> set (butlast new)" "last line = lf \<longleftrightarrow> new \<noteq> [] \<and> last new = lf"
    using sh line(1) provider_json_line last_in_set [of tok] last_in_set [of provider_json]
    by (cases "post = []"; auto simp: butlast_append dest: in_set_butlastD)+
  have "lf \<in> set new \<Longrightarrow> last new = lf"
    using new(1) by (cases new rule: rev_cases) auto
  with new line assms(4) have "rest @ extra = [] \<or> new \<noteq> [] \<and> last new = lf"
    by (cases "rest = []") auto
  then show ?thesis using new(1) take_line_iff [of new "rest @ extra"] by simp
qed


section \<open>Promises\<close>

lemma take_line_split: "take_line s @ drop (length (take_line s)) s = s"
  using take_line_prefix [of s] by (metis append_eq_conv_conj)


text \<open>Nobody else touches the files.\<close>

definition quiet :: "nat \<Rightarrow> summary \<Rightarrow> home \<Rightarrow> tool" where
  "quiet n s h = \<lparr>tl_home = h, tl_sched = [], tl_buffer = n, tl_sum = s, tl_log = []\<rparr>"

lemma look_quiet: "tl_sched t = [] \<Longrightarrow> look t = (True, t)"
  by (simp add: look_def)

lemma swap_quiet:
  assumes "tl_sched t = []" "home_ok (tl_home t)" "bt_get (h_rollouts (tl_home t)) p = Some g"
    "\<not> recently_changed (tl_home t) g" "\<not> ro_held g"
  shows "\<exists>t'. copy_and_swap Restore p g g original updated t = (None, t')
     \<and> map_option ro_bytes (bt_get (h_rollouts (tl_home t')) p) = Some (updated @ drop (length original) (ro_bytes g))"
proof -
  have "handle g (tl_home t) = g" using handle_at [OF assms(2,3)] by simp
  with assms show ?thesis
    by (simp add: copy_and_swap_def check_open_def recheck_def install_def look_quiet same_file_def Let_def copied_content
        look_def count_in_def)
qed

text \<open>C10: a repaired session comes back. Let a rewrite, however disturbed, have replaced a rollout, and
  let Codex have appended something to it since, its first line being terminated. Once the rollout
  is again a regular file under that name and no other, idle for an hour and held open by nobody,
  a restore that nobody disturbs succeeds and leaves the bytes the rewrite last saw, followed by
  everything appended, provided the longer header still fits the limit and no directory of
  its backup has become a link.\<close>
theorem rewritten_rollout_restores:
  assumes "json_tokens jh" and "tool_ok t" and "tl_log t = []" and "run_sessions jh Rewrite t = (r, t1)"
    and "e \<in> set (tl_log t1)" and "rp_path e = p"
    and "home_ok h" and "h_backups h = h_backups (tl_home t1)" and "\<not> h_unsafe h p"
    and "bt_get (h_rollouts h) p = Some g" and "ro_bytes g = rp_bytes e @ extra" and "extra = [] \<or> lf \<in> set (rp_bytes e)"
    and "ro_kind g = RegularFile" and "ro_links g = 1" and "\<not> ro_held g" and "\<not> recently_changed h g"
    and "ro_inode g \<notin> opened" and "length (take_line (rp_bytes e)) \<le> max_header"
  shows "\<exists>t2. visit jh Restore opened index p (quiet n s h) = (None, t2)
     \<and> map_option ro_bytes (bt_get (h_rollouts (tl_home t2)) p) = Some (ro_bytes (rp_seen e) @ extra)"
proof -
  have "entry_ok jh Rewrite (tl_home t1) e"
    using run_sessions_step [OF assms(4,2)] assms(3,5) by (auto simp: step_ok_def log_ok_def)
  then obtain original updated where eo: "header_line (ro_bytes (rp_seen e)) = Inr original" "has_jsonl p"
      "rp_bytes e = updated @ drop (length original) (ro_bytes (rp_seen e))" "replacement_line jh original = Inr (Some updated)"
      "bt_get (h_backups h) p = Some (Saved original True)"
    using assms(6,8) by (auto simp: entry_ok_def Let_def)
  let ?rest = "drop (length original) (ro_bytes (rp_seen e))"
  have line: "take_line (original @ ?rest) = original" "original @ ?rest = ro_bytes (rp_seen e)" "length original \<le> max_header"
    using eo(1) take_line_split [of "ro_bytes (rp_seen e)"] by (auto simp: header_line_iff)
  note nl = replaced_header [OF eo(4) assms(1) line(1)]
  have heads: "take_line (ro_bytes g) = updated" "take_line (rp_bytes e) = updated"
    using nl [of extra] nl [of "[]"] assms(12) by (auto simp: assms(11) eo(3))
  then have head: "header_line (ro_bytes g) = Inr updated"
    using assms(18) by (simp add: header_line_iff)
  have plan: "planned jh Restore index p updated h = (if original = updated then Inr Keep else Inr (Install original))"
    using eo(4,5) line(3) by (simp add: planned_def restore_backup_def bt_has_def)
  have handled: "handle g h = g" using handle_at [OF assms(7,10)] by simp
  let ?t = "count_in (\<lambda>s. s\<lparr>sm_scanned := sm_scanned s + 1\<rparr>) (quiet n s h)"
  have visited: "visit jh Restore opened index p (quiet n s h) =
      (if original = updated then (None, count_in (\<lambda>s. s\<lparr>sm_unchanged := sm_unchanged s + 1\<rparr>) ?t)
       else copy_and_swap Restore p g g updated original ?t)"
    using assms(9,10,13,14,16,17) eo(2) head plan handled
    by (simp add: visit_def repair_def quiet_def look_quiet look_def count_in_def same_file_def Let_def)
  show ?thesis
  proof (cases "original = updated")
    case True
    with visited assms(10,11) eo(3) line(2) show ?thesis by (simp add: quiet_def)
  next
    case False
    have "tl_sched ?t = []" "home_ok (tl_home ?t)" "bt_get (h_rollouts (tl_home ?t)) p = Some g" "\<not> recently_changed (tl_home ?t) g"
      using assms(7,10,16) by (simp_all add: quiet_def)
    from swap_quiet [OF this assms(15), of updated original] visited False
    have "\<exists>t2. visit jh Restore opened index p (quiet n s h) = (None, t2)
     \<and> map_option ro_bytes (bt_get (h_rollouts (tl_home t2)) p) = Some (original @ drop (length updated) (ro_bytes g))"
      by simp
    moreover have "original @ drop (length updated) (ro_bytes g) = ro_bytes (rp_seen e) @ extra"
      using assms(11) eo(3) line(2) by (metis append.assoc append_eq_conv_conj)
    ultimately show ?thesis by simp
  qed
qed

text \<open>The rewritten line is longer than the original: one that outgrows the limit on headers can be
  neither restored nor accepted as restored.\<close>

lemma take_line_append: "length (take_line a) \<le> length (take_line (a @ b))"
  by (induction a) auto

lemma unrestored_fails:
  assumes "p \<in> set ps" "bt_get (h_rollouts h) p = Some g" "max_header < length (take_line (ro_bytes g))"
  shows "unrestored jh h index ps \<noteq> None"
  using assms(1)
proof (induction ps)
  case (Cons q ps)
  have "header_line (ro_bytes g) = Inl HeaderTooLong" using assms(3) by (simp add: header_line_long)
  with Cons assms(2) show ?case by (auto split: option.splits sum.splits)
qed simp

lemma require_restored_fails:
  assumes "home_ok h" "bt_get (h_rollouts h) p = Some g" "max_header < length (take_line (ro_bytes g))"
    and "bt_get (h_backups h) p = Some b" "has_jsonl p" "hd p \<in> {''sessions'', ''archived_sessions''}" "ro_kind g = RegularFile"
  shows "require_restored jh h \<noteq> None"
proof (cases "index_backups h")
  case (Inr index)
  have "p \<in> set (map fst (h_backups h))" using map_of_SomeD [OF assms(4)] by force
  moreover have "index = filter has_jsonl (map fst (h_backups h))"
    using Inr by (auto simp: index_backups_def split: if_splits)
  ultimately have "p \<in> set index" using assms(5) by simp
  then have "index \<noteq> []" "named index p \<noteq> []" by (auto simp: named_def filter_empty_conv)
  moreover have "p \<in> set (map fst (h_rollouts h))" using map_of_SomeD [OF assms(2)] by force
  moreover have "p \<noteq> []" using assms(5) by (simp add: has_jsonl_def)
  ultimately have listed: "p \<in> set (filter (\<lambda>p. p \<noteq> [] \<and> hd p \<in> {''sessions'', ''archived_sessions''} \<and> has_jsonl p
      \<and> named index p \<noteq> [] \<and> (case bt_get (h_rollouts h) p of Some f \<Rightarrow> ro_kind f = RegularFile | None \<Rightarrow> False))
      (map fst (h_rollouts h)))" (is "p \<in> set ?ps")
    using assms(2,5,6,7) by simp
  have "unrestored jh h index ?ps \<noteq> None" by (rule unrestored_fails [OF listed assms(2,3)])
  with Inr \<open>index \<noteq> []\<close> show ?thesis by (simp add: require_restored_def)
qed (simp add: require_restored_def)

text \<open>C28: a run may strand a session. If a rewrite replaced a rollout, whose metadata line was within the
  limit, by one whose new line is beyond it, then whatever is appended later, restoring the
  rollout fails for its length once it is idle again, and as long as its backup stays, the check
  that lets the user return to local mode fails too.\<close>
theorem outgrown_header_is_stranded:
  assumes "tool_ok t" and "tl_log t = []" and "run_sessions jh Rewrite t = (r, t1)"
    and "e \<in> set (tl_log t1)" and "max_header < length (take_line (rp_bytes e))"
    and "home_ok h" and "h_backups h = h_backups (tl_home t1)"
    and "bt_get (h_rollouts h) (rp_path e) = Some g" and "ro_bytes g = rp_bytes e @ extra" and "ro_kind g = RegularFile"
    and "ro_links g = 1" and "\<not> recently_changed h g" and "ro_inode g \<notin> opened"
    and "hd (rp_path e) \<in> {''sessions'', ''archived_sessions''}"
  shows "length (take_line (ro_bytes (rp_seen e))) \<le> max_header
     \<and> fst (visit jh Restore opened index (rp_path e) (quiet n s h)) = Some HeaderTooLong
     \<and> require_restored jh h \<noteq> None"
proof -
  have "entry_ok jh Rewrite (tl_home t1) e"
    using run_sessions_step [OF assms(3,1)] assms(2,4) by (auto simp: step_ok_def log_ok_def)
  then obtain original where o: "header_line (ro_bytes (rp_seen e)) = Inr original" "has_jsonl (rp_path e)"
      "bt_get (h_backups h) (rp_path e) = Some (Saved original True)"
    using assms(7) by (auto simp: entry_ok_def Let_def)
  have long: "max_header < length (take_line (ro_bytes g))"
    using assms(5,9) take_line_append [of "rp_bytes e" extra] by simp
  then have "header_line (ro_bytes g) = Inl HeaderTooLong" by (simp add: header_line_long)
  moreover have "handle g h = g" using handle_at [OF assms(6,8)] by simp
  ultimately have "fst (visit jh Restore opened index (rp_path e) (quiet n s h)) = Some HeaderTooLong"
    using assms(8,10-13) o(2) by (simp add: visit_def repair_def quiet_def look_def count_in_def same_file_def Let_def)
  moreover have "require_restored jh h \<noteq> None"
    using require_restored_fails [OF assms(6,8) long o(3,2) assms(14,10)] .
  moreover have "length (take_line (ro_bytes (rp_seen e))) \<le> max_header" using o(1) by (simp add: header_line_iff)
  ultimately show ?thesis by blast
qed

end
