(* ===== verification/RolloutDemo.thy ===== *)
theory RolloutDemo
  imports RolloutFacts
begin

text \<open>Old sessions whose metadata line is padded to a chosen length, with a parser that accepts
  exactly such lines, before and after their repair.\<close>

definition json :: "string \<Rightarrow> string" where
  "json s = map (\<lambda>c. if c = CHR ''^'' then CHR 0x22 else c) s"

definition openai_token :: string where "openai_token = json ''^openai^''"

definition line_open :: string where "line_open = json ''{^type^:^session_meta^,^payload^:''"
definition payload_open :: string where "payload_open = json ''{^model_provider^:''"
definition line_close :: string where "line_close = ''}'' @ [lf]"

definition padded_payload :: "string \<Rightarrow> nat \<Rightarrow> string" where
  "padded_payload tok n = payload_open @ tok @ json '',^pad^:^'' @ replicate n CHR ''x'' @ json ''^}''"

definition session_line :: "string \<Rightarrow> nat \<Rightarrow> string" where
  "session_line tok n = line_open @ padded_payload tok n @ line_close"

definition read_payload :: "string \<Rightarrow> (nat \<times> nat) option option" where
  "read_payload p =
     (if p = padded_payload openai_token (length p - length (padded_payload openai_token 0))
      then Some (Some (length payload_open, length openai_token))
      else if p = padded_payload provider_json (length p - length (padded_payload provider_json 0))
      then Some (Some (length payload_open, length provider_json))
      else None)"

definition demo_json :: json_host where
  "demo_json = \<lparr>jh_record = (\<lambda>line.
       let p = take (length line - length line_open - length line_close) (drop (length line_open) line) in
       if line = line_open @ p @ line_close \<and> read_payload p \<noteq> None
       then Some (Some ''session_meta'', Some (length line_open, length p)) else None),
     jh_payload = read_payload,
     jh_string = (\<lambda>tok. if tok = openai_token then Some ''openai''
       else if tok = provider_json then Some ''codexctl-central'' else None)\<rparr>"

lemma demo_lengths: "length openai_token = 8" "length provider_json = 18"
  by (simp_all add: openai_token_def provider_json_def json_def)

lemma demo_lf: "lf \<notin> set (line_open @ padded_payload openai_token n @ ''}'')"
    "lf \<notin> set (line_open @ padded_payload provider_json n @ ''}'')"
  by (auto simp: padded_payload_def line_open_def payload_open_def openai_token_def provider_json_def json_def lf_def)

lemma demo_json_tokens: "json_tokens demo_json"
  by (simp add: json_tokens_def demo_json_def openai_token_def provider_json_def json_def lf_def)

lemma read_padded:
  "read_payload (padded_payload openai_token n) = Some (Some (length payload_open, length openai_token))"
  by (simp add: read_payload_def padded_payload_def json_def)

lemma demo_replacement:
  "replacement_line demo_json (session_line openai_token n) = Inr (Some (session_line provider_json n))"
proof -
  have recorded: "jh_record demo_json (session_line openai_token n)
      = Some (Some ''session_meta'', Some (length line_open, length (padded_payload openai_token n)))"
    by (simp add: demo_json_def session_line_def read_padded)
  have payload: "jh_payload demo_json (padded_payload openai_token n) = Some (Some (length payload_open, length openai_token))"
    by (simp add: demo_json_def read_padded)
  have token: "jh_string demo_json openai_token = Some ''openai''" by (simp add: demo_json_def)
  have "take (length openai_token) (drop (length line_open + length payload_open) (session_line openai_token n)) = openai_token"
    by (simp add: session_line_def padded_payload_def)
  moreover have "take (length line_open + length payload_open) (session_line openai_token n) @ provider_json
      @ drop (length line_open + length payload_open + length openai_token) (session_line openai_token n)
      = session_line provider_json n"
    by (simp add: session_line_def padded_payload_def)
  moreover have "session_line openai_token n \<noteq> []" by (simp add: session_line_def line_close_def)
  moreover have "take (length (padded_payload openai_token n)) (drop (length line_open) (session_line openai_token n))
      = padded_payload openai_token n" by (simp add: session_line_def)
  ultimately show ?thesis using recorded payload token by (simp add: replacement_line_def Let_def)
qed

lemma session_line_take:
  "tok = openai_token \<or> tok = provider_json \<Longrightarrow> take_line (session_line tok n @ rest) = session_line tok n"
  unfolding take_line_iff using demo_lf [of n] by (auto simp: session_line_def line_close_def butlast_append)

lemma session_line_length: "length (session_line tok n) = length (session_line [] 0) + length tok + n"
  by (simp add: session_line_def padded_payload_def)

definition demo_session :: path where "demo_session = [''sessions'', ''a.jsonl'']"

definition demo_rollout :: "nat \<Rightarrow> rollout" where
  "demo_rollout n = \<lparr>ro_kind = RegularFile, ro_inode = 0, ro_bytes = session_line openai_token n @ ''b'', ro_mtime = 0,
     ro_ctime = 0, ro_links = 1, ro_held = False\<rparr>"

definition demo_home :: "nat \<Rightarrow> home" where
  "demo_home n = \<lparr>h_dirs = [''sessions''], h_rollouts = [(demo_session, demo_rollout n)], h_backups = [],
     h_unsafe = (\<lambda>_. False), h_now = recent_window, h_next = 1\<rparr>"

definition no_summary :: summary where
  "no_summary = \<lparr>sm_scanned = 0, sm_changed = 0, sm_unchanged = 0, sm_open = 0, sm_unsafe = 0, sm_no_backup = 0,
     sm_recent = 0, sm_errors = 0\<rparr>"

definition demo_tool :: "nat \<Rightarrow> tool" where
  "demo_tool n = quiet 3 no_summary (demo_home n)"

definition demo_entry :: "nat \<Rightarrow> replacement" where
  "demo_entry n = \<lparr>rp_clock = recent_window, rp_path = demo_session, rp_seen = demo_rollout n,
     rp_gone = Some (demo_rollout n), rp_bytes = session_line provider_json n @ ''b''\<rparr>"

lemmas demo_rollout_defs = demo_tool_def quiet_def demo_home_def demo_rollout_def demo_session_def recent_window_def

lemma demo_tool_ok: "tool_ok (demo_tool n)" "tl_log (demo_tool n) = []"
  by (auto simp: demo_rollout_defs tool_ok_def home_ok_def)

lemma demo_run:
  assumes "length (session_line openai_token n) \<le> max_header"
  shows "fst (run_sessions demo_json Rewrite (demo_tool n)) = None
   \<and> tl_log (snd (run_sessions demo_json Rewrite (demo_tool n))) = [demo_entry n]
   \<and> h_backups (tl_home (snd (run_sessions demo_json Rewrite (demo_tool n))))
       = [(demo_session, Saved (session_line openai_token n) True)]"
proof -
  have "header_line (session_line openai_token n @ ''b'') = Inr (session_line openai_token n)"
    using assms by (simp add: header_line_iff session_line_take)
  then show ?thesis
    using demo_replacement [of n]
    by (simp add: run_sessions_def repair_sessions_def look_def visit_def repair_def copy_and_swap_def check_open_def
        recheck_def install_def save_backup_def planned_def handle_def entries_def held_files_def has_jsonl_def
        recently_changed_def same_file_def count_in_def Let_def demo_entry_def demo_rollout_defs)
qed

lemma demo_short: "length (session_line openai_token 0) \<le> max_header"
  by (simp add: session_line_def padded_payload_def line_open_def payload_open_def line_close_def json_def
      openai_token_def max_header_def)

lemma demo_logged:
  "length (session_line openai_token n) \<le> max_header \<Longrightarrow>
     demo_entry n \<in> set (tl_log (snd (run_sessions demo_json Rewrite (demo_tool n))))"
  using demo_run by simp


text \<open>The session after the run, when something has been appended to it.\<close>

definition grown_rollout :: "nat \<Rightarrow> rollout" where
  "grown_rollout n = \<lparr>ro_kind = RegularFile, ro_inode = 1, ro_bytes = (session_line provider_json n @ ''b'') @ ''cd'',
     ro_mtime = 0, ro_ctime = 0, ro_links = 1, ro_held = False\<rparr>"

definition demo_later :: "nat \<Rightarrow> home" where
  "demo_later n = \<lparr>h_dirs = [''sessions''], h_rollouts = [(demo_session, grown_rollout n)],
     h_backups = [(demo_session, Saved (session_line openai_token n) True)],
     h_unsafe = (\<lambda>_. False), h_now = recent_window, h_next = 2\<rparr>"

lemma demo_later_ok:
  "home_ok (demo_later n)" "bt_get (h_rollouts (demo_later n)) demo_session = Some (grown_rollout n)"
  "\<not> recently_changed (demo_later n) (grown_rollout n)" "\<not> h_unsafe (demo_later n) demo_session"
  "ro_bytes (grown_rollout n) = rp_bytes (demo_entry n) @ ''cd''" "ro_kind (grown_rollout n) = RegularFile"
  "ro_links (grown_rollout n) = 1" "\<not> ro_held (grown_rollout n)" "ro_inode (grown_rollout n) \<notin> {}"
  "rp_path (demo_entry n) = demo_session"
  by (auto simp: demo_later_def home_ok_def grown_rollout_def recently_changed_def recent_window_def demo_entry_def)

theorem rewritten_rollout_restores_witness:
  "\<exists>t2. visit demo_json Restore {} [] demo_session (quiet 0 no_summary (demo_later 0)) = (None, t2)
     \<and> map_option ro_bytes (bt_get (h_rollouts (tl_home t2)) demo_session)
         = Some (session_line openai_token 0 @ ''bcd'')"
proof -
  have backups: "h_backups (demo_later 0) = h_backups (tl_home (snd (run_sessions demo_json Rewrite (demo_tool 0))))"
    using demo_run [OF demo_short] by (simp add: demo_later_def)
  have fits: "''cd'' = [] \<or> lf \<in> set (rp_bytes (demo_entry 0))"
    "length (take_line (rp_bytes (demo_entry 0))) \<le> max_header"
    by (simp add: demo_entry_def session_line_def line_close_def)
      (simp add: demo_entry_def session_line_take, simp add: session_line_def padded_payload_def line_open_def
        payload_open_def line_close_def json_def provider_json_def max_header_def)
  from rewritten_rollout_restores [OF demo_json_tokens demo_tool_ok prod.collapse [symmetric] demo_logged [OF demo_short]
      demo_later_ok(10,1) backups demo_later_ok(4,2,5) fits(1) demo_later_ok(6,7,8,3,9) fits(2), of "[]" 0 no_summary]
  show ?thesis by (simp add: demo_entry_def demo_rollout_def)
qed

text \<open>A line of exactly the greatest length.\<close>

definition longest_pad :: nat where "longest_pad = max_header - length (session_line openai_token 0)"

theorem outgrown_header_is_stranded_witness:
  "fst (visit demo_json Restore {} [] demo_session (quiet 0 no_summary (demo_later longest_pad))) = Some HeaderTooLong
   \<and> require_restored demo_json (demo_later longest_pad) \<noteq> None"
proof -
  have len: "length (session_line openai_token longest_pad) = max_header"
    using demo_short unfolding session_line_length [of openai_token longest_pad]
    by (simp add: longest_pad_def session_line_length [of openai_token 0])
  then have fits: "length (session_line openai_token longest_pad) \<le> max_header" by simp
  have backups: "h_backups (demo_later longest_pad)
      = h_backups (tl_home (snd (run_sessions demo_json Rewrite (demo_tool longest_pad))))"
    using demo_run [OF fits] by (simp add: demo_later_def)
  have "length (session_line provider_json longest_pad) = max_header + 10"
    using len unfolding session_line_length [of _ longest_pad] by (simp add: demo_lengths)
  then have outgrown: "max_header < length (take_line (rp_bytes (demo_entry longest_pad)))"
    by (simp add: demo_entry_def session_line_take)
  have there: "bt_get (h_rollouts (demo_later longest_pad)) (rp_path (demo_entry longest_pad)) = Some (grown_rollout longest_pad)"
    by (simp add: demo_later_ok)
  have dirs: "hd (rp_path (demo_entry longest_pad)) \<in> {''sessions'', ''archived_sessions''}"
    by (simp add: demo_entry_def demo_session_def)
  from outgrown_header_is_stranded [OF demo_tool_ok prod.collapse [symmetric] demo_logged [OF fits] outgrown
      demo_later_ok(1) backups there demo_later_ok(5,6,7,3,9) dirs,
      of "[]" 0 no_summary]
  show ?thesis by (simp add: demo_later_ok(10))
qed

end
