(* ===== verification/Aliases.thy ===== *)
theory Aliases
  imports Prelude
begin

text \<open>
  Names: profile aliases and labels (\<open>src/store.rs\<close>), account references
  (\<open>AccountRef\<close> in \<open>src/central/loans.rs\<close>), the login claims that decide whether
  two credentials are the same login (\<open>Logins\<close> in \<open>src/api.rs\<close>), and the two
  allowlists that keep secrets out of diagnostics (\<open>alias\<close>, \<open>request_id\<close> in
  \<open>src/outcomes.rs\<close>). A path is the list of its components.
\<close>

section \<open>White space\<close>

definition ascii_space :: "char \<Rightarrow> bool" where
  "ascii_space c = ([c] \<in> set white_space)"

lemma ascii_space_iff:
  "ascii_space c \<longleftrightarrow> of_char c \<in> {9, 10, 11, 12, 13, 32 :: nat}"
proof -
  have "[c] = map char_of b \<longleftrightarrow> (\<exists>x. b = [x] \<and> c = char_of x)" for b :: "nat list"
    by (cases b) auto
  moreover have "c = char_of x \<longleftrightarrow> of_char c = x" if "x < 256" for x :: nat
    using that by (metis char_of_char of_char_of of_char_mod_256 mod_less)
  ultimately show ?thesis
    unfolding ascii_space_def white_space_def by simp
qed

lemma white_space_ascii: "w \<in> set white_space \<Longrightarrow> is_ascii w \<Longrightarrow> \<exists>c. w = [c]"
  by (auto simp: white_space_def is_ascii_def)

lemma white_space_last_ascii:
  "w \<in> set white_space \<Longrightarrow> of_char (last w) < (128 :: nat) \<Longrightarrow> \<exists>c. w = [c]"
  by (auto simp: white_space_def)

lemma strip_unfold:
  "find (\<lambda>w. w \<noteq> [] \<and> starts_with w s) ws = None \<Longrightarrow> strip ws s = s"
  "find (\<lambda>w. w \<noteq> [] \<and> starts_with w s) ws = Some w \<Longrightarrow>
     strip ws s = strip ws (drop (length w) s)"
  by (subst strip.simps, simp)+

lemma strip_stops: "find (\<lambda>w. w \<noteq> [] \<and> starts_with w (strip ws s)) ws = None"
proof (induction ws s rule: strip.induct)
  case (1 ws s)
  then show ?case
    by (cases "find (\<lambda>w. w \<noteq> [] \<and> starts_with w s) ws") (simp_all add: strip_unfold)
qed

lemma strip_no_space: "ascii_space c \<Longrightarrow> strip white_space s \<noteq> c # t"
  using strip_stops [of white_space s]
  by (auto simp: find_None_iff ascii_space_def dest!: bspec [where x = "[c]"])

lemma strip_suffix: "\<exists>p. s = p @ strip ws s"
proof (induction ws s rule: strip.induct)
  case (1 ws s)
  show ?case
  proof (cases "find (\<lambda>w. w \<noteq> [] \<and> starts_with w s) ws")
    case None
    then show ?thesis by (simp add: strip_unfold)
  next
    case (Some w)
    with 1 obtain p where p: "drop (length w) s = p @ strip ws (drop (length w) s)" by blast
    have "s = (take (length w) s @ p) @ strip ws (drop (length w) s)"
      using p by (metis append.assoc append_take_drop_id)
    with strip_unfold(2) [OF Some] show ?thesis by metis
  qed
qed

lemma strip_id: "\<forall>w \<in> set ws. w = [] \<or> \<not> starts_with w s \<Longrightarrow> strip ws s = s"
  by (rule strip_unfold(1)) (auto simp: find_None_iff)

text \<open>What \<open>trim\<close> leaves has no white space at either end, and such text is left alone.\<close>

lemma trim_edges:
  assumes "ascii_space c"
  shows "trim s \<noteq> c # t" and "trim s \<noteq> t @ [c]"
proof -
  let ?u = "strip white_space s" and ?ws = "map rev white_space"
  obtain p where p: "rev ?u = p @ strip ?ws (rev ?u)"
    using strip_suffix by blast
  then have "?u = trim s @ rev p"
    by (metis rev_append rev_rev_ident trim_def)
  with strip_no_space [OF assms, of s "t @ rev p"] show "trim s \<noteq> c # t"
    by auto
  have "[c] \<in> set ?ws"
    using assms by (force simp: ascii_space_def)
  with strip_stops [of ?ws "rev ?u"] have "\<not> starts_with [c] (strip ?ws (rev ?u))"
    by (fastforce simp: find_None_iff)
  then show "trim s \<noteq> t @ [c]"
    by (auto simp: trim_def rev_eq_append_conv)
qed

lemma trim_id:
  assumes "is_ascii s" and "\<And>c t. ascii_space c \<Longrightarrow> s \<noteq> c # t"
    and "\<And>c t. ascii_space c \<Longrightarrow> s \<noteq> t @ [c]"
  shows "trim s = s"
proof -
  have starts: "\<exists>t. s = w @ t" if "starts_with w s" for w
    using that by (metis append_take_drop_id starts_with_def)
  have "strip white_space s = s"
  proof (rule strip_id, intro ballI)
    fix w assume w: "w \<in> set white_space"
    show "w = [] \<or> \<not> starts_with w s"
    proof (rule ccontr)
      assume "\<not> ?thesis"
      with starts obtain t where t: "s = w @ t" and "w \<noteq> []" by blast
      with assms(1) have "is_ascii w" by (simp add: is_ascii_def)
      with w obtain c where "w = [c]" using white_space_ascii by blast
      with t w assms(2) [of c t] show False by (simp add: ascii_space_def)
    qed
  qed
  moreover have "strip (map rev white_space) (rev s) = rev s"
  proof (rule strip_id, intro ballI)
    fix v assume "v \<in> set (map rev white_space)"
    then obtain w where w: "w \<in> set white_space" "v = rev w" by auto
    show "v = [] \<or> \<not> starts_with v (rev s)"
    proof (rule ccontr)
      assume neg: "\<not> ?thesis"
      then have "rev s = rev w @ drop (length (rev w)) (rev s)"
        by (metis append_take_drop_id starts_with_def w(2))
      then obtain t where t: "s = t @ w" by (metis rev_append rev_rev_ident)
      with assms(1) have "is_ascii w" by (simp add: is_ascii_def)
      with w obtain c where "w = [c]" using white_space_ascii by blast
      with t w assms(3) [of c t] show False by (simp add: ascii_space_def)
    qed
  qed
  ultimately show ?thesis by (simp add: trim_def)
qed

section \<open>Aliases and labels\<close>

datatype path_component = RootDir | CurDir | ParentDir | Normal string

fun split_on :: "char \<Rightarrow> string \<Rightarrow> string list" where
  "split_on c [] = [[]]"
| "split_on c (x # xs) =
     (if x = c then [] # split_on c xs
      else (case split_on c xs of [] \<Rightarrow> [[x]] | p # ps \<Rightarrow> (x # p) # ps))"

text \<open>\<open>Path::components\<close> of a Unix path: repeated separators and inner dots vanish.\<close>

definition path_components :: "string \<Rightarrow> path_component list" where
  "path_components s =
     (let part = (\<lambda>p. if p = '''' \<or> p = ''.'' then []
                       else if p = ''..'' then [ParentDir] else [Normal p])
      in if starts_with ''/'' s then RootDir # concat (map part (split_on (CHR ''/'') s))
         else (case split_on (CHR ''/'') s of
                 [] \<Rightarrow> []
               | p # ps \<Rightarrow> (if p = ''.'' then [CurDir] else part p) @ concat (map part ps)))"

definition max_alias_bytes :: nat where "max_alias_bytes = 128"
definition max_label_bytes :: nat where "max_label_bytes = 40"

datatype alias_error =
  AliasEmpty | AliasTooLong | AliasNotAscii | AliasDot | AliasControl | AliasSeparator
| AliasNotOneComponent

definition validate_alias :: "string \<Rightarrow> alias_error + string" where
  "validate_alias raw =
     (let alias = trim raw in
      if alias = [] then Inl AliasEmpty
      else if max_alias_bytes < length alias then Inl AliasTooLong
      else if \<not> is_ascii alias then Inl AliasNotAscii
      else if starts_with ''.'' alias then Inl AliasDot
      else if list_ex ascii_control alias then Inl AliasControl
      else if CHR ''/'' \<in> set alias \<or> CHR 0x5C \<in> set alias then Inl AliasSeparator
      else (case path_components alias of
              [Normal _] \<Rightarrow> Inr alias
            | _ \<Rightarrow> Inl AliasNotOneComponent))"

datatype label_error = LabelTooLong | LabelNotAscii | LabelControl

definition validate_label :: "string \<Rightarrow> label_error + string option" where
  "validate_label raw =
     (let label = trim raw in
      if label = [] then Inr None
      else if max_label_bytes < length label then Inl LabelTooLong
      else if \<not> is_ascii label then Inl LabelNotAscii
      else if list_ex ascii_control label then Inl LabelControl
      else Inr (Some label))"

text \<open>The closed form of a valid alias.\<close>

definition alias_ok :: "string \<Rightarrow> bool" where
  "alias_ok a = (a \<noteq> [] \<and> length a \<le> 128 \<and> is_ascii a \<and> \<not> starts_with ''.'' a
     \<and> (\<forall>c \<in> set a. \<not> ascii_control c \<and> c \<noteq> CHR ''/'' \<and> c \<noteq> CHR 0x5C))"

lemma split_on_none: "c \<notin> set s \<Longrightarrow> split_on c s = [s]"
  by (induction s) auto

lemma path_components_one:
  "a \<noteq> [] \<Longrightarrow> CHR ''/'' \<notin> set a \<Longrightarrow> \<not> starts_with ''.'' a \<Longrightarrow> path_components a = [Normal a]"
  by (cases a) (auto simp: path_components_def split_on_none Let_def)

lemma validate_alias_cases:
  "validate_alias s =
     (let a = trim s in
      if a = [] then Inl AliasEmpty else if 128 < length a then Inl AliasTooLong
      else if \<not> is_ascii a then Inl AliasNotAscii else if starts_with ''.'' a then Inl AliasDot
      else if list_ex ascii_control a then Inl AliasControl
      else if CHR ''/'' \<in> set a \<or> CHR 0x5C \<in> set a then Inl AliasSeparator else Inr a)"
  by (simp add: validate_alias_def Let_def max_alias_bytes_def path_components_one)

lemma validate_alias_Inr_iff: "validate_alias s = Inr a \<longleftrightarrow> a = trim s \<and> alias_ok a"
proof -
  have "validate_alias s = Inr a \<longleftrightarrow> alias_ok (trim s) \<and> trim s = a"
    unfolding validate_alias_cases alias_ok_def Let_def list_ex_iff
    by (simp only: guard_Inl_eq_Inr sum.inject not_less) blast
  then show ?thesis by auto
qed

lemma alias_ok_trim:
  assumes "alias_ok a" and "trim a = a \<or> (\<exists>s. a = trim s)"
  shows "trim a = a"
  using assms(2)
proof
  assume "\<exists>s. a = trim s"
  with assms(1) show ?thesis
    by (auto simp: alias_ok_def intro!: trim_id dest: trim_edges)
qed

lemma validate_alias_idem: "validate_alias s = Inr a \<Longrightarrow> validate_alias a = Inr a"
  by (auto simp: validate_alias_Inr_iff intro: alias_ok_trim [symmetric])

text \<open>The last check of \<open>validate_alias\<close> is a second guard: the earlier ones imply it.\<close>

lemma validate_alias_component_guard: "validate_alias s \<noteq> Inl AliasNotOneComponent"
  by (simp add: validate_alias_cases Let_def)

lemma ascii_lower_char_space: "ascii_space (ascii_lower_char c) = ascii_space c"
  by (auto simp: ascii_space_iff of_char_ascii_lower_char)

lemma ascii_lower_char_eq:
  assumes "of_char c < (65 :: nat) \<or> (90 :: nat) < of_char c \<and> of_char c < (97 :: nat)"
  shows "ascii_lower_char d = c \<longleftrightarrow> d = c"
proof -
  have "of_char (ascii_lower_char d) = (of_char c :: nat) \<longleftrightarrow> of_char d = (of_char c :: nat)"
    using assms unfolding of_char_ascii_lower_char
    by (auto simp del: of_char_eq_iff)
  then show ?thesis by simp
qed

lemma ascii_control_lower: "ascii_control (ascii_lower_char c) = ascii_control c"
  unfolding ascii_control_def of_char_ascii_lower_char by auto

lemma is_ascii_lower: "is_ascii (ascii_lower a) = is_ascii a"
proof -
  have "of_char (ascii_lower_char c) < (128 :: nat) \<longleftrightarrow> of_char c < (128 :: nat)" for c
    unfolding of_char_ascii_lower_char by auto
  then show ?thesis
    unfolding is_ascii_def ascii_lower_def list_all_iff set_map ball_simps by simp
qed

lemma lower_fixed_char:
  "ascii_lower_char d = CHR ''/'' \<longleftrightarrow> d = CHR ''/''"
  "ascii_lower_char d = CHR 0x5C \<longleftrightarrow> d = CHR 0x5C"
  "ascii_lower_char d = CHR ''.'' \<longleftrightarrow> d = CHR ''.''"
  by (rule ascii_lower_char_eq, simp)+

lemma starts_with_dot_lower: "starts_with ''.'' (ascii_lower a) = starts_with ''.'' a"
  by (cases a) (simp_all add: ascii_lower_def eq_commute [of "CHR ''.''"] lower_fixed_char)

lemma alias_ok_lower [simp]: "alias_ok (ascii_lower a) = alias_ok a"
proof -
  have chars: "(\<forall>c \<in> set (ascii_lower a). \<not> ascii_control c \<and> c \<noteq> CHR ''/'' \<and> c \<noteq> CHR 0x5C)
      = (\<forall>c \<in> set a. \<not> ascii_control c \<and> c \<noteq> CHR ''/'' \<and> c \<noteq> CHR 0x5C)"
    unfolding ascii_lower_def set_map ball_simps ascii_control_lower lower_fixed_char ..
  have "ascii_lower a = [] \<longleftrightarrow> a = []"
    by (simp add: ascii_lower_def)
  then show ?thesis
    unfolding alias_ok_def chars starts_with_dot_lower is_ascii_lower length_ascii_lower by simp
qed

lemma trimmed_alias_lower:
  assumes "alias_ok a" and "trim a = a"
  shows "trim (ascii_lower a) = ascii_lower a"
proof (rule trim_id)
  show "is_ascii (ascii_lower a)"
    using assms(1) alias_ok_lower [of a] by (simp add: alias_ok_def)
  fix c t assume c: "ascii_space c"
  then show "ascii_lower a \<noteq> c # t"
    using trim_edges(1) [of "hd a" a "tl a"] assms(2)
    by (cases a) (auto simp: ascii_lower_def ascii_lower_char_space)
  from c show "ascii_lower a \<noteq> t @ [c]"
    using trim_edges(2) [of "last a" a "butlast a"] assms(2)
    by (cases a rule: rev_cases) (auto simp: ascii_lower_def ascii_lower_char_space)
qed

text \<open>Aliases that need no further trimming: what \<open>validate_alias\<close> returns.\<close>

definition clean_alias :: "string \<Rightarrow> bool" where
  "clean_alias a = (alias_ok a \<and> trim a = a)"

lemma validate_alias_clean: "validate_alias s = Inr a \<Longrightarrow> clean_alias a"
  using validate_alias_idem by (auto simp: clean_alias_def validate_alias_Inr_iff)

lemma clean_alias_validate: "clean_alias a \<Longrightarrow> validate_alias a = Inr a"
  by (simp add: clean_alias_def validate_alias_Inr_iff)

lemma clean_alias_lower [simp]: "clean_alias a \<Longrightarrow> clean_alias (ascii_lower a)"
  by (simp add: clean_alias_def trimmed_alias_lower)

lemma clean_alias_noslash: "clean_alias a \<Longrightarrow> CHR ''/'' \<notin> set a"
  by (auto simp: clean_alias_def alias_ok_def)

lemma clean_alias_nonempty: "clean_alias a \<Longrightarrow> a \<noteq> []"
  by (auto simp: clean_alias_def alias_ok_def)

section \<open>Account references\<close>

datatype account_ref = Owned string | Borrowed string string

datatype ref_error = BadAlias alias_error | BadBorrowedReference

definition parse_ref :: "string \<Rightarrow> ref_error + account_ref" where
  "parse_ref raw =
     (let name = trim raw in
      case split_once (CHR ''/'') name of
        None \<Rightarrow> (case validate_alias name of
                   Inl e \<Rightarrow> Inl (BadAlias e)
                 | Inr a \<Rightarrow> Inr (Owned a))
      | Some (lender, alias) \<Rightarrow>
          (case (validate_alias lender, validate_alias alias) of
             (Inr l, Inr a) \<Rightarrow> Inr (Borrowed (ascii_lower l) (ascii_lower a))
           | _ \<Rightarrow> Inl BadBorrowedReference))"

fun is_borrowed :: "account_ref \<Rightarrow> bool" where
  "is_borrowed (Owned _) = False"
| "is_borrowed (Borrowed _ _) = True"

fun ref_name :: "account_ref \<Rightarrow> string" where
  "ref_name (Owned a) = a"
| "ref_name (Borrowed l a) = l @ ''/'' @ a"

fun connection_file :: "string list \<Rightarrow> account_ref \<Rightarrow> string list" where
  "connection_file root (Owned a) = root @ [a @ ''.json'']"
| "connection_file root (Borrowed l a) = root @ [''borrowed'', l, a @ ''.json'']"

datatype reference_error = ReferenceInvalid ref_error | NoLocalPart

text \<open>\<open>reference\<close>: the name a grant stores, built from the lender's email.\<close>

definition reference :: "string \<Rightarrow> string \<Rightarrow> reference_error + string" where
  "reference lender_email alias =
     (let name = before_char (CHR ''@'') lender_email @ ''/'' @ alias in
      case parse_ref name of
        Inl e \<Rightarrow> Inl (ReferenceInvalid e)
      | Inr r \<Rightarrow> if is_borrowed r then Inr (ref_name r) else Inl NoLocalPart)"

text \<open>What \<open>parse\<close> can return.\<close>

fun ref_ok :: "account_ref \<Rightarrow> bool" where
  "ref_ok (Owned a) = clean_alias a"
| "ref_ok (Borrowed l a) =
     (clean_alias l \<and> clean_alias a \<and> ascii_lower l = l \<and> ascii_lower a = a)"

lemma parse_ref_ok: "parse_ref s = Inr r \<Longrightarrow> ref_ok r"
  by (auto simp: parse_ref_def Let_def dest: validate_alias_clean
      intro: validate_alias_clean [THEN clean_alias_lower] split: option.splits sum.splits prod.splits)

lemma trim_borrowed_name:
  assumes "clean_alias l" and "clean_alias a"
  shows "trim (l @ ''/'' @ a) = l @ ''/'' @ a"
proof (rule trim_id)
  show "is_ascii (l @ ''/'' @ a)"
    using assms by (auto simp: clean_alias_def alias_ok_def is_ascii_def)
  fix c t assume c: "ascii_space c"
  show "l @ ''/'' @ a \<noteq> c # t"
    using assms(1) trim_edges(1) [OF c, of l] by (cases l) (auto simp: clean_alias_def alias_ok_def)
  show "l @ ''/'' @ a \<noteq> t @ [c]"
    using assms(2) trim_edges(2) [OF c, of a]
    by (cases a rule: rev_cases) (auto simp: clean_alias_def alias_ok_def)
qed

lemma parse_ref_name: "ref_ok r \<Longrightarrow> parse_ref (ref_name r) = Inr r"
proof (cases r)
  case (Owned a)
  assume "ref_ok r"
  with Owned have "clean_alias a" by simp
  then show ?thesis
    using Owned clean_alias_noslash [of a]
    by (simp add: parse_ref_def Let_def clean_alias_validate split_once_None [THEN iffD2]
        clean_alias_def)
next
  case (Borrowed l a)
  assume "ref_ok r"
  with Borrowed show ?thesis
    using trim_borrowed_name [of l a] clean_alias_noslash [of l]
    by (simp add: parse_ref_def Let_def clean_alias_validate)
qed

lemma ref_name_inject: "ref_ok r \<Longrightarrow> ref_ok q \<Longrightarrow> ref_name r = ref_name q \<Longrightarrow> r = q"
  by (metis parse_ref_name sum.inject(2))

lemma reference_Inr:
  assumes "reference email alias = Inr name"
  obtains l a where "ref_ok (Borrowed l a)" and "name = ref_name (Borrowed l a)"
proof -
  from assms obtain r where "parse_ref (before_char (CHR ''@'') email @ ''/'' @ alias) = Inr r"
    and r: "is_borrowed r" "name = ref_name r"
    by (auto simp: reference_def Let_def split: sum.splits if_splits)
  then show ?thesis
    using that by (cases r) (auto dest: parse_ref_ok)
qed

subsection \<open>Deciding a name\<close>

lemma clean_alias_iff:
  "clean_alias a \<longleftrightarrow> alias_ok a \<and> \<not> ascii_space (hd a) \<and> \<not> ascii_space (last a)"
proof
  assume c: "clean_alias a"
  then have ok: "alias_ok a" and t: "trim a = a" and ne: "a \<noteq> []"
    by (simp_all add: clean_alias_def clean_alias_nonempty alias_ok_def)
  have "\<not> ascii_space (hd a)"
    using trim_edges(1) [of "hd a" a "tl a"] t ne by auto
  moreover have "\<not> ascii_space (last a)"
    using trim_edges(2) [of "last a" a "butlast a"] t ne by auto
  ultimately show "alias_ok a \<and> \<not> ascii_space (hd a) \<and> \<not> ascii_space (last a)"
    using ok by blast
next
  assume "alias_ok a \<and> \<not> ascii_space (hd a) \<and> \<not> ascii_space (last a)"
  then have ok: "alias_ok a" and edges: "\<not> ascii_space (hd a)" "\<not> ascii_space (last a)"
    by blast+
  have "trim a = a"
  proof (rule trim_id)
    show "is_ascii a" using ok by (simp add: alias_ok_def)
    show "a \<noteq> c # t" if "ascii_space c" for c t using that edges(1) by auto
    show "a \<noteq> t @ [c]" if "ascii_space c" for c t using that edges(2) by auto
  qed
  with ok show "clean_alias a" by (simp add: clean_alias_def)
qed

lemma reference_clean:
  assumes "clean_alias (before_char (CHR ''@'') email)" and "clean_alias alias"
  shows "reference email alias =
     Inr (ascii_lower (before_char (CHR ''@'') email) @ ''/'' @ ascii_lower alias)"
  using assms trim_borrowed_name [OF assms] clean_alias_noslash [OF assms(1)]
  by (simp add: reference_def parse_ref_def Let_def clean_alias_validate)

lemmas decide_alias = clean_alias_iff alias_ok_def is_ascii_def ascii_control_def ascii_space_iff
  before_char_def

lemmas eval_lower = ascii_lower_def ascii_lower_char_def char_of_def bit_Suc_0_iff

section \<open>Login claims\<close>

record logins =
  login_uid :: "string option"
  login_sub :: "string option"

definition logins_empty :: "logins \<Rightarrow> bool" where
  "logins_empty l = (login_uid l = None \<and> login_sub l = None)"

definition canonical :: "logins \<Rightarrow> string option" where
  "canonical l = (case login_uid l of
      Some u \<Rightarrow> Some (''uid:'' @ u)
    | None \<Rightarrow> map_option (\<lambda>s. ''sub:'' @ s) (login_sub l))"

definition shared_claim :: "logins \<Rightarrow> logins \<Rightarrow> (string \<times> string) option" where
  "shared_claim a b =
     (case (login_uid a, login_uid b) of
        (Some mine, Some theirs) \<Rightarrow> Some (mine, theirs)
      | _ \<Rightarrow> (case (login_sub a, login_sub b) of
                (Some mine, Some theirs) \<Rightarrow> Some (mine, theirs)
              | _ \<Rightarrow> None))"

definition comparable :: "logins \<Rightarrow> logins \<Rightarrow> bool" where
  "comparable a b = (shared_claim a b \<noteq> None)"

definition same_logins :: "logins \<Rightarrow> logins \<Rightarrow> bool" where
  "same_logins a b = (case shared_claim a b of None \<Rightarrow> False | Some (x, y) \<Rightarrow> x = y)"

definition differs :: "logins \<Rightarrow> logins \<Rightarrow> bool" where
  "differs a b = (case shared_claim a b of None \<Rightarrow> False | Some (x, y) \<Rightarrow> x \<noteq> y)"

text \<open>\<open>CredentialSubject\<close>: digests of a credential's workspace and login claims.\<close>

record subject =
  subj_workspace :: string
  subj_claims :: logins

definition same_login :: "subject \<Rightarrow> subject \<Rightarrow> bool" where
  "same_login a b = (subj_workspace a = subj_workspace b \<and> same_logins (subj_claims a) (subj_claims b))"

text \<open>\<open>credential_subject\<close>; SHA-256 is outside \<open>src/\<close>, so \<open>digest\<close> is a parameter.\<close>

definition credential_subject ::
    "(string \<Rightarrow> string) \<Rightarrow> string \<Rightarrow> logins \<Rightarrow> subject" where
  "credential_subject digest ws l =
     (let d = (\<lambda>namespace v. digest (namespace @ '':'' @ v)) in
      \<lparr>subj_workspace = d ''workspace'' ws,
       subj_claims = \<lparr>login_uid = map_option (d ''uid'') (login_uid l), login_sub = map_option (d ''sub'') (login_sub l)\<rparr>\<rparr>)"

lemmas login_defs = shared_claim_def comparable_def same_logins_def differs_def

lemma same_logins_sym: "same_logins a b = same_logins b a"
  by (auto simp: login_defs split: option.splits)

lemma same_login_sym: "same_login a b = same_login b a"
  by (auto simp: same_login_def same_logins_sym)

lemma same_login_refl: "same_login s s \<longleftrightarrow> \<not> logins_empty (subj_claims s)"
  by (auto simp: same_login_def logins_empty_def login_defs split: option.splits)

section \<open>Allowlists for diagnostics\<close>

definition safe_alias :: "string \<Rightarrow> string option" where
  "safe_alias value =
     (case validate_alias value of
        Inl _ \<Rightarrow> None
      | Inr a \<Rightarrow>
          if starts_with ''sk-'' a \<or> starts_with ''rt-'' a \<or> starts_with ''eyJ'' a
          then None else Some a)"

text \<open>The UUID shape, shared by \<open>request_id\<close> and the capacity policy's \<open>session_id\<close>.\<close>

definition uuid_shape :: "string \<Rightarrow> bool" where
  "uuid_shape s = (length s = 36 \<and>
     list_all (\<lambda>(i, c). if i \<in> {8, 13, 18, 23} then c = CHR ''-'' else ascii_hexdigit c)
       (enumerate 0 s))"

definition request_id :: "string \<Rightarrow> string option" where
  "request_id value =
     (let named = (starts_with ''req-'' value \<or> starts_with ''req_'' value
                   \<or> starts_with ''request-'' value)
                \<and> length value \<le> 128
                \<and> list_all (\<lambda>c. ascii_alnum c \<or> c = CHR ''-'' \<or> c = CHR ''_'') value
      in if uuid_shape value \<or> named then Some value else None)"

end
