(* ===== verification/OwnerLog.thy ===== *)
theory OwnerLog
  imports BTree "HOL-Library.Product_Lexorder"
begin

text \<open>
  Reading an owner child's stderr (\<open>src/central/owner_refresh.rs\<close>): the lines are cut out of
  the byte stream with a cap, classified into a bounded reason, redacted, and forwarded at
  most thirty a minute. The regular expressions are written out as the matchers they denote.
  The clock is read once a line, where the code reads it again when it opens a new minute.
\<close>

section \<open>Lossy UTF-8\<close>

definition byte :: "char \<Rightarrow> nat" where "byte c = of_char c"

definition cont :: "string \<Rightarrow> bool" where
  "cont s = (case s of [] \<Rightarrow> False | c # _ \<Rightarrow> 128 \<le> byte c \<and> byte c \<le> 191)"

definition in_range :: "nat \<Rightarrow> nat \<Rightarrow> string \<Rightarrow> bool" where
  "in_range lo hi s = (case s of [] \<Rightarrow> False | c # _ \<Rightarrow> lo \<le> byte c \<and> byte c \<le> hi)"

text \<open>The bytes after the first that belong to it, and whether they complete a character.\<close>

definition utf8_tail :: "nat \<Rightarrow> string \<Rightarrow> bool \<times> nat" where
  "utf8_tail b s =
     (if b < 128 then (True, 0)
      else if 194 \<le> b \<and> b \<le> 223 then (cont s, if cont s then 1 else 0)
      else if 224 \<le> b \<and> b \<le> 239 then
        (if \<not> in_range (if b = 224 then 160 else 128) (if b = 237 then 159 else 191) s then (False, 0)
         else if \<not> cont (drop 1 s) then (False, 1) else (True, 2))
      else if 240 \<le> b \<and> b \<le> 244 then
        (if \<not> in_range (if b = 240 then 144 else 128) (if b = 244 then 143 else 191) s then (False, 0)
         else if \<not> cont (drop 1 s) then (False, 1)
         else if \<not> cont (drop 2 s) then (False, 2) else (True, 3))
      else (False, 0))"

definition replacement :: string where "replacement = map char_of [239, 191, 189 :: nat]"

text \<open>\<open>String::from_utf8_lossy\<close>.\<close>

function from_utf8_lossy :: "string \<Rightarrow> string" where
  "from_utf8_lossy [] = []"
| "from_utf8_lossy (c # s) =
     (let (ok, n) = utf8_tail (byte c) s in
      (if ok then c # take n s else replacement) @ from_utf8_lossy (drop n s))"
  by pat_completeness auto
termination
  by (relation "measure length") auto

section \<open>Classifying a line\<close>

definition esc :: char where "esc = CHR 0x1B"

definition ansi_param :: "char \<Rightarrow> bool" where
  "ansi_param c = (ascii_digit c \<or> c = CHR '';'')"

text \<open>\<open>\\x1b\\[[0-9;]*m\<close>, the length of its match at the head.\<close>

definition ansi_len :: "string \<Rightarrow> nat option" where
  "ansi_len s =
     (case s of
        a # b # rest \<Rightarrow>
          if a = esc \<and> b = CHR ''[''
          then (case dropWhile ansi_param rest of
                  c # _ \<Rightarrow> if c = CHR ''m'' then Some (length (takeWhile ansi_param rest) + 3) else None
                | [] \<Rightarrow> None)
          else None
      | _ \<Rightarrow> None)"

function strip_ansi :: "string \<Rightarrow> string" where
  "strip_ansi [] = []"
| "strip_ansi (c # s) =
     (case ansi_len (c # s) of
        None \<Rightarrow> c # strip_ansi s
      | Some n \<Rightarrow> strip_ansi (drop (n - 1) s))"
  by pat_completeness auto
termination
  by (relation "measure length") auto

definition refresh_failed :: string where "refresh_failed = ''Failed to refresh token''"

text \<open>\<open>str::split_once\<close> on a pattern, and \<open>str::strip_prefix\<close>.\<close>

fun after_first :: "string \<Rightarrow> string \<Rightarrow> string option" where
  "after_first p [] = (if p = [] then Some [] else None)"
| "after_first p (c # s) = (if starts_with p (c # s) then Some (drop (length p) (c # s)) else after_first p s)"

definition strip_prefix :: "string \<Rightarrow> string \<Rightarrow> string option" where
  "strip_prefix p s = (if starts_with p s then Some (drop (length p) s) else None)"

text \<open>The first word of \<open>split_whitespace\<close>.\<close>

fun until_space :: "string \<Rightarrow> string" where
  "until_space [] = []"
| "until_space (c # s) =
     (if list_ex (\<lambda>w. starts_with w (c # s)) white_space then [] else c # until_space s)"

definition first_word :: "string \<Rightarrow> string option" where
  "first_word s = (case until_space (strip white_space s) of [] \<Rightarrow> None | w \<Rightarrow> Some w)"

text \<open>\<open>str::parse::<u16>\<close>: an optional plus, then digits, within range.\<close>

definition parse_u16 :: "string \<Rightarrow> nat option" where
  "parse_u16 s =
     (let digits = (case s of [] \<Rightarrow> [] | c # t \<Rightarrow> if c = CHR ''+'' then t else s) in
      if digits = [] \<or> \<not> list_all ascii_digit digits then None
      else if dec_value digits < 65536 then Some (dec_value digits) else None)"

definition upstream_status :: "string \<Rightarrow> nat option" where
  "upstream_status line =
     Option.bind (after_first refresh_failed (strip_ansi line)) (\<lambda>rest.
     Option.bind (strip_prefix '' status='' rest) (\<lambda>suffix.
     Option.bind (first_word suffix) (\<lambda>w.
     Option.bind (parse_u16 w) (\<lambda>status. if 400 \<le> status \<and> status \<le> 599 then Some status else None))))"

definition rejections :: "(string \<times> string) list" where
  "rejections =
     [(''Your access token could not be refreshed because your refresh token was already used.'',
       ''refresh_token_reused''),
      (''Your access token could not be refreshed because your refresh token has expired.'',
       ''refresh_token_expired''),
      (''Your access token could not be refreshed because your refresh token was revoked.'',
       ''refresh_token_invalidated''),
      (''Your access token could not be refreshed because you have since logged out or signed in to another account.'',
       ''account_mismatch''),
      (''Your access token could not be refreshed. Please log out and sign in again.'',
       ''other'')]"

text \<open>
  The regular expression of a rejected refresh, after \<open>Failed to refresh token\<close>: the code it
  captures, if any, and what follows the match. No character of the optional words is an
  equals sign, so the first one ends them.
\<close>

definition detail_words :: "string \<Rightarrow> bool" where
  "detail_words s =
     (s = '' detail''
      \<or> (case s of
           c # t \<Rightarrow> c = CHR '' '' \<and> length '' detail'' < length t
             \<and> drop (length t - length '' detail'') t = '' detail''
             \<and> list_all (\<lambda>x. ascii_alpha x \<or> x = CHR '' '') (take (length t - length '' detail'') t)
         | [] \<Rightarrow> False))"

definition error_code :: "string \<Rightarrow> (string option \<times> string) option" where
  "error_code s =
     (case strip_prefix ''None, '' s of
        Some rest \<Rightarrow> Some (None, rest)
      | None \<Rightarrow> Option.bind (strip_prefix (''Some('' @ [CHR 0x22]) s) (\<lambda>t.
          let code = takeWhile (\<lambda>c. CHR ''a'' \<le> c \<and> c \<le> CHR ''z'' \<or> c = CHR ''_'') t in
          if code = [] then None
          else map_option (\<lambda>rest. (Some code, rest)) (strip_prefix (CHR 0x22 # ''), '') (drop (length code) t))))"

definition rejection_detail :: "string \<Rightarrow> (string option \<times> string) option" where
  "rejection_detail suffix =
     Option.bind (case strip_prefix '' status=400'' suffix of
                    Some t \<Rightarrow> Some t | None \<Rightarrow> strip_prefix '' status=401'' suffix) (\<lambda>t.
       if \<not> detail_words (before_char CHR ''='' t) then None
       else Option.bind (strip_prefix ''=TokenErrorDetail { error_code: '' (dropWhile (\<lambda>c. c \<noteq> CHR ''='') t)) error_code)"

definition session_ended :: string where
  "session_ended = ''error_message: Some('' @ [CHR 0x22] @ ''Your session has ended.''"

definition classify :: "string \<Rightarrow> string option" where
  "classify line =
     Option.bind (after_first refresh_failed (strip_ansi line)) (\<lambda>suffix.
       if starts_with '' status='' suffix then
         Option.bind (rejection_detail suffix) (\<lambda>(code, rest).
           case code of
             Some code \<Rightarrow>
               if code = ''refresh_token_reused'' then Some ''refresh_token_reused''
               else if code = ''refresh_token_expired'' then Some ''refresh_token_expired''
               else if code = ''refresh_token_invalidated'' \<or> code = ''refresh_token_revoked''
               then Some ''refresh_token_invalidated''
               else if code = ''account_mismatch'' then Some ''account_mismatch''
               else if code = ''invalid_grant'' then Some ''other'' else None
           | None \<Rightarrow>
               if starts_with '' status=401 '' suffix \<and> starts_with session_ended rest
               then Some ''refresh_token_invalidated'' else None)
       else Option.bind (strip_prefix '': '' suffix) (\<lambda>message.
         map_option snd (find (\<lambda>(text, _). starts_with text message) rejections)))"

section \<open>Redaction\<close>

definition token_char :: "char \<Rightarrow> bool" where
  "token_char c = (ascii_alnum c \<or> c = CHR ''_'' \<or> c = CHR ''-'')"

text \<open>The three alternatives of the secret pattern, in order, as match lengths at the head.\<close>

definition jwt_len :: "string \<Rightarrow> nat option" where
  "jwt_len s =
     Option.bind (strip_prefix ''eyJ'' s) (\<lambda>t.
       let a = takeWhile token_char t; t1 = dropWhile token_char t;
           b = takeWhile token_char (drop 1 t1); t2 = dropWhile token_char (drop 1 t1);
           c = takeWhile token_char (drop 1 t2) in
       if 8 \<le> length a \<and> take 1 t1 = ''.'' \<and> b \<noteq> [] \<and> take 1 t2 = ''.'' \<and> c \<noteq> []
       then Some (length a + length b + length c + 5) else None)"

definition prefixed_len :: "string \<Rightarrow> nat option" where
  "prefixed_len s =
     (case List.map_filter (\<lambda>p. strip_prefix p s) [''rt'', ''sk'', ''sess'', ''at''] of
        (d # t) # _ \<Rightarrow>
          if (d = CHR ''-'' \<or> d = CHR ''_'') \<and> 16 \<le> length (takeWhile token_char t)
          then Some (length s - length (dropWhile token_char t)) else None
      | _ \<Rightarrow> None)"

definition long_len :: "string \<Rightarrow> nat option" where
  "long_len s = (let n = length (takeWhile token_char s) in if 40 \<le> n then Some n else None)"

text \<open>
  \<open>wordy\<close> says whether the text before the position ends in a word character, which \<open>\\b\<close>
  asks; beyond ASCII it is the engine's Unicode table.
\<close>

definition secret_len :: "(string \<Rightarrow> bool) \<Rightarrow> string \<Rightarrow> string \<Rightarrow> nat option" where
  "secret_len wordy before s =
     (case jwt_len s of
        Some n \<Rightarrow> Some n
      | None \<Rightarrow> (case (if wordy before then None else prefixed_len s) of
          Some n \<Rightarrow> Some n
        | None \<Rightarrow> long_len s))"

function redact_all :: "(string \<Rightarrow> bool) \<Rightarrow> string \<Rightarrow> string \<Rightarrow> string" where
  "redact_all wordy before [] = []"
| "redact_all wordy before (c # s) =
     (case secret_len wordy before (c # s) of
        None \<Rightarrow> c # redact_all wordy (before @ [c]) s
      | Some n \<Rightarrow> ''[redacted]'' @ redact_all wordy (before @ take n (c # s)) (drop (n - 1) s))"
  by pat_completeness auto
termination
  by (relation "measure (\<lambda>(wordy, before, s). length s)") auto

definition char_start :: "char \<Rightarrow> bool" where "char_start c = (byte c < 128 \<or> 192 \<le> byte c)"

text \<open>\<open>chars().take(n)\<close> on the bytes of a string.\<close>

fun take_chars :: "nat \<Rightarrow> string \<Rightarrow> string" where
  "take_chars n [] = []"
| "take_chars n (c # s) =
     (if char_start c then (case n of 0 \<Rightarrow> [] | Suc m \<Rightarrow> c # take_chars m s) else c # take_chars n s)"

definition redact :: "(string \<Rightarrow> bool) \<Rightarrow> string \<Rightarrow> string" where
  "redact wordy line =
     (let cleaned = redact_all wordy [] (strip_ansi line);
          short = take_chars 300 cleaned in
      if 300 < length (filter char_start cleaned) then short @ map char_of [226, 128, 166 :: nat] else short)"

section \<open>The pump\<close>

text \<open>
  What a completed line or a window leaves in the log. Times are nanoseconds of the
  monotonic clock.
\<close>

datatype log_note =
  RefreshNote string "nat option"
| LineNote string
| SuppressedNote nat

record log_pump =
  lp_line :: string
  lp_window_start :: nat
  lp_forwarded :: nat
  lp_suppressed :: nat
  lp_reason :: "string option"
  lp_status :: "nat option"
  lp_sink :: "log_note list"

definition max_line_bytes :: nat where "max_line_bytes = 8192"
definition max_lines_per_window :: nat where "max_lines_per_window = 30"
definition log_window :: nat where "log_window = 60000000000"

definition start_pump :: "nat \<Rightarrow> string option \<Rightarrow> nat option \<Rightarrow> log_pump" where
  "start_pump now reason status =
     \<lparr>lp_line = [], lp_window_start = now, lp_forwarded = 0, lp_suppressed = 0,
      lp_reason = reason, lp_status = status, lp_sink = []\<rparr>"

definition suppressed_note :: "nat \<Rightarrow> log_note list" where
  "suppressed_note n = (if 0 < n then [SuppressedNote n] else [])"

definition new_window :: "nat \<Rightarrow> log_pump \<Rightarrow> log_pump" where
  "new_window now st =
     (if log_window \<le> now - lp_window_start st
      then st\<lparr>lp_sink := lp_sink st @ suppressed_note (lp_suppressed st), lp_window_start := now,
              lp_forwarded := 0, lp_suppressed := 0\<rparr>
      else st)"

definition contains :: "string \<Rightarrow> string \<Rightarrow> bool" where
  "contains p s = (after_first p s \<noteq> None)"

definition line_note :: "(string \<Rightarrow> bool) \<Rightarrow> string \<Rightarrow> log_note" where
  "line_note wordy line =
     (let reason = classify line; status = upstream_status line in
      if contains refresh_failed line \<and> (status \<noteq> None \<or> reason = None)
      then RefreshNote (case reason of None \<Rightarrow> ''native_refresh_failure'' | Some r \<Rightarrow> r) status
      else LineNote (redact wordy line))"

definition forward_line :: "(string \<Rightarrow> bool) \<Rightarrow> string \<Rightarrow> log_pump \<Rightarrow> log_pump" where
  "forward_line wordy line st =
     (if lp_forwarded st < max_lines_per_window
      then st\<lparr>lp_forwarded := lp_forwarded st + 1, lp_sink := lp_sink st @ [line_note wordy line]\<rparr>
      else st\<lparr>lp_suppressed := (lp_suppressed st + 1) mod 2 ^ 64\<rparr>)"

definition note_failure :: "string \<Rightarrow> log_pump \<Rightarrow> log_pump" where
  "note_failure line st =
     st\<lparr>lp_reason := (case classify line of None \<Rightarrow> lp_reason st | Some r \<Rightarrow> Some r),
        lp_status := (case upstream_status line of None \<Rightarrow> lp_status st | Some c \<Rightarrow> Some c)\<rparr>"

definition handle_line :: "(string \<Rightarrow> bool) \<Rightarrow> nat \<Rightarrow> string \<Rightarrow> log_pump \<Rightarrow> log_pump" where
  "handle_line wordy now bytes st =
     (let line = from_utf8_lossy bytes in
      forward_line wordy line (new_window now (note_failure line st)))"

definition newline :: char where "newline = CHR 0x0A"

definition pump_byte :: "(string \<Rightarrow> bool) \<Rightarrow> log_pump \<Rightarrow> char \<times> nat \<Rightarrow> log_pump" where
  "pump_byte wordy st = (\<lambda>(b, now).
     if b = newline then (handle_line wordy now (lp_line st) st)\<lparr>lp_line := []\<rparr>
     else if length (lp_line st) < max_line_bytes then st\<lparr>lp_line := lp_line st @ [b]\<rparr>
     else st)"

definition finish_pump :: "(string \<Rightarrow> bool) \<Rightarrow> nat \<Rightarrow> log_pump \<Rightarrow> log_pump" where
  "finish_pump wordy now st =
     (let st = (if lp_line st \<noteq> [] then handle_line wordy now (lp_line st) st else st) in
      st\<lparr>lp_sink := lp_sink st @ suppressed_note (lp_suppressed st)\<rparr>)"

text \<open>The stream until end of file, each byte with the time its chunk was handled.\<close>

definition forward :: "(string \<Rightarrow> bool) \<Rightarrow> log_pump \<Rightarrow> (char \<times> nat) list \<Rightarrow> nat \<Rightarrow> log_pump" where
  "forward wordy st bytes ended = finish_pump wordy ended (foldl (pump_byte wordy) st bytes)"

text \<open>\<open>ReasonSlot::take\<close> and \<open>clear_status\<close>.\<close>

definition take_reason :: "log_pump \<Rightarrow> string option \<times> log_pump" where
  "take_reason st = (lp_reason st, st\<lparr>lp_reason := None\<rparr>)"

definition clear_status :: "log_pump \<Rightarrow> log_pump" where
  "clear_status st = st\<lparr>lp_status := None\<rparr>"

section \<open>Failure counters\<close>

type_synonym failure_key = "string \<times> string \<times> string"

definition failure_key :: "(string \<Rightarrow> string) \<Rightarrow> string \<Rightarrow> string \<Rightarrow> string \<Rightarrow> failure_key" where
  "failure_key digest account user reason =
     (account, take 12 (digest (user @ [CHR 0x00] @ ascii_lower account)), reason)"

definition record_failure ::
    "(string \<Rightarrow> string) \<Rightarrow> string \<Rightarrow> string \<Rightarrow> string \<Rightarrow> (failure_key, nat) btree \<Rightarrow> (failure_key, nat) btree" where
  "record_failure digest account user reason counts =
     (let key = failure_key digest account user reason in
      bt_put key (case bt_get counts key of None \<Rightarrow> 1 | Some n \<Rightarrow> n + 1) counts)"

text \<open>\<open>replace\<close> of one character, three times in turn.\<close>

definition replace_char :: "char \<Rightarrow> string \<Rightarrow> string \<Rightarrow> string" where
  "replace_char c by s = concat (map (\<lambda>x. if x = c then by else [x]) s)"

definition escape_label :: "string \<Rightarrow> string" where
  "escape_label s =
     replace_char newline [CHR 0x5C, CHR ''n'']
       (replace_char (CHR 0x22) [CHR 0x5C, CHR 0x22] (replace_char (CHR 0x5C) [CHR 0x5C, CHR 0x5C] s))"

definition quoted :: "string \<Rightarrow> string" where "quoted s = [CHR 0x22] @ s @ [CHR 0x22]"

definition failure_series :: "string \<Rightarrow> failure_key \<times> nat \<Rightarrow> string" where
  "failure_series name = (\<lambda>((account, key, reason), count).
     name @ ''{account='' @ quoted (escape_label account) @ '',account_key='' @ quoted key
      @ '',reason='' @ quoted reason @ ''} '' @ dec_nat count @ [newline])"

definition failure_metrics :: "(failure_key, nat) btree \<Rightarrow> (failure_key, nat) btree \<Rightarrow> string" where
  "failure_metrics failures native =
     concat (map (failure_series ''codexctl_central_owner_refresh_failed_total'') failures)
     @ concat (map (failure_series ''codexctl_central_owner_refresh_native_errors_total'') native)"

end
