(* ===== verification/OpenFiles.thy ===== *)
theory OpenFiles
  imports Aliases OwnerLog "HOL-Library.Monad_Syntax" "HOL-Library.Sublist"
begin

text \<open>
  Which files other processes hold open (\<open>lsof\<close> in \<open>src/central/sessions.rs\<close>): the parser of its
  field output, the diagnostics that do not make an inventory incomplete, and the mount
  table that decides whether a warning about a container's mount can concern the Codex home.
  Following a stack of mounts is a loop that may not end, so what calls it is in the option
  monad, where \<open>None\<close> is not returning.
\<close>

section \<open>Text\<close>

fun split_str :: "string \<Rightarrow> string \<Rightarrow> (string \<times> string) option" where
  "split_str p [] = (if p = [] then Some ([], []) else None)"
| "split_str p (c # s) =
     (if starts_with p (c # s) then Some ([], drop (length p) (c # s))
      else map_option (\<lambda>(a, b). (c # a, b)) (split_str p s))"

lemma length_strip_le: "length (strip ws s) \<le> length s"
proof (induction ws s rule: strip.induct)
  case (1 ws s)
  then show ?case
    by (subst strip.simps) (auto split: option.splits intro: order_trans)
qed

lemma length_until_space_le: "length (until_space s) \<le> length s"
  by (induction s) auto

text \<open>\<open>str::split_whitespace\<close>.\<close>

function split_whitespace :: "string \<Rightarrow> string list" where
  "split_whitespace s =
     (let t = strip white_space s; w = until_space t in
      if w = [] then [] else w # split_whitespace (drop (length w) t))"
  by pat_completeness auto
termination
proof (relation "measure length")
  fix s t w :: string
  assume "t = strip white_space s" "w = until_space t" "w \<noteq> []"
  then have "0 < length w" "length w \<le> length t" using length_until_space_le [of t] by auto
  then have "length (drop (length w) t) < length t" unfolding length_drop by linarith
  then show "(drop (length w) t, s) \<in> measure length"
    using length_strip_le [of white_space s] \<open>t = _\<close> by simp
qed simp

declare split_whitespace.simps [simp del]

text \<open>\<open>str::lines\<close>: the line breaks are removed, with a carriage return before them.\<close>

definition no_cr :: "string \<Rightarrow> string" where
  "no_cr s = (if s \<noteq> [] \<and> last s = CHR 0x0D then butlast s else s)"

definition str_lines :: "string \<Rightarrow> string list" where
  "str_lines s = (let ps = split_on newline s in
     map no_cr (butlast ps) @ (if last ps = [] then [] else [last ps]))"

text \<open>\<open>u64::from_str_radix(_, 16)\<close>.\<close>

definition hex_digit :: "char \<Rightarrow> nat" where
  "hex_digit c = (if ascii_digit c then byte c - 48 else byte (ascii_lower_char c) - 87)"

definition hex_value :: "string \<Rightarrow> nat" where
  "hex_value s = foldl (\<lambda>v c. 16 * v + hex_digit c) 0 s"

definition parse_hex_u64 :: "string \<Rightarrow> nat option" where
  "parse_hex_u64 s = (let d = unsigned_digits s in
     if d = [] \<or> \<not> list_all ascii_hexdigit d \<or> 2 ^ 64 \<le> hex_value d then None else Some (hex_value d))"

function trim_0x :: "string \<Rightarrow> string" where
  "trim_0x s = (if starts_with ''0x'' s then trim_0x (drop 2 s) else s)"
  by pat_completeness auto
termination
  by (relation "measure length") (auto dest: starts_with_length)

declare trim_0x.simps [simp del]

section \<open>The inventory of open files\<close>

record inventory =
  iv_device :: "nat option"
  iv_files :: "(nat \<times> nat) set"

text \<open>One line of the field output; an unreadable number fails the whole inventory.\<close>

definition inventory_line :: "inventory option \<Rightarrow> string \<Rightarrow> inventory option" where
  "inventory_line st line =
     Option.bind st (\<lambda>iv. case line of
       [] \<Rightarrow> Some iv
     | c # rest \<Rightarrow>
         if c = CHR ''f'' \<or> c = CHR ''p'' then Some (iv\<lparr>iv_device := None\<rparr>)
         else if c = CHR ''D'' then map_option (\<lambda>d. iv\<lparr>iv_device := Some d\<rparr>) (parse_hex_u64 (trim_0x rest))
         else if c = CHR ''i'' then
           (case iv_device iv of
              None \<Rightarrow> Some iv
            | Some d \<Rightarrow> map_option (\<lambda>i. iv\<lparr>iv_files := insert (d, i) (iv_files iv)\<rparr>) (parse_u64 rest))
         else Some iv)"

definition open_files :: "string \<Rightarrow> (nat \<times> nat) set option" where
  "open_files stdout =
     map_option iv_files (foldl inventory_line (Some \<lparr>iv_device = None, iv_files = {}\<rparr>) (split_on newline stdout))"

record lsof_output =
  lo_code :: "int option"
  lo_stdout :: string
  lo_stderr :: string

text \<open>\<open>is_open\<close>: only the two unambiguous answers decide.\<close>

definition is_open :: "lsof_output \<Rightarrow> bool option" where
  "is_open out =
     (if lo_code out = Some 0 \<and> lo_stdout out \<noteq> [] then Some True
      else if lo_code out = Some 1 \<and> lo_stdout out = [] then Some False
      else None)"

section \<open>The mount table\<close>

type_synonym mount_path = "path_component list"

record mount_info =
  mi_id :: nat
  mi_parent :: nat
  mi_device :: string
  mi_root :: string
  mi_mountpoint :: mount_path
  mi_filesystem :: string

text \<open>\<open>str::replace\<close>, for a pattern that is not empty.\<close>

function replace_str :: "string \<Rightarrow> string \<Rightarrow> string \<Rightarrow> string" where
  "replace_str p r [] = []"
| "replace_str p r (c # s) =
     (if starts_with p (c # s) \<and> p \<noteq> [] then r @ replace_str p r (drop (length p) (c # s)) else c # replace_str p r s)"
  by pat_completeness auto
termination
  by (relation "measure (\<lambda>(p, r, s). length s)") (auto simp: Suc_diff_le)

definition backslash :: char where "backslash = CHR 0x5C"

definition unescape_mountinfo :: "string \<Rightarrow> string" where
  "unescape_mountinfo s =
     replace_str (backslash # ''134'') [backslash]
       (replace_str (backslash # ''012'') [newline]
         (replace_str (backslash # ''011'') [CHR 0x09]
           (replace_str (backslash # ''040'') '' '' s)))"

definition parse_mountinfo :: "string \<Rightarrow> mount_info option" where
  "parse_mountinfo line =
     Option.bind (split_str '' - '' line) (\<lambda>(mount, filesystem).
       let fields = split_whitespace mount in
       if length fields < 5 then None
       else Option.bind (parse_u64 (fields ! 0)) (\<lambda>i.
            Option.bind (parse_u64 (fields ! 1)) (\<lambda>parent.
            case split_whitespace filesystem of
              [] \<Rightarrow> None
            | fs # _ \<Rightarrow> Some \<lparr>mi_id = i, mi_parent = parent, mi_device = fields ! 2,
                mi_root = unescape_mountinfo (fields ! 3),
                mi_mountpoint = path_components (unescape_mountinfo (fields ! 4)), mi_filesystem = fs\<rparr>)))"

text \<open>\<open>Path::starts_with\<close> and \<open>Path::parent\<close> on components.\<close>

definition below :: "mount_path \<Rightarrow> mount_path \<Rightarrow> bool" where
  "below p q = prefix q p"

definition path_parent :: "mount_path \<Rightarrow> mount_path option" where
  "path_parent p = (if p = [] \<or> p = [RootDir] then None else Some (butlast p))"

text \<open>\<open>max_by_key\<close> on the number of components: the last of the deepest.\<close>

fun deepest :: "mount_info list \<Rightarrow> mount_info option" where
  "deepest [] = None"
| "deepest (m # ms) =
     (case deepest ms of
        None \<Rightarrow> Some m
      | Some n \<Rightarrow> if length (mi_mountpoint n) < length (mi_mountpoint m) then Some m else Some n)"

lemma deepest_in: "deepest ms = Some m \<Longrightarrow> m \<in> set ms"
  by (induction ms arbitrary: m) (auto split: option.splits if_splits)

text \<open>The loop of \<open>visible_mount\<close>: to the one mount on top of this one, until there is none.\<close>

partial_function (option) topmost :: "mount_info list \<Rightarrow> mount_info \<Rightarrow> mount_info option option" where
  "topmost candidates visible =
     (case filter (\<lambda>m. mi_parent m = mi_id visible) candidates of
        [] \<Rightarrow> Some (Some visible)
      | child # others \<Rightarrow> if others \<noteq> [] then Some None else topmost candidates child)"

definition top_of_stack :: "mount_info list \<Rightarrow> nat option \<Rightarrow> mount_info option option" where
  "top_of_stack candidates enclosing =
     (case filter (\<lambda>m. case enclosing of None \<Rightarrow> True | Some parent \<Rightarrow> mi_parent m = parent) candidates of
        [] \<Rightarrow> Some None
      | visible # others \<Rightarrow> if others \<noteq> [] then Some None else topmost candidates visible)"

definition enclosing_mount :: "mount_info list \<Rightarrow> mount_path \<Rightarrow> mount_info option" where
  "enclosing_mount mounts p =
     Option.bind (path_parent p) (\<lambda>parent.
       deepest (filter (\<lambda>m. mi_mountpoint m \<noteq> p \<and> below parent (mi_mountpoint m)) mounts))"

lemma enclosing_shorter:
  assumes "enclosing_mount mounts p = Some m"
  shows "length (mi_mountpoint m) < length p"
proof -
  from assms have "p \<noteq> []" "prefix (mi_mountpoint m) (butlast p)"
    by (auto simp: enclosing_mount_def path_parent_def below_def bind_eq_Some_conv split: if_splits dest!: deepest_in)
  then have "length (mi_mountpoint m) \<le> length p - 1" using prefix_length_le by fastforce
  with \<open>p \<noteq> []\<close> show ?thesis by (cases p) auto
qed

function visible_mount :: "mount_info list \<Rightarrow> mount_path \<Rightarrow> mount_info option option" where
  "visible_mount mounts p =
     (let candidates = filter (\<lambda>m. mi_mountpoint m = p) mounts in
      if candidates = [] then Some None
      else (case enclosing_mount mounts p of
          None \<Rightarrow> top_of_stack candidates None
        | Some m \<Rightarrow> Option.bind (visible_mount mounts (mi_mountpoint m))
                      (\<lambda>v. top_of_stack candidates (map_option mi_id v))))"
  by pat_completeness auto
termination
  by (relation "measure (\<lambda>(mounts, p). length p)") (auto dest: enclosing_shorter)

declare visible_mount.simps [simp del]

definition roots_are_disjoint :: "string \<Rightarrow> string \<Rightarrow> bool" where
  "roots_are_disjoint left right =
     (\<not> below (path_components left) (path_components right) \<and> \<not> below (path_components right) (path_components left))"

text \<open>\<open>mountinfo\<close> is \<open>None\<close> when the table cannot be read.\<close>

definition overlay_warning_is_unrelated :: "string \<Rightarrow> mount_path \<Rightarrow> string option \<Rightarrow> bool option" where
  "overlay_warning_is_unrelated line home mountinfo =
     (case Option.bind (split_str ''overlay file system '' line) (\<lambda>(_, rest).
         case split_whitespace rest of [] \<Rightarrow> None | w # _ \<Rightarrow> Some (path_components w)) of
        None \<Rightarrow> Some False
      | Some warned_path \<Rightarrow>
          if below home warned_path then Some False
          else (case mountinfo of
              None \<Rightarrow> Some False
            | Some text \<Rightarrow>
                let mounts = List.map_filter parse_mountinfo (str_lines text) in
                Option.bind (visible_mount mounts warned_path) (\<lambda>warned.
                  case warned of
                    None \<Rightarrow> Some False
                  | Some w \<Rightarrow>
                      if mi_filesystem w \<noteq> ''overlay'' then Some False
                      else (case deepest (filter (\<lambda>m. below home (mi_mountpoint m)) mounts) of
                          None \<Rightarrow> Some False
                        | Some m \<Rightarrow> Option.bind (visible_mount mounts (mi_mountpoint m)) (\<lambda>home_mount.
                            case home_mount of
                              None \<Rightarrow> Some False
                            | Some h \<Rightarrow> Some (mi_id w \<noteq> mi_id h
                                \<and> (mi_device w \<noteq> mi_device h \<or> roots_are_disjoint (mi_root w) (mi_root h))
                                \<and> \<not> below home (mi_mountpoint w)))))))"

section \<open>Diagnostics\<close>

text \<open>\<open>WARNING: can't stat() \<dots>\<close> with its apostrophe.\<close>

definition cannot_stat :: "string \<Rightarrow> string" where
  "cannot_stat what = ''WARNING: can'' @ [CHR 0x27] @ ''t stat() '' @ what"

definition harmless_lsof_warning :: "string \<Rightarrow> mount_path \<Rightarrow> string option \<Rightarrow> bool option" where
  "harmless_lsof_warning raw home mountinfo =
     (let line = from_utf8_lossy raw in
      if contains (cannot_stat ''nsfs file system /run/docker/netns/'') line
       \<or> contains (cannot_stat ''tracefs file system /sys/kernel/debug/tracing'') line
       \<or> contains (cannot_stat ''tracefs file system /sys/kernel/tracing'') line then Some True
      else if contains (cannot_stat ''overlay file system /var/lib/docker/'') line
      then overlay_warning_is_unrelated line home mountinfo
      else Some False)"

text \<open>Whether any line is a diagnostic of its own, given whether the line before was a harmless warning.\<close>

fun real_diagnostic :: "mount_path \<Rightarrow> string option \<Rightarrow> bool \<Rightarrow> string list \<Rightarrow> bool option" where
  "real_diagnostic home mountinfo after_warning [] = Some False"
| "real_diagnostic home mountinfo after_warning (line # lines) =
     (if line = [] then real_diagnostic home mountinfo after_warning lines
      else Option.bind (harmless_lsof_warning line home mountinfo) (\<lambda>harmless.
        if harmless then real_diagnostic home mountinfo True lines
        else if after_warning \<and> trim (from_utf8_lossy line) = ''Output information may be incomplete.''
        then real_diagnostic home mountinfo False lines
        else Some True))"

text \<open>\<open>lsof\<close>: whether its answer may be used.\<close>

definition lsof_usable :: "mount_path \<Rightarrow> string option \<Rightarrow> lsof_output \<Rightarrow> bool option" where
  "lsof_usable home mountinfo out =
     map_option (\<lambda>diagnostic. \<not> diagnostic \<and> (lo_code out = Some 0 \<or> lo_code out = Some 1 \<and> lo_stdout out = []))
       (real_diagnostic home mountinfo False (split_on newline (lo_stderr out)))"

text \<open>The kernel's trace file systems that are mounted, which \<open>lsof\<close> is told to leave out.\<close>

definition tracefs_exempt :: "string \<Rightarrow> string list" where
  "tracefs_exempt mounts =
     filter (\<lambda>p. list_ex (\<lambda>line. case split_str '' - '' line of
          None \<Rightarrow> False
        | Some (mount, filesystem) \<Rightarrow>
            (let fields = split_whitespace mount in 4 < length fields \<and> fields ! 4 = p)
            \<and> (case split_whitespace filesystem of w # _ \<Rightarrow> w = ''tracefs'' | [] \<Rightarrow> False)) (str_lines mounts))
       [''/sys/kernel/debug/tracing'', ''/sys/kernel/tracing'']"

end
