(* ===== verification/OpenFilesFacts.thy ===== *)
theory OpenFilesFacts
  imports OpenFiles
begin

text \<open>
  What the inventory of open files and the mount table can be relied on for: the field output of
  \<open>lsof\<close> is read completely or refused, and the visible mount of a path is the top of its stack,
  found in finitely many steps unless a mount is its own parent.
\<close>

section \<open>Stacks of mounts\<close>

lemma topmost_top:
  assumes "topmost cs v = Some (Some w)"
  shows "(w = v \<or> w \<in> set cs) \<and> (\<forall>m \<in> set cs. mi_parent m \<noteq> mi_id w)"
proof -
  have "\<forall>w. Some (Some w) = Some r \<longrightarrow> (w = v \<or> w \<in> set cs) \<and> (\<forall>m \<in> set cs. mi_parent m \<noteq> mi_id w)"
    if "topmost cs v = Some r" for r
  proof (rule topmost.raw_induct [where P = "\<lambda>cs v r. \<forall>w. Some (Some w) = Some r \<longrightarrow>
        (w = v \<or> w \<in> set cs) \<and> (\<forall>m \<in> set cs. mi_parent m \<noteq> mi_id w)", OF _ that])
    fix f cs v r
    assume IH: "\<And>cs v r. f cs v = Some r \<Longrightarrow> \<forall>w. Some (Some w) = Some r \<longrightarrow>
        (w = v \<or> w \<in> set cs) \<and> (\<forall>m \<in> set cs. mi_parent m \<noteq> mi_id w)"
      and eq: "(case filter (\<lambda>m. mi_parent m = mi_id v) cs of
          [] \<Rightarrow> Some (Some v)
        | child # others \<Rightarrow> if others \<noteq> [] then Some None else f cs child) = Some r"
    show "\<forall>w. Some (Some w) = Some r \<longrightarrow> (w = v \<or> w \<in> set cs) \<and> (\<forall>m \<in> set cs. mi_parent m \<noteq> mi_id w)"
    proof (cases "filter (\<lambda>m. mi_parent m = mi_id v) cs")
      case Nil
      with eq show ?thesis by (auto simp: filter_empty_conv)
    next
      case (Cons child others)
      then have child: "child \<in> set cs" by (metis filter_is_subset list.set_intros(1) subsetD)
      from eq Cons have "others \<noteq> [] \<and> r = None \<or> f cs child = Some r" by (auto split: if_splits)
      with IH [of cs child r] child show ?thesis by auto
    qed
  qed
  with assms show ?thesis by blast
qed

text \<open>A mount lies on top of a mount of smaller rank.\<close>

definition ranked :: "(mount_info \<Rightarrow> nat) \<Rightarrow> mount_info list \<Rightarrow> bool" where
  "ranked rank mounts = (\<forall>m \<in> set mounts. \<forall>n \<in> set mounts. mi_parent m = mi_id n \<longrightarrow> rank n < rank m)"

lemma topmost_returns:
  assumes "ranked rank cs" "v \<in> set cs" "\<forall>m \<in> set cs. rank m \<le> b"
  shows "\<exists>r. topmost cs v = Some r"
  using assms(2)
proof (induction "b - rank v" arbitrary: v rule: less_induct)
  case less
  show ?case
  proof (cases "filter (\<lambda>m. mi_parent m = mi_id v) cs")
    case Nil
    then show ?thesis by (simp add: topmost.simps [of cs v])
  next
    case (Cons child others)
    then have "child \<in> set (filter (\<lambda>m. mi_parent m = mi_id v) cs)" by (metis list.set_intros(1))
    then have child: "child \<in> set cs" "rank v < rank child"
      using assms(1) less.prems by (auto simp: ranked_def)
    with assms(3) have "b - rank child < b - rank v" by (simp add: diff_less_mono2 less_le_trans)
    from less.hyps [OF this child(1)] Cons show ?thesis by (simp add: topmost.simps [of cs v])
  qed
qed

lemma top_of_stack_returns:
  assumes "ranked rank cs"
  shows "\<exists>r. top_of_stack cs e = Some r"
proof -
  have bound: "\<forall>m \<in> set cs. rank m \<le> sum_list (map rank cs)"
    by (simp add: member_le_sum_list)
  have "v \<in> set cs" if "filter P cs = v # vs" for P v vs
    using that filter_is_subset [of P cs] by (metis list.set_intros(1) subsetD)
  then show ?thesis
    using topmost_returns [OF assms _ bound] by (auto simp: top_of_stack_def split: list.split)
qed

lemma top_of_stack_top:
  assumes "top_of_stack cs e = Some (Some w)"
  shows "w \<in> set cs \<and> (\<forall>m \<in> set cs. mi_parent m \<noteq> mi_id w)"
proof -
  obtain v where v: "filter (\<lambda>m. case e of None \<Rightarrow> True | Some parent \<Rightarrow> mi_parent m = parent) cs = [v]"
      "topmost cs v = Some (Some w)"
    using assms by (auto simp: top_of_stack_def split: list.splits if_splits)
  from v(1) have "v \<in> set cs" by (metis filter_is_subset list.set_intros(1) subsetD)
  with topmost_top [OF v(2)] show ?thesis by auto
qed

lemma ranked_filter: "ranked rank mounts \<Longrightarrow> ranked rank (filter P mounts)"
  by (simp add: ranked_def)

lemma visible_mount_returns: "ranked rank mounts \<Longrightarrow> \<exists>r. visible_mount mounts p = Some r"
proof (induction mounts p rule: visible_mount.induct)
  case (1 mounts p)
  note returns = top_of_stack_returns [OF ranked_filter [OF 1(2)], of "\<lambda>m. mi_mountpoint m = p"]
  show ?case
  proof (cases "enclosing_mount mounts p")
    case None
    with returns [of None] show ?thesis by (subst visible_mount.simps) (simp add: Let_def)
  next
    case (Some m)
    show ?thesis
    proof (cases "filter (\<lambda>m. mi_mountpoint m = p) mounts = []")
      case True
      then show ?thesis by (subst visible_mount.simps) (simp add: Let_def)
    next
      case False
      with 1 Some obtain r where "visible_mount mounts (mi_mountpoint m) = Some r" by blast
      with returns [of "map_option mi_id r"] Some show ?thesis by (subst visible_mount.simps) (simp add: Let_def)
    qed
  qed
qed

lemma visible_mount_top:
  assumes "visible_mount mounts p = Some (Some w)"
  shows "w \<in> set mounts \<and> mi_mountpoint w = p \<and> (\<forall>m \<in> set mounts. mi_mountpoint m = p \<longrightarrow> mi_parent m \<noteq> mi_id w)"
proof -
  have "\<exists>e. top_of_stack (filter (\<lambda>m. mi_mountpoint m = p) mounts) e = Some (Some w)"
    using assms by (subst (asm) visible_mount.simps) (auto simp: Let_def bind_eq_Some_conv split: if_splits option.splits)
  with top_of_stack_top show ?thesis by fastforce
qed

text \<open>The mounts stacked on one path: \<open>stacked cs i w\<close> says that \<open>w\<close> is reached from the mount with id \<open>i\<close>
  by going up at least one mount.\<close>

inductive stacked :: "mount_info list \<Rightarrow> nat \<Rightarrow> mount_info \<Rightarrow> bool" for cs where
  first: "m \<in> set cs \<Longrightarrow> mi_parent m = i \<Longrightarrow> stacked cs i m"
| above: "m \<in> set cs \<Longrightarrow> mi_parent m = i \<Longrightarrow> stacked cs (mi_id m) w \<Longrightarrow> stacked cs i w"

inductive_simps stacked_unfold: "stacked cs i w"

definition uncovered :: "mount_info list \<Rightarrow> mount_info \<Rightarrow> bool" where
  "uncovered cs w = (\<forall>m \<in> set cs. mi_parent m \<noteq> mi_id w)"

text \<open>The kernel mounts at most one file system on a directory of a mount.\<close>

definition one_on_top :: "mount_info list \<Rightarrow> bool" where
  "one_on_top mounts = (distinct mounts \<and> (\<forall>m \<in> set mounts. \<forall>n \<in> set mounts.
     mi_parent m = mi_parent n \<longrightarrow> mi_mountpoint m = mi_mountpoint n \<longrightarrow> m = n))"

definition mounts_at :: "mount_path \<Rightarrow> mount_info list \<Rightarrow> mount_info list" where
  "mounts_at p mounts = filter (\<lambda>m. mi_mountpoint m = p) mounts"

lemma at_most_one:
  assumes "distinct xs" "\<forall>x \<in> set xs. \<forall>y \<in> set xs. x = y"
  shows "xs = [] \<or> (\<exists>x. xs = [x])"
proof (cases xs)
  case (Cons x ys)
  have "ys = []"
  proof (rule ccontr)
    assume "ys \<noteq> []"
    then obtain y where "y \<in> set ys" by (cases ys) auto
    with assms(2) Cons have "x = y" by (metis list.set_intros)
    with assms(1) Cons \<open>y \<in> set ys\<close> show False by simp
  qed
  with Cons show ?thesis by blast
qed simp

lemma children_unique:
  assumes "one_on_top mounts" "cs = mounts_at p mounts"
  shows "filter (\<lambda>m. mi_parent m = i) cs = [] \<or> (\<exists>m. filter (\<lambda>m. mi_parent m = i) cs = [m])"
proof -
  have "distinct cs" "\<forall>m \<in> set cs. \<forall>n \<in> set cs. mi_parent m = mi_parent n \<longrightarrow> m = n"
    using assms by (auto simp: one_on_top_def mounts_at_def)
  then have "distinct (filter (\<lambda>m. mi_parent m = i) cs)"
    "\<forall>m \<in> set (filter (\<lambda>m. mi_parent m = i) cs). \<forall>n \<in> set (filter (\<lambda>m. mi_parent m = i) cs). m = n"
    by auto
  then show ?thesis by (rule at_most_one)
qed

lemma filter_single: "filter P xs = [x] \<Longrightarrow> y \<in> set xs \<and> P y \<longleftrightarrow> y = x"
proof -
  assume "filter P xs = [x]"
  then have "set (filter P xs) = {x}" by simp
  then show ?thesis by auto
qed

lemma stacked_single:
  assumes "filter (\<lambda>m. mi_parent m = i) cs = [v]"
  shows "stacked cs i w \<longleftrightarrow> w = v \<or> stacked cs (mi_id v) w"
proof
  assume "stacked cs i w"
  then show "w = v \<or> stacked cs (mi_id v) w"
  proof cases
    case first
    then have "w = v" using filter_single [OF assms, of w] by simp
    then show ?thesis ..
  next
    case (above m)
    then have "m = v" using filter_single [OF assms, of m] by simp
    with above(3) show ?thesis by simp
  qed
next
  have "v \<in> set cs" "mi_parent v = i" using filter_single [OF assms, of v] by simp_all
  then show "w = v \<or> stacked cs (mi_id v) w \<Longrightarrow> stacked cs i w"
    using stacked.first [of v cs i] stacked.above [of v cs i w] by blast
qed

lemma topmost_iff:
  assumes "ranked rank cs" "one_on_top mounts" "cs = mounts_at p mounts" "v \<in> set cs" "\<forall>m \<in> set cs. rank m \<le> b"
  shows "topmost cs v = Some (Some w) \<longleftrightarrow> (w = v \<or> stacked cs (mi_id v) w) \<and> uncovered cs w"
  using assms(4)
proof (induction "b - rank v" arbitrary: v rule: less_induct)
  case less
  consider (none) "filter (\<lambda>m. mi_parent m = mi_id v) cs = []"
    | (one) child where "filter (\<lambda>m. mi_parent m = mi_id v) cs = [child]"
    using children_unique [OF assms(2,3)] by blast
  then show ?case
  proof cases
    case none
    then have "\<not> stacked cs (mi_id v) w" "uncovered cs v"
      unfolding stacked_unfold [of cs "mi_id v"] uncovered_def filter_empty_conv by blast+
    moreover have "topmost cs v = Some (Some v)" by (subst topmost.simps) (simp only: none list.case)
    ultimately show ?thesis by (metis option.inject)
  next
    case one
    note child = filter_single [OF one]
    have "child \<in> set cs" "rank v < rank child"
      using child [of child] assms(1) less.prems by (auto simp: ranked_def)
    with assms(5) have "b - rank child < b - rank v" by (simp add: diff_less_mono2 less_le_trans)
    note IH = less.hyps [OF this \<open>child \<in> set cs\<close>]
    have "\<not> uncovered cs v" using child [of child] unfolding uncovered_def by blast
    moreover note stacked_single [OF one, of w]
    moreover have "topmost cs v = topmost cs child" by (subst topmost.simps) (simp only: one list.case if_False simp_thms)
    ultimately show ?thesis using IH by metis
  qed
qed

lemma top_of_stack_iff:
  assumes "ranked rank mounts" "one_on_top mounts" "cs = mounts_at p mounts"
  shows "top_of_stack cs e = Some (Some w) \<longleftrightarrow>
     (case e of None \<Rightarrow> cs = [w] | Some i \<Rightarrow> stacked cs i w \<and> uncovered cs w)"
proof -
  have r: "ranked rank cs" using ranked_filter [OF assms(1)] assms(3) by (simp add: mounts_at_def)
  have bound: "\<forall>m \<in> set cs. rank m \<le> sum_list (map rank cs)" by (simp add: member_le_sum_list)
  note top = topmost_iff [OF r assms(2,3) _ bound]
  show ?thesis
  proof (cases e)
    case None
    have "topmost [v] v = Some (Some w) \<longleftrightarrow> w = v" if "cs = [v]" for v
    proof -
      have "mi_parent v \<noteq> mi_id v" using r that by (simp add: ranked_def)
      then have "topmost [v] v = Some (Some v)" by (subst topmost.simps) simp
      then show ?thesis by auto
    qed
    moreover have "top_of_stack cs None = (case cs of [] \<Rightarrow> Some None | v # others \<Rightarrow> if others \<noteq> [] then Some None else topmost cs v)"
      by (simp add: top_of_stack_def)
    ultimately show ?thesis unfolding None by (simp split: list.split) blast
  next
    case (Some i)
    consider (none) "filter (\<lambda>m. mi_parent m = i) cs = []" | (one) v where "filter (\<lambda>m. mi_parent m = i) cs = [v]"
      using children_unique [OF assms(2,3)] by blast
    then show ?thesis
    proof cases
      case none
      then have "\<not> stacked cs i w" unfolding stacked_unfold [of cs i] filter_empty_conv by blast
      moreover have "top_of_stack cs e = Some None" by (simp only: top_of_stack_def Some option.case none list.case)
      ultimately show ?thesis by (simp add: Some)
    next
      case one
      note v = filter_single [OF one]
      have "v \<in> set cs" using v by blast
      moreover note stacked_single [OF one, of w]
      moreover have "top_of_stack cs e = topmost cs v"
        by (simp only: top_of_stack_def Some option.case one list.case if_False simp_thms)
      ultimately show ?thesis using top [of v w] by (simp add: Some)
    qed
  qed
qed

text \<open>The visible mount of the deepest mount point above a path, if there is one.\<close>

definition covering :: "mount_info list \<Rightarrow> mount_path \<Rightarrow> mount_info option" where
  "covering mounts p = Option.bind (enclosing_mount mounts p) (\<lambda>e.
     case visible_mount mounts (mi_mountpoint e) of None \<Rightarrow> None | Some v \<Rightarrow> v)"

text \<open>C26: following the mounts on a path ends, on every table in which no mount is, directly or through
  others, its own parent and no directory of a mount is mounted twice. It ends at a mount exactly
  if there is one on that path, stacked on the mount visible above it, with no other on top:
  that mount. Where no mount is visible above, it ends at a mount exactly if that is the only one there.\<close>
theorem mount_stack_is_followed:
  assumes "ranked rank mounts" and "one_on_top mounts"
  shows "\<exists>r. visible_mount mounts p = Some r
    \<and> (\<forall>w. r = Some w \<longleftrightarrow>
         (case covering mounts p of
            None \<Rightarrow> mounts_at p mounts = [w]
          | Some v \<Rightarrow> stacked (mounts_at p mounts) (mi_id v) w \<and> uncovered (mounts_at p mounts) w))"
proof -
  obtain r where r: "visible_mount mounts p = Some r" using visible_mount_returns [OF assms(1)] by blast
  have "visible_mount mounts p = Some (Some w) \<longleftrightarrow>
      top_of_stack (mounts_at p mounts) (map_option mi_id (covering mounts p)) = Some (Some w)" for w
  proof (cases "mounts_at p mounts = []")
    case True
    then have "top_of_stack (mounts_at p mounts) e = Some None" for e by (simp add: top_of_stack_def)
    with True show ?thesis by (subst visible_mount.simps) (simp add: Let_def mounts_at_def)
  next
    case False
    show ?thesis
    proof (cases "enclosing_mount mounts p")
      case None
      with False show ?thesis
        by (subst visible_mount.simps) (simp add: Let_def mounts_at_def covering_def)
    next
      case (Some e)
      obtain v where "visible_mount mounts (mi_mountpoint e) = Some v" using visible_mount_returns [OF assms(1)] by blast
      with Some False show ?thesis
        by (subst visible_mount.simps) (simp add: Let_def mounts_at_def covering_def)
    qed
  qed
  then have "r = Some w \<longleftrightarrow> (case covering mounts p of
            None \<Rightarrow> mounts_at p mounts = [w]
          | Some v \<Rightarrow> stacked (mounts_at p mounts) (mi_id v) w \<and> uncovered (mounts_at p mounts) w)" for w
    using top_of_stack_iff [OF assms refl, of p "map_option mi_id (covering mounts p)" w]
    unfolding r by (simp split: option.splits)
  with r show ?thesis by blast
qed

lemma topmost_own_parent:
  fixes m :: mount_info
  assumes "mi_parent m = mi_id m"
  shows "topmost [m] m = None"
proof -
  have "cs = [m] \<longrightarrow> v = m \<longrightarrow> False" if "topmost cs v = Some r"
    for cs :: "mount_info list" and v :: mount_info and r
  proof (rule topmost.raw_induct [where P = "\<lambda>cs v r. cs = [m] \<longrightarrow> v = m \<longrightarrow> False", OF _ that])
    fix f and cs :: "mount_info list" and v :: mount_info and r
    assume IH: "\<And>cs (v :: mount_info) r. f cs v = Some r \<Longrightarrow> cs = [m] \<longrightarrow> v = m \<longrightarrow> False"
      and eq: "(case filter (\<lambda>m. mi_parent m = mi_id v) cs of
          [] \<Rightarrow> Some (Some v)
        | child # others \<Rightarrow> if others \<noteq> [] then Some None else f cs child) = Some r"
    show "cs = [m] \<longrightarrow> v = m \<longrightarrow> False"
      using IH [of "[m]" m r] eq assms by auto
  qed
  then show ?thesis by (metis not_Some_eq)
qed

lemma deepest_none: "deepest ms = None \<longleftrightarrow> ms = []"
  by (cases ms) (auto split: option.splits)

text \<open>C27: the mount table lists the root of a mount tree with itself as its parent (\<open>proc(5)\<close>). On every
  table that lists it so, once, at the root directory, no search returns: not for the root
  directory, and not for any other mount point, as all of them are below it.\<close>
theorem own_parent_never_returns:
  fixes m :: mount_info
  assumes "mounts_at [RootDir] mounts = [m]" and "mi_parent m = mi_id m"
    and "\<forall>n \<in> set mounts. \<exists>q. mi_mountpoint n = RootDir # q" and "p \<in> mi_mountpoint ` set mounts"
  shows "visible_mount mounts p = None"
proof -
  have "p \<in> mi_mountpoint ` set ms \<Longrightarrow> ms = mounts \<Longrightarrow> visible_mount ms p = None" for ms
  proof (induction ms p rule: visible_mount.induct)
    case (1 ms p)
    obtain n where n: "n \<in> set ms" "p = mi_mountpoint n" using 1(2) by blast
    then obtain q where q: "p = RootDir # q" using 1(3) assms(3) by blast
    have some: "filter (\<lambda>m. mi_mountpoint m = p) ms \<noteq> []" unfolding filter_empty_conv using n by blast
    show ?case
    proof (cases "q = []")
      case True
      then have "enclosing_mount ms p = None" by (simp add: enclosing_mount_def path_parent_def q)
      moreover have "filter (\<lambda>m. mi_mountpoint m = p) ms = [m]" using assms(1) 1(3) q True by (simp add: mounts_at_def)
      ultimately show ?thesis
        using topmost_own_parent [OF assms(2)]
        by (subst visible_mount.simps) (simp add: Let_def top_of_stack_def)
    next
      case False
      have m: "m \<in> set ms" "mi_mountpoint m = [RootDir]"
        using filter_single [OF assms(1) [unfolded mounts_at_def], of m] 1(3) by auto
      have "prefix [RootDir] (butlast p)" using False by (cases q) (simp_all add: q)
      then have "m \<in> set (filter (\<lambda>m. mi_mountpoint m \<noteq> p \<and> below (butlast p) (mi_mountpoint m)) ms)"
        using m False by (simp add: below_def q)
      then have "filter (\<lambda>m. mi_mountpoint m \<noteq> p \<and> below (butlast p) (mi_mountpoint m)) ms \<noteq> []" (is "?above \<noteq> []")
        by (metis empty_iff list.set(1))
      then obtain e where e': "deepest ?above = Some e" using deepest_none by blast
      have "path_parent p = Some (butlast p)" using False by (simp add: path_parent_def q)
      then have e: "enclosing_mount ms p = Some e" using e' by (simp add: enclosing_mount_def)
      have "e \<in> set ms" using deepest_in [OF e'] by simp
      then have "mi_mountpoint e \<in> mi_mountpoint ` set ms" by (rule imageI)
      then have "visible_mount ms (mi_mountpoint e) = None" by (rule 1(1) [OF refl some e _ 1(3)])
      with some e show ?thesis by (subst visible_mount.simps) (simp add: Let_def)
    qed
  qed
  from this [OF assms(4) refl] show ?thesis .
qed

section \<open>The field output\<close>

text \<open>What \<open>lsof -F pDi\<close> prints: the fields of a process, then those of each of its files.\<close>

fun hex_nat :: "nat \<Rightarrow> string" where
  "hex_nat n = (let c = (\<lambda>k. char_of (if k < 10 then 48 + k else 87 + k)) in
     if n < 16 then [c n] else hex_nat (n div 16) @ [c (n mod 16)])"

declare hex_nat.simps [simp del]

type_synonym listed_file = "string \<times> nat option \<times> nat option"

definition file_fields :: "listed_file \<Rightarrow> string list" where
  "file_fields = (\<lambda>(fd, device, inode).
     (CHR ''f'' # fd) # (case device of None \<Rightarrow> [] | Some d \<Rightarrow> [''D0x'' @ hex_nat d])
       @ (case inode of None \<Rightarrow> [] | Some i \<Rightarrow> [CHR ''i'' # dec_nat i]))"

definition process_fields :: "nat \<times> listed_file list \<Rightarrow> string list" where
  "process_fields = (\<lambda>(pid, fs). (CHR ''p'' # dec_nat pid) # concat (map file_fields fs))"

definition field_output :: "(nat \<times> listed_file list) list \<Rightarrow> string" where
  "field_output ps = concat (map (\<lambda>l. l @ [newline]) (concat (map process_fields ps)))"

definition listed_ok :: "listed_file \<Rightarrow> bool" where
  "listed_ok = (\<lambda>(fd, device, inode). newline \<notin> set fd \<and> pred_option (\<lambda>d. d < 2 ^ 64) device
     \<and> pred_option (\<lambda>i. i < 2 ^ 64) inode)"

lemma split_on_append: "c \<notin> set a \<Longrightarrow> split_on c (a @ c # b) = a # split_on c b"
  by (induction a) auto

lemma split_on_lines:
  "\<forall>l \<in> set ls. c \<notin> set l \<Longrightarrow> split_on c (concat (map (\<lambda>l. l @ [c]) ls)) = ls @ [[]]"
  by (induction ls) (simp_all add: split_on_append)

lemma hex_char_facts:
  assumes "k < 16"
  defines "c \<equiv> char_of (if k < 10 then 48 + k else 87 + k) :: char"
  shows "ascii_hexdigit c" "hex_digit c = k" "c \<noteq> CHR ''x''" "c \<noteq> newline" "c \<noteq> CHR ''+''"
proof -
  have code: "of_char c = (if k < 10 then 48 + k else 87 + k)"
    unfolding c_def using assms(1) by simp
  have other: "c \<noteq> d" if "of_char d \<in> {10, 43, 120 :: nat}" for d
    using that code assms(1) by (auto split: if_splits)
  show "ascii_hexdigit c" "hex_digit c = k"
    using code assms(1) by (auto simp: ascii_hexdigit_def ascii_digit_def hex_digit_def byte_def of_char_ascii_lower_char)
  show "c \<noteq> CHR ''x''" "c \<noteq> newline" "c \<noteq> CHR ''+''"
    by (rule other; simp add: newline_def)+
qed

lemma hex_nat_chars: "c \<in> set (hex_nat n) \<Longrightarrow> ascii_hexdigit c \<and> c \<noteq> CHR ''x'' \<and> c \<noteq> newline \<and> c \<noteq> CHR ''+''"
proof (induction n rule: hex_nat.induct)
  case (1 n)
  show ?case
  proof (cases "n < 16")
    case True
    with 1(2) hex_char_facts [of n] show ?thesis by (subst (asm) hex_nat.simps) (auto simp: Let_def)
  next
    case False
    with 1 hex_char_facts [of "n mod 16"] show ?thesis by (subst (asm) hex_nat.simps) (auto simp: Let_def)
  qed
qed

lemma hex_nat_nonempty: "hex_nat n \<noteq> []"
  by (subst hex_nat.simps) (simp add: Let_def)

lemma hex_value_hex_nat: "hex_value (hex_nat n) = n"
proof (induction n rule: hex_nat.induct)
  case (1 n)
  show ?case
  proof (cases "n < 16")
    case True
    with hex_char_facts(2) [of n] show ?thesis by (subst hex_nat.simps) (simp add: Let_def hex_value_def)
  next
    case False
    with 1 hex_char_facts(2) [of "n mod 16"] show ?thesis
      by (subst hex_nat.simps) (simp add: Let_def hex_value_def)
  qed
qed

lemma trim_0x_hex: "trim_0x (''0x'' @ hex_nat n) = hex_nat n"
proof -
  have "\<not> starts_with ''0x'' (hex_nat n)"
  proof
    assume "starts_with ''0x'' (hex_nat n)"
    then have "take 2 (hex_nat n) = ''0x''" by (simp add: starts_with_def numeral_2_eq_2)
    then have "CHR ''x'' \<in> set (take 2 (hex_nat n))" by simp
    then show False using hex_nat_chars in_set_takeD by fastforce
  qed
  then show ?thesis by (subst trim_0x.simps, simp, subst trim_0x.simps, simp)
qed

lemma parse_hex_hex_nat: "n < 2 ^ 64 \<Longrightarrow> parse_hex_u64 (hex_nat n) = Some n"
proof -
  assume "n < 2 ^ 64"
  moreover have "unsigned_digits (hex_nat n) = hex_nat n"
    using hex_nat_chars [of _ n] by (cases "hex_nat n") (auto simp: unsigned_digits_def)
  ultimately show ?thesis
    using hex_nat_chars [of _ n] by (auto simp: parse_hex_u64_def Let_def hex_value_hex_nat hex_nat_nonempty list_all_iff)
qed

lemma dec_nat_nonempty: "dec_nat n \<noteq> []"
  by (subst dec_nat.simps) simp

lemma parse_u64_dec_nat: "n < 2 ^ 64 \<Longrightarrow> parse_u64 (dec_nat n) = Some n"
proof -
  assume n: "n < 2 ^ 64"
  have "list_all ascii_digit (dec_nat n)" by (simp add: list_all_iff dec_nat_digits)
  have "CHR ''+'' \<notin> set (dec_nat n)"
  proof
    assume "CHR ''+'' \<in> set (dec_nat n)"
    from dec_nat_digits [OF this] show False by (simp add: ascii_digit_def)
  qed
  then have "unsigned_digits (dec_nat n) = dec_nat n"
    by (cases "dec_nat n") (auto simp: unsigned_digits_def)
  with \<open>list_all ascii_digit (dec_nat n)\<close> show ?thesis
    unfolding parse_u64_def Let_def using n dec_nat_nonempty by (simp add: not_le)
qed

definition identified :: "listed_file list \<Rightarrow> (nat \<times> nat) set" where
  "identified fs = {(d, i). \<exists>fd. (fd, Some d, Some i) \<in> set fs}"

lemma inventory_file:
  assumes "listed_ok f"
  shows "\<exists>dev. foldl inventory_line (Some \<lparr>iv_device = x, iv_files = s\<rparr>) (file_fields f)
      = Some \<lparr>iv_device = dev, iv_files = s \<union> identified [f]\<rparr>"
proof -
  obtain fd device inode where f: "f = (fd, device, inode)" by (cases f) auto
  show ?thesis
    using assms trim_0x_hex
    by (cases device; cases inode)
      (auto simp: f file_fields_def listed_ok_def inventory_line_def identified_def parse_hex_hex_nat parse_u64_dec_nat)
qed

lemma inventory_files:
  "\<forall>f \<in> set fs. listed_ok f \<Longrightarrow> \<exists>dev. foldl inventory_line (Some \<lparr>iv_device = x, iv_files = s\<rparr>) (concat (map file_fields fs))
      = Some \<lparr>iv_device = dev, iv_files = s \<union> identified fs\<rparr>"
proof (induction fs arbitrary: x s)
  case (Cons f fs)
  then obtain dev where "foldl inventory_line (Some \<lparr>iv_device = x, iv_files = s\<rparr>) (file_fields f)
      = Some \<lparr>iv_device = dev, iv_files = s \<union> identified [f]\<rparr>" using inventory_file by fastforce
  moreover have "identified (f # fs) = identified [f] \<union> identified fs" by (auto simp: identified_def)
  ultimately show ?case using Cons.IH [of dev "s \<union> identified [f]"] Cons.prems by (simp add: Un_assoc)
qed (simp add: identified_def)

lemma inventory_processes:
  "\<forall>(pid, fs) \<in> set ps. \<forall>f \<in> set fs. listed_ok f \<Longrightarrow>
     \<exists>dev. foldl inventory_line (Some \<lparr>iv_device = x, iv_files = s\<rparr>) (concat (map process_fields ps))
      = Some \<lparr>iv_device = dev, iv_files = s \<union> (\<Union>(pid, fs) \<in> set ps. identified fs)\<rparr>"
proof (induction ps arbitrary: x s)
  case (Cons p ps)
  obtain pid fs where p: "p = (pid, fs)" by fastforce
  with Cons.prems inventory_files [of fs None s] obtain dev where
    "foldl inventory_line (Some \<lparr>iv_device = x, iv_files = s\<rparr>) (process_fields p)
      = Some \<lparr>iv_device = dev, iv_files = s \<union> identified fs\<rparr>"
    by (auto simp: process_fields_def inventory_line_def)
  with Cons.IH [of dev "s \<union> identified fs"] Cons.prems p show ?case by (auto simp: Un_assoc)
qed simp

lemma field_lines: "\<forall>(pid, fs) \<in> set ps. \<forall>f \<in> set fs. listed_ok f \<Longrightarrow>
    l \<in> set (concat (map process_fields ps)) \<Longrightarrow> newline \<notin> set l"
  using hex_nat_chars dec_nat_digits
  by (fastforce simp: process_fields_def file_fields_def listed_ok_def newline_def ascii_digit_def split: option.splits)

text \<open>C29: the inventory of open files is complete: for every listing of processes and their open files,
  whatever their descriptors are called and whichever of them have no device or inode,
  reading \<open>lsof\<close>'s field output gives exactly the device and inode pairs of the files that have both.\<close>
theorem inventory_is_complete:
  assumes "\<forall>(pid, fs) \<in> set ps. \<forall>f \<in> set fs. listed_ok f"
  shows "open_files (field_output ps) = Some {(d, i). \<exists>pid fs fd. (pid, fs) \<in> set ps \<and> (fd, Some d, Some i) \<in> set fs}"
proof -
  have "split_on newline (field_output ps) = concat (map process_fields ps) @ [[]]"
    unfolding field_output_def using field_lines [OF assms] by (intro split_on_lines) blast
  moreover obtain dev where "foldl inventory_line (Some \<lparr>iv_device = None, iv_files = {}\<rparr>) (concat (map process_fields ps))
      = Some \<lparr>iv_device = dev, iv_files = (\<Union>(pid, fs) \<in> set ps. identified fs)\<rparr>"
    using inventory_processes [OF assms, of None "{}"] by auto
  ultimately show ?thesis by (auto simp: open_files_def inventory_line_def identified_def)
qed

text \<open>A diagnostic that is not known to be harmless makes the answer unusable.\<close>

lemma unknown_diagnostic_refused:
  assumes "line \<in> set lines" "line \<noteq> []" "harmless_lsof_warning line home mountinfo = Some False"
    and "trim (from_utf8_lossy line) \<noteq> ''Output information may be incomplete.''"
  shows "real_diagnostic home mountinfo after lines \<noteq> Some False"
  using assms by (induction lines arbitrary: after) (auto split: option.splits simp: bind_eq_Some_conv)


section \<open>Witnesses\<close>

definition demo_mount :: "nat \<Rightarrow> nat \<Rightarrow> mount_path \<Rightarrow> mount_info" where
  "demo_mount i parent p = \<lparr>mi_id = i, mi_parent = parent, mi_device = ''0:1'', mi_root = ''/'',
     mi_mountpoint = p, mi_filesystem = ''overlay''\<rparr>"

abbreviation demo_data :: mount_path where
  "demo_data \<equiv> [RootDir, Normal ''data'']"

abbreviation demo_table :: "nat \<Rightarrow> mount_info list" where
  "demo_table i \<equiv> [demo_mount 1 i [RootDir], demo_mount 2 1 demo_data, demo_mount 3 2 demo_data]"

theorem mount_stack_is_followed_witness:
  "visible_mount (demo_table 0) demo_data = Some (Some (demo_mount 3 2 demo_data))"
proof -
  have table: "ranked mi_id (demo_table 0)" "one_on_top (demo_table 0)"
    by (simp_all add: ranked_def one_on_top_def demo_mount_def)
  note spec = mount_stack_is_followed [OF table]
  have "covering (demo_table 0) [RootDir] = None"
    by (simp add: covering_def enclosing_mount_def path_parent_def)
  with spec [of "[RootDir]"] have root: "visible_mount (demo_table 0) [RootDir] = Some (Some (demo_mount 1 0 [RootDir]))"
    by (simp add: mounts_at_def demo_mount_def) metis
  then have "covering (demo_table 0) demo_data = Some (demo_mount 1 0 [RootDir])"
    by (simp add: covering_def enclosing_mount_def path_parent_def below_def demo_mount_def)
  moreover have "stacked (mounts_at demo_data (demo_table 0)) 1 (demo_mount 3 2 demo_data)"
    by (rule stacked.above [of "demo_mount 2 1 demo_data"], simp_all add: mounts_at_def demo_mount_def)
      (rule stacked.first, simp_all)
  moreover have "uncovered (mounts_at demo_data (demo_table 0)) (demo_mount 3 2 demo_data)"
    by (simp add: uncovered_def mounts_at_def demo_mount_def)
  ultimately show ?thesis using spec [of demo_data] by (simp add: demo_mount_def) metis
qed

theorem own_parent_never_returns_witness:
  "visible_mount (demo_table 1) [RootDir] = None \<and> visible_mount (demo_table 1) demo_data = None"
proof -
  have "mounts_at [RootDir] (demo_table 1) = [demo_mount 1 1 [RootDir]]"
    "mi_parent (demo_mount 1 1 [RootDir]) = mi_id (demo_mount 1 1 [RootDir])"
    "\<forall>n \<in> set (demo_table 1). \<exists>q. mi_mountpoint n = RootDir # q"
    by (simp_all add: mounts_at_def demo_mount_def)
  note never = own_parent_never_returns [OF this]
  have "[RootDir] \<in> mi_mountpoint ` set (demo_table 1)" "demo_data \<in> mi_mountpoint ` set (demo_table 1)"
    by (simp_all add: demo_mount_def)
  with never show ?thesis by blast
qed

theorem inventory_is_complete_witness:
  "open_files (field_output [(7, [(''3u'', Some 66, Some 9), (''4r'', None, Some 8)])]) = Some {(66, 9)}"
proof -
  let ?ps = "[(7, [(''3u'', Some 66, Some 9), (''4r'', None, Some 8)])] :: (nat \<times> listed_file list) list"
  have "\<forall>(pid, fs) \<in> set ?ps. \<forall>f \<in> set fs. listed_ok f" by (simp add: listed_ok_def newline_def)
  from inventory_is_complete [OF this] show ?thesis by auto
qed

end
