(* ===== verification/Floats.thy ===== *)
theory Floats
  imports Prelude Complex_Main "HOL-Library.Product_Lexorder"
begin

text \<open>
  \<open>f64\<close> as the program uses it: percentages, rates and scores that are compared, added
  and doubled. A finite value is its exact rational; both zeros, the infinities and NaN
  (one per sign, since no code reads a payload) are values of their own. Rounding is the
  function \<open>rnd\<close> from exact results to \<open>f64\<close>, an argument of the operations that can
  round. The class order of \<open>f64\<close> is \<open>total_cmp\<close>; IEEE comparison is \<open>f64_lt\<close> and
  \<open>f64_le\<close>. Below it are \<open>std::cmp::Ordering\<close> and \<open>Iterator::min_by\<close>.
\<close>

section \<open>Values and comparison\<close>

datatype f64 = NegNaN | NegInf | NegZero | Fin rat | PosInf | PosNaN

fun f64_key :: "f64 \<Rightarrow> nat \<times> rat \<times> nat" where
  "f64_key NegNaN = (0, 0, 0)"
| "f64_key NegInf = (1, 0, 0)"
| "f64_key NegZero = (2, 0, 0)"
| "f64_key (Fin r) = (2, r, 1)"
| "f64_key PosInf = (3, 0, 0)"
| "f64_key PosNaN = (4, 0, 0)"

lemma f64_key_inject: "f64_key x = f64_key y \<longleftrightarrow> x = y"
  by (cases x; cases y) auto

text \<open>\<open>f64::total_cmp\<close>.\<close>

instantiation f64 :: linorder
begin

definition less_eq_f64 :: "f64 \<Rightarrow> f64 \<Rightarrow> bool" where
  "less_eq_f64 x y = (f64_key x \<le> f64_key y)"

definition less_f64 :: "f64 \<Rightarrow> f64 \<Rightarrow> bool" where
  "less_f64 x y = (f64_key x < f64_key y)"

instance
proof (intro_classes, goal_cases)
  case (4 x y)
  then show ?case by (simp add: less_eq_f64_def flip: f64_key_inject)
qed (auto simp: less_eq_f64_def less_f64_def)

end

fun is_finite :: "f64 \<Rightarrow> bool" where
  "is_finite (Fin r) = True"
| "is_finite NegZero = True"
| "is_finite _ = False"

fun is_nan :: "f64 \<Rightarrow> bool" where
  "is_nan NegNaN = True"
| "is_nan PosNaN = True"
| "is_nan _ = False"

fun f64_val :: "f64 \<Rightarrow> rat" where
  "f64_val (Fin r) = r"
| "f64_val _ = 0"

text \<open>IEEE 754 comparison: false whenever a NaN takes part, and the zeros are equal.\<close>

fun f64_le :: "f64 \<Rightarrow> f64 \<Rightarrow> bool" where
  "f64_le x y =
     (\<not> is_nan x \<and> \<not> is_nan y
      \<and> (x = NegInf \<or> y = PosInf \<or> (is_finite x \<and> is_finite y \<and> f64_val x \<le> f64_val y)))"

fun f64_lt :: "f64 \<Rightarrow> f64 \<Rightarrow> bool" where
  "f64_lt x y =
     (\<not> is_nan x \<and> \<not> is_nan y
      \<and> (x = NegInf \<and> y \<noteq> NegInf \<or> y = PosInf \<and> x \<noteq> PosInf
         \<or> (is_finite x \<and> is_finite y \<and> f64_val x < f64_val y)))"

declare f64_le.simps [simp del] f64_lt.simps [simp del]

lemma f64_fin_cmp [simp]:
  "f64_le (Fin r) (Fin s) \<longleftrightarrow> r \<le> s" "f64_lt (Fin r) (Fin s) \<longleftrightarrow> r < s"
  by (simp_all add: f64_le.simps f64_lt.simps)

lemma f64_not_lt: "\<not> is_nan x \<Longrightarrow> \<not> is_nan y \<Longrightarrow> f64_lt x y \<longleftrightarrow> \<not> f64_le y x"
  by (cases x; cases y) (auto simp: f64_le.simps f64_lt.simps)

lemma f64_le_trans: "f64_le x y \<Longrightarrow> f64_le y z \<Longrightarrow> f64_le x z"
  by (cases x; cases y; cases z) (auto simp: f64_le.simps)

text \<open>\<open>f64::max\<close>: a NaN operand is ignored.\<close>

definition f64_max :: "f64 \<Rightarrow> f64 \<Rightarrow> f64" where
  "f64_max x y = (if is_nan x then y else if is_nan y then x else if f64_lt x y then y else x)"

text \<open>\<open>f64::MAX\<close>, the default of a missing score or rate.\<close>

definition f64_MAX :: f64 where
  "f64_MAX = Fin (of_int ((2 ^ 53 - 1) * 2 ^ 971))"

section \<open>Rounded arithmetic\<close>

fun f64_neg :: "f64 \<Rightarrow> bool" where
  "f64_neg NegInf = True"
| "f64_neg NegZero = True"
| "f64_neg (Fin r) = (r < 0)"
| "f64_neg _ = False"

definition f64_add :: "(rat \<Rightarrow> f64) \<Rightarrow> f64 \<Rightarrow> f64 \<Rightarrow> f64" where
  "f64_add rnd x y =
     (if is_nan x \<or> is_nan y then PosNaN
      else if x = PosInf \<or> y = PosInf then (if x = NegInf \<or> y = NegInf then PosNaN else PosInf)
      else if x = NegInf \<or> y = NegInf then NegInf
      else if x = NegZero then y
      else if y = NegZero then x
      else rnd (f64_val x + f64_val y))"

definition f64_double :: "(rat \<Rightarrow> f64) \<Rightarrow> f64 \<Rightarrow> f64" where
  "f64_double rnd x = (case x of Fin r \<Rightarrow> rnd (r * 2) | _ \<Rightarrow> x)"

text \<open>
  What IEEE 754 rounding to nearest guarantees and the program relies on: it is monotone,
  never makes a NaN, and is exact on small integers.
\<close>

definition rounding :: "(rat \<Rightarrow> f64) \<Rightarrow> bool" where
  "rounding rnd = ((\<forall>r s. r \<le> s \<longrightarrow> f64_le (rnd r) (rnd s)) \<and> (\<forall>n \<le> 1000. rnd (of_nat n) = Fin (of_nat n)))"

lemma rounding_Fin: "rounding Fin"
  by (simp add: rounding_def)

lemma roundingD:
  assumes "rounding rnd"
  shows "r \<le> s \<Longrightarrow> f64_le (rnd r) (rnd s)" and "n \<le> 1000 \<Longrightarrow> rnd (of_nat n) = Fin (of_nat n)"
    and "\<not> is_nan (rnd r)"
proof -
  show le: "r \<le> s \<Longrightarrow> f64_le (rnd r) (rnd s)" for r s using assms by (simp add: rounding_def)
  show "n \<le> 1000 \<Longrightarrow> rnd (of_nat n) = Fin (of_nat n)" using assms by (simp add: rounding_def)
  show "\<not> is_nan (rnd r)" using le [of r r] by (auto simp: f64_le.simps)
qed

section \<open>Ordering and \<open>min_by\<close>\<close>

datatype ordering = Less | Equal | Greater

definition cmp :: "'a :: linorder \<Rightarrow> 'a \<Rightarrow> ordering" where
  "cmp x y = (if x < y then Less else if x = y then Equal else Greater)"

fun then_with :: "ordering \<Rightarrow> ordering \<Rightarrow> ordering" where
  "then_with Equal o2 = o2"
| "then_with o1 _ = o1"

text \<open>\<open>Iterator::min_by\<close>: the first of the least elements.\<close>

definition min_by :: "('a \<Rightarrow> 'a \<Rightarrow> ordering) \<Rightarrow> 'a list \<Rightarrow> 'a option" where
  "min_by f xs =
     (case xs of
        [] \<Rightarrow> None
      | x # ys \<Rightarrow> Some (foldl (\<lambda>m y. if f m y = Greater then y else m) x ys))"

text \<open>A comparison that reads a key of the library's order.\<close>

definition by_key :: "('a \<Rightarrow> 'k :: linorder) \<Rightarrow> ('a \<Rightarrow> 'a \<Rightarrow> ordering) \<Rightarrow> bool" where
  "by_key k f = (\<forall>x y. f x y = cmp (k x) (k y))"

lemma then_with_pair: "then_with (cmp a b) (cmp c d) = cmp (a, c) (b, d)"
  by (simp add: cmp_def)

lemma min_by_in: "min_by f xs = Some m \<Longrightarrow> m \<in> set xs"
proof (cases xs)
  case (Cons x ys)
  have "foldl (\<lambda>m y. if f m y = Greater then y else m) x ys \<in> insert x (set ys)"
  proof (induction ys arbitrary: x)
    case (Cons y ys)
    from Cons.IH [of "if f x y = Greater then y else x"] show ?case by (auto split: if_splits)
  qed simp
  moreover assume "min_by f xs = Some m"
  ultimately show ?thesis by (auto simp: min_by_def Cons)
qed (simp add: min_by_def)

lemma min_by_None [simp]: "min_by f xs = None \<longleftrightarrow> xs = []"
  by (simp add: min_by_def split: list.split)

lemma min_by_least:
  assumes "by_key k f" and "min_by f xs = Some m" and "x \<in> set xs"
  shows "k m \<le> k x"
proof -
  obtain y ys where xs: "xs = y # ys" using assms(2) by (cases xs) (auto simp: min_by_def)
  have "k (foldl (\<lambda>m y. if f m y = Greater then y else m) y ys) \<le> k z" if "z \<in> insert y (set ys)" for z
    using that
  proof (induction ys arbitrary: y z)
    case (Cons v ys)
    have step: "k (if f y v = Greater then v else y) \<le> k y \<and> k (if f y v = Greater then v else y) \<le> k v"
      using assms(1) by (auto simp: by_key_def cmp_def split: if_splits)
    have least: "k (foldl (\<lambda>m y. if f m y = Greater then y else m) y (v # ys)) \<le> k w"
      if "w \<in> insert (if f y v = Greater then v else y) (set ys)" for w
      using Cons.IH [OF that] by simp
    show ?case
    proof (cases "z \<in> set ys")
      case True
      then show ?thesis by (intro least) simp
    next
      case False
      with Cons.prems have "z = y \<or> z = v" by auto
      with step have "k (if f y v = Greater then v else y) \<le> k z" by blast
      then show ?thesis by (rule order_trans [OF least [OF insertI1]])
    qed
  qed simp
  with assms(2,3) show ?thesis by (auto simp: xs min_by_def)
qed

end
