(* ===== verification/Registry.thy ===== *)
theory Registry
  imports BTree Floats
begin

text \<open>
  The shared registry in PostgreSQL: company users and their sign-in identities
  (\<open>src/central/enrollment/identity.rs\<close>), devices, browser logins and sessions, the dashboard
  audit (\<open>src/central/storage/browser.rs\<close>), live sessions and the relay limiter
  (\<open>src/central/storage.rs\<close>). Each operation is one transaction at database time \<open>now\<close>, in
  microseconds; deleted rows are kept with \<open>deleted\<close> set. The two statements of
  \<open>browser_session\<close>, the expiry and the lookup, each commit alone and are one step here.
\<close>

section \<open>Tables\<close>

record central_user =
  cu_email :: string
  cu_enabled :: bool
  cu_oidc :: "string option"
  cu_revision :: int
  cu_deleted :: bool

record central_device =
  cd_tenant :: string
  cd_user :: string
  cd_token_hash :: string
  cd_revoked :: bool
  cd_revision :: int
  cd_deleted :: bool

record limiter_row =
  lr_tokens :: rat
  lr_updated_at :: int
  lr_allowed :: bool
  lr_deleted :: bool

record live_session =
  ls_user :: string
  ls_alias :: string
  ls_last_seen :: int
  ls_deleted_at :: "int option"

record browser_session =
  bs_user :: string
  bs_signed_in_at :: int
  bs_expires_at :: int
  bs_verified :: bool

record challenge_row =
  ch_payload :: string
  ch_expires_at :: int
  ch_consumed :: bool

record audit_row =
  au_at :: int
  au_actor :: string
  au_operation :: string
  au_target :: string
  au_result :: string

text \<open>Audit rows are keyed by \<open>coalesce_key\<close>, which every writer here supplies and which is unique.\<close>

record registry =
  rg_users :: "(string, central_user) btree"
  rg_devices :: "(string, central_device) btree"
  rg_limits :: "(string, limiter_row) btree"
  rg_live :: "(string \<times> string, live_session) btree"
  rg_sessions :: "(string, browser_session) btree"
  rg_challenges :: "(string, challenge_row) btree"
  rg_audit :: "(string, audit_row) btree"

definition seconds :: "int \<Rightarrow> int" where "seconds n = n * 1000000"

section \<open>Who is signing in\<close>

datatype browser_identity = IdentityUser string | IdentityDisabled | IdentityConflict

record sign_in_user =
  su_id :: string
  su_email :: string
  su_enabled :: bool
  su_oidc :: "string option"

datatype sign_in_decision = Known browser_identity | Link nat | Reserve

text \<open>The indices of the users with this email, as \<open>matches\<close> collects them.\<close>

definition email_matches :: "sign_in_user list \<Rightarrow> string \<Rightarrow> nat list" where
  "email_matches users email =
     filter (\<lambda>i. eq_ignore_ascii_case (su_email (users ! i)) email) [0..<length users]"

definition decide_by_email :: "sign_in_user list \<Rightarrow> string \<Rightarrow> string option \<Rightarrow> sign_in_decision" where
  "decide_by_email users email src =
     (case (email_matches users email, src) of
        ([i], Some source) \<Rightarrow>
          if su_id (users ! i) = source \<and> su_oidc (users ! i) = None
          then (if su_enabled (users ! i) then Link i else Known IdentityDisabled)
          else Known IdentityConflict
      | ([], None) \<Rightarrow> Reserve
      | _ \<Rightarrow> Known IdentityConflict)"

definition decide_identity ::
    "sign_in_user list \<Rightarrow> string \<Rightarrow> string \<Rightarrow> bool \<Rightarrow> string option \<Rightarrow> sign_in_decision" where
  "decide_identity users arriving email enforce src =
     (case find (\<lambda>u. su_oidc u = Some arriving) users of
        Some u \<Rightarrow> Known (if su_enabled u then IdentityUser (su_id u) else IdentityDisabled)
      | None \<Rightarrow>
          (case find (\<lambda>u. su_id u = arriving) users of
             Some u \<Rightarrow> Known (if \<not> su_enabled u then IdentityDisabled
                               else if su_oidc u \<noteq> None then IdentityConflict
                               else IdentityUser arriving)
           | None \<Rightarrow> if \<not> enforce then Reserve else decide_by_email users email src))"

text \<open>The first configured source whose email matches.\<close>

definition authorized_source :: "(string \<times> string) list option \<Rightarrow> string \<Rightarrow> string option" where
  "authorized_source links email =
     Option.bind links (\<lambda>ls. map_option snd (find (\<lambda>(e, _). eq_ignore_ascii_case e email) ls))"

definition sso_identity :: "(string \<Rightarrow> string) \<Rightarrow> string \<Rightarrow> string \<Rightarrow> string" where
  "sso_identity digest issuer subject = digest (issuer @ [CHR 0x00] @ subject)"

definition live_users :: "registry \<Rightarrow> sign_in_user list" where
  "live_users db = map (\<lambda>(i, u). \<lparr>su_id = i, su_email = cu_email u, su_enabled = cu_enabled u, su_oidc = cu_oidc u\<rparr>)
     (filter (\<lambda>(i, u). \<not> cu_deleted u) (rg_users db))"

definition link_user :: "string \<Rightarrow> string \<Rightarrow> registry \<Rightarrow> registry" where
  "link_user i arriving db =
     (case bt_get (rg_users db) i of
        None \<Rightarrow> db
      | Some u \<Rightarrow> db\<lparr>rg_users := bt_put i (u\<lparr>cu_oidc := Some arriving, cu_revision := cu_revision u + 1\<rparr>) (rg_users db)\<rparr>)"

definition resolve_browser_identity ::
    "string \<Rightarrow> string \<Rightarrow> bool \<Rightarrow> string option \<Rightarrow> registry \<Rightarrow> browser_identity \<times> registry" where
  "resolve_browser_identity arriving email enforce src db =
     (case decide_identity (live_users db) arriving email enforce src of
        Known r \<Rightarrow> (r, db)
      | Link i \<Rightarrow>
          let who = su_id (live_users db ! i) in (IdentityUser who, link_user who arriving db)
      | Reserve \<Rightarrow>
          if bt_has (rg_users db) arriving then (IdentityDisabled, db)
          else (IdentityUser arriving, db\<lparr>rg_users := bt_put arriving
                 \<lparr>cu_email = email, cu_enabled = True, cu_oidc = None, cu_revision = 0, cu_deleted = False\<rparr> (rg_users db)\<rparr>))"

text \<open>\<open>resolve\<close>, the same decision on \<open>users.json\<close> under its lock.\<close>

definition resolve_file ::
    "sign_in_user list \<Rightarrow> string \<Rightarrow> string \<Rightarrow> bool \<Rightarrow> string option \<Rightarrow> browser_identity \<times> sign_in_user list" where
  "resolve_file users arriving email enforce src =
     (case decide_identity users arriving email enforce src of
        Known r \<Rightarrow> (r, users)
      | Link i \<Rightarrow> (IdentityUser (su_id (users ! i)), users[i := (users ! i)\<lparr>su_oidc := Some arriving\<rparr>])
      | Reserve \<Rightarrow> (IdentityUser arriving,
          if enforce then users @ [\<lparr>su_id = arriving, su_email = email, su_enabled = True, su_oidc = None\<rparr>] else users))"

definition record_browser_user :: "string \<Rightarrow> string \<Rightarrow> registry \<Rightarrow> bool \<times> registry" where
  "record_browser_user i email db =
     (case bt_get (rg_users db) i of
        None \<Rightarrow> (True, db\<lparr>rg_users := bt_put i
          \<lparr>cu_email = email, cu_enabled = True, cu_oidc = None, cu_revision = 0, cu_deleted = False\<rparr> (rg_users db)\<rparr>)
      | Some u \<Rightarrow>
          if cu_enabled u \<and> \<not> cu_deleted u
          then (True, db\<lparr>rg_users := bt_put i (u\<lparr>cu_email := email, cu_revision := cu_revision u + 1\<rparr>) (rg_users db)\<rparr>)
          else (False, db))"

definition enabled_user :: "string \<Rightarrow> registry \<Rightarrow> bool" where
  "enabled_user i db =
     (case bt_get (rg_users db) i of None \<Rightarrow> False | Some u \<Rightarrow> cu_enabled u \<and> \<not> cu_deleted u)"

definition save_user_cas :: "sign_in_user \<Rightarrow> int option \<Rightarrow> registry \<Rightarrow> bool \<times> registry" where
  "save_user_cas su expected db =
     (case (expected, bt_get (rg_users db) (su_id su)) of
        (None, None) \<Rightarrow> (True, db\<lparr>rg_users := bt_put (su_id su)
          \<lparr>cu_email = su_email su, cu_enabled = su_enabled su, cu_oidc = su_oidc su, cu_revision = 0,
           cu_deleted = False\<rparr> (rg_users db)\<rparr>)
      | (Some revision, Some u) \<Rightarrow>
          if cu_revision u = revision \<and> \<not> cu_deleted u
          then (True, db\<lparr>rg_users := bt_put (su_id su)
            (u\<lparr>cu_email := su_email su, cu_enabled := su_enabled su, cu_oidc := su_oidc su,
               cu_revision := cu_revision u + 1\<rparr>) (rg_users db)\<rparr>)
          else (False, db)
      | _ \<Rightarrow> (False, db))"

section \<open>Devices, the relay limiter and the audit\<close>

record device =
  dv_id :: string
  dv_tenant_of :: string
  dv_user_of :: string
  dv_token_hash :: string
  dv_is_revoked :: bool

definition device_of :: "string \<Rightarrow> central_device \<Rightarrow> device" where
  "device_of i d = \<lparr>dv_id = i, dv_tenant_of = cd_tenant d, dv_user_of = cd_user d,
     dv_token_hash = cd_token_hash d, dv_is_revoked = cd_revoked d\<rparr>"

text \<open>The token hash is unique among devices, so the query answers at most one row.\<close>

definition authorized_device :: "string \<Rightarrow> registry \<Rightarrow> device option" where
  "authorized_device token_hash db =
     map_option (\<lambda>(i, d). device_of i d)
       (find (\<lambda>(i, d). cd_tenant d = ''sawmills'' \<and> cd_token_hash d = token_hash \<and> \<not> cd_revoked d \<and> \<not> cd_deleted d)
          (rg_devices db))"

definition browser_devices :: "string \<Rightarrow> string \<Rightarrow> registry \<Rightarrow> device list" where
  "browser_devices tenant user db =
     map (\<lambda>(i, d). device_of i d)
       (filter (\<lambda>(i, d). cd_tenant d = tenant \<and> cd_user d = user \<and> \<not> cd_deleted d) (rg_devices db))"

text \<open>\<open>None\<close> is a payload scoped to another device or tenant, which is refused as an error.\<close>

definition save_device_cas :: "string \<Rightarrow> string \<Rightarrow> device \<Rightarrow> int option \<Rightarrow> registry \<Rightarrow> bool option \<times> registry" where
  "save_device_cas tenant i d expected db =
     (if dv_id d \<noteq> i \<or> dv_tenant_of d \<noteq> tenant then (None, db)
      else (case (expected, bt_get (rg_devices db) i) of
          (None, None) \<Rightarrow> (Some True, db\<lparr>rg_devices := bt_put i
            \<lparr>cd_tenant = tenant, cd_user = dv_user_of d, cd_token_hash = dv_token_hash d,
             cd_revoked = dv_is_revoked d, cd_revision = 0, cd_deleted = False\<rparr> (rg_devices db)\<rparr>)
        | (Some revision, Some row) \<Rightarrow>
            if cd_tenant row = tenant \<and> cd_revision row = revision \<and> \<not> cd_deleted row
            then (Some True, db\<lparr>rg_devices := bt_put i
              (row\<lparr>cd_user := dv_user_of d, cd_token_hash := dv_token_hash d, cd_revoked := dv_is_revoked d,
                   cd_revision := cd_revision row + 1\<rparr>) (rg_devices db)\<rparr>)
            else (Some False, db)
        | _ \<Rightarrow> (Some False, db)))"

definition retire_limiter :: "string \<Rightarrow> int \<Rightarrow> registry \<Rightarrow> registry" where
  "retire_limiter i now db =
     db\<lparr>rg_limits := bt_put i
       (case bt_get (rg_limits db) i of
          None \<Rightarrow> \<lparr>lr_tokens = 0, lr_updated_at = now, lr_allowed = False, lr_deleted = True\<rparr>
        | Some r \<Rightarrow> r\<lparr>lr_deleted := True, lr_updated_at := now\<rparr>) (rg_limits db)\<rparr>"

text \<open>\<open>rnd\<close> is the rounding of PostgreSQL's \<open>double precision\<close> arithmetic.\<close>

definition refilled :: "(rat \<Rightarrow> rat) \<Rightarrow> rat \<Rightarrow> rat \<Rightarrow> int \<Rightarrow> limiter_row \<Rightarrow> rat" where
  "refilled rnd capacity refill now r =
     min capacity (rnd (lr_tokens r + max 0 (rnd (rnd (of_int (now - lr_updated_at r) / 1000000) * refill))))"

definition relay_event_allowed ::
    "(rat \<Rightarrow> rat) \<Rightarrow> rat \<Rightarrow> rat \<Rightarrow> string \<Rightarrow> int \<Rightarrow> registry \<Rightarrow> bool \<times> registry" where
  "relay_event_allowed rnd capacity refill i now db =
     (case bt_get (rg_limits db) i of
        None \<Rightarrow> (True, db\<lparr>rg_limits := bt_put i
          \<lparr>lr_tokens = rnd (capacity - 1), lr_updated_at = now, lr_allowed = True, lr_deleted = False\<rparr> (rg_limits db)\<rparr>)
      | Some r \<Rightarrow>
          if lr_deleted r then (False, db)
          else
            let tokens = refilled rnd capacity refill now r; allowed = (1 \<le> tokens) in
            (allowed, db\<lparr>rg_limits := bt_put i
               (r\<lparr>lr_tokens := (if allowed then rnd (tokens - 1) else tokens), lr_updated_at := now,
                  lr_allowed := allowed\<rparr>) (rg_limits db)\<rparr>))"

datatype machine_revoke = MachineRevoked | MachineAlreadyRevoked | MachineNotFound | RegistryChanged

fun revoke_audit_result :: "machine_revoke \<Rightarrow> string" where
  "revoke_audit_result MachineRevoked = ''ok''"
| "revoke_audit_result MachineAlreadyRevoked = ''refused:already_revoked''"
| "revoke_audit_result MachineNotFound = ''refused:device_not_found''"
| "revoke_audit_result RegistryChanged = ''refused:registry_changed''"

datatype dashboard_operation = MachineRevoke | AccountAdd | AccountRenew | AccountRemove

fun operation_name :: "dashboard_operation \<Rightarrow> string" where
  "operation_name MachineRevoke = ''machine_revoke''"
| "operation_name AccountAdd = ''account_add''"
| "operation_name AccountRenew = ''account_renew''"
| "operation_name AccountRemove = ''account_remove''"

text \<open>
  The row is read \<open>FOR UPDATE\<close>, so its revision cannot change before the update: the answer
  \<open>RegistryChanged\<close> does not arise. A second use of an audit key violates its unique index and
  rolls the transaction back (\<open>None\<close>).
\<close>

definition revoke_row :: "string \<Rightarrow> string \<Rightarrow> string \<Rightarrow> int \<Rightarrow> registry \<Rightarrow> machine_revoke \<times> registry" where
  "revoke_row tenant user i now db =
     (case bt_get (rg_devices db) i of
        None \<Rightarrow> (MachineNotFound, db)
      | Some d \<Rightarrow>
          if cd_tenant d \<noteq> tenant \<or> cd_user d \<noteq> user \<or> cd_deleted d then (MachineNotFound, db)
          else if cd_revoked d then (MachineAlreadyRevoked, retire_limiter i now db)
          else (MachineRevoked, retire_limiter i now (db\<lparr>rg_devices := bt_put i
                 (d\<lparr>cd_revoked := True, cd_revision := cd_revision d + 1\<rparr>) (rg_devices db)\<rparr>)))"

definition revoke_machine ::
    "(string \<Rightarrow> string) \<Rightarrow> string \<Rightarrow> string \<Rightarrow> string \<Rightarrow> (string \<times> string) option \<Rightarrow> int \<Rightarrow> int \<Rightarrow> registry
      \<Rightarrow> machine_revoke option \<times> registry" where
  "revoke_machine digest tenant user i audit at_secs now db =
     (case revoke_row tenant user i now db of (result, db1) \<Rightarrow>
        (case audit of
           None \<Rightarrow> (Some result, db1)
         | Some (actor, attempt) \<Rightarrow>
             if bt_has (rg_audit db) attempt then (None, db)
             else (Some result, db1\<lparr>rg_audit := bt_put attempt
                    \<lparr>au_at = at_secs, au_actor = actor, au_operation = ''machine_revoke'',
                     au_target = (if result = MachineNotFound then ''unresolved:'' @ digest i else i),
                     au_result = revoke_audit_result result\<rparr> (rg_audit db1)\<rparr>)))"

text \<open>An audit row is written once; the answer is whether this call wrote it. An attempt another
  operation has used finds no row of its own and is an error (\<open>None\<close>).\<close>

definition dashboard_audit ::
    "dashboard_operation \<Rightarrow> string \<Rightarrow> string \<Rightarrow> string \<Rightarrow> string \<Rightarrow> int \<Rightarrow> registry \<Rightarrow> bool option \<times> registry" where
  "dashboard_audit operation actor attempt target result at_secs db =
     (case bt_get (rg_audit db) attempt of
        Some a \<Rightarrow> (if au_operation a = operation_name operation then Some False else None, db)
      | None \<Rightarrow> (Some True, db\<lparr>rg_audit := bt_put attempt
             \<lparr>au_at = at_secs, au_actor = actor, au_operation = operation_name operation, au_target = target,
              au_result = result\<rparr> (rg_audit db)\<rparr>))"

section \<open>Browser logins and sessions\<close>

definition browser_cap :: nat where "browser_cap = 1024"

definition create_browser_login ::
    "(string \<Rightarrow> string) \<Rightarrow> string \<Rightarrow> string \<Rightarrow> int \<Rightarrow> int \<Rightarrow> registry \<Rightarrow> bool option \<times> registry" where
  "create_browser_login digest challenge sealed_payload ttl now db =
     (let kept = filter (\<lambda>(_, c). now < ch_expires_at c \<and> \<not> ch_consumed c) (rg_challenges db); hash = digest challenge in
      if \<not> length kept < browser_cap then (Some False, db\<lparr>rg_challenges := kept\<rparr>)
      else if bt_has kept hash then (None, db)
      else (Some True, db\<lparr>rg_challenges := bt_put hash
             \<lparr>ch_payload = sealed_payload, ch_expires_at = now + seconds ttl, ch_consumed = False\<rparr> kept\<rparr>))"

definition pg_create_enrollment ::
    "(string \<Rightarrow> string) \<Rightarrow> string \<Rightarrow> string \<Rightarrow> int \<Rightarrow> int \<Rightarrow> registry \<Rightarrow> registry" where
  "pg_create_enrollment digest challenge sealed_payload ttl now db =
     db\<lparr>rg_challenges := bt_put (digest challenge)
        \<lparr>ch_payload = sealed_payload, ch_expires_at = now + seconds ttl, ch_consumed = False\<rparr> (rg_challenges db)\<rparr>"

definition pg_consume_enrollment ::
    "(string \<Rightarrow> string) \<Rightarrow> string \<Rightarrow> int \<Rightarrow> registry \<Rightarrow> string option \<times> registry" where
  "pg_consume_enrollment digest challenge now db =
     (case bt_get (rg_challenges db) (digest challenge) of
        None \<Rightarrow> (None, db)
      | Some c \<Rightarrow>
          if \<not> ch_consumed c \<and> now < ch_expires_at c
          then (Some (ch_payload c), db\<lparr>rg_challenges := bt_put (digest challenge) (c\<lparr>ch_consumed := True\<rparr>) (rg_challenges db)\<rparr>)
          else (None, db))"

definition create_browser_session ::
    "(string \<Rightarrow> string) \<Rightarrow> string \<Rightarrow> string \<Rightarrow> int option \<Rightarrow> int \<Rightarrow> int \<Rightarrow> int \<Rightarrow> registry \<Rightarrow> bool option \<times> registry" where
  "create_browser_session digest token user signed_in ttl clock now db =
     (let kept = filter (\<lambda>(_, s). now < bs_expires_at s) (rg_sessions db); hash = digest token in
      if \<not> length kept < browser_cap then (Some False, db\<lparr>rg_sessions := kept\<rparr>)
      else if bt_has kept hash then (None, db)
      else (Some True, db\<lparr>rg_sessions := bt_put hash
             \<lparr>bs_user = user, bs_signed_in_at = (case signed_in of None \<Rightarrow> clock | Some t \<Rightarrow> t),
              bs_expires_at = now + seconds ttl, bs_verified = (signed_in \<noteq> None)\<rparr> kept\<rparr>))"

definition browser_session_user ::
    "(string \<Rightarrow> string) \<Rightarrow> string \<Rightarrow> int \<Rightarrow> registry \<Rightarrow> sign_in_user option \<times> registry" where
  "browser_session_user digest token now db =
     (let hash = digest token;
          db = (case bt_get (rg_sessions db) hash of
                  None \<Rightarrow> db
                | Some s \<Rightarrow> if bs_expires_at s \<le> now then db\<lparr>rg_sessions := bt_del hash (rg_sessions db)\<rparr> else db)
      in (case bt_get (rg_sessions db) hash of
            None \<Rightarrow> None
          | Some s \<Rightarrow> map_option (\<lambda>u. \<lparr>su_id = bs_user s, su_email = cu_email u,
              su_enabled = (cu_enabled u \<and> \<not> cu_deleted u), su_oidc = cu_oidc u\<rparr>) (bt_get (rg_users db) (bs_user s)), db))"

definition browser_session_signed_in_at :: "(string \<Rightarrow> string) \<Rightarrow> string \<Rightarrow> int \<Rightarrow> registry \<Rightarrow> int option" where
  "browser_session_signed_in_at digest token now db =
     Option.bind (bt_get (rg_sessions db) (digest token)) (\<lambda>s.
       if now < bs_expires_at s \<and> bs_verified s \<and> enabled_user (bs_user s) db then Some (bs_signed_in_at s) else None)"

definition end_browser_session :: "(string \<Rightarrow> string) \<Rightarrow> string \<Rightarrow> registry \<Rightarrow> registry" where
  "end_browser_session digest token db = db\<lparr>rg_sessions := bt_del (digest token) (rg_sessions db)\<rparr>"

section \<open>Live sessions\<close>

definition record_live_session :: "string \<Rightarrow> string \<Rightarrow> string \<Rightarrow> string \<Rightarrow> int \<Rightarrow> registry \<Rightarrow> registry" where
  "record_live_session account user alias device now db =
     (case bt_get (rg_live db) (account, device) of
        None \<Rightarrow> db\<lparr>rg_live := bt_put (account, device)
          \<lparr>ls_user = user, ls_alias = alias, ls_last_seen = now, ls_deleted_at = None\<rparr> (rg_live db)\<rparr>
      | Some r \<Rightarrow>
          if ls_deleted_at r \<noteq> None then db
          else db\<lparr>rg_live := bt_put (account, device)
                 (r\<lparr>ls_user := user, ls_alias := alias, ls_last_seen := now\<rparr>) (rg_live db)\<rparr>)"

definition prunable :: "string \<Rightarrow> string \<Rightarrow> int \<Rightarrow> (string \<times> string) \<times> live_session \<Rightarrow> bool" where
  "prunable account user now = (\<lambda>((a, d), r).
     a = account \<and> ls_user r = user \<and> ls_last_seen r < now - seconds 86400
     \<and> (case ls_deleted_at r of None \<Rightarrow> True | Some t \<Rightarrow> t < now - seconds 600))"

text \<open>\<open>SKIP LOCKED\<close>: rows another transaction holds (\<open>locked\<close>) are left for the next call.\<close>

definition prune_live_sessions ::
    "(string \<times> string \<Rightarrow> bool) \<Rightarrow> string \<Rightarrow> string \<Rightarrow> int \<Rightarrow> registry \<Rightarrow> registry" where
  "prune_live_sessions locked account user now db =
     (let expired = take 1000 (sort_key (\<lambda>(_, r). ls_last_seen r)
            (filter (\<lambda>e. prunable account user now e \<and> \<not> locked (fst e)) (rg_live db)))
      in db\<lparr>rg_live := filter (\<lambda>(k, _). k \<notin> fst ` set expired) (rg_live db)\<rparr>)"

definition live_session_count :: "string \<Rightarrow> int \<Rightarrow> int \<Rightarrow> registry \<Rightarrow> nat" where
  "live_session_count account window now db =
     length (filter (\<lambda>((a, d), r). a = account \<and> ls_deleted_at r = None \<and> now - seconds window \<le> ls_last_seen r) (rg_live db))"

end
