(* ===== verification/RegistryFacts.thy ===== *)
theory RegistryFacts
  imports Registry
begin

text \<open>
  What the registry promises over every sequence of its operations: a sign-in identity belongs
  to one company user and keeps it, a revoked machine's limiter stays retired and a stale
  device write is refused, live browser sessions stay below their cap, audit rows are written
  once, and pruning never changes a live-session count.
\<close>

section \<open>Every operation, in time\<close>

datatype registry_op =
  ResolveIdentity string string bool "string option"
| RecordUser string string
| SaveUser sign_in_user "int option"
| SaveDevice string string device "int option"
| RevokeMachine string string string "(string \<times> string) option" int
| AuditAction dashboard_operation string string string string int
| RelayEvent rat rat string
| RetireLimiter string
| CreateLogin string string int
| CreateEnrollment string string int
| ConsumeEnrollment string
| CreateSession string string "int option" int int
| ReadSession string
| EndSession string
| TouchLive string string string string
| PruneLive "string \<times> string \<Rightarrow> bool" string string

fun run_registry_op :: "(string \<Rightarrow> string) \<Rightarrow> (rat \<Rightarrow> rat) \<Rightarrow> int \<Rightarrow> registry \<Rightarrow> registry_op \<Rightarrow> registry" where
  "run_registry_op digest rnd now db (ResolveIdentity x email enforce src) = snd (resolve_browser_identity x email enforce src db)"
| "run_registry_op digest rnd now db (RecordUser i email) = snd (record_browser_user i email db)"
| "run_registry_op digest rnd now db (SaveUser u expected) = snd (save_user_cas u expected db)"
| "run_registry_op digest rnd now db (SaveDevice tenant i d expected) = snd (save_device_cas tenant i d expected db)"
| "run_registry_op digest rnd now db (RevokeMachine tenant user i audit t) = snd (revoke_machine digest tenant user i audit t now db)"
| "run_registry_op digest rnd now db (AuditAction operation actor attempt target result t) =
     snd (dashboard_audit operation actor attempt target result t db)"
| "run_registry_op digest rnd now db (RelayEvent capacity refill i) = snd (relay_event_allowed rnd capacity refill i now db)"
| "run_registry_op digest rnd now db (RetireLimiter i) = retire_limiter i now db"
| "run_registry_op digest rnd now db (CreateLogin c p ttl) = snd (create_browser_login digest c p ttl now db)"
| "run_registry_op digest rnd now db (CreateEnrollment c p ttl) = pg_create_enrollment digest c p ttl now db"
| "run_registry_op digest rnd now db (ConsumeEnrollment c) = snd (pg_consume_enrollment digest c now db)"
| "run_registry_op digest rnd now db (CreateSession token user signed ttl clock) =
     snd (create_browser_session digest token user signed ttl clock now db)"
| "run_registry_op digest rnd now db (ReadSession token) = snd (browser_session_user digest token now db)"
| "run_registry_op digest rnd now db (EndSession token) = end_browser_session digest token db"
| "run_registry_op digest rnd now db (TouchLive account user alias device) = record_live_session account user alias device now db"
| "run_registry_op digest rnd now db (PruneLive locked account user) = prune_live_sessions locked account user now db"

text \<open>Each step is an operation some time after the last one.\<close>

definition registry_step ::
    "(string \<Rightarrow> string) \<Rightarrow> (rat \<Rightarrow> rat) \<Rightarrow> registry \<times> int \<Rightarrow> nat \<times> registry_op \<Rightarrow> registry \<times> int" where
  "registry_step digest rnd s = (\<lambda>(dt, op). let now = snd s + int dt in (run_registry_op digest rnd now (fst s) op, now))"

section \<open>Well-formed tables and the session cap\<close>

definition live_browser_sessions :: "int \<Rightarrow> registry \<Rightarrow> nat" where
  "live_browser_sessions now db = length (filter (\<lambda>(_, s). now < bs_expires_at s) (rg_sessions db))"

definition registry_ok :: "registry \<times> int \<Rightarrow> bool" where
  "registry_ok s = (bt_ok (rg_sessions (fst s)) \<and> bt_ok (rg_users (fst s)) \<and> live_browser_sessions (snd s) (fst s) \<le> browser_cap)"

lemma live_filter: "(\<lambda>(_, s). now < bs_expires_at s) = (\<lambda>e. now < bs_expires_at (snd e))"
  by (simp add: fun_eq_iff split: prod.splits)

lemma length_filter_mono: "(\<And>x. P x \<Longrightarrow> Q x) \<Longrightarrow> length (filter P xs) \<le> length (filter Q xs)"
  by (induction xs) auto

lemma length_filter_filter: "length (filter P (filter Q xs)) \<le> length (filter P xs)"
  by (induction xs) auto

lemma live_browser_later: "clock \<le> now \<Longrightarrow> live_browser_sessions now db \<le> live_browser_sessions clock db"
  unfolding live_browser_sessions_def live_filter by (rule length_filter_mono) simp

lemma length_filter_bt_put: "length (filter P (bt_put k v m)) \<le> Suc (length (filter P m))"
  by (induction k v m rule: bt_put.induct) auto

lemma sessions_frame [step_frame]:
  "rg_sessions (snd (resolve_browser_identity x email enforce src db)) = rg_sessions db"
  "rg_sessions (snd (record_browser_user i email db)) = rg_sessions db"
  "rg_sessions (snd (save_user_cas u expected db)) = rg_sessions db"
  "rg_sessions (snd (save_device_cas tenant i d expected db)) = rg_sessions db"
  "rg_sessions (retire_limiter i now db) = rg_sessions db"
  "rg_sessions (snd (dashboard_audit operation actor attempt target result t db)) = rg_sessions db"
  "rg_sessions (snd (relay_event_allowed rnd capacity refill i now db)) = rg_sessions db"
  "rg_sessions (snd (create_browser_login digest c p ttl now db)) = rg_sessions db"
  "rg_sessions (pg_create_enrollment digest c p ttl now db) = rg_sessions db"
  "rg_sessions (snd (pg_consume_enrollment digest c now db)) = rg_sessions db"
  "rg_sessions (record_live_session account user alias device now db) = rg_sessions db"
  "rg_sessions (prune_live_sessions locked account user now db) = rg_sessions db"
  by (auto simp: resolve_browser_identity_def link_user_def record_browser_user_def save_user_cas_def
      save_device_cas_def retire_limiter_def dashboard_audit_def relay_event_allowed_def create_browser_login_def
      pg_create_enrollment_def pg_consume_enrollment_def record_live_session_def prune_live_sessions_def Let_def
      split: sign_in_decision.splits option.splits)

lemma revoke_frame [step_frame]:
  "rg_sessions (snd (revoke_machine digest tenant user i audit t now db)) = rg_sessions db"
  "rg_users (snd (revoke_machine digest tenant user i audit t now db)) = rg_users db"
  by (auto simp: revoke_machine_def revoke_row_def retire_limiter_def split: option.splits prod.splits)

lemma users_frame [step_frame]:
  "rg_users (snd (save_device_cas tenant i d expected db)) = rg_users db"
  "rg_users (retire_limiter i now db) = rg_users db"
  "rg_users (snd (dashboard_audit operation actor attempt target result t db)) = rg_users db"
  "rg_users (snd (relay_event_allowed rnd capacity refill i now db)) = rg_users db"
  "rg_users (snd (create_browser_login digest c p ttl now db)) = rg_users db"
  "rg_users (pg_create_enrollment digest c p ttl now db) = rg_users db"
  "rg_users (snd (pg_consume_enrollment digest c now db)) = rg_users db"
  "rg_users (snd (create_browser_session digest token user signed ttl clock now db)) = rg_users db"
  "rg_users (snd (browser_session_user digest token now db)) = rg_users db"
  "rg_users (end_browser_session digest token db) = rg_users db"
  "rg_users (record_live_session account user alias device now db) = rg_users db"
  "rg_users (prune_live_sessions locked account user now db) = rg_users db"
  by (auto simp: save_device_cas_def retire_limiter_def dashboard_audit_def relay_event_allowed_def
      create_browser_login_def pg_create_enrollment_def pg_consume_enrollment_def create_browser_session_def
      browser_session_user_def end_browser_session_def record_live_session_def prune_live_sessions_def Let_def
      split: option.splits)

lemma users_put_ok:
  "bt_ok (rg_users db) \<Longrightarrow> bt_ok (rg_users (snd (resolve_browser_identity x email enforce src db)))"
  "bt_ok (rg_users db) \<Longrightarrow> bt_ok (rg_users (snd (record_browser_user i email db)))"
  "bt_ok (rg_users db) \<Longrightarrow> bt_ok (rg_users (snd (save_user_cas u expected db)))"
  by (auto simp: resolve_browser_identity_def link_user_def record_browser_user_def save_user_cas_def Let_def
      split: sign_in_decision.splits option.splits)

lemma create_session_ok:
  assumes "bt_ok (rg_sessions db)" "live_browser_sessions now db \<le> browser_cap"
  shows "bt_ok (rg_sessions (snd (create_browser_session digest token user signed ttl clock now db)))
    \<and> live_browser_sessions now (snd (create_browser_session digest token user signed ttl clock now db)) \<le> browser_cap"
proof -
  let ?kept = "filter (\<lambda>(_, s). now < bs_expires_at s) (rg_sessions db)"
  have kept: "length (filter (\<lambda>(_, s). now < bs_expires_at s) ?kept) = length ?kept" by simp
  have "length (filter (\<lambda>(_, s). now < bs_expires_at s) (bt_put k v ?kept)) \<le> Suc (length ?kept)" for k v
    using length_filter_bt_put [of "\<lambda>(_, s). now < bs_expires_at s" k v ?kept] kept by simp
  then have cap: "length (filter (\<lambda>(_, s). now < bs_expires_at s) (bt_put k v ?kept)) \<le> browser_cap"
    if "length ?kept < browser_cap" for k v
    using that by (meson Suc_leI le_trans)
  show ?thesis
    using assms cap kept
    unfolding create_browser_session_def Let_def live_browser_sessions_def by (auto simp: not_less)
qed

lemma filter_bt_del_le: "length (filter P (bt_del k m)) \<le> length (filter P m)"
  unfolding bt_del_def by (rule length_filter_filter)

lemma read_session_ok:
  assumes "bt_ok (rg_sessions db)"
  shows "bt_ok (rg_sessions (snd (browser_session_user digest token now db)))"
    and "live_browser_sessions now (snd (browser_session_user digest token now db)) \<le> live_browser_sessions now db"
    and "live_browser_sessions now (end_browser_session digest token db) \<le> live_browser_sessions now db"
    and "bt_ok (rg_sessions (end_browser_session digest token db))"
  using assms filter_bt_del_le
  by (auto simp: browser_session_user_def end_browser_session_def live_browser_sessions_def Let_def split: option.splits)

lemma registry_op_ok:
  assumes "bt_ok (rg_sessions db)" "bt_ok (rg_users db)" "live_browser_sessions now db \<le> browser_cap"
  shows "registry_ok (run_registry_op digest rnd now db op, now)"
  using assms
  by (cases op)
    (auto simp: registry_ok_def step_frame live_browser_sessions_def [abs_def] users_put_ok
        dest: create_session_ok read_session_ok(1,4) intro: le_trans [OF read_session_ok(2) [unfolded live_browser_sessions_def]]
          le_trans [OF read_session_ok(3) [unfolded live_browser_sessions_def]])

section \<open>What never goes back\<close>

definition retired :: "string \<Rightarrow> registry \<Rightarrow> bool" where
  "retired i db = (case bt_get (rg_limits db) i of None \<Rightarrow> False | Some r \<Rightarrow> lr_deleted r)"

text \<open>A row is replaced by itself or by a later revision.\<close>

definition table_le :: "('a \<Rightarrow> int) \<Rightarrow> ('k \<Rightarrow> 'a option) \<Rightarrow> ('k \<Rightarrow> 'a option) \<Rightarrow> bool" where
  "table_le ver m m' = (\<forall>i a. m i = Some a \<longrightarrow> (\<exists>b. m' i = Some b \<and> (b = a \<or> ver a < ver b)))"

definition registry_le :: "registry \<times> int \<Rightarrow> registry \<times> int \<Rightarrow> bool" where
  "registry_le s t =
     ((\<forall>i. retired i (fst s) \<longrightarrow> retired i (fst t))
      \<and> table_le cd_revision (bt_get (rg_devices (fst s))) (bt_get (rg_devices (fst t)))
      \<and> table_le cu_revision (bt_get (rg_users (fst s))) (bt_get (rg_users (fst t)))
      \<and> (\<forall>k a. bt_get (rg_audit (fst s)) k = Some a \<longrightarrow> bt_get (rg_audit (fst t)) k = Some a))"

lemma table_le_refl: "table_le ver m m"
  by (auto simp: table_le_def)

lemma table_le_trans: "table_le ver m m' \<Longrightarrow> table_le ver m' m'' \<Longrightarrow> table_le ver m m''"
  unfolding table_le_def by (metis dual_order.strict_trans)

lemma table_le_put: "table_le ver m (m(i \<mapsto> b)) \<longleftrightarrow> (case m i of None \<Rightarrow> True | Some a \<Rightarrow> b = a \<or> ver a < ver b)"
  by (auto simp: table_le_def split: option.splits)

lemma registry_le_refl: "registry_le s s"
  by (simp add: registry_le_def table_le_refl)

lemma registry_le_trans: "registry_le s t \<Longrightarrow> registry_le t u \<Longrightarrow> registry_le s u"
  unfolding registry_le_def by (blast intro: table_le_trans)

text \<open>Operations that touch one of the four tables.\<close>

definition same_kept :: "registry \<Rightarrow> registry \<Rightarrow> bool" where
  "same_kept db db' = (rg_limits db' = rg_limits db \<and> rg_devices db' = rg_devices db \<and> rg_users db' = rg_users db
     \<and> rg_audit db' = rg_audit db)"

lemma same_kept_le: "same_kept db db' \<Longrightarrow> registry_le (db, t) (db', u)"
  by (simp add: same_kept_def registry_le_def retired_def table_le_refl)

lemma same_kept_ops:
  "same_kept db (snd (create_browser_login digest c p ttl now db))"
  "same_kept db (pg_create_enrollment digest c p ttl now db)"
  "same_kept db (snd (pg_consume_enrollment digest c now db))"
  "same_kept db (snd (create_browser_session digest token user signed ttl clock now db))"
  "same_kept db (snd (browser_session_user digest token now db))"
  "same_kept db (end_browser_session digest token db)"
  "same_kept db (record_live_session account user alias device now db)"
  "same_kept db (prune_live_sessions locked account user now db)"
  by (auto simp: same_kept_def create_browser_login_def pg_create_enrollment_def pg_consume_enrollment_def
      create_browser_session_def browser_session_user_def end_browser_session_def record_live_session_def
      prune_live_sessions_def Let_def split: option.splits)

lemma limiter_le:
  "registry_le (db, t) (retire_limiter i now db, u)"
  "registry_le (db, t) (snd (relay_event_allowed rnd capacity refill i now db), u)"
  by (auto simp: registry_le_def retired_def retire_limiter_def relay_event_allowed_def table_le_refl Let_def
      split: option.splits)

lemma audit_le: "registry_le (db, t) (snd (dashboard_audit operation actor attempt target result at_secs db), u)"
  by (auto simp: registry_le_def retired_def dashboard_audit_def table_le_refl bt_has_def split: option.splits)

lemma device_le: "registry_le (db, t) (snd (save_device_cas tenant i d expected db), u)"
  by (auto simp: registry_le_def retired_def save_device_cas_def table_le_refl table_le_put split: option.splits)

lemma user_le:
  "registry_le (db, t) (snd (record_browser_user i email db), u)"
  "registry_le (db, t) (snd (save_user_cas su expected db), u)"
  "registry_le (db, t) (snd (resolve_browser_identity x email enforce src db), u)"
  by (auto simp: registry_le_def retired_def record_browser_user_def save_user_cas_def resolve_browser_identity_def
      link_user_def table_le_refl table_le_put bt_has_def Let_def split: option.splits sign_in_decision.splits)

lemma revoke_row_le: "registry_le (db, t) (snd (revoke_row tenant user i now db), u)"
  by (auto simp: revoke_row_def registry_le_def retired_def retire_limiter_def table_le_refl table_le_put
      split: option.splits)

lemma revoke_row_audit: "rg_audit (snd (revoke_row tenant user i now db)) = rg_audit db"
  by (auto simp: revoke_row_def retire_limiter_def split: option.splits)

lemma audit_put_le:
  assumes "registry_le (db, t) (db1, u)" "rg_audit db1 = rg_audit db" "\<not> bt_has (rg_audit db) k"
  shows "registry_le (db, t) (db1\<lparr>rg_audit := bt_put k row (rg_audit db1)\<rparr>, u)"
  using assms by (auto simp: registry_le_def retired_def bt_has_def split: option.splits)

lemma revoke_machine_le: "registry_le (db, t) (snd (revoke_machine digest tenant user i audit at_secs now db), u)"
proof -
  obtain result db1 where r: "revoke_row tenant user i now db = (result, db1)" by fastforce
  note le = revoke_row_le [of db t tenant user i now u] revoke_row_audit [of tenant user i now db]
  show ?thesis
    using le audit_put_le [of db t db1 u]
    by (auto simp: revoke_machine_def r registry_le_refl [of "(db, t)"] split: option.splits)
      (simp add: registry_le_def retired_def table_le_refl)
qed

lemma registry_op_le: "registry_le (db, t) (run_registry_op digest rnd now db op, u)"
  by (cases op) (simp_all add: user_le device_le limiter_le audit_le revoke_machine_le same_kept_ops same_kept_le)

interpretation registry: monotone_system "registry_step digest rnd" registry_ok registry_le for digest rnd
proof
  show "registry_ok (registry_step digest rnd s e)" if "registry_ok s" for s e
  proof -
    obtain dt op where e: "e = (dt, op)" by fastforce
    have "live_browser_sessions (snd s + int dt) (fst s) \<le> browser_cap"
      using that live_browser_later [of "snd s" "snd s + int dt" "fst s"] by (simp add: registry_ok_def)
    with that show ?thesis
      by (simp add: e registry_step_def Let_def registry_op_ok registry_ok_def [of s])
  qed
  show "registry_le s s" for s by (rule registry_le_refl)
  show "registry_le s u" if "registry_le s t" "registry_le t u" for s t u
    using that by (rule registry_le_trans)
  show "registry_le s (registry_step digest rnd s e)" for s e
    using registry_op_le [of "fst s" "snd s"] by (simp add: registry_step_def Let_def split: prod.splits)
qed

section \<open>Sign-in identities\<close>

lemma live_users_iff:
  assumes "bt_ok (rg_users db)"
  shows "u \<in> set (live_users db) \<longleftrightarrow> (\<exists>row. bt_get (rg_users db) (su_id u) = Some row \<and> \<not> cu_deleted row
     \<and> su_email u = cu_email row \<and> su_enabled u = cu_enabled row \<and> su_oidc u = cu_oidc row)"
  using bt_get_in_iff [OF assms] by (cases u) (force simp: live_users_def)

lemma decide_by_email_link:
  assumes "decide_by_email users email src = Link i"
  shows "i < length users \<and> su_oidc (users ! i) = None \<and> su_enabled (users ! i) \<and> src = Some (su_id (users ! i))
    \<and> eq_ignore_ascii_case (su_email (users ! i)) email"
proof -
  have "email_matches users email = [i]"
    using assms by (auto simp: decide_by_email_def split: list.splits option.splits if_splits)
  then have "i \<in> set (email_matches users email)" by simp
  with assms show ?thesis
    by (auto simp: decide_by_email_def email_matches_def split: list.splits option.splits if_splits)
qed

lemma decide_identity_cases:
  assumes "decide_identity users x email enforce src = d"
  obtains (Oidc) u where "u \<in> set users" "su_oidc u = Some x"
      "d = Known (if su_enabled u then IdentityUser (su_id u) else IdentityDisabled)"
  | (Own) u where "u \<in> set users" "su_id u = x"
      "d = Known (if \<not> su_enabled u then IdentityDisabled else if su_oidc u \<noteq> None then IdentityConflict else IdentityUser x)"
  | (Linked) i where "d = Link i" "i < length users" "su_oidc (users ! i) = None" "su_enabled (users ! i)"
      "src = Some (su_id (users ! i))" "enforce"
  | (Fresh) "d = Reserve" "\<forall>u \<in> set users. su_id u \<noteq> x"
  | (Refused) r where "d = Known r" "\<forall>i. r \<noteq> IdentityUser i"
proof (cases "find (\<lambda>u. su_oidc u = Some x) users")
  case (Some u)
  then have "u \<in> set users" "su_oidc u = Some x" by (auto simp: find_Some_iff)
  with Some assms show ?thesis by (intro Oidc) (auto simp: decide_identity_def)
next
  case None
  note no_oidc = None
  show ?thesis
  proof (cases "find (\<lambda>u. su_id u = x) users")
    case (Some u)
    then have "u \<in> set users" "su_id u = x" by (auto simp: find_Some_iff)
    with Some no_oidc assms show ?thesis by (intro Own) (auto simp: decide_identity_def)
  next
    case None
    then have fresh: "\<forall>u \<in> set users. su_id u \<noteq> x" by (auto simp: find_None_iff)
    show ?thesis
    proof (cases enforce)
      case False
      with None no_oidc assms fresh show ?thesis by (intro Fresh) (simp_all add: decide_identity_def)
    next
      case True
      with None no_oidc assms have e: "decide_by_email users email src = d" by (simp add: decide_identity_def)
      show ?thesis
      proof (cases d)
        case (Link i)
        with e True decide_by_email_link [of users email src i] show ?thesis by (intro Linked) simp_all
      next
        case Reserve
        then show ?thesis using fresh by (rule Fresh)
      next
        case (Known r)
        with e have "\<forall>i. r \<noteq> IdentityUser i"
          by (auto simp: decide_by_email_def split: list.splits option.splits if_splits)
        with Known show ?thesis by (rule Refused)
      qed
    qed
  qed
qed

text \<open>Whose row a successful sign-in leaves behind.\<close>

definition signed_by :: "string \<Rightarrow> string \<Rightarrow> registry \<Rightarrow> bool" where
  "signed_by x i db =
     (case bt_get (rg_users db) i of
        None \<Rightarrow> False
      | Some row \<Rightarrow> \<not> cu_deleted row \<and> cu_enabled row \<and> (cu_oidc row = Some x \<or> (x = i \<and> cu_oidc row = None)))"

lemma resolve_cases:
  assumes ok: "bt_ok (rg_users db)" and r: "resolve_browser_identity x email enforce src db = (IdentityUser i, db')"
  obtains (Known) "db' = db" "signed_by x i db"
  | (Linked) row where "db' = link_user i x db" "bt_get (rg_users db) i = Some row" "\<not> cu_deleted row"
      "cu_enabled row" "cu_oidc row = None" "src = Some i" "enforce"
  | (Reserved) "x = i" "bt_get (rg_users db) i = None" "signed_by x i db'"
proof (cases rule: decide_identity_cases [of "live_users db" x email enforce src, OF refl, case_names Oidc Own Linked Fresh Refused])
  case (Oidc u)
  with r have "i = su_id u" "db' = db" "su_enabled u"
    by (auto simp: resolve_browser_identity_def split: if_splits)
  with Oidc live_users_iff [OF ok, of u] show ?thesis
    by (intro Known) (auto simp: signed_by_def)
next
  case (Own u)
  with r have "i = x" "db' = db" "su_enabled u" "su_oidc u = None"
    by (auto simp: resolve_browser_identity_def split: if_splits)
  with Own live_users_iff [OF ok, of u] show ?thesis
    by (intro Known) (auto simp: signed_by_def)
next
  case (Linked j)
  let ?u = "live_users db ! j"
  from Linked r have i: "i = su_id ?u" "db' = link_user i x db"
    by (auto simp: resolve_browser_identity_def Let_def)
  have "?u \<in> set (live_users db)" using Linked by simp
  with live_users_iff [OF ok, of ?u] obtain row where
    row: "bt_get (rg_users db) i = Some row" "\<not> cu_deleted row" "su_enabled ?u = cu_enabled row" "su_oidc ?u = cu_oidc row"
    using i by blast
  show ?thesis
    using Linked i row by (intro that(2)) simp_all
next
  case Fresh
  with r have "x = i" "\<not> bt_has (rg_users db) x" by (auto simp: resolve_browser_identity_def split: if_splits)
  moreover from this Fresh r have "db' = db\<lparr>rg_users := bt_put x
      \<lparr>cu_email = email, cu_enabled = True, cu_oidc = None, cu_revision = 0, cu_deleted = False\<rparr> (rg_users db)\<rparr>"
    by (auto simp: resolve_browser_identity_def)
  ultimately show ?thesis by (intro Reserved) (auto simp: bt_has_def signed_by_def)
next
  case (Refused d)
  with r show ?thesis by (auto simp: resolve_browser_identity_def)
qed

lemma resolve_signed_by:
  assumes "bt_ok (rg_users db)" "resolve_browser_identity x email enforce src db = (IdentityUser i, db')"
  shows "signed_by x i db'"
  using assms
proof (cases rule: resolve_cases)
  case (Linked row)
  then show ?thesis by (simp add: signed_by_def link_user_def)
qed simp_all

text \<open>
  Histories of sign-ins. A user's row is saved only by a caller that read it, whenever that was,
  and changed its email or whether it is enabled, or that enrols a new user
  (\<open>src/central/managed.rs\<close>); \<open>Elsewhere\<close> is any other operation of the registry.
\<close>

datatype sign_in_op = ReadUsers | SaveCopy nat string bool | EnrollUser string string | Elsewhere registry_op

type_synonym user_copy = "string \<times> int \<times> string option"

definition read_copies :: "registry \<Rightarrow> user_copy list" where
  "read_copies db = map (\<lambda>(i, u). (i, cu_revision u, cu_oidc u)) (filter (\<lambda>(i, u). \<not> cu_deleted u) (rg_users db))"

fun save_of :: "user_copy list \<Rightarrow> sign_in_op \<Rightarrow> registry_op option" where
  "save_of copies ReadUsers = None"
| "save_of copies (SaveCopy n email enabled) =
     (if n < length copies
      then (case copies ! n of (i, revision, oidc) \<Rightarrow>
        Some (SaveUser \<lparr>su_id = i, su_email = email, su_enabled = enabled, su_oidc = oidc\<rparr> (Some revision)))
      else None)"
| "save_of copies (EnrollUser i email) =
     Some (SaveUser \<lparr>su_id = i, su_email = email, su_enabled = True, su_oidc = None\<rparr> None)"
| "save_of copies (Elsewhere op) = (case op of SaveUser _ _ \<Rightarrow> None | _ \<Rightarrow> Some op)"

definition sign_in_step ::
    "(string \<Rightarrow> string) \<Rightarrow> (rat \<Rightarrow> rat) \<Rightarrow> (registry \<times> int) \<times> user_copy list \<Rightarrow> nat \<times> sign_in_op
      \<Rightarrow> (registry \<times> int) \<times> user_copy list" where
  "sign_in_step digest rnd = (\<lambda>(s, copies) (dt, op).
     ((case save_of copies op of None \<Rightarrow> s | Some r \<Rightarrow> registry_step digest rnd s (dt, r)),
      case op of ReadUsers \<Rightarrow> copies @ read_copies (fst s) | _ \<Rightarrow> copies))"

text \<open>A copy is of the row as it is, or of an earlier revision.\<close>

definition copies_ok :: "(registry \<times> int) \<times> user_copy list \<Rightarrow> bool" where
  "copies_ok = (\<lambda>(s, copies). registry_ok s \<and> (\<forall>(i, revision, oidc) \<in> set copies.
     \<exists>row. bt_get (rg_users (fst s)) i = Some row \<and> (revision < cu_revision row \<or> revision = cu_revision row \<and> oidc = cu_oidc row)))"

definition linked_to :: "string \<Rightarrow> string \<Rightarrow> registry \<Rightarrow> bool" where
  "linked_to i x db = (\<exists>row. bt_get (rg_users db) i = Some row \<and> cu_oidc row = Some x)"

lemma registry_step_users:
  assumes "case op of ResolveIdentity _ _ _ _ \<Rightarrow> False | RecordUser _ _ \<Rightarrow> False | SaveUser _ _ \<Rightarrow> False | _ \<Rightarrow> True"
  shows "rg_users (run_registry_op digest rnd now db op) = rg_users db"
  using assms by (cases op) (simp_all add: users_frame revoke_frame)

text \<open>A sign-in changes only the identity of an unlinked user its source names.\<close>

lemma resolve_rows:
  assumes "bt_ok (rg_users db)" "bt_get (rg_users db) i = Some row"
  shows "bt_get (rg_users (snd (resolve_browser_identity x email enforce src db))) i = Some row
    \<or> cu_oidc row = None \<and> enforce \<and> src = Some i
      \<and> bt_get (rg_users (snd (resolve_browser_identity x email enforce src db))) i
          = Some (row\<lparr>cu_oidc := Some x, cu_revision := cu_revision row + 1\<rparr>)"
proof (cases "decide_identity (live_users db) x email enforce src")
  case (Link j)
  then show ?thesis
  proof (cases rule: decide_identity_cases [of "live_users db" x email enforce src, OF refl, case_names Oidc Own Linked Fresh Refused])
    case (Linked k)
    then have j: "k = j" using Link by simp
    have "live_users db ! j \<in> set (live_users db)" using Linked j by simp
    with live_users_iff [OF assms(1)] obtain u where
      u: "bt_get (rg_users db) (su_id (live_users db ! j)) = Some u" "su_oidc (live_users db ! j) = cu_oidc u" by blast
    with Linked Link j assms(2) show ?thesis
      by (auto simp: resolve_browser_identity_def link_user_def Let_def)
  qed (use Link in simp_all)
qed (use assms in \<open>auto simp: resolve_browser_identity_def bt_has_def\<close>)

lemma copies_saved:
  assumes "copies_ok (s, copies)" "n < length copies" "copies ! n = (i, revision, oidc)"
    and "bt_get (rg_users (fst s)) j = Some row"
  shows "\<exists>row'. bt_get (rg_users (snd (save_user_cas
      \<lparr>su_id = i, su_email = email, su_enabled = enabled, su_oidc = oidc\<rparr> (Some revision) (fst s)))) j = Some row'
    \<and> cu_oidc row' = cu_oidc row"
proof -
  have "(i, revision, oidc) \<in> set copies" using assms(2,3) by (metis nth_mem)
  with assms(1) obtain r where "bt_get (rg_users (fst s)) i = Some r"
    "revision < cu_revision r \<or> revision = cu_revision r \<and> oidc = cu_oidc r"
    by (fastforce simp: copies_ok_def)
  with assms(4) show ?thesis by (auto simp: save_user_cas_def)
qed

text \<open>What one step does to a user's identity: nothing, or it links an unlinked one.\<close>

lemma sign_in_step_oidc:
  assumes "copies_ok (s, copies)" "bt_get (rg_users (fst s)) i = Some row"
  shows "\<exists>row'. bt_get (rg_users (fst (fst (sign_in_step digest rnd (s, copies) (dt, op))))) i = Some row'
    \<and> (cu_oidc row' = cu_oidc row
       \<or> cu_oidc row = None \<and> (\<exists>x e. cu_oidc row' = Some x \<and> op = Elsewhere (ResolveIdentity x e True (Some i))))"
proof -
  let ?now = "snd s + int dt"
  have ok: "bt_ok (rg_users (fst s))" using assms(1) by (simp add: copies_ok_def registry_ok_def)
  show ?thesis
  proof (cases op)
    case ReadUsers
    then show ?thesis using assms(2) by (simp add: sign_in_step_def)
  next
    case (SaveCopy n email enabled)
    obtain j revision oidc where c: "copies ! n = (j, revision, oidc)" by (cases "copies ! n") auto
    show ?thesis
      using copies_saved [OF assms(1) _ c assms(2)] assms(2)
      by (cases "n < length copies") (simp_all add: SaveCopy c sign_in_step_def registry_step_def Let_def)
  next
    case (EnrollUser j email)
    then show ?thesis using assms(2)
      by (auto simp: sign_in_step_def registry_step_def save_user_cas_def Let_def split: option.splits)
  next
    case (Elsewhere r)
    show ?thesis
    proof (cases r)
      case (ResolveIdentity x e enforce src)
      from resolve_rows [OF ok assms(2), of x e enforce src] show ?thesis
        by (auto simp: Elsewhere ResolveIdentity sign_in_step_def registry_step_def Let_def)
    next
      case (RecordUser j email)
      with assms(2) show ?thesis
        by (auto simp: Elsewhere sign_in_step_def registry_step_def record_browser_user_def Let_def split: option.splits)
    qed (use assms(2) registry_step_users [of r digest rnd ?now "fst s"] in
        \<open>simp_all add: Elsewhere sign_in_step_def registry_step_def Let_def\<close>)
  qed
qed

lemma sign_in_step_ok:
  assumes "copies_ok t"
  shows "copies_ok (sign_in_step digest rnd t e)"
proof -
  obtain s copies where t: "t = (s, copies)" by fastforce
  obtain dt op where e: "e = (dt, op)" by fastforce
  let ?s = "fst (sign_in_step digest rnd t e)"
  have ok: "registry_ok s" and copies: "\<And>i revision oidc. (i, revision, oidc) \<in> set copies \<Longrightarrow>
     \<exists>row. bt_get (rg_users (fst s)) i = Some row \<and> (revision < cu_revision row \<or> revision = cu_revision row \<and> oidc = cu_oidc row)"
    using assms by (auto simp: t copies_ok_def)
  have step: "?s = s \<or> (\<exists>r. ?s = registry_step digest rnd s (dt, r))"
    by (auto simp: t e sign_in_step_def split: option.split)
  have le: "registry_le s ?s"
    using step registry.step_le [OF ok, of digest rnd] registry_le_refl by metis
  have "registry_ok ?s" using step ok registry.step_inv [OF ok, of digest rnd] by metis
  moreover have "\<exists>row. bt_get (rg_users (fst ?s)) i = Some row \<and> (revision < cu_revision row \<or> revision = cu_revision row \<and> oidc = cu_oidc row)"
    if "(i, revision, oidc) \<in> set (copies @ (case op of ReadUsers \<Rightarrow> read_copies (fst s) | _ \<Rightarrow> []))" for i revision oidc
  proof -
    have "\<exists>row. bt_get (rg_users (fst s)) i = Some row \<and> (revision < cu_revision row \<or> revision = cu_revision row \<and> oidc = cu_oidc row)"
      using that copies ok bt_get_in_iff [of "rg_users (fst s)"]
      by (cases op) (auto simp: read_copies_def registry_ok_def)
    then obtain row where row: "bt_get (rg_users (fst s)) i = Some row"
      "revision < cu_revision row \<or> revision = cu_revision row \<and> oidc = cu_oidc row" by blast
    moreover obtain row' where "bt_get (rg_users (fst ?s)) i = Some row'" "row' = row \<or> cu_revision row < cu_revision row'"
      using le row(1) unfolding registry_le_def table_le_def by blast
    ultimately show ?thesis by auto
  qed
  ultimately show ?thesis by (cases op) (auto simp: copies_ok_def t e sign_in_step_def)
qed

interpretation sign_ins: guarded_system "sign_in_step digest rnd" copies_ok
  by unfold_locales (rule sign_in_step_ok)

text \<open>Over a run: an identity once linked stays, and a link is some sign-in's of the run.\<close>

lemma sign_in_run_oidc:
  "copies_ok t \<Longrightarrow> bt_get (rg_users (fst (fst t))) i = Some row \<Longrightarrow>
    \<exists>row'. bt_get (rg_users (fst (fst (foldl (sign_in_step digest rnd) t es)))) i = Some row'
      \<and> (cu_oidc row' = cu_oidc row
         \<or> cu_oidc row = None \<and> (\<exists>x dt e. cu_oidc row' = Some x \<and> (dt, Elsewhere (ResolveIdentity x e True (Some i))) \<in> set es))"
proof (induction es arbitrary: t row)
  case (Cons ev es)
  obtain dt op where e: "ev = (dt, op)" by fastforce
  obtain row1 where one: "bt_get (rg_users (fst (fst (sign_in_step digest rnd t ev)))) i = Some row1"
    "cu_oidc row1 = cu_oidc row
       \<or> cu_oidc row = None \<and> (\<exists>x e. cu_oidc row1 = Some x \<and> op = Elsewhere (ResolveIdentity x e True (Some i)))"
    using sign_in_step_oidc [of "fst t" "snd t" i row digest rnd dt op] Cons.prems e by auto
  obtain row2 where two: "bt_get (rg_users (fst (fst (foldl (sign_in_step digest rnd) t (ev # es))))) i = Some row2"
    "cu_oidc row2 = cu_oidc row1
       \<or> cu_oidc row1 = None \<and> (\<exists>x dt e. cu_oidc row2 = Some x \<and> (dt, Elsewhere (ResolveIdentity x e True (Some i))) \<in> set es)"
    using Cons.IH [OF sign_in_step_ok [OF Cons.prems(1)] one(1)] by auto
  have "cu_oidc row2 = cu_oidc row
       \<or> cu_oidc row = None \<and> (\<exists>x dt e. cu_oidc row2 = Some x \<and> (dt, Elsewhere (ResolveIdentity x e True (Some i))) \<in> set (ev # es))"
    using one(2) two(2)
  proof (elim disjE conjE exE)
    fix x e' assume "cu_oidc row2 = cu_oidc row1" "cu_oidc row1 = Some x" "op = Elsewhere (ResolveIdentity x e' True (Some i))"
      "cu_oidc row = None"
    then show ?thesis using e by auto
  qed auto
  with two(1) show ?case by blast
qed simp

definition empty_registry :: registry where
  "empty_registry = \<lparr>rg_users = [], rg_devices = [], rg_limits = [], rg_live = [], rg_sessions = [],
     rg_challenges = [], rg_audit = []\<rparr>"

lemma empty_registry_ok: "registry_ok (empty_registry, t)"
  by (simp add: registry_ok_def empty_registry_def live_browser_sessions_def)

definition sign_ins_after :: "(string \<Rightarrow> string) \<Rightarrow> (rat \<Rightarrow> rat) \<Rightarrow> int \<Rightarrow> (nat \<times> sign_in_op) list \<Rightarrow> (registry \<times> int) \<times> user_copy list" where
  "sign_ins_after digest rnd t0 es = foldl (sign_in_step digest rnd) ((empty_registry, t0), []) es"

text \<open>Who an identity would be signed in as after a history.\<close>

definition signs_in ::
    "(string \<Rightarrow> string) \<Rightarrow> (rat \<Rightarrow> rat) \<Rightarrow> int \<Rightarrow> (nat \<times> sign_in_op) list \<Rightarrow> string \<Rightarrow> string \<Rightarrow> bool \<Rightarrow> string option \<Rightarrow> browser_identity" where
  "signs_in digest rnd t0 es x email enforce src =
     fst (resolve_browser_identity x email enforce src (fst (fst (sign_ins_after digest rnd t0 es))))"

abbreviation sign_in :: "nat \<Rightarrow> string \<Rightarrow> string \<Rightarrow> bool \<Rightarrow> string option \<Rightarrow> nat \<times> sign_in_op" where
  "sign_in dt x email enforce src \<equiv> (dt, Elsewhere (ResolveIdentity x email enforce src))"

lemma sign_ins_after_ok: "copies_ok (sign_ins_after digest rnd t0 es)"
  unfolding sign_ins_after_def by (rule sign_ins.run_inv) (simp add: copies_ok_def empty_registry_ok)

lemma sign_ins_after_append:
  "sign_ins_after digest rnd t0 (es @ es') = foldl (sign_in_step digest rnd) (sign_ins_after digest rnd t0 es) es'"
  by (simp add: sign_ins_after_def)

lemma signs_in_row:
  assumes "signs_in digest rnd t0 es x email enforce src = IdentityUser i"
  shows "signed_by x i (fst (fst (sign_ins_after digest rnd t0 (es @ [sign_in dt x email enforce src]))))"
proof -
  let ?t = "sign_ins_after digest rnd t0 es"
  have ok: "bt_ok (rg_users (fst (fst ?t)))"
    using sign_ins_after_ok [of digest rnd t0 es] by (auto simp: copies_ok_def registry_ok_def split: prod.splits)
  obtain db' where "resolve_browser_identity x email enforce src (fst (fst ?t)) = (IdentityUser i, db')"
    using assms by (cases "resolve_browser_identity x email enforce src (fst (fst ?t))") (simp add: signs_in_def)
  with resolve_signed_by [OF ok this] show ?thesis
    unfolding sign_ins_after_append by (cases ?t) (simp add: sign_in_step_def registry_step_def Let_def)
qed

text \<open>C14: a company user is one identity at a time, over every history of the registry, with row saves
  from whatever stale copies. When a second identity is signed in as a user after a first one was,
  then the first was the user's own unlinked identity, and since then a sign-in of the second had,
  with email enforcement, a source configured by an administrator that names the user; and whatever
  happens afterwards, the first identity is never signed in as that user again.\<close>
theorem one_identity_per_user:
  assumes "signs_in digest rnd t0 es y e1 f1 s1 = IdentityUser i"
    and "signs_in digest rnd t0 (es @ sign_in d1 y e1 f1 s1 # es') x e2 f2 s2 = IdentityUser i" and "x \<noteq> y"
  shows "y = i \<and> (\<exists>d e. sign_in d x e True (Some i) \<in> set (es' @ [sign_in d2 x e2 f2 s2]))
    \<and> signs_in digest rnd t0 ((es @ sign_in d1 y e1 f1 s1 # es') @ sign_in d2 x e2 f2 s2 # es3) y e3 f3 s3 \<noteq> IdentityUser i"
proof -
  let ?one = "es @ [sign_in d1 y e1 f1 s1]" and ?two = "(es @ sign_in d1 y e1 f1 s1 # es') @ [sign_in d2 x e2 f2 s2]"
  let ?rows = "\<lambda>es. bt_get (rg_users (fst (fst (sign_ins_after digest rnd t0 es))))"
  obtain row1 where row1: "?rows ?one i = Some row1" "cu_oidc row1 = Some y \<or> y = i \<and> cu_oidc row1 = None"
    using signs_in_row [OF assms(1), of d1] by (auto simp: signed_by_def split: option.splits)
  obtain row2 where row2: "?rows ?two i = Some row2" "cu_oidc row2 = Some x \<or> x = i \<and> cu_oidc row2 = None"
    using signs_in_row [OF assms(2), of d2] by (auto simp: signed_by_def split: option.splits)
  have "cu_oidc row2 = cu_oidc row1 \<or> cu_oidc row1 = None \<and>
      (\<exists>z d e. cu_oidc row2 = Some z \<and> sign_in d z e True (Some i) \<in> set (es' @ [sign_in d2 x e2 f2 s2]))"
    using sign_in_run_oidc [OF sign_ins_after_ok row1(1), of digest rnd "es' @ [sign_in d2 x e2 f2 s2]",
        folded sign_ins_after_append] row2(1) by auto
  then consider "cu_oidc row2 = cu_oidc row1"
    | z d e where "cu_oidc row1 = None" "cu_oidc row2 = Some z" "sign_in d z e True (Some i) \<in> set (es' @ [sign_in d2 x e2 f2 s2])"
    by blast
  then have "y = i \<and> (\<exists>d e. sign_in d x e True (Some i) \<in> set (es' @ [sign_in d2 x e2 f2 s2])) \<and> cu_oidc row2 = Some x"
    using row1(2) row2(2) assms(3) by cases (auto simp del: set_append)
  then have first: "y = i" "\<exists>d e. sign_in d x e True (Some i) \<in> set (es' @ [sign_in d2 x e2 f2 s2])"
    and linked: "cu_oidc row2 = Some x" by blast+
  have "signs_in digest rnd t0 (?two @ es3) y e3 f3 s3 \<noteq> IdentityUser i"
  proof
    assume "signs_in digest rnd t0 (?two @ es3) y e3 f3 s3 = IdentityUser i"
    from signs_in_row [OF this, of 0] obtain row3 where
      row3: "?rows ((?two @ es3) @ [sign_in 0 y e3 f3 s3]) i = Some row3" "cu_oidc row3 = Some y \<or> y = i \<and> cu_oidc row3 = None"
      by (auto simp: signed_by_def split: option.splits)
    moreover have "cu_oidc row3 = cu_oidc row2"
      using sign_in_run_oidc [OF sign_ins_after_ok row2(1), of digest rnd "es3 @ [sign_in 0 y e3 f3 s3]",
          folded sign_ins_after_append] row3(1) linked by auto
    ultimately show False using linked assms(3) by auto
  qed
  with first show ?thesis by simp
qed

section \<open>Revocation, sessions and live counts\<close>

lemma revoke_row_out:
  assumes "revoke_row tenant user i now db = (r, db1)" "r = MachineRevoked \<or> r = MachineAlreadyRevoked"
  shows "retired i db1 \<and> (\<exists>d. bt_get (rg_devices db1) i = Some d \<and> cd_revoked d)"
  using assms
  by (auto simp: revoke_row_def retired_def retire_limiter_def split: option.splits if_splits)

lemma revoke_machine_out:
  assumes "revoke_machine digest tenant user i audit at_secs now db = (Some r, db1)"
    "r = MachineRevoked \<or> r = MachineAlreadyRevoked"
  shows "retired i db1 \<and> (\<exists>d. bt_get (rg_devices db1) i = Some d \<and> cd_revoked d)"
proof -
  obtain db0 where "revoke_row tenant user i now db = (r, db0)" "rg_limits db1 = rg_limits db0"
    "rg_devices db1 = rg_devices db0"
    using assms(1) by (auto simp: revoke_machine_def split: prod.splits option.splits if_splits)
  with revoke_row_out [of tenant user i now db r db0] assms(2) show ?thesis by (simp add: retired_def)
qed

lemma revoke_machine_revision:
  assumes "revoke_machine digest tenant user i audit at_secs now db = (Some MachineRevoked, db1)"
    "bt_get (rg_devices db) i = Some d"
  shows "\<exists>d1. bt_get (rg_devices db1) i = Some d1 \<and> cd_revision d < cd_revision d1"
  using assms
  by (auto simp: revoke_machine_def revoke_row_def retire_limiter_def split: prod.splits option.splits if_splits)

text \<open>C15: a revoked machine stays out. Whatever the registry does afterwards, its relay limiter
  never allows an event again; a device write prepared from the row before the revocation is
  refused, so a racing save cannot undo it; and the audit rows there were are unchanged.\<close>
theorem revoked_machine_stays_out:
  assumes "revoke_machine digest tenant user i audit at_secs now db = (Some r, db1)"
    and "r = MachineRevoked \<or> r = MachineAlreadyRevoked" and "registry_ok (db1, now)"
  shows "(case foldl (registry_step digest rnd) (db1, now) es of (db2, later) \<Rightarrow>
      \<not> fst (relay_event_allowed rnd capacity refill i t db2)
      \<and> (\<forall>d dev. bt_get (rg_devices db) i = Some d \<and> r = MachineRevoked
            \<longrightarrow> fst (save_device_cas tenant' i dev (Some (cd_revision d)) db2) \<noteq> Some True)
      \<and> (\<forall>k a. bt_get (rg_audit db1) k = Some a \<longrightarrow> bt_get (rg_audit db2) k = Some a))"
proof -
  obtain db2 later where run: "foldl (registry_step digest rnd) (db1, now) es = (db2, later)" by fastforce
  have le: "registry_le (db1, now) (db2, later)"
    using registry.run_le [OF assms(3), of digest rnd es] by (simp add: run)
  have "retired i db2"
    using le revoke_machine_out [OF assms(1,2)] by (simp add: registry_le_def)
  then have "\<not> fst (relay_event_allowed rnd capacity refill i t db2)"
    by (auto simp: retired_def relay_event_allowed_def split: option.splits)
  moreover have "fst (save_device_cas tenant' i dev (Some (cd_revision d)) db2) \<noteq> Some True"
    if "bt_get (rg_devices db) i = Some d" "r = MachineRevoked" for d dev
  proof -
    from revoke_machine_revision assms(1) that obtain d1
      where "bt_get (rg_devices db1) i = Some d1" "cd_revision d < cd_revision d1" by blast
    with le obtain d2 where "bt_get (rg_devices db2) i = Some d2" "cd_revision d < cd_revision d2"
      unfolding registry_le_def table_le_def fst_conv by (metis dual_order.strict_trans)
    then show ?thesis by (simp add: save_device_cas_def)
  qed
  ultimately show ?thesis
    using le by (simp add: run registry_le_def)
qed

text \<open>C33: over every history of the registry there are never more than 1,024 browser sessions
  alive, whatever the replicas create concurrently; a session past its end yields no user and
  no sign-in time, and an ended one yields no user.\<close>
theorem browser_sessions_bounded:
  "(case foldl (registry_step digest rnd) (empty_registry, t0) es of (db, now) \<Rightarrow>
      live_browser_sessions now db \<le> 1024
      \<and> (case bt_get (rg_sessions db) (digest token) of
           None \<Rightarrow> fst (browser_session_user digest token now db) = None
         | Some s \<Rightarrow> if bs_expires_at s \<le> now
             then fst (browser_session_user digest token now db) = None
               \<and> browser_session_signed_in_at digest token now db = None else True)
      \<and> fst (browser_session_user digest token now (end_browser_session digest token db)) = None)"
proof -
  obtain db now where run: "foldl (registry_step digest rnd) (empty_registry, t0) es = (db, now)" by fastforce
  have "registry_ok (db, now)"
    using registry.run_inv [OF empty_registry_ok, of digest rnd t0 es] by (simp add: run)
  then show ?thesis
    by (auto simp: run registry_ok_def browser_cap_def browser_session_user_def browser_session_signed_in_at_def
        end_browser_session_def Let_def split: option.splits)
qed

lemma filter_filter_same:
  assumes "\<And>x. x \<in> set xs \<Longrightarrow> P x \<Longrightarrow> Q x"
  shows "filter P (filter Q xs) = filter P xs"
  using assms by (induction xs) auto

text \<open>The rows a prune removes: only prunable ones.\<close>

lemma prune_keeps_rows:
  assumes "bt_ok (rg_live db)"
  obtains keep where "rg_live (prune_live_sessions locked account user now db) = filter (\<lambda>(k, _). keep k) (rg_live db)"
    and "\<And>k r. (k, r) \<in> set (rg_live db) \<Longrightarrow> \<not> keep k \<Longrightarrow> prunable account user now (k, r)"
proof -
  define expired where "expired = take 1000 (sort_key (\<lambda>(_, r). ls_last_seen r)
            (filter (\<lambda>e. prunable account user now e \<and> \<not> locked (fst e)) (rg_live db)))"
  have sub: "set expired \<subseteq> {e \<in> set (rg_live db). prunable account user now e}"
    unfolding expired_def by (auto dest!: in_set_takeD)
  show thesis
  proof (rule that [of "\<lambda>k. k \<notin> fst ` set expired"])
    show "rg_live (prune_live_sessions locked account user now db) = filter (\<lambda>(k, _). k \<notin> fst ` set expired) (rg_live db)"
      by (simp add: prune_live_sessions_def expired_def)
  next
    fix k r assume row: "(k, r) \<in> set (rg_live db)" and "\<not> k \<notin> fst ` set expired"
    then obtain r' where "(k, r') \<in> set expired" by auto
    with sub have "(k, r') \<in> set (rg_live db)" "prunable account user now (k, r')" by auto
    with row assms show "prunable account user now (k, r)"
      by (metis bt_get_in_iff option.inject)
  qed
qed

text \<open>pruning the history of live sessions changes no count of the last ten minutes, for any
  account, however many rows are locked by other replicas; and it keeps every tombstone of
  the last ten minutes, so a session closed just now is not reopened by a late heartbeat.\<close>
theorem pruning_keeps_live_counts:
  assumes "bt_ok (rg_live db)"
  shows "live_session_count a 600 now (prune_live_sessions locked account user now db) = live_session_count a 600 now db
   \<and> (case bt_get (rg_live db) (a, device) of
        None \<Rightarrow> True
      | Some r \<Rightarrow> (case ls_deleted_at r of
            None \<Rightarrow> True
          | Some t \<Rightarrow> if now - seconds 600 \<le> t
              then record_live_session a user' name device now (prune_live_sessions locked account user now db)
                   = prune_live_sessions locked account user now db else True))"
proof -
  obtain keep where kept: "rg_live (prune_live_sessions locked account user now db) = filter (\<lambda>(k, _). keep k) (rg_live db)"
    and out: "\<And>k r. (k, r) \<in> set (rg_live db) \<Longrightarrow> \<not> keep k \<Longrightarrow> prunable account user now (k, r)"
    using prune_keeps_rows [OF assms, of locked account user now] by blast
  have "live_session_count a 600 now (prune_live_sessions locked account user now db) = live_session_count a 600 now db"
    unfolding live_session_count_def kept
    by (rule arg_cong [of _ _ length], rule filter_filter_same)
      (use out in \<open>fastforce simp: prunable_def seconds_def\<close>)
  moreover have "record_live_session a user' name device now (prune_live_sessions locked account user now db)
      = prune_live_sessions locked account user now db"
    if row: "bt_get (rg_live db) (a, device) = Some r" "ls_deleted_at r = Some t" "now - seconds 600 \<le> t" for r t
  proof -
    have "((a, device), r) \<in> set (rg_live db)" using row(1) assms by (simp add: bt_get_in_iff)
    with out row(2,3) have "keep (a, device)" by (fastforce simp: prunable_def)
    then have "bt_get (rg_live (prune_live_sessions locked account user now db)) (a, device) = Some r"
      using row(1) bt_get_filter [OF assms, of "\<lambda>k _. keep k" "(a, device)"] unfolding kept by simp
    with row(2) show ?thesis by (simp add: record_live_session_def)
  qed
  ultimately show ?thesis by (simp split: option.splits)
qed

end
