(* ===== verification/RegistryDemo.thy ===== *)
theory RegistryDemo
  imports RegistryFacts
begin

text \<open>A registry with one company user and one machine, on which the hypotheses of the registry's
  theorems hold.\<close>

definition demo_users :: registry where
  "demo_users = empty_registry\<lparr>rg_users := [(''u1'', \<lparr>cu_email = ''a@x'', cu_enabled = True, cu_oidc = None,
     cu_revision = 0, cu_deleted = False\<rparr>)]\<rparr>"

definition demo_machine :: registry where
  "demo_machine = demo_users\<lparr>rg_devices := [(''m1'', \<lparr>cd_tenant = ''sawmills'', cd_user = ''u1'',
     cd_token_hash = ''h'', cd_revoked = False, cd_revision = 3, cd_deleted = False\<rparr>)]\<rparr>"

definition demo_live :: registry where
  "demo_live = demo_machine\<lparr>rg_live := [((''acc'', ''m1''), \<lparr>ls_user = ''u1'', ls_alias = ''work'', ls_last_seen = 0,
     ls_deleted_at = None\<rparr>), ((''acc'', ''m2''), \<lparr>ls_user = ''u1'', ls_alias = ''work'',
     ls_last_seen = 0, ls_deleted_at = Some 100000000000\<rparr>)]\<rparr>"

lemmas demo_registry_defs = demo_users_def demo_machine_def demo_live_def empty_registry_def

definition demo_enrolment :: "(nat \<times> sign_in_op) list" where
  "demo_enrolment = [(1, EnrollUser ''u1'' ''a@x'')]"

lemma demo_first_sign_in: "signs_in id id 0 demo_enrolment ''u1'' ''a@x'' False None = IdentityUser ''u1''"
  by code_simp

lemma demo_second_sign_in:
  "signs_in id id 0 (demo_enrolment @ sign_in 1 ''u1'' ''a@x'' False None # [(1, ReadUsers)]) ''sub'' ''A@x'' True (Some ''u1'')
    = IdentityUser ''u1''"
  by code_simp

theorem one_identity_per_user_witness:
  "signs_in id id 0 ((demo_enrolment @ sign_in 1 ''u1'' ''a@x'' False None # [(1, ReadUsers)])
       @ sign_in 1 ''sub'' ''A@x'' True (Some ''u1'') # [(1, SaveCopy 0 ''b@x'' True)]) ''u1'' ''a@x'' False None \<noteq> IdentityUser ''u1''"
  using one_identity_per_user [OF demo_first_sign_in demo_second_sign_in, of 1 "[(1, SaveCopy 0 ''b@x'' True)]" "''a@x''" False None]
  by blast

definition demo_revoked :: registry where
  "demo_revoked = snd (revoke_machine (\<lambda>s. s) ''sawmills'' ''u1'' ''m1'' (Some (''admin'', ''k1'')) 7 5 demo_machine)"

lemma demo_revocation:
  "revoke_machine (\<lambda>s. s) ''sawmills'' ''u1'' ''m1'' (Some (''admin'', ''k1'')) 7 5 demo_machine
    = (Some MachineRevoked, demo_revoked)"
  by code_simp

theorem revoked_machine_stays_out_witness:
  "\<not> fst (relay_event_allowed (\<lambda>q. q) 5 1 ''m1'' 99
      (fst (foldl (registry_step (\<lambda>s. s) (\<lambda>q. q)) (demo_revoked, 5) [(3, RelayEvent 5 1 ''m1''), (4, RetireLimiter ''m1'')])))"
proof -
  have "registry_ok (demo_revoked, 5)" by code_simp
  from revoked_machine_stays_out [OF demo_revocation _ this, where rnd = "\<lambda>q. q"
      and es = "[(3, RelayEvent 5 1 ''m1''), (4, RetireLimiter ''m1'')]" and capacity = 5 and refill = 1 and t = 99]
  show ?thesis by (simp add: case_prod_beta)
qed

theorem pruning_keeps_live_counts_witness:
  "live_session_count ''acc'' 600 (seconds 100000) (prune_live_sessions (\<lambda>_. False) ''acc'' ''u1'' (seconds 100000) demo_live) = 0
   \<and> record_live_session ''acc'' ''u1'' ''work'' ''m2'' (seconds 100000)
       (prune_live_sessions (\<lambda>_. False) ''acc'' ''u1'' (seconds 100000) demo_live)
     = prune_live_sessions (\<lambda>_. False) ''acc'' ''u1'' (seconds 100000) demo_live"
proof -
  have "bt_ok (rg_live demo_live)" by code_simp
  from pruning_keeps_live_counts [OF this, of "''acc''" "seconds 100000" "\<lambda>_. False" "''acc''" "''u1''" "''u1''" "''work''" "''m2''"]
  moreover have "live_session_count ''acc'' 600 (seconds 100000) demo_live = 0"
    by (simp add: demo_registry_defs live_session_count_def seconds_def)
  moreover have "bt_get (rg_live demo_live) (''acc'', ''m2'') = Some \<lparr>ls_user = ''u1'', ls_alias = ''work'',
     ls_last_seen = 0, ls_deleted_at = Some 100000000000\<rparr>"
    by (simp add: demo_registry_defs)
  ultimately show ?thesis by (simp add: seconds_def)
qed

end
