(* ===== verification/Json.thy ===== *)
theory Json
  imports Prelude Floats
begin

text \<open>
  The part of \<open>serde_json::Value\<close> the program reads: an object is its list of fields
  (the last of equal keys already won when it was parsed), \<open>json_get\<close> is
  \<open>Value::get\<close> on a key, and \<open>json_pointer\<close> is \<open>Value::pointer\<close> over object keys.
  A number keeps whether it was written as an integer, which \<open>as_i64\<close> asks for. Parsing
  itself is a parameter wherever bytes come in.
\<close>

datatype json =
  JNull | JBool bool | JInt int | JFloat f64 | JString string | JArray "json list" | JObject "(string \<times> json) list"

fun json_get :: "string \<Rightarrow> json \<Rightarrow> json option" where
  "json_get k (JObject fields) = map_of fields k"
| "json_get k _ = None"

fun json_str :: "json \<Rightarrow> string option" where
  "json_str (JString s) = Some s"
| "json_str _ = None"

fun json_i64 :: "json \<Rightarrow> int option" where
  "json_i64 (JInt i) = (if i64_min \<le> i \<and> i \<le> i64_max then Some i else None)"
| "json_i64 _ = None"

fun json_pointer :: "string list \<Rightarrow> json \<Rightarrow> json option" where
  "json_pointer [] v = Some v"
| "json_pointer (k # ks) v = Option.bind (json_get k v) (json_pointer ks)"

text \<open>\<open>v.pointer(path).and_then(Value::as_str)\<close>.\<close>

definition json_str_at :: "string list \<Rightarrow> json \<Rightarrow> string option" where
  "json_str_at path v = Option.bind (json_pointer path v) json_str"

lemma json_str_at_Nil [simp]: "json_str_at [] v = json_str v"
  by (simp add: json_str_at_def)

lemma json_str_at_Cons [simp]:
  "json_str_at (k # ks) v = Option.bind (json_get k v) (json_str_at ks)"
  by (cases "json_get k v") (simp_all add: json_str_at_def)

end
