(* ===== verification/Usage.thy ===== *)
theory Usage
  imports Floats
begin

text \<open>
  Account usage as the servers report it (\<open>src/api.rs\<close>), its digest for the status line
  (\<open>src/statusline.rs\<close>), the billing gate (\<open>usage_billing_class\<close> in
  \<open>src/central/server.rs\<close>) and the catalog entry made of them (\<open>account_summary\<close> in
  \<open>src/central/managed.rs\<close>). \<open>u64\<close> and \<open>i64\<close> arithmetic on server values wraps, as in
  the release build.
\<close>

section \<open>Windows\<close>

definition wrap_u64 :: "nat \<Rightarrow> nat" where "wrap_u64 n = n mod 2 ^ 64"

definition wrap_i64 :: "int \<Rightarrow> int" where "wrap_i64 i = (i + 2 ^ 63) mod 2 ^ 64 - 2 ^ 63"

definition opt_or :: "'a option \<Rightarrow> 'a option \<Rightarrow> 'a option" where
  "opt_or x y = (case x of None \<Rightarrow> y | Some _ \<Rightarrow> x)"

record window =
  w_used :: f64
  w_minutes :: "nat option"
  w_limit_seconds :: "nat option"
  w_resets_at :: "int option"
  w_reset_at :: "int option"
  w_reset_after :: "int option"

definition reset_timestamp :: "int \<Rightarrow> window \<Rightarrow> int option" where
  "reset_timestamp now w =
     opt_or (w_resets_at w) (opt_or (w_reset_at w) (map_option (\<lambda>s. wrap_i64 (now + s)) (w_reset_after w)))"

definition duration_seconds :: "window \<Rightarrow> nat option" where
  "duration_seconds w = opt_or (w_limit_seconds w) (map_option (\<lambda>m. wrap_u64 (m * 60)) (w_minutes w))"

definition format_duration_label :: "nat \<Rightarrow> string" where
  "format_duration_label seconds =
     (if seconds = 0 then ''0s''
      else if seconds mod 86400 = 0 then dec_nat (seconds div 86400) @ ''d''
      else if seconds mod 3600 = 0 then dec_nat (seconds div 3600) @ ''h''
      else if seconds mod 60 = 0 then dec_nat (seconds div 60) @ ''m''
      else dec_nat seconds @ ''s'')"

record rate_limit =
  rl_allowed :: "bool option"
  rl_limit_reached :: "bool option"
  rl_primary :: "window option"
  rl_secondary :: "window option"
  rl_primary_window :: "window option"
  rl_secondary_window :: "window option"

definition short_max_seconds :: nat where "short_max_seconds = 24 * 60 * 60"

definition rl_first :: "rate_limit \<Rightarrow> window option" where
  "rl_first r = opt_or (rl_primary r) (rl_primary_window r)"

definition rl_second :: "rate_limit \<Rightarrow> window option" where
  "rl_second r = opt_or (rl_secondary r) (rl_secondary_window r)"

definition has_window :: "rate_limit \<Rightarrow> bool" where
  "has_window r = (rl_first r \<noteq> None \<or> rl_second r \<noteq> None)"

definition windows :: "rate_limit \<Rightarrow> (nat \<times> window) list" where
  "windows r =
     (case rl_first r of None \<Rightarrow> [] | Some w \<Rightarrow> [(0, w)])
     @ (case rl_second r of None \<Rightarrow> [] | Some w \<Rightarrow> [(1, w)])"

definition short_window :: "rate_limit \<Rightarrow> window option" where
  "short_window r =
     (case (rl_first r, rl_second r) of
        (Some first, Some second) \<Rightarrow>
          (case (duration_seconds first, duration_seconds second) of
             (Some f, Some s) \<Rightarrow> Some (if f \<le> s then first else second)
           | (Some f, None) \<Rightarrow> if f \<le> short_max_seconds then Some first else None
           | (None, Some s) \<Rightarrow> if s \<le> short_max_seconds then Some second else Some first
           | (None, None) \<Rightarrow> Some first)
      | (Some window, None) \<Rightarrow>
          (case duration_seconds window of
             None \<Rightarrow> Some window
           | Some s \<Rightarrow> if s \<le> short_max_seconds then Some window else None)
      | (None, Some window) \<Rightarrow>
          (case duration_seconds window of
             None \<Rightarrow> None
           | Some s \<Rightarrow> if s \<le> short_max_seconds then Some window else None)
      | (None, None) \<Rightarrow> None)"

definition long_window :: "rate_limit \<Rightarrow> window option" where
  "long_window r =
     (case (rl_first r, rl_second r) of
        (Some first, Some second) \<Rightarrow>
          (case (duration_seconds first, duration_seconds second) of
             (Some f, Some s) \<Rightarrow> Some (if s < f then first else second)
           | (Some f, None) \<Rightarrow> if short_max_seconds < f then Some first else Some second
           | (None, Some s) \<Rightarrow> if short_max_seconds < s then Some second else None
           | (None, None) \<Rightarrow> Some second)
      | (Some window, None) \<Rightarrow>
          (case duration_seconds window of
             None \<Rightarrow> None
           | Some s \<Rightarrow> if short_max_seconds < s then Some window else None)
      | (None, Some window) \<Rightarrow>
          (case duration_seconds window of
             None \<Rightarrow> Some window
           | Some s \<Rightarrow> if short_max_seconds < s then Some window else None)
      | (None, None) \<Rightarrow> None)"

definition exhausted :: "window \<Rightarrow> bool" where
  "exhausted w = f64_le (Fin 100) (w_used w)"

definition availability_score :: "(rat \<Rightarrow> f64) \<Rightarrow> rate_limit \<Rightarrow> f64" where
  "availability_score rnd r =
     (let short = (case short_window r of None \<Rightarrow> Fin 0 | Some w \<Rightarrow> w_used w);
          long = (case long_window r of None \<Rightarrow> Fin 0 | Some w \<Rightarrow> w_used w);
          score =
            (if f64_le (Fin 100) short \<and> f64_le (Fin 100) long then Fin 900
             else if f64_le (Fin 100) long then f64_add rnd (Fin 700) short
             else if f64_le (Fin 100) short then f64_add rnd (Fin 500) long
             else f64_add rnd (f64_double rnd short) long)
      in if list_ex (\<lambda>(_, w). exhausted w) (windows r) then f64_max score (Fin 500) else score)"

section \<open>Responses and billing\<close>

record credits =
  cd_has_credits :: bool
  cd_unlimited :: bool
  cd_overage_limit_reached :: bool
  cd_balance :: "string option"

record reset_summary =
  rs_available_count :: int
  rs_applicable_available_count :: int

record rate_limit_response =
  rr_plan_type :: "string option"
  rr_rate_limit :: "rate_limit option"
  rr_credits :: "credits option"
  rr_spend_reached :: "bool option"
  rr_additional :: "rate_limit option list"
  rr_reset_credits :: "reset_summary option"
  rr_windows_partial :: bool

datatype billing_class = RateLimited | UsageBased | UnknownBilling

fun contains_str :: "string \<Rightarrow> string \<Rightarrow> bool" where
  "contains_str p [] = (p = [])"
| "contains_str p (c # s) = (starts_with p (c # s) \<or> contains_str p s)"

definition is_known_rate_limited_plan :: "string \<Rightarrow> bool" where
  "is_known_rate_limited_plan plan =
     (plan \<in> set [''free'', ''go'', ''plus'', ''pro'', ''prolite'', ''promax'', ''team'', ''business'',
                  ''enterprise'', ''edu''])"

definition credit_billing :: "rate_limit_response \<Rightarrow> bool" where
  "credit_billing u = (case rr_credits u of
      None \<Rightarrow> False
    | Some c \<Rightarrow> cd_has_credits c \<or> cd_unlimited c \<or> cd_overage_limit_reached c)"

definition reported_windows :: "rate_limit_response \<Rightarrow> window list" where
  "reported_windows u = (case rr_rate_limit u of None \<Rightarrow> [] | Some r \<Rightarrow> map snd (windows r))"

definition response_billing_class :: "rate_limit_response \<Rightarrow> billing_class" where
  "response_billing_class u =
     (if (case rr_plan_type u of None \<Rightarrow> False | Some plan \<Rightarrow> contains_str ''usage_based'' plan) then UsageBased
      else if (case rr_rate_limit u of None \<Rightarrow> False | Some r \<Rightarrow> has_window r) then
        (if \<not> (case rr_plan_type u of None \<Rightarrow> False | Some plan \<Rightarrow> is_known_rate_limited_plan plan)
         then UnknownBilling else RateLimited)
      else if credit_billing u then UsageBased
      else UnknownBilling)"

definition reset_credits_available :: "rate_limit_response \<Rightarrow> int" where
  "reset_credits_available u = (case rr_reset_credits u of None \<Rightarrow> 0 | Some c \<Rightarrow> rs_available_count c)"

definition reset_credits_applicable :: "rate_limit_response \<Rightarrow> int" where
  "reset_credits_applicable u =
     (case rr_reset_credits u of None \<Rightarrow> 0 | Some c \<Rightarrow> rs_applicable_available_count c)"

text \<open>\<open>usage_billing_class\<close>: the class automatic selection relies on.\<close>

definition below_full :: "window \<Rightarrow> bool" where
  "below_full w = (f64_le (Fin 0) (w_used w) \<and> f64_lt (w_used w) (Fin 100))"

definition at_most_full :: "window \<Rightarrow> bool" where
  "at_most_full w = (is_finite (w_used w) \<and> f64_le (Fin 0) (w_used w) \<and> f64_le (w_used w) (Fin 100))"

definition has_headroom :: "rate_limit_response \<Rightarrow> bool" where
  "has_headroom u =
     (case rr_rate_limit u of
        None \<Rightarrow> True
      | Some r \<Rightarrow>
          list_all below_full (map snd (windows r))
          \<or> (rl_allowed r = Some True \<and> rl_limit_reached r = Some False
             \<and> list_all at_most_full (map snd (windows r))))"

definition usage_billing_class :: "rate_limit_response \<Rightarrow> billing_class" where
  "usage_billing_class u =
     (let class = response_billing_class u in
      if class = RateLimited \<and> \<not> has_headroom u then UnknownBilling
      else if class = RateLimited
        \<and> rr_plan_type u \<in> set [Some ''plus'', Some ''pro'', Some ''prolite'', Some ''promax'']
        \<and> \<not> (case rr_credits u of None \<Rightarrow> False | Some c \<Rightarrow> cd_overage_limit_reached c) then class
      else if class = RateLimited \<and> \<not> (case rr_spend_reached u of None \<Rightarrow> False | Some b \<Rightarrow> b)
        \<and> (rr_plan_type u \<in> set [Some ''team'', Some ''business'', Some ''enterprise'', Some ''edu'']
           \<or> credit_billing u \<or> rr_spend_reached u \<noteq> None) then UnknownBilling
      else class)"

section \<open>The status line digest\<close>

record sl_usage =
  sl_age_seconds :: nat
  sl_weekly_used :: "f64 option"
  sl_weekly_resets_at :: "int option"
  sl_five_hour_used :: "f64 option"
  sl_five_hour_resets_at :: "int option"
  sl_allowed :: "bool option"
  sl_limit_reached :: "bool option"
  sl_max_used :: "f64 option"

definition reduce_max :: "f64 list \<Rightarrow> f64 option" where
  "reduce_max xs = (case xs of [] \<Rightarrow> None | x # ys \<Rightarrow> Some (foldl f64_max x ys))"

definition all_windows :: "rate_limit_response \<Rightarrow> window list" where
  "all_windows u =
     reported_windows u
     @ concat (map (\<lambda>l. case l of None \<Rightarrow> [] | Some r \<Rightarrow> map snd (windows r)) (rr_additional u))"

definition sl_from_usage :: "int \<Rightarrow> rate_limit_response \<Rightarrow> sl_usage" where
  "sl_from_usage now u =
     (let window = (\<lambda>s. find (\<lambda>w. duration_seconds w = Some s) (reported_windows u));
          weekly = window 604800;
          short = window 18000
      in \<lparr>sl_age_seconds = 0,
          sl_weekly_used = map_option w_used weekly,
          sl_weekly_resets_at = Option.bind weekly (reset_timestamp now),
          sl_five_hour_used = map_option w_used short,
          sl_five_hour_resets_at = Option.bind short (reset_timestamp now),
          sl_allowed = Option.bind (rr_rate_limit u) rl_allowed,
          sl_limit_reached = Option.bind (rr_rate_limit u) rl_limit_reached,
          sl_max_used = (if rr_windows_partial u then None else reduce_max (map w_used (all_windows u)))\<rparr>)"

section \<open>Catalog entries\<close>

record loan_info =
  li_id :: string
  li_lender_email :: string
  li_ends_at :: int
  li_paused :: "string option"

record account =
  ac_user_id :: string
  ac_alias :: string
  ac_label :: "string option"
  ac_account_id :: string
  ac_plan :: "string option"
  ac_billing :: billing_class
  ac_credits :: "credits option"
  ac_primary_used :: "f64 option"
  ac_secondary_used :: "f64 option"
  ac_primary_window_seconds :: "nat option"
  ac_secondary_window_seconds :: "nat option"
  ac_primary_resets_at :: "int option"
  ac_resets_at :: "int option"
  ac_available :: bool
  ac_usage_score :: "f64 option"
  ac_usage_age_seconds :: "nat option"
  ac_usage_stale :: bool
  ac_usage_error :: "string option"
  ac_statusline_usage :: "sl_usage option"
  ac_live_sessions :: "nat option"
  ac_recent_429_rate :: "f64 option"
  ac_loan :: "loan_info option"

text \<open>
  What \<open>account_summary\<close> reads of an owner: vault fields, the plan of the limits and of
  the token, the parsed usage, the billing class of the raw limits, and how old the
  observation is.
\<close>

record owner_view =
  ow_user :: string
  ow_alias :: string
  ow_label :: "string option"
  ow_account_id :: "string option"
  ow_limits_plan :: "string option"
  ow_token_plan :: "string option"
  ow_usage :: "rate_limit_response option"
  ow_billing :: "billing_class option"
  ow_selectable :: bool
  ow_observed_age :: "nat option"

definition catalog_ttl :: nat where "catalog_ttl = 60"

definition account_summary :: "(rat \<Rightarrow> f64) \<Rightarrow> int \<Rightarrow> owner_view \<Rightarrow> account" where
  "account_summary rnd now ow =
     (let limits = Option.bind (ow_usage ow) rr_rate_limit;
          short = Option.bind limits short_window;
          long = Option.bind limits long_window
      in \<lparr>ac_user_id = ow_user ow, ac_alias = trim (ow_alias ow), ac_label = ow_label ow,
          ac_account_id = (case ow_account_id ow of None \<Rightarrow> '''' | Some i \<Rightarrow> i),
          ac_plan = opt_or (ow_limits_plan ow) (ow_token_plan ow),
          ac_billing = (case ow_billing ow of None \<Rightarrow> UnknownBilling | Some b \<Rightarrow> b),
          ac_credits = Option.bind (ow_usage ow) rr_credits,
          ac_primary_used = map_option w_used short,
          ac_secondary_used = map_option w_used long,
          ac_primary_window_seconds = Option.bind short duration_seconds,
          ac_secondary_window_seconds = Option.bind long duration_seconds,
          ac_primary_resets_at = Option.bind short (reset_timestamp now),
          ac_resets_at = Option.bind long (reset_timestamp now),
          ac_available = ow_selectable ow,
          ac_usage_score = map_option (availability_score rnd) limits,
          ac_usage_age_seconds = ow_observed_age ow,
          ac_usage_stale = (case ow_observed_age ow of None \<Rightarrow> True | Some age \<Rightarrow> catalog_ttl \<le> age),
          ac_usage_error = None, ac_statusline_usage = None, ac_live_sessions = Some 0,
          ac_recent_429_rate = None, ac_loan = None\<rparr>)"

section \<open>Properties\<close>

lemma short_in: "short_window r = Some w \<Longrightarrow> w \<in> set (map snd (windows r))"
  by (auto simp: short_window_def windows_def split: option.splits if_splits)

lemma long_in: "long_window r = Some w \<Longrightarrow> w \<in> set (map snd (windows r))"
  by (auto simp: long_window_def windows_def split: option.splits if_splits)

text \<open>The short and the long window are windows the server reported. When both
  reported windows declare a duration, they are those two windows in order of duration; a
  single window fills exactly one of the two roles, decided by whether it exceeds a day, or
  by its slot when it declares no duration.\<close>

theorem window_roles:
  "(case short_window r of None \<Rightarrow> True | Some w \<Rightarrow> w \<in> set (map snd (windows r)))
   \<and> (case long_window r of None \<Rightarrow> True | Some w \<Rightarrow> w \<in> set (map snd (windows r)))
   \<and> (case windows r of
        [(_, v), (_, w)] \<Rightarrow>
          (case (duration_seconds v, duration_seconds w) of
             (Some a, Some b) \<Rightarrow>
               (short_window r, long_window r) = (if a \<le> b then (Some v, Some w) else (Some w, Some v))
           | _ \<Rightarrow> \<not> (short_window r = None \<and> long_window r = None))
      | [(slot, w)] \<Rightarrow>
          (short_window r, long_window r) =
            (if (case duration_seconds w of None \<Rightarrow> slot = 0 | Some d \<Rightarrow> d \<le> short_max_seconds)
             then (Some w, None) else (None, Some w))
      | _ \<Rightarrow> short_window r = None \<and> long_window r = None)"
proof (intro conjI)
  show "case short_window r of None \<Rightarrow> True | Some w \<Rightarrow> w \<in> set (map snd (windows r))"
    using short_in by (simp split: option.split)
  show "case long_window r of None \<Rightarrow> True | Some w \<Rightarrow> w \<in> set (map snd (windows r))"
    using long_in by (simp split: option.split)
  show "case windows r of
        [(_, v), (_, w)] \<Rightarrow>
          (case (duration_seconds v, duration_seconds w) of
             (Some a, Some b) \<Rightarrow>
               (short_window r, long_window r) = (if a \<le> b then (Some v, Some w) else (Some w, Some v))
           | _ \<Rightarrow> \<not> (short_window r = None \<and> long_window r = None))
      | [(slot, w)] \<Rightarrow>
          (short_window r, long_window r) =
            (if (case duration_seconds w of None \<Rightarrow> slot = 0 | Some d \<Rightarrow> d \<le> short_max_seconds)
             then (Some w, None) else (None, Some w))
      | _ \<Rightarrow> short_window r = None \<and> long_window r = None"
  proof (cases "rl_first r")
    case None
    then show ?thesis
      by (cases "rl_second r"; cases "duration_seconds (the (rl_second r))")
        (simp_all add: windows_def short_window_def long_window_def)
  next
    case (Some v)
    then show ?thesis
      by (cases "rl_second r"; cases "duration_seconds v"; cases "duration_seconds (the (rl_second r))")
        (simp_all add: windows_def short_window_def long_window_def)
  qed
qed

text \<open>An unexhausted value, as a value that is at most a rational below 100.\<close>

lemma f64_max_ge: "f64_le (Fin c) (f64_max x (Fin c))"
  by (cases x) (auto simp: f64_max_def f64_le.simps f64_lt.simps)

lemma unexhausted_sum:
  assumes "rounding rnd" and "\<not> f64_le (Fin 100) x" and "\<not> f64_le (Fin 100) y"
  shows "\<not> f64_le (Fin 500) (f64_add rnd (f64_double rnd x) y)"
proof -
  have exact: "rnd 200 = Fin 200" "rnd 300 = Fin 300"
    using roundingD(2) [OF assms(1), of 200] roundingD(2) [OF assms(1), of 300] by simp_all
  have low: "\<not> f64_le (Fin 500) (rnd s)" if "s \<le> 300" for s
  proof
    assume "f64_le (Fin 500) (rnd s)"
    moreover have "f64_le (rnd s) (Fin 300)" using roundingD(1) [OF assms(1) that] exact by simp
    ultimately have "f64_le (Fin 500) (Fin 300)" by (rule f64_le_trans)
    then show False by simp
  qed
  have dbl: "f64_le (f64_double rnd x) (Fin 200) \<or> is_nan (f64_double rnd x)"
  proof (cases x)
    case (Fin r)
    then have "r * 2 \<le> 200" using assms(2) by simp
    then show ?thesis using roundingD(1) [OF assms(1), of "r * 2" 200] exact Fin by (simp add: f64_double_def)
  qed (use assms(2) in \<open>auto simp: f64_double_def f64_le.simps\<close>)
  show ?thesis
  proof (cases "f64_double rnd x")
    case (Fin d)
    with dbl have "d \<le> 200" by simp
    with Fin show ?thesis
      using assms(3) low by (cases y) (auto simp: f64_add_def f64_le.simps)
  qed (use assms(3) dbl in \<open>cases y; auto simp: f64_add_def f64_le.simps\<close>)+
qed

text \<open>The availability score separates exhausted from usable accounts: it is at least 500
  exactly when some reported window is used up, also one that is neither the short nor the
  long window, for every rounding of the arithmetic.\<close>

theorem score_marks_exhaustion:
  assumes "rounding rnd"
  shows "f64_le (Fin 500) (availability_score rnd r) = list_ex exhausted (map snd (windows r))"
proof (cases "list_ex exhausted (map snd (windows r))")
  case True
  then have "list_ex (\<lambda>(_, w). exhausted w) (windows r)" by (auto simp: list_ex_iff)
  with True show ?thesis by (simp add: availability_score_def Let_def f64_max_ge)
next
  case False
  then have none: "\<not> exhausted w" if "w \<in> set (map snd (windows r))" for w
    using that by (auto simp: list_ex_iff)
  have any: "\<not> list_ex (\<lambda>(_, w). exhausted w) (windows r)" using False by (auto simp: list_ex_iff)
  have short: "\<not> f64_le (Fin 100) (case short_window r of None \<Rightarrow> Fin 0 | Some w \<Rightarrow> w_used w)"
    using none [OF short_in] by (auto simp: exhausted_def split: option.split)
  have long: "\<not> f64_le (Fin 100) (case long_window r of None \<Rightarrow> Fin 0 | Some w \<Rightarrow> w_used w)"
    using none [OF long_in] by (auto simp: exhausted_def split: option.split)
  from unexhausted_sum [OF assms short long] False any short long show ?thesis
    by (simp add: availability_score_def Let_def)
qed

definition full_week :: window where
  "full_week = \<lparr>w_used = Fin 100, w_minutes = Some 10080, w_limit_seconds = None, w_resets_at = None,
     w_reset_at = None, w_reset_after = None\<rparr>"

definition weekly_limit :: rate_limit where
  "weekly_limit = \<lparr>rl_allowed = None, rl_limit_reached = None, rl_primary = Some full_week,
     rl_secondary = None, rl_primary_window = None, rl_secondary_window = None\<rparr>"

theorem score_marks_exhaustion_witness: "f64_le (Fin 500) (availability_score Fin weekly_limit)"
  using score_marks_exhaustion [OF rounding_Fin, of weekly_limit]
  by (simp add: weekly_limit_def windows_def rl_first_def rl_second_def opt_or_def full_week_def exhausted_def)

lemma known_plan_not_usage_based:
  "is_known_rate_limited_plan p \<Longrightarrow> \<not> contains_str ''usage_based'' p"
  by (auto simp: is_known_rate_limited_plan_def)

text \<open>an account counts as included usage exactly when its plan is a known subscription,
  the server reported a window, every reported window has headroom, and using it cannot be
  billed to credits: the organization's cap is closed, or it is a personal plan without
  overage, or a free plan with no credits and no spend control.\<close>

theorem included_usage_cannot_bill:
  "(usage_billing_class u = RateLimited) =
     ((case rr_plan_type u of None \<Rightarrow> False | Some plan \<Rightarrow> is_known_rate_limited_plan plan)
      \<and> reported_windows u \<noteq> [] \<and> has_headroom u
      \<and> (rr_spend_reached u = Some True
         \<or> (rr_plan_type u \<in> set [Some ''plus'', Some ''pro'', Some ''prolite'', Some ''promax'']
            \<and> \<not> (case rr_credits u of None \<Rightarrow> False | Some c \<Rightarrow> cd_overage_limit_reached c))
         \<or> (rr_plan_type u \<in> set [Some ''free'', Some ''go''] \<and> \<not> credit_billing u
            \<and> rr_spend_reached u = None)))"
proof (cases "response_billing_class u = RateLimited")
  case False
  then have "usage_billing_class u \<noteq> RateLimited" by (auto simp: usage_billing_class_def Let_def)
  moreover have "\<not> ((case rr_plan_type u of None \<Rightarrow> False | Some plan \<Rightarrow> is_known_rate_limited_plan plan)
      \<and> reported_windows u \<noteq> [])"
    using False known_plan_not_usage_based
    by (auto simp: response_billing_class_def reported_windows_def has_window_def windows_def
        split: option.splits if_splits)
  ultimately show ?thesis by blast
next
  case True
  then obtain plan r where plan: "rr_plan_type u = Some plan" "is_known_rate_limited_plan plan"
    and windows: "rr_rate_limit u = Some r" "has_window r"
    by (auto simp: response_billing_class_def split: option.splits if_splits)
  have "reported_windows u \<noteq> []"
    using windows by (auto simp: reported_windows_def has_window_def windows_def)
  define personal where "personal = (rr_plan_type u \<in> set [Some ''plus'', Some ''pro'', Some ''prolite'', Some ''promax''])"
  define company where "company = (rr_plan_type u \<in> set [Some ''team'', Some ''business'', Some ''enterprise'', Some ''edu''])"
  define unpaid where "unpaid = (rr_plan_type u \<in> set [Some ''free'', Some ''go''])"
  define over where "over = (case rr_credits u of None \<Rightarrow> False | Some c \<Rightarrow> cd_overage_limit_reached c)"
  have kind: "unpaid \<and> \<not> personal \<and> \<not> company \<or> \<not> unpaid \<and> personal \<and> \<not> company \<or> \<not> unpaid \<and> \<not> personal \<and> company"
    using plan(2) unfolding personal_def company_def unpaid_def plan(1)
    by (simp only: is_known_rate_limited_plan_def list.set insert_iff empty_iff) (elim disjE; simp)
  have over: "over \<longrightarrow> credit_billing u"
    by (simp add: over_def credit_billing_def split: option.split)
  have "usage_billing_class u = RateLimited \<longleftrightarrow> has_headroom u
      \<and> (personal \<and> \<not> over \<or> rr_spend_reached u = Some True
         \<or> \<not> (company \<or> credit_billing u \<or> rr_spend_reached u \<noteq> None))"
    unfolding usage_billing_class_def Let_def True
    unfolding personal_def [symmetric] company_def [symmetric] over_def [symmetric]
    by (cases "rr_spend_reached u") simp_all
  then show ?thesis
    using \<open>reported_windows u \<noteq> []\<close> kind over plan(2)
    unfolding personal_def [symmetric] unpaid_def [symmetric] over_def [symmetric]
    by (simp add: plan(1)) blast
qed

lemma f64_max_upper:
  "is_nan x \<or> f64_le x (f64_max x y)" "is_nan y \<or> f64_le y (f64_max x y)"
  by (cases x; cases y; auto simp: f64_max_def f64_le.simps f64_lt.simps)+

lemma foldl_max_upper:
  "z \<in> insert x (set ys) \<Longrightarrow> is_nan z \<or> f64_le z (foldl f64_max x ys)"
proof (induction ys arbitrary: x z)
  case Nil
  then show ?case by (cases z) (auto simp: f64_le.simps)
next
  case (Cons y ys)
  show ?case
  proof (cases "z \<in> set ys")
    case True
    then show ?thesis using Cons.IH [of z "f64_max x y"] by simp
  next
    case False
    with Cons.prems have "is_nan z \<or> f64_le z (f64_max x y)" using f64_max_upper by auto
    moreover from this have "is_nan z \<or> \<not> is_nan (f64_max x y)" by (auto simp: f64_le.simps)
    ultimately show ?thesis
      using Cons.IH [of "f64_max x y" "f64_max x y"] f64_le_trans by auto
  qed
qed

lemma max_covers:
  "case sl_max_used (sl_from_usage now u) of
     None \<Rightarrow> rr_windows_partial u \<or> all_windows u = []
   | Some m \<Rightarrow> list_all (\<lambda>w. is_nan (w_used w) \<or> f64_le (w_used w) m) (all_windows u)"
proof (cases "all_windows u")
  case Nil
  then show ?thesis by (simp add: sl_from_usage_def Let_def reduce_max_def)
next
  case (Cons w ws)
  have "is_nan (w_used v) \<or> f64_le (w_used v) (foldl f64_max (w_used w) (map w_used ws))"
    if "v \<in> set (w # ws)" for v
    using that by (intro foldl_max_upper) auto
  then show ?thesis
    by (auto simp: sl_from_usage_def Let_def reduce_max_def Cons list_all_iff)
qed

text \<open>The all-window maximum a borrower's placement relies on bounds every window the
  server reported, model-specific buckets included, and is absent exactly when the source
  is partial or reports no window.\<close>

theorem all_window_maximum:
  "(sl_max_used (sl_from_usage now u) = None) = (rr_windows_partial u \<or> all_windows u = [])
   \<and> (case sl_max_used (sl_from_usage now u) of
        None \<Rightarrow> True
      | Some m \<Rightarrow> list_all (\<lambda>w. is_nan (w_used w) \<or> f64_le (w_used w) m) (all_windows u))"
  using max_covers [of u now]
  by (auto simp: sl_from_usage_def Let_def reduce_max_def split: list.splits if_splits)

end
