(* ===== verification/Tokens.thy ===== *)
theory Tokens
  imports Json Aliases Usage
begin

text \<open>
  Credentials as the local program reads them (\<open>src/api.rs\<close>): the claims of an access
  token, the login they name, and the two shapes of an \<open>auth.json\<close>. Base64 and serde are
  outside \<open>src/\<close>: \<open>h_base64\<close> is the URL-safe decoder, \<open>h_json\<close> is \<open>serde_json::from_slice\<close>,
  and \<open>h_auth\<close>, \<open>h_meta\<close>, \<open>h_print\<close> are the derived conversions of \<open>CodexAuthJson\<close> and \<open>Meta\<close>.
\<close>

section \<open>Files\<close>

record codex_tokens =
  ct_access_token :: string
  ct_refresh_token :: "string option"
  ct_account_id :: "string option"
  ct_chatgpt_account_id :: "string option"

record codex_auth =
  ca_tokens :: "codex_tokens option"
  ca_access_token :: "string option"
  ca_refresh_token :: "string option"
  ca_account_id :: "string option"
  ca_chatgpt_account_id :: "string option"

record auth_json =
  aj_access_token :: string
  aj_refresh_token :: "string option"
  aj_account_id :: "string option"

record meta =
  m_alias :: string
  m_label :: "string option"
  m_email :: "string option"
  m_plan :: "string option"
  m_account_id :: "string option"
  m_user_id :: "string option"
  m_saved_at :: string

definition default_meta :: meta where
  "default_meta = \<lparr>m_alias = [], m_label = None, m_email = None, m_plan = None,
     m_account_id = None, m_user_id = None, m_saved_at = []\<rparr>"

record host =
  h_base64 :: "string \<Rightarrow> string option"
  h_json :: "string \<Rightarrow> json option"
  h_auth :: "string \<Rightarrow> codex_auth option"
  h_meta :: "string \<Rightarrow> meta option"
  h_print :: "meta \<Rightarrow> string"

section \<open>Token claims\<close>

definition decode_jwt_payload :: "'h host_scheme \<Rightarrow> string \<Rightarrow> json option" where
  "decode_jwt_payload h token =
     (case split_on CHR ''.'' token of
        _ # payload # _ # _ \<Rightarrow> Option.bind (h_base64 h payload) (h_json h)
      | _ \<Rightarrow> None)"

definition auth_claim :: string where "auth_claim = ''https://api.openai.com/auth''"
definition profile_claim :: string where "profile_claim = ''https://api.openai.com/profile''"

record token_ident =
  ti_email :: "string option"
  ti_name :: "string option"
  ti_account_id :: "string option"
  ti_user_id :: "string option"
  ti_plan :: "string option"

definition default_ident :: token_ident where
  "default_ident = \<lparr>ti_email = None, ti_name = None, ti_account_id = None, ti_user_id = None, ti_plan = None\<rparr>"

definition string_claim :: "json option \<Rightarrow> string \<Rightarrow> string option" where
  "string_claim object key = Option.bind (Option.bind object (json_get key)) json_str"

definition token_identity :: "'h host_scheme \<Rightarrow> string \<Rightarrow> token_ident option" where
  "token_identity h token = map_option (\<lambda>v.
     let profile = json_get profile_claim v; auth = json_get auth_claim v in
     \<lparr>ti_email = string_claim profile ''email'',
      ti_name = string_claim profile ''name'',
      ti_account_id = opt_or (string_claim auth ''chatgpt_account_id'') (string_claim auth ''account_id''),
      ti_user_id = string_claim auth ''chatgpt_user_id'',
      ti_plan = string_claim auth ''chatgpt_plan_type''\<rparr>) (decode_jwt_payload h token)"

definition extract_account_id :: "'h host_scheme \<Rightarrow> string \<Rightarrow> string option" where
  "extract_account_id h token = Option.bind (token_identity h token) ti_account_id"

definition token_subject :: "'h host_scheme \<Rightarrow> string \<Rightarrow> string option" where
  "token_subject h token = Option.bind (decode_jwt_payload h token) (\<lambda>v. string_claim (Some v) ''sub'')"

definition token_issued_at :: "'h host_scheme \<Rightarrow> string \<Rightarrow> int option" where
  "token_issued_at h token =
     Option.bind (decode_jwt_payload h token) (\<lambda>v. Option.bind (json_get ''iat'' v) json_i64)"

definition token_expiry :: "'h host_scheme \<Rightarrow> string \<Rightarrow> int option" where
  "token_expiry h token =
     Option.bind (decode_jwt_payload h token) (\<lambda>v. Option.bind (json_get ''exp'' v) json_i64)"

definition token_logins :: "'h host_scheme \<Rightarrow> string \<Rightarrow> logins" where
  "token_logins h token =
     \<lparr>login_uid = Option.bind (token_identity h token) ti_user_id, login_sub = token_subject h token\<rparr>"

definition token_login :: "'h host_scheme \<Rightarrow> string \<Rightarrow> string option" where
  "token_login h token = canonical (token_logins h token)"

definition recorded_logins :: "string \<Rightarrow> logins" where
  "recorded_logins user_id = \<lparr>login_uid = Some user_id, login_sub = None\<rparr>"

definition is_token_expired :: "'h host_scheme \<Rightarrow> int \<Rightarrow> string \<Rightarrow> bool" where
  "is_token_expired h now token = (case token_expiry h token of None \<Rightarrow> False | Some e \<Rightarrow> e < now)"

section \<open>Reading an auth file\<close>

text \<open>
  A file and whether the transfer marker beside it exists (or cannot be inspected), which
  makes \<open>require_local_auth\<close> refuse it. A file that cannot be read has no bytes.
\<close>

record auth_file =
  af_bytes :: "string option"
  af_moved :: bool

definition auth_of_raw :: "'h host_scheme \<Rightarrow> codex_auth \<Rightarrow> auth_json option" where
  "auth_of_raw h raw =
     (case ca_tokens raw of
        Some t \<Rightarrow> Some
          \<lparr>aj_access_token = ct_access_token t, aj_refresh_token = ct_refresh_token t,
           aj_account_id = opt_or (opt_or (ct_account_id t) (ct_chatgpt_account_id t))
                             (extract_account_id h (ct_access_token t))\<rparr>
      | None \<Rightarrow> map_option (\<lambda>access.
          \<lparr>aj_access_token = access, aj_refresh_token = ca_refresh_token raw,
           aj_account_id = opt_or (opt_or (ca_account_id raw) (ca_chatgpt_account_id raw))
                             (extract_account_id h access)\<rparr>) (ca_access_token raw))"

definition read_auth_json :: "'h host_scheme \<Rightarrow> auth_file \<Rightarrow> auth_json option" where
  "read_auth_json h f =
     (if af_moved f then None
      else Option.bind (af_bytes f) (\<lambda>bytes. Option.bind (h_auth h bytes) (auth_of_raw h)))"

definition identity_of_auth_file :: "'h host_scheme \<Rightarrow> auth_file \<Rightarrow> token_ident" where
  "identity_of_auth_file h f =
     (case read_auth_json h f of
        None \<Rightarrow> default_ident
      | Some auth \<Rightarrow>
          let identity = (case token_identity h (aj_access_token auth) of None \<Rightarrow> default_ident | Some i \<Rightarrow> i) in
          identity\<lparr>ti_account_id := opt_or (aj_account_id auth) (ti_account_id identity)\<rparr>)"

text \<open>The workspace a readable file resolves to is the one \<open>read_auth_json\<close> answers.\<close>

lemma opt_or_simps [simp]:
  "opt_or None y = y" "opt_or (Some a) y = Some a" "opt_or y None = y"
  by (simp_all add: opt_or_def split: option.splits)

lemma opt_or_absorb [simp]: "opt_or (opt_or x y) y = opt_or x y"
  by (cases x; cases y) simp_all

lemma auth_of_raw_account:
  "auth_of_raw h raw = Some auth \<Longrightarrow>
     opt_or (aj_account_id auth) (extract_account_id h (aj_access_token auth)) = aj_account_id auth"
  by (auto simp: auth_of_raw_def opt_or_def split: option.splits)

lemma read_auth_json_account:
  "read_auth_json h f = Some auth \<Longrightarrow>
     opt_or (aj_account_id auth) (extract_account_id h (aj_access_token auth)) = aj_account_id auth"
  by (auto simp: read_auth_json_def bind_eq_Some_conv split: if_splits dest: auth_of_raw_account)

lemma identity_account:
  "ti_account_id (identity_of_auth_file h f) = Option.bind (read_auth_json h f) aj_account_id"
proof (cases "read_auth_json h f")
  case (Some auth)
  then have "opt_or (aj_account_id auth) (extract_account_id h (aj_access_token auth)) = aj_account_id auth"
    by (rule read_auth_json_account)
  then show ?thesis
    by (cases "token_identity h (aj_access_token auth)")
      (simp_all add: identity_of_auth_file_def Some Let_def extract_account_id_def default_ident_def)
qed (simp add: identity_of_auth_file_def default_ident_def)

end
