(* ===== verification/Profiles.thy ===== *)
theory Profiles
  imports Tokens BTree
begin

text \<open>
  The local profile store (\<open>src/profile.rs\<close>, \<open>src/store.rs\<close>): a directory per alias
  with its \<open>auth.json\<close> and \<open>meta.json\<close>, the live and other auth files, and the active marker.
  Every write is atomic, so an operation is the list of stores it leaves behind, newest
  first: a crash leaves one of them. Whether a write succeeds is the parameter \<open>w_ok\<close>.
  A deletion is one step. Entry names that are not UTF-8 are skipped by every operation and not represented.
\<close>

section \<open>The store\<close>

record profile_files =
  pf_auth :: auth_file
  pf_meta :: "string option"

datatype entry = Dir profile_files | PlainFile | SymLink

datatype marker = NoMarker | MarkerLink | MarkerFile string

datatype auth_loc = Live | Other string

record store =
  st_profiles :: "(string, entry) btree"
  st_unreadable :: bool
  st_live :: auth_file
  st_others :: "(string, auth_file) btree"
  st_snapshot :: auth_file
  st_active :: marker
  st_app_auth :: bool

definition no_file :: auth_file where "no_file = \<lparr>af_bytes = None, af_moved = False\<rparr>"
definition no_files :: profile_files where "no_files = \<lparr>pf_auth = no_file, pf_meta = None\<rparr>"

fun auth_at :: "auth_loc \<Rightarrow> store \<Rightarrow> auth_file" where
  "auth_at Live s = st_live s"
| "auth_at (Other p) s = (case bt_get (st_others s) p of None \<Rightarrow> no_file | Some f \<Rightarrow> f)"

section \<open>Writes\<close>

datatype write_op =
  MakeDir string | PutAuth string string | PutMeta string string | RemoveDir string
| PutFile auth_loc string | PutActive string | PutSnapshot string | DropSnapshot

definition files_of :: "store \<Rightarrow> string \<Rightarrow> profile_files option" where
  "files_of s a = (case bt_get (st_profiles s) a of Some (Dir p) \<Rightarrow> Some p | _ \<Rightarrow> None)"

definition set_files :: "string \<Rightarrow> (profile_files \<Rightarrow> profile_files) \<Rightarrow> store \<Rightarrow> store" where
  "set_files a f s =
     s\<lparr>st_profiles := bt_put a (Dir (f (case files_of s a of None \<Rightarrow> no_files | Some p \<Rightarrow> p))) (st_profiles s)\<rparr>"

definition put_bytes :: "string \<Rightarrow> auth_file \<Rightarrow> auth_file" where
  "put_bytes b f = f\<lparr>af_bytes := Some b\<rparr>"

fun apply_write :: "write_op \<Rightarrow> store \<Rightarrow> store" where
  "apply_write (MakeDir a) s = set_files a id s"
| "apply_write (PutAuth a b) s = set_files a (\<lambda>p. p\<lparr>pf_auth := put_bytes b (pf_auth p)\<rparr>) s"
| "apply_write (PutMeta a b) s = set_files a (\<lambda>p. p\<lparr>pf_meta := Some b\<rparr>) s"
| "apply_write (RemoveDir a) s = s\<lparr>st_profiles := bt_del a (st_profiles s)\<rparr>"
| "apply_write (PutFile Live b) s = s\<lparr>st_live := put_bytes b (st_live s)\<rparr>"
| "apply_write (PutFile (Other q) b) s =
     s\<lparr>st_others := bt_put q (put_bytes b (auth_at (Other q) s)) (st_others s)\<rparr>"
| "apply_write (PutActive a) s = s\<lparr>st_active := MarkerFile a\<rparr>"
| "apply_write (PutSnapshot b) s = s\<lparr>st_snapshot := put_bytes b (st_snapshot s)\<rparr>"
| "apply_write DropSnapshot s = s\<lparr>st_snapshot := (st_snapshot s)\<lparr>af_bytes := None\<rparr>\<rparr>"

text \<open>A path below an entry that is not a directory cannot be written.\<close>

definition dir_room :: "store \<Rightarrow> string \<Rightarrow> bool" where
  "dir_room s a = (bt_get (st_profiles s) a = None \<or> files_of s a \<noteq> None)"

fun writable :: "write_op \<Rightarrow> store \<Rightarrow> bool" where
  "writable (MakeDir a) s = dir_room s a"
| "writable (PutAuth a b) s = dir_room s a"
| "writable (PutMeta a b) s = dir_room s a"
| "writable (RemoveDir a) s = (files_of s a \<noteq> None)"
| "writable _ s = True"

record world = host +
  w_ok :: "write_op \<Rightarrow> bool"
  w_stamp :: string

type_synonym trace = "store list"

definition attempt :: "world \<Rightarrow> write_op \<Rightarrow> trace \<Rightarrow> trace option" where
  "attempt e w tr = (if w_ok e w \<and> writable w (hd tr) then Some (apply_write w (hd tr) # tr) else None)"

definition try_write :: "world \<Rightarrow> write_op \<Rightarrow> trace \<Rightarrow> trace" where
  "try_write e w tr = (case attempt e w tr of None \<Rightarrow> tr | Some tr' \<Rightarrow> tr')"

datatype store_error =
  InvalidAlias alias_error | InvalidLabel label_error | Unreadable | CaseConflict string | SymLinkProfile
| ProfileNotFound string | Transferred | AppAuth | InvalidMeta | NoSource | WriteFailed write_op

text \<open>A result and the stores behind it: an operation that fails half way has written.\<close>

type_synonym outcome = "store_error option \<times> trace"

definition do_write :: "world \<Rightarrow> write_op \<Rightarrow> trace \<Rightarrow> outcome" where
  "do_write e w tr = (case attempt e w tr of None \<Rightarrow> (Some (WriteFailed w), tr) | Some tr' \<Rightarrow> (None, tr'))"

fun and_then :: "outcome \<Rightarrow> (trace \<Rightarrow> outcome) \<Rightarrow> outcome" where
  "and_then (None, tr) f = f tr"
| "and_then (Some er, tr) f = (Some er, tr)"

section \<open>Aliases and directories\<close>

definition case_conflict :: "store \<Rightarrow> string \<Rightarrow> string option" where
  "case_conflict s name =
     find (\<lambda>existing. existing \<noteq> name \<and> eq_ignore_ascii_case existing name) (map fst (st_profiles s))"

definition checked_child :: "store \<Rightarrow> string \<Rightarrow> store_error + string" where
  "checked_child s name =
     (if st_unreadable s then Inl Unreadable
      else case case_conflict s name of
        Some existing \<Rightarrow> Inl (CaseConflict existing)
      | None \<Rightarrow> if bt_get (st_profiles s) name = Some SymLink then Inl SymLinkProfile else Inr name)"

definition profile_dir :: "store \<Rightarrow> string \<Rightarrow> store_error + string" where
  "profile_dir s alias =
     (case validate_alias alias of Inl e \<Rightarrow> Inl (InvalidAlias e) | Inr a \<Rightarrow> checked_child s a)"

definition dir_exists :: "store \<Rightarrow> string \<Rightarrow> bool" where
  "dir_exists s a = bt_has (st_profiles s) a"

text \<open>Every alias the store holds a directory for; entries are in name order.\<close>

definition stored_aliases :: "store \<Rightarrow> string list option" where
  "stored_aliases s =
     (if st_unreadable s then None
      else Some (map fst (filter (\<lambda>(name, en). (case en of Dir _ \<Rightarrow> True | _ \<Rightarrow> False)
             \<and> (case validate_alias name of Inl _ \<Rightarrow> False | Inr _ \<Rightarrow> True)) (st_profiles s))))"

definition auth_file_of :: "store \<Rightarrow> string \<Rightarrow> auth_file" where
  "auth_file_of s a = (case files_of s a of None \<Rightarrow> no_file | Some p \<Rightarrow> pf_auth p)"

definition read_meta :: "'h host_scheme \<Rightarrow> store \<Rightarrow> string \<Rightarrow> meta option" where
  "read_meta h s a = Option.bind (files_of s a) (\<lambda>p. Option.bind (pf_meta p) (h_meta h))"

text \<open>The auth file of an alias, when its directory resolves and the file reads.\<close>

definition alias_auth :: "'h host_scheme \<Rightarrow> store \<Rightarrow> string \<Rightarrow> auth_json option" where
  "alias_auth h s alias =
     (case profile_dir s alias of Inl _ \<Rightarrow> None | Inr a \<Rightarrow> read_auth_json h (auth_file_of s a))"

definition get_profile_from :: "'h host_scheme \<Rightarrow> store \<Rightarrow> string \<Rightarrow> store_error + meta" where
  "get_profile_from h s alias =
     (case validate_alias alias of
        Inl e \<Rightarrow> Inl (InvalidAlias e)
      | Inr a \<Rightarrow> (case profile_dir s a of
          Inl e \<Rightarrow> Inl e
        | Inr d \<Rightarrow> if \<not> dir_exists s d then Inl (ProfileNotFound a)
            else (case read_meta h s d of None \<Rightarrow> Inl InvalidMeta | Some m \<Rightarrow> Inr (m\<lparr>m_alias := a\<rparr>))))"

fun listed :: "'h host_scheme \<Rightarrow> (string \<times> entry) list \<Rightarrow> string set \<Rightarrow> store_error + (meta \<times> string) list" where
  "listed h [] seen = Inr []"
| "listed h ((name, en) # entries) seen =
     (case en of
        Dir p \<Rightarrow> (case validate_alias name of
            Inl _ \<Rightarrow> listed h entries seen
          | Inr alias \<Rightarrow>
              if ascii_lower alias \<in> seen then listed h entries seen
              else (let seen = insert (ascii_lower alias) seen in
                    case pf_meta p of
                      None \<Rightarrow> listed h entries seen
                    | Some text \<Rightarrow> (case h_meta h text of
                        None \<Rightarrow> Inl InvalidMeta
                      | Some m \<Rightarrow> map_sum id (\<lambda>ps. (m\<lparr>m_alias := alias\<rparr>, name) # ps) (listed h entries seen))))
      | _ \<Rightarrow> listed h entries seen)"

definition list_profiles_from :: "'h host_scheme \<Rightarrow> store \<Rightarrow> store_error + (meta \<times> string) list" where
  "list_profiles_from h s =
     (if st_unreadable s then Inl Unreadable
      else map_sum id (sort_key (\<lambda>p. m_alias (fst p))) (listed h (st_profiles s) {}))"

section \<open>What a profile holds\<close>

definition logins_of_profile :: "'h host_scheme \<Rightarrow> store \<Rightarrow> string \<Rightarrow> logins" where
  "logins_of_profile h s alias =
     (let none = \<lparr>login_uid = None, login_sub = None\<rparr> in
      case profile_dir s alias of
        Inl _ \<Rightarrow> none
      | Inr a \<Rightarrow>
          let stored = (case read_auth_json h (auth_file_of s a) of
                None \<Rightarrow> none | Some auth \<Rightarrow> token_logins h (aj_access_token auth)) in
          if \<not> logins_empty stored then stored
          else (case Option.bind (read_meta h s a) m_user_id of
                  None \<Rightarrow> none | Some user \<Rightarrow> recorded_logins user))"

definition user_of_profile :: "'h host_scheme \<Rightarrow> store \<Rightarrow> string \<Rightarrow> string option" where
  "user_of_profile h s alias = canonical (logins_of_profile h s alias)"

definition workspace_of_profile :: "'h host_scheme \<Rightarrow> store \<Rightarrow> string \<Rightarrow> string option" where
  "workspace_of_profile h s alias =
     (case profile_dir s alias of
        Inl _ \<Rightarrow> None
      | Inr a \<Rightarrow> opt_or (ti_account_id (identity_of_auth_file h (auth_file_of s a)))
                       (Option.bind (read_meta h s a) m_account_id))"

fun claim_permits :: "string option \<Rightarrow> string option \<Rightarrow> bool" where
  "claim_permits (Some candidate) (Some stored) = (candidate = stored)"
| "claim_permits None (Some _) = False"
| "claim_permits (Some _) None = True"
| "claim_permits None None = True"

fun claims_agree :: "string option \<Rightarrow> string option \<Rightarrow> bool" where
  "claims_agree (Some candidate) (Some stored) = (candidate = stored)"
| "claims_agree None None = True"
| "claims_agree _ _ = False"

definition workspace_contradicts :: "string option \<Rightarrow> string option \<Rightarrow> bool" where
  "workspace_contradicts target stored = (stored \<noteq> None \<and> stored \<noteq> target)"

definition get_active_from :: "store \<Rightarrow> string option" where
  "get_active_from s =
     (case st_active s of
        MarkerFile text \<Rightarrow> (case validate_alias text of Inl _ \<Rightarrow> None | Inr a \<Rightarrow> Some a)
      | _ \<Rightarrow> None)"

lemmas store_reads = files_of_def auth_file_of_def read_meta_def dir_exists_def

end
