(* ===== verification/ProfileOwner.thy ===== *)
theory ProfileOwner
  imports Profiles
begin

text \<open>
  Whose credentials an auth file holds (\<open>src/profile.rs\<close>): which saved profiles hold its
  access token or its login, which of them is the owner, and when a login or a save may
  write over a profile. A file being attributed enters as what \<open>read_auth_json\<close> answers
  for it, \<open>None\<close> for one that does not read.
\<close>

section \<open>Holders of an access token\<close>

type_synonym alias_workspace = "string \<times> string option"

definition exact_token_candidates ::
    "'h host_scheme \<Rightarrow> store \<Rightarrow> auth_json option \<Rightarrow> (string option \<times> alias_workspace list) option" where
  "exact_token_candidates h s t =
     Option.bind t (\<lambda>target. map_option (\<lambda>aliases.
        (aj_account_id target, List.map_filter (\<lambda>alias.
            Option.bind (alias_auth h s alias) (\<lambda>stored.
              if aj_access_token stored = aj_access_token target
              then Some (alias, workspace_of_profile h s alias) else None)) aliases))
        (stored_aliases s))"

definition weigh_candidates :: "string option \<Rightarrow> alias_workspace list \<Rightarrow> string option" where
  "weigh_candidates target candidates =
     (case filter (\<lambda>c. target \<noteq> None \<and> snd c = target) candidates of
        [only] \<Rightarrow> Some (fst only)
      | _ # _ \<Rightarrow> None
      | [] \<Rightarrow>
          if list_ex (\<lambda>c. workspace_contradicts target (snd c)) candidates then None
          else (case filter (\<lambda>c. claim_permits target (snd c)) candidates of
                  [only] \<Rightarrow> Some (fst only) | _ \<Rightarrow> None))"

definition strongest_exact_match :: "string option \<Rightarrow> alias_workspace list \<Rightarrow> string option" where
  "strongest_exact_match target candidates =
     (case candidates of
        [only] \<Rightarrow>
          if target \<noteq> None \<and> snd only \<noteq> None \<and> target \<noteq> snd only then None else Some (fst only)
      | _ \<Rightarrow> weigh_candidates target candidates)"

datatype existing_seat = NoSeat | OneSeat string | AmbiguousSeat "string list"

definition named_seat :: "alias_workspace list \<Rightarrow> existing_seat option" where
  "named_seat cs = (case cs of [] \<Rightarrow> None | [c] \<Rightarrow> Some (OneSeat (fst c)) | _ \<Rightarrow> Some (AmbiguousSeat (map fst cs)))"

definition weigh_holders :: "string option \<Rightarrow> alias_workspace list \<Rightarrow> existing_seat" where
  "weigh_holders target holders =
     (case named_seat (filter (\<lambda>c. target \<noteq> None \<and> snd c = target) holders) of
        Some seat \<Rightarrow> seat
      | None \<Rightarrow>
          if target \<noteq> None \<and> list_all (\<lambda>c. snd c \<noteq> None \<and> snd c \<noteq> target) holders then NoSeat
          else if list_ex (\<lambda>c. workspace_contradicts target (snd c)) holders
          then AmbiguousSeat (map fst holders)
          else (case named_seat (filter (\<lambda>c. claim_permits target (snd c)) holders) of
                  None \<Rightarrow> NoSeat | Some seat \<Rightarrow> seat))"

definition exact_token_holder :: "string option \<Rightarrow> alias_workspace list \<Rightarrow> existing_seat" where
  "exact_token_holder target holders =
     (case holders of
        [only] \<Rightarrow>
          if target \<noteq> None \<and> snd only \<noteq> None \<and> target \<noteq> snd only then NoSeat else OneSeat (fst only)
      | _ \<Rightarrow> weigh_holders target holders)"

definition exact_token_seat :: "'h host_scheme \<Rightarrow> store \<Rightarrow> auth_json option \<Rightarrow> store_error + existing_seat" where
  "exact_token_seat h s t =
     (case t of
        None \<Rightarrow> Inr NoSeat
      | Some target \<Rightarrow> (case exact_token_candidates h s t of
            None \<Rightarrow> Inl Unreadable
          | Some (_, holders) \<Rightarrow> Inr (exact_token_holder (aj_account_id target) holders)))"

section \<open>Which profile already holds an account\<close>

definition live_workspace_is_contested :: "'h host_scheme \<Rightarrow> store \<Rightarrow> auth_json \<Rightarrow> bool" where
  "live_workspace_is_contested h s live =
     (case stored_aliases s of
        None \<Rightarrow> True
      | Some aliases \<Rightarrow> list_ex (\<lambda>alias.
            (case alias_auth h s alias of
               None \<Rightarrow> False | Some stored \<Rightarrow> aj_access_token stored = aj_access_token live)
            \<and> workspace_contradicts (aj_account_id live) (workspace_of_profile h s alias)) aliases)"

definition identity_of_profile ::
    "'h host_scheme \<Rightarrow> store \<Rightarrow> string \<Rightarrow> auth_json option \<Rightarrow> string option \<times> logins" where
  "identity_of_profile h s alias live =
     (let workspace = workspace_of_profile h s alias; logins = logins_of_profile h s alias in
      case live of
        None \<Rightarrow> (workspace, logins)
      | Some l \<Rightarrow>
          if (case alias_auth h s alias of
                None \<Rightarrow> False | Some stored \<Rightarrow> aj_access_token stored = aj_access_token l)
          then (let mine = token_logins h (aj_access_token l) in
                (opt_or workspace (aj_account_id l),
                 \<lparr>login_uid = opt_or (login_uid logins) (login_uid mine),
                  login_sub = opt_or (login_sub logins) (login_sub mine)\<rparr>))
          else (workspace, logins))"

definition find_seat :: "'h host_scheme \<Rightarrow> store \<Rightarrow> string option \<Rightarrow> logins \<Rightarrow> store_error + existing_seat" where
  "find_seat h s workspace user =
     (if workspace = None \<or> logins_empty user then Inr NoSeat
      else
        let live = (case read_auth_json h (st_live s) of
              None \<Rightarrow> None
            | Some l \<Rightarrow> if live_workspace_is_contested h s l then None else Some l) in
        case stored_aliases s of
          None \<Rightarrow> Inl Unreadable
        | Some aliases \<Rightarrow>
            (case filter (\<lambda>alias. let (w, l) = identity_of_profile h s alias live in
                    w = workspace \<and> same_logins user l) aliases of
               [] \<Rightarrow> Inr NoSeat | [a] \<Rightarrow> Inr (OneSeat a) | as \<Rightarrow> Inr (AmbiguousSeat as)))"

definition credentials_unreadable :: "'h host_scheme \<Rightarrow> store \<Rightarrow> string \<Rightarrow> bool" where
  "credentials_unreadable h s alias =
     (case profile_dir s alias of
        Inl _ \<Rightarrow> False
      | Inr a \<Rightarrow> dir_exists s a \<and> read_auth_json h (auth_file_of s a) = None)"

section \<open>Writing over a profile\<close>

datatype account_conflict = Different string | Unprovable "string option"

definition conflicting_workspace ::
    "'h host_scheme \<Rightarrow> store \<Rightarrow> string \<Rightarrow> string option \<Rightarrow> logins \<Rightarrow> account_conflict option" where
  "conflicting_workspace h s alias incoming_account incoming_user =
     (case profile_dir s alias of
        Inl _ \<Rightarrow> None
      | Inr a \<Rightarrow>
          if \<not> dir_exists s a then None
          else
            let stored_workspace = workspace_of_profile h s alias;
                stored_logins = logins_of_profile h s alias;
                stored_user = canonical stored_logins;
                stored_auth_readable = (read_auth_json h (auth_file_of s a) \<noteq> None) in
            if stored_workspace = None \<and> logins_empty stored_logins \<and> \<not> stored_auth_readable
            then Some (Unprovable None)
            else
              let workspace_settled = claims_agree incoming_account stored_workspace;
                  user_contradicts =
                    (if logins_empty incoming_user \<and> logins_empty stored_logins
                     then \<not> stored_auth_readable
                     else \<not> same_logins incoming_user stored_logins) in
              if workspace_settled \<and> \<not> user_contradicts then None
              else
                let workspace_differs =
                      (incoming_account \<noteq> None \<and> stored_workspace \<noteq> None \<and> incoming_account \<noteq> stored_workspace);
                    user_differs = differs incoming_user stored_logins;
                    described = opt_or stored_workspace stored_user in
                if workspace_differs \<or> user_differs
                then Some (Different (case (if workspace_differs then described else opt_or stored_user described) of
                        None \<Rightarrow> ''unknown'' | Some culprit \<Rightarrow> culprit))
                else Some (Unprovable described))"

text \<open>The characters of a UTF-8 string, each with its continuation bytes.\<close>

definition utf8_continuation :: "char \<Rightarrow> bool" where
  "utf8_continuation c = (128 \<le> (of_char c :: nat) \<and> (of_char c :: nat) < 192)"

function utf8_chars :: "string \<Rightarrow> string list" where
  "utf8_chars [] = []"
| "utf8_chars (c # cs) =
     (c # takeWhile utf8_continuation cs) # utf8_chars (dropWhile utf8_continuation cs)"
  by pat_completeness auto
termination
  by (relation "measure length") (simp_all add: length_dropWhile_le le_imp_less_Suc)

definition ellipsis :: string where "ellipsis = [CHR 0xE2, CHR 0x80, CHR 0xA6]"

definition short_workspace :: "string \<Rightarrow> string" where
  "short_workspace account =
     (let chars = utf8_chars account in
      if 8 < length chars then concat (take 8 chars) @ ellipsis else account)"

definition describe_claim :: "string \<Rightarrow> string" where
  "describe_claim claim =
     (case split_once CHR '':'' claim of
        Some (tag, login) \<Rightarrow>
          if tag = ''uid'' \<or> tag = ''sub'' then ''login '' @ login else ''workspace '' @ short_workspace claim
      | None \<Rightarrow> ''workspace '' @ short_workspace claim)"

section \<open>The owner of an auth file\<close>

definition metadata_contradicts ::
    "'h host_scheme \<Rightarrow> store \<Rightarrow> string \<Rightarrow> string option \<Rightarrow> logins \<Rightarrow> bool" where
  "metadata_contradicts h s alias target_workspace target_login =
     (case profile_dir s alias of
        Inl _ \<Rightarrow> False
      | Inr a \<Rightarrow>
          let m = (case read_meta h s a of None \<Rightarrow> default_meta | Some m \<Rightarrow> m) in
          (m_account_id m \<noteq> None \<and> target_workspace \<noteq> None \<and> m_account_id m \<noteq> target_workspace)
          \<or> (case m_user_id m of None \<Rightarrow> False | Some u \<Rightarrow> differs (recorded_logins u) target_login))"

text \<open>A sibling that may equally own a claimless rotation of this login.\<close>

definition claimless_rival :: "'h host_scheme \<Rightarrow> store \<Rightarrow> logins \<Rightarrow> string \<Rightarrow> bool" where
  "claimless_rival h s target_login alias =
     (case profile_dir s alias of
        Inl _ \<Rightarrow> True
      | Inr a \<Rightarrow> (case read_auth_json h (auth_file_of s a) of
            Some sibling \<Rightarrow> workspace_of_profile h s alias \<noteq> None
              \<and> same_logins target_login (token_logins h (aj_access_token sibling))
          | None \<Rightarrow> (case Option.bind (read_meta h s a) m_user_id of
                Some u \<Rightarrow> comparable (recorded_logins u) target_login \<and> same_logins (recorded_logins u) target_login
              | None \<Rightarrow> \<not> metadata_contradicts h s alias None target_login)))"

definition claimless_match_is_ambiguous :: "'h host_scheme \<Rightarrow> store \<Rightarrow> auth_json option \<Rightarrow> string \<Rightarrow> bool" where
  "claimless_match_is_ambiguous h s t hinted =
     (case (t, read_auth_json h (auth_file_of s hinted)) of
        (Some target, Some stored) \<Rightarrow>
          if aj_account_id target \<noteq> None \<or> aj_account_id stored \<noteq> None
             \<or> workspace_of_profile h s hinted \<noteq> None then False
          else
            let target_login = token_logins h (aj_access_token target) in
            if logins_empty target_login then False
            else (case stored_aliases s of
                    None \<Rightarrow> True
                  | Some aliases \<Rightarrow>
                      list_ex (claimless_rival h s target_login) (filter (\<lambda>a. a \<noteq> hinted) aliases))
      | _ \<Rightarrow> False)"

definition auth_belongs_to_profile :: "'h host_scheme \<Rightarrow> store \<Rightarrow> auth_json option \<Rightarrow> string \<Rightarrow> bool" where
  "auth_belongs_to_profile h s t a =
     (case (t, read_auth_json h (auth_file_of s a)) of
        (Some left, Some right) \<Rightarrow>
          let held = workspace_of_profile h s a in
          if aj_access_token left = aj_access_token right then claim_permits (aj_account_id left) held
          else claims_agree (aj_account_id left) held
               \<and> same_logins (token_logins h (aj_access_token left)) (token_logins h (aj_access_token right))
      | _ \<Rightarrow> False)"

text \<open>An unreadable profile whose metadata still identifies the target's account.\<close>

definition unreadable_rival :: "'h host_scheme \<Rightarrow> store \<Rightarrow> auth_json \<Rightarrow> string \<Rightarrow> string \<Rightarrow> bool" where
  "unreadable_rival h s target alias a =
     (let target_login = token_logins h (aj_access_token target);
          m = (case read_meta h s a of None \<Rightarrow> default_meta | Some m \<Rightarrow> m) in
      \<not> metadata_contradicts h s alias (aj_account_id target) target_login
      \<and> ((case m_user_id m of None \<Rightarrow> False | Some u \<Rightarrow> same_logins (recorded_logins u) target_login)
         \<or> (m_account_id m \<noteq> None \<and> m_account_id m = aj_account_id target)))"

fun profile_auths :: "'h host_scheme \<Rightarrow> store \<Rightarrow> auth_json \<Rightarrow> string list \<Rightarrow> (string \<times> auth_json) list option" where
  "profile_auths h s target [] = Some []"
| "profile_auths h s target (alias # aliases) =
     (case profile_dir s alias of
        Inl _ \<Rightarrow> profile_auths h s target aliases
      | Inr a \<Rightarrow> (case read_auth_json h (auth_file_of s a) of
            Some auth \<Rightarrow> map_option (\<lambda>rest. (alias, auth) # rest) (profile_auths h s target aliases)
          | None \<Rightarrow> if unreadable_rival h s target alias a then None else profile_auths h s target aliases))"

definition seat_candidates :: "string option \<Rightarrow> alias_workspace list \<Rightarrow> alias_workspace list" where
  "seat_candidates target same_seat =
     (case target of
        Some w \<Rightarrow> filter (\<lambda>c. snd c = Some w) same_seat
      | None \<Rightarrow> if list_ex (\<lambda>c. snd c \<noteq> None) same_seat then [] else same_seat)"

definition alias_for_auth_json_from ::
    "'h host_scheme \<Rightarrow> store \<Rightarrow> auth_json option \<Rightarrow> store_error + string option" where
  "alias_for_auth_json_from h s t =
     (case t of
        None \<Rightarrow> Inr None
      | Some target \<Rightarrow> (case stored_aliases s of
            None \<Rightarrow> Inl Unreadable
          | Some aliases \<Rightarrow> Inr (case profile_auths h s target aliases of
                None \<Rightarrow> None
              | Some auths \<Rightarrow>
                  let held = map (\<lambda>(alias, _). (alias, workspace_of_profile h s alias));
                      exact = held (filter (\<lambda>(_, auth). aj_access_token auth = aj_access_token target) auths);
                      same_seat = held (filter (\<lambda>(_, auth). same_logins (token_logins h (aj_access_token target))
                                      (token_logins h (aj_access_token auth))) auths) in
                  if exact \<noteq> [] then strongest_exact_match (aj_account_id target) exact
                  else (case seat_candidates (aj_account_id target) same_seat of
                      [only] \<Rightarrow> Some (fst only) | _ \<Rightarrow> None))))"

definition alias_for_auth_json_with_hint ::
    "'h host_scheme \<Rightarrow> store \<Rightarrow> auth_json option \<Rightarrow> string option \<Rightarrow> string option" where
  "alias_for_auth_json_with_hint h s t known =
     (let hinted = Option.bind known (\<lambda>alias.
            case get_profile_from h s alias of Inl _ \<Rightarrow> None | Inr m \<Rightarrow> Some (m_alias m));
          by_login = (case hinted of
              Some a \<Rightarrow>
                if auth_belongs_to_profile h s t a
                then (if claimless_match_is_ambiguous h s t a then None else Some a)
                else (case alias_for_auth_json_from h s t of Inl _ \<Rightarrow> None | Inr r \<Rightarrow> r)
            | None \<Rightarrow> (case alias_for_auth_json_from h s t of Inl _ \<Rightarrow> None | Inr r \<Rightarrow> r)) in
      case exact_token_candidates h s t of
        None \<Rightarrow> by_login
      | Some (target, candidates) \<Rightarrow>
          if candidates = [] then by_login
          else (case strongest_exact_match target candidates of
                  Some alias \<Rightarrow> Some alias
                | None \<Rightarrow>
                    if list_ex (\<lambda>c. workspace_contradicts target (snd c)) candidates then None
                    else (case hinted of
                            None \<Rightarrow> None
                          | Some a \<Rightarrow> if a \<in> fst ` set candidates then Some a else None)))"

definition captured_auth_supersedes_profile ::
    "'h host_scheme \<Rightarrow> auth_json option \<Rightarrow> auth_json option \<Rightarrow> bool" where
  "captured_auth_supersedes_profile h captured profile =
     (case captured of
        None \<Rightarrow> False
      | Some candidate \<Rightarrow> (case profile of
            None \<Rightarrow> True
          | Some current \<Rightarrow>
              if aj_access_token candidate = aj_access_token current
                 \<and> aj_refresh_token candidate = aj_refresh_token current
              then aj_account_id candidate \<noteq> None \<and> aj_account_id candidate \<noteq> aj_account_id current
              else
                let expiry = (case (token_expiry h (aj_access_token candidate), token_expiry h (aj_access_token current)) of
                      (Some c, Some p) \<Rightarrow> p \<le> c | _ \<Rightarrow> True) in
                (case (token_issued_at h (aj_access_token candidate), token_issued_at h (aj_access_token current)) of
                   (Some c, Some p) \<Rightarrow> if c \<noteq> p then p < c else expiry
                 | _ \<Rightarrow> expiry)))"

end
