(* ===== verification/ProfileOps.thy ===== *)
theory ProfileOps
  imports ProfileOwner
begin

text \<open>
  The operations of the profile store (\<open>src/profile.rs\<close>): capturing the tokens a running
  \<open>codex\<close> rotated, saving a login, switching accounts, pinned homes, labels and deletion.
  Each runs under the store lock, so it is a function on the trace of stores; \<open>codex\<close>
  rewriting the live file between two of them is a step of its own in \<open>ProfileFacts\<close>. A
  write that fails leaves its file as it was; \<open>atomic_replace\<close> can also fail after its rename,
  when the directory cannot be synced, which is the crash point after the write.
\<close>

section \<open>Capture\<close>

definition record_workspace :: "world \<Rightarrow> string \<Rightarrow> string \<Rightarrow> trace \<Rightarrow> outcome" where
  "record_workspace e alias workspace tr =
     (case profile_dir (hd tr) alias of
        Inl er \<Rightarrow> (Some er, tr)
      | Inr a \<Rightarrow>
          let m = (case read_meta e (hd tr) a of None \<Rightarrow> default_meta | Some m \<Rightarrow> m);
              m' = m\<lparr>m_alias := alias, m_account_id := Some workspace,
                     m_saved_at := (if m_saved_at m = [] then w_stamp e else m_saved_at m)\<rparr> in
          do_write e (PutMeta a (h_print e m')) tr)"

definition copy_snapshot :: "world \<Rightarrow> string \<Rightarrow> trace \<Rightarrow> trace" where
  "copy_snapshot e a tr =
     (case af_bytes (st_snapshot (hd tr)) of None \<Rightarrow> tr | Some bytes \<Rightarrow> try_write e (PutAuth a bytes) tr)"

definition capture_into_owner :: "world \<Rightarrow> string \<Rightarrow> trace \<Rightarrow> trace" where
  "capture_into_owner e alias tr =
     (let s = hd tr; source = read_auth_json e (st_snapshot s) in
      case profile_dir s alias of
        Inl _ \<Rightarrow> tr
      | Inr a \<Rightarrow>
          if \<not> captured_auth_supersedes_profile e source (read_auth_json e (auth_file_of s a)) then tr
          else (case workspace_of_profile e s alias of
              None \<Rightarrow> copy_snapshot e a tr
            | Some workspace \<Rightarrow>
                if Option.bind source aj_account_id = Some workspace then copy_snapshot e a tr
                else (case record_workspace e alias workspace tr of
                        (Some _, tr) \<Rightarrow> tr
                      | (None, tr) \<Rightarrow> copy_snapshot e a tr)))"

definition capture_from_snapshot ::
    "world \<Rightarrow> auth_loc \<Rightarrow> (store \<Rightarrow> auth_json option \<Rightarrow> string option) \<Rightarrow> trace \<Rightarrow> trace" where
  "capture_from_snapshot e source resolve tr =
     (case af_bytes (auth_at source (hd tr)) of
        None \<Rightarrow> tr
      | Some bytes \<Rightarrow> (case attempt e (PutSnapshot bytes) tr of
            None \<Rightarrow> tr
          | Some tr1 \<Rightarrow> try_write e DropSnapshot
              (case resolve (hd tr1) (read_auth_json e (st_snapshot (hd tr1))) of
                 None \<Rightarrow> tr1
               | Some alias \<Rightarrow> capture_into_owner e alias tr1)))"

definition capture_auth_file_profile_tokens :: "world \<Rightarrow> auth_loc \<Rightarrow> string option \<Rightarrow> trace \<Rightarrow> trace" where
  "capture_auth_file_profile_tokens e codex_auth skip tr =
     (let known = (if codex_auth = Live then get_active_from (hd tr) else None) in
      capture_from_snapshot e codex_auth (\<lambda>s t.
        case alias_for_auth_json_with_hint e s t known of
          None \<Rightarrow> None
        | Some alias \<Rightarrow> if skip = Some alias then None else Some alias) tr)"

definition capture_exec_auth_unlocked :: "world \<Rightarrow> auth_loc \<Rightarrow> string option \<Rightarrow> trace \<Rightarrow> trace" where
  "capture_exec_auth_unlocked e exec_auth pinned tr =
     capture_from_snapshot e exec_auth (\<lambda>s t. alias_for_auth_json_with_hint e s t pinned) tr"

definition capture_exec_auth_from :: "world \<Rightarrow> auth_loc \<Rightarrow> string \<Rightarrow> trace \<Rightarrow> outcome" where
  "capture_exec_auth_from e exec_auth pinned tr =
     (case validate_alias pinned of
        Inl er \<Rightarrow> (Some (InvalidAlias er), tr)
      | Inr a \<Rightarrow> (None, capture_exec_auth_unlocked e exec_auth (Some a) tr))"

section \<open>Saving a login\<close>

definition set_active_unlocked :: "world \<Rightarrow> string \<Rightarrow> trace \<Rightarrow> outcome" where
  "set_active_unlocked e alias tr =
     (case validate_alias alias of
        Inl er \<Rightarrow> (Some (InvalidAlias er), tr)
      | Inr a \<Rightarrow> do_write e (PutActive a) tr)"

definition saved_meta :: "'h host_scheme \<Rightarrow> string \<Rightarrow> string \<Rightarrow> string option \<Rightarrow> string option \<Rightarrow> token_ident \<Rightarrow> meta" where
  "saved_meta h stamp alias label email identity =
     \<lparr>m_alias = alias, m_label = label, m_email = opt_or (ti_email identity) email, m_plan = ti_plan identity,
      m_account_id = ti_account_id identity, m_user_id = ti_user_id identity, m_saved_at = stamp\<rparr>"

definition save_profile_unlocked ::
    "world \<Rightarrow> string \<Rightarrow> string option \<Rightarrow> auth_loc \<Rightarrow> trace \<Rightarrow> outcome" where
  "save_profile_unlocked e alias email src tr =
     (case validate_alias alias of
        Inl er \<Rightarrow> (Some (InvalidAlias er), tr)
      | Inr a \<Rightarrow> (case profile_dir (hd tr) a of
          Inl er \<Rightarrow> (Some er, tr)
        | Inr d \<Rightarrow>
            if af_moved (auth_file_of (hd tr) d) then (Some Transferred, tr)
            else and_then (do_write e (MakeDir d) tr) (\<lambda>tr.
              case af_bytes (auth_at src (hd tr)) of
                None \<Rightarrow> (Some NoSource, tr)
              | Some bytes \<Rightarrow> and_then (do_write e (PutAuth d bytes) tr) (\<lambda>tr.
                  let label = Option.bind (read_meta e (hd tr) d) m_label;
                      identity = identity_of_auth_file e (auth_file_of (hd tr) d) in
                  do_write e (PutMeta d (h_print e (saved_meta e (w_stamp e) a label email identity))) tr))))"

definition install_live :: "world \<Rightarrow> string \<Rightarrow> auth_loc \<Rightarrow> trace \<Rightarrow> outcome" where
  "install_live e d dest tr =
     (case af_bytes (auth_file_of (hd tr) d) of
        None \<Rightarrow> (Some NoSource, tr)
      | Some bytes \<Rightarrow> do_write e (PutFile dest bytes) tr)"

definition save_live_profile_locked :: "world \<Rightarrow> string \<Rightarrow> string option \<Rightarrow> auth_loc \<Rightarrow> trace \<Rightarrow> outcome" where
  "save_live_profile_locked e alias email src tr =
     (case validate_alias alias of
        Inl er \<Rightarrow> (Some (InvalidAlias er), tr)
      | Inr a \<Rightarrow>
          if st_app_auth (hd tr) then (Some AppAuth, tr)
          else and_then (save_profile_unlocked e a email src tr) (set_active_unlocked e a))"

definition save_profile_and_activate_locked ::
    "world \<Rightarrow> string \<Rightarrow> string option \<Rightarrow> auth_loc \<Rightarrow> trace \<Rightarrow> outcome" where
  "save_profile_and_activate_locked e alias email src tr =
     (case validate_alias alias of
        Inl er \<Rightarrow> (Some (InvalidAlias er), tr)
      | Inr a \<Rightarrow>
          if st_app_auth (hd tr) then (Some AppAuth, tr)
          else
            let tr = (if src = Live then tr else capture_auth_file_profile_tokens e Live (Some a) tr) in
            and_then (save_profile_unlocked e a email src tr) (\<lambda>tr.
              and_then (if src = Live then (None, tr)
                        else (case profile_dir (hd tr) a of
                                Inl er \<Rightarrow> (Some er, tr) | Inr d \<Rightarrow> install_live e d Live tr))
                (set_active_unlocked e a)))"

section \<open>Switching and pinned homes\<close>

definition switch_to_auth_json_from :: "world \<Rightarrow> string \<Rightarrow> auth_loc \<Rightarrow> trace \<Rightarrow> outcome" where
  "switch_to_auth_json_from e alias codex_auth tr =
     (case validate_alias alias of
        Inl er \<Rightarrow> (Some (InvalidAlias er), tr)
      | Inr a \<Rightarrow>
          if codex_auth = Live \<and> st_app_auth (hd tr) then (Some AppAuth, tr)
          else (case get_profile_from e (hd tr) a of
              Inl er \<Rightarrow> (Some er, tr)
            | Inr m \<Rightarrow>
                if af_moved (auth_file_of (hd tr) (m_alias m)) then (Some Transferred, tr)
                else
                  let tr = capture_auth_file_profile_tokens e codex_auth None tr in
                  and_then (install_live e (m_alias m) codex_auth tr) (\<lambda>tr.
                    if codex_auth = Live then set_active_unlocked e a tr else (None, tr))))"

definition switch_to_from :: "world \<Rightarrow> string \<Rightarrow> trace \<Rightarrow> outcome" where
  "switch_to_from e alias tr = switch_to_auth_json_from e alias Live tr"

definition seed_exec_auth_from :: "world \<Rightarrow> string \<Rightarrow> auth_loc \<Rightarrow> trace \<Rightarrow> outcome" where
  "seed_exec_auth_from e alias exec_auth tr =
     (case validate_alias alias of
        Inl er \<Rightarrow> (Some (InvalidAlias er), tr)
      | Inr a \<Rightarrow> (case get_profile_from e (hd tr) a of
          Inl er \<Rightarrow> (Some er, tr)
        | Inr m \<Rightarrow>
            if af_moved (auth_file_of (hd tr) (m_alias m)) then (Some Transferred, tr)
            else install_live e (m_alias m) exec_auth (capture_exec_auth_unlocked e exec_auth (Some a) tr)))"

section \<open>Metadata, deletion and the file a status reads\<close>

definition set_label_locked :: "world \<Rightarrow> string \<Rightarrow> string option \<Rightarrow> trace \<Rightarrow> outcome" where
  "set_label_locked e alias label tr =
     (case validate_alias alias of
        Inl er \<Rightarrow> (Some (InvalidAlias er), tr)
      | Inr a \<Rightarrow> (case (case label of None \<Rightarrow> Inr None | Some l \<Rightarrow> validate_label l) of
          Inl er \<Rightarrow> (Some (InvalidLabel er), tr)
        | Inr label \<Rightarrow> (case profile_dir (hd tr) a of
            Inl er \<Rightarrow> (Some er, tr)
          | Inr d \<Rightarrow> (case read_meta e (hd tr) d of
              None \<Rightarrow> (Some (ProfileNotFound a), tr)
            | Some m \<Rightarrow> do_write e (PutMeta d (h_print e (m\<lparr>m_alias := a, m_label := label\<rparr>))) tr))))"

definition update_meta_plan_from :: "world \<Rightarrow> bool \<Rightarrow> string \<Rightarrow> string \<Rightarrow> trace \<Rightarrow> outcome" where
  "update_meta_plan_from e busy alias plan tr =
     (case validate_alias alias of
        Inl er \<Rightarrow> (Some (InvalidAlias er), tr)
      | Inr a \<Rightarrow>
          if busy then (None, tr)
          else (case profile_dir (hd tr) a of
            Inl er \<Rightarrow> (Some er, tr)
          | Inr d \<Rightarrow> (case Option.bind (files_of (hd tr) d) pf_meta of
              None \<Rightarrow> (None, tr)
            | Some text \<Rightarrow> (case h_meta e text of
                None \<Rightarrow> (Some InvalidMeta, tr)
              | Some m \<Rightarrow> do_write e (PutMeta d (h_print e (m\<lparr>m_alias := a, m_plan := Some plan\<rparr>))) tr))))"

definition delete_profile_from :: "world \<Rightarrow> string \<Rightarrow> trace \<Rightarrow> outcome" where
  "delete_profile_from e alias tr =
     (case validate_alias alias of
        Inl er \<Rightarrow> (Some (InvalidAlias er), tr)
      | Inr a \<Rightarrow> (case profile_dir (hd tr) a of
          Inl er \<Rightarrow> (Some er, tr)
        | Inr d \<Rightarrow> if \<not> dir_exists (hd tr) d then (Some (ProfileNotFound a), tr)
                   else do_write e (RemoveDir d) tr))"

datatype auth_path = LivePath | SavedPath string

definition auth_json_path_for_profile_from :: "'h host_scheme \<Rightarrow> store \<Rightarrow> string \<Rightarrow> string option \<Rightarrow> auth_path" where
  "auth_json_path_for_profile_from h s alias active =
     (if active \<noteq> Some alias then SavedPath alias
      else if alias_for_auth_json_with_hint h s (read_auth_json h (st_live s)) (Some alias) = Some alias
      then LivePath else SavedPath alias)"

section \<open>Everything that happens to the store\<close>

text \<open>
  The operations, and \<open>codex\<close> or an outsider rewriting an auth file between two of them.
  A crash may stop an operation at any store of its trace.
\<close>

datatype profile_op =
  SaveLive string "string option" auth_loc
| SaveAndActivate string "string option" auth_loc
| SwitchTo string auth_loc
| SeedExec string auth_loc
| CaptureExec string auth_loc
| SetLabel string "string option"
| UpdatePlan bool string string
| DeleteProfile string
| CodexWrites auth_loc string

fun run_profile_op :: "world \<Rightarrow> profile_op \<Rightarrow> trace \<Rightarrow> outcome" where
  "run_profile_op e (SaveLive a email src) tr = save_live_profile_locked e a email src tr"
| "run_profile_op e (SaveAndActivate a email src) tr = save_profile_and_activate_locked e a email src tr"
| "run_profile_op e (SwitchTo a loc) tr = switch_to_auth_json_from e a loc tr"
| "run_profile_op e (SeedExec a loc) tr = seed_exec_auth_from e a loc tr"
| "run_profile_op e (CaptureExec a loc) tr = capture_exec_auth_from e loc a tr"
| "run_profile_op e (SetLabel a label) tr = set_label_locked e a label tr"
| "run_profile_op e (UpdatePlan busy a plan) tr = update_meta_plan_from e busy a plan tr"
| "run_profile_op e (DeleteProfile a) tr = delete_profile_from e a tr"
| "run_profile_op e (CodexWrites loc bytes) tr = do_write e (PutFile loc bytes) tr"

inductive profile_reach :: "world \<Rightarrow> store \<Rightarrow> store \<Rightarrow> bool" for e where
  here: "profile_reach e s s"
| step: "profile_reach e s s1 \<Longrightarrow> s2 \<in> set (snd (run_profile_op e op [s1])) \<Longrightarrow> profile_reach e s s2"

end
