(* ===== verification/ProfileFacts.thy ===== *)
theory ProfileFacts
  imports ProfileOps "HOL-Library.Multiset"
begin

text \<open>
  What the profile store guarantees. Every operation is followed write by write, so a
  statement about a trace holds wherever a crash stops it and whichever writes fail. The
  locale \<open>crash_invariant\<close> carries a property of a store through every operation; its
  interpretations are the well-formedness of the store and the frame of a capture.
\<close>

section \<open>Directories\<close>

lemma profile_dir_Inr_iff:
  "profile_dir s alias = Inr d \<longleftrightarrow>
     validate_alias alias = Inr d \<and> \<not> st_unreadable s \<and> case_conflict s d = None
     \<and> bt_get (st_profiles s) d \<noteq> Some SymLink"
  by (auto simp: profile_dir_def checked_child_def split: sum.splits option.splits)

lemma profile_dir_idem: "profile_dir s alias = Inr d \<Longrightarrow> profile_dir s d = Inr d"
  by (auto simp: profile_dir_Inr_iff dest: validate_alias_idem)

lemma case_conflict_None_iff:
  "case_conflict s d = None \<longleftrightarrow>
     (\<forall>x \<in> fst ` set (st_profiles s). eq_ignore_ascii_case x d \<longrightarrow> x = d)"
  by (auto simp: case_conflict_def find_None_iff)

lemma files_of_set_files [simp]:
  "files_of (set_files a f s) b =
     (if b = a then Some (f (case files_of s a of None \<Rightarrow> no_files | Some p \<Rightarrow> p)) else files_of s b)"
  by (simp add: set_files_def files_of_def)

lemma set_files_fields [simp]:
  "st_unreadable (set_files a f s) = st_unreadable s"
  "st_live (set_files a f s) = st_live s"
  "st_others (set_files a f s) = st_others s"
  "st_snapshot (set_files a f s) = st_snapshot s"
  "st_active (set_files a f s) = st_active s"
  "st_app_auth (set_files a f s) = st_app_auth s"
  "fst ` set (st_profiles (set_files a f s)) = insert a (fst ` set (st_profiles s))"
  by (simp_all add: set_files_def keys_bt_put)

text \<open>Writing into a directory the store handed out leaves it handed out.\<close>

lemma profile_dir_set_files [simp, intro]:
  "profile_dir s alias = Inr d \<Longrightarrow> profile_dir (set_files d f s) alias = Inr d"
  by (auto simp: profile_dir_Inr_iff case_conflict_None_iff) (simp add: set_files_def)

section \<open>Properties carried through every operation\<close>

definition safe :: "(store \<Rightarrow> bool) \<Rightarrow> trace \<Rightarrow> bool" where
  "safe I tr = (tr \<noteq> [] \<and> list_all I tr)"

lemma safe_hd: "safe I tr \<Longrightarrow> I (hd tr)"
  by (cases tr) (auto simp: safe_def)

lemma safe_Cons [simp]: "safe I (s # tr) \<longleftrightarrow> I s \<and> list_all I tr"
  by (simp add: safe_def)

lemma safe_grow: "safe I tr \<Longrightarrow> I s \<Longrightarrow> safe I (s # tr)"
  by (simp add: safe_def)

text \<open>
  The writes an operation may do: into the profile directories \<open>touch\<close> admits, after the
  store has handed the directory out, and, when \<open>install\<close> holds, to the auth files outside
  the store and the active marker.
\<close>

fun write_allowed :: "(string \<Rightarrow> bool) \<Rightarrow> bool \<Rightarrow> store \<Rightarrow> write_op \<Rightarrow> bool" where
  "write_allowed touch install s (MakeDir a) = (profile_dir s a = Inr a \<and> touch a)"
| "write_allowed touch install s (PutAuth a b) = (profile_dir s a = Inr a \<and> touch a)"
| "write_allowed touch install s (PutMeta a b) = (profile_dir s a = Inr a \<and> touch a)"
| "write_allowed touch install s (RemoveDir a) = touch a"
| "write_allowed touch install s (PutFile loc b) = install"
| "write_allowed touch install s (PutActive a) = install"
| "write_allowed touch install s (PutSnapshot b) = True"
| "write_allowed touch install s DropSnapshot = True"

lemma profile_dir_apply:
  assumes "profile_dir s alias = Inr d" and "w \<in> {MakeDir d, PutAuth d b, PutMeta d b}"
  shows "profile_dir (apply_write w s) alias = Inr d"
  using assms by (auto intro: profile_dir_set_files)

lemma attempt_cases:
  assumes "attempt e w tr = Some tr'"
  shows "tr' = apply_write w (hd tr) # tr" and "writable w (hd tr)" and "w_ok e w"
  using assms by (auto simp: attempt_def split: if_splits)

lemma do_write_None_iff:
  "do_write e w tr = (None, tr') \<longleftrightarrow> w_ok e w \<and> writable w (hd tr) \<and> tr' = apply_write w (hd tr) # tr"
  by (auto simp: do_write_def attempt_def split: option.splits)

lemma and_then_None_iff: "and_then r f = (None, tr) \<longleftrightarrow> (\<exists>tr1. r = (None, tr1) \<and> f tr1 = (None, tr))"
  by (cases "(r, f)" rule: and_then.cases) auto

locale crash_invariant =
  fixes I :: "store \<Rightarrow> bool" and touch :: "string \<Rightarrow> bool" and install :: bool
  assumes write_step: "I s \<Longrightarrow> write_allowed touch install s w \<Longrightarrow> writable w s \<Longrightarrow> I (apply_write w s)"
begin

lemma safe_attempt:
  assumes "attempt e w tr = Some tr'" and "safe I tr" and "write_allowed touch install (hd tr) w"
  shows "safe I tr'"
  unfolding attempt_cases(1) [OF assms(1)]
  by (rule safe_grow [OF assms(2) write_step [OF safe_hd [OF assms(2)] assms(3) attempt_cases(2) [OF assms(1)]]])

lemma safe_try:
  assumes "safe I tr" and "write_allowed touch install (hd tr) w"
  shows "safe I (try_write e w tr)"
  using assms safe_attempt by (auto simp: try_write_def split: option.splits)

lemma safe_do:
  assumes "safe I tr" and "write_allowed touch install (hd tr) w"
  shows "safe I (snd (do_write e w tr))"
  using assms safe_attempt by (auto simp: do_write_def split: option.splits)

lemma safe_and_then:
  assumes "safe I (snd r)" and "\<And>tr. r = (None, tr) \<Longrightarrow> safe I tr \<Longrightarrow> safe I (snd (f tr))"
  shows "safe I (snd (and_then r f))"
  using assms by (cases "(r, f)" rule: and_then.cases) auto

lemma safe_record_workspace:
  assumes "safe I tr" and "\<And>d. validate_alias alias = Inr d \<Longrightarrow> touch d"
  shows "safe I (snd (record_workspace e alias w tr))"
proof (cases "profile_dir (hd tr) alias")
  case (Inr d)
  then have "touch d" using assms(2) by (simp add: profile_dir_Inr_iff)
  with Inr show ?thesis
    using assms(1) by (auto simp: record_workspace_def Let_def intro!: safe_do dest: profile_dir_idem)
qed (simp add: record_workspace_def assms)

lemma safe_copy_snapshot:
  "safe I tr \<Longrightarrow> profile_dir (hd tr) d = Inr d \<Longrightarrow> touch d \<Longrightarrow> safe I (copy_snapshot e d tr)"
  by (auto simp: copy_snapshot_def intro: safe_try split: option.splits)

lemma safe_capture_into_owner:
  assumes "safe I tr" and t: "\<And>d. validate_alias alias = Inr d \<Longrightarrow> touch d"
  shows "safe I (capture_into_owner e alias tr)"
proof (cases "profile_dir (hd tr) alias")
  case (Inr d)
  then have d: "profile_dir (hd tr) d = Inr d" "touch d"
    using t by (auto simp: profile_dir_Inr_iff dest: validate_alias_idem)
  have copied: "safe I (copy_snapshot e d tr')" if "record_workspace e alias w tr = (None, tr')" for w tr'
  proof -
    from that Inr have "profile_dir (hd tr') d = Inr d"
      by (auto simp: record_workspace_def Let_def do_write_None_iff d intro!: profile_dir_set_files)
    moreover have "safe I tr'" using safe_record_workspace [of tr "alias" e w] assms that by simp
    ultimately show ?thesis using d(2) by (intro safe_copy_snapshot)
  qed
  have failed: "safe I tr'" if "record_workspace e alias w tr = (Some er, tr')" for w er tr'
    using safe_record_workspace [of tr "alias" e w] assms that by simp
  show ?thesis
    using assms(1) d copied failed safe_copy_snapshot
    by (auto simp: capture_into_owner_def Let_def Inr split: option.splits prod.splits)
qed (simp add: capture_into_owner_def Let_def assms)

lemma safe_capture:
  assumes "safe I tr"
    and "\<And>s t alias d. I s \<Longrightarrow> resolve s t = Some alias \<Longrightarrow> validate_alias alias = Inr d \<Longrightarrow> touch d"
  shows "safe I (capture_from_snapshot e loc resolve tr)"
proof (cases "af_bytes (auth_at loc (hd tr))")
  case (Some bytes)
  show ?thesis
  proof (cases "attempt e (PutSnapshot bytes) tr")
    case put: (Some tr1)
    then have "safe I tr1" using assms(1) by (auto intro: safe_attempt)
    then show ?thesis
      using assms(2) [OF safe_hd [of I tr1]]
      by (auto simp: capture_from_snapshot_def Some put intro!: safe_try safe_capture_into_owner split: option.split)
  qed (simp add: capture_from_snapshot_def Some assms)
qed (simp add: capture_from_snapshot_def assms)

lemma safe_set_active: "install \<Longrightarrow> safe I tr \<Longrightarrow> safe I (snd (set_active_unlocked e alias tr))"
  by (auto simp: set_active_unlocked_def intro: safe_do split: sum.split)

lemma safe_install: "install \<Longrightarrow> safe I tr \<Longrightarrow> safe I (snd (install_live e d loc tr))"
  by (cases loc) (auto simp: install_live_def intro: safe_do split: option.split)

lemma safe_save:
  assumes "safe I tr" and t: "\<And>d. validate_alias alias = Inr d \<Longrightarrow> touch d"
  shows "safe I (snd (save_profile_unlocked e alias email src tr))"
proof -
  have body: "safe I (snd (case af_bytes (auth_at src (hd tr')) of None \<Rightarrow> (Some NoSource, tr')
      | Some bytes \<Rightarrow> and_then (do_write e (PutAuth d bytes) tr') (\<lambda>tr. do_write e (PutMeta d (m tr)) tr)))"
    if "safe I tr'" "profile_dir (hd tr') d = Inr d" "touch d" for tr' d m
    using that by (auto simp: do_write_None_iff intro!: safe_and_then safe_do split: option.split)
  show ?thesis
  proof (cases "validate_alias alias")
    case (Inr a)
    show ?thesis
    proof (cases "profile_dir (hd tr) a")
      case dir: (Inr d)
      then have d: "profile_dir (hd tr) d = Inr d" "touch d"
        using t Inr by (auto simp: profile_dir_Inr_iff dest: validate_alias_idem)
      have "safe I (snd (and_then (do_write e (MakeDir d) tr) (\<lambda>tr. case af_bytes (auth_at src (hd tr)) of None \<Rightarrow> (Some NoSource, tr)
          | Some bytes \<Rightarrow> and_then (do_write e (PutAuth d bytes) tr) (\<lambda>tr. do_write e (PutMeta d (m tr)) tr))))" for m
        using d assms(1)
        by (intro safe_and_then safe_do body) (auto simp: do_write_None_iff intro!: profile_dir_set_files)
      then show ?thesis
        using assms(1) unfolding save_profile_unlocked_def Let_def by (simp add: Inr dir)
    qed (simp add: save_profile_unlocked_def Inr assms)
  qed (simp add: save_profile_unlocked_def assms)
qed

lemma safe_activate:
  assumes "safe I tr" and t: "\<And>d. touch d"
    and ok: install
  shows "safe I (snd (save_profile_and_activate_locked e alias email src tr))"
proof -
  have tail: "safe I (snd (and_then (if src = Live then (None, tr')
      else case profile_dir (hd tr') a of Inl er \<Rightarrow> (Some er, tr') | Inr d \<Rightarrow> install_live e d Live tr')
        (set_active_unlocked e a)))" if "safe I tr'" for a tr'
    using that ok by (intro safe_and_then safe_set_active) (auto intro: safe_install split: sum.split)
  have "safe I (if src = Live then tr else capture_auth_file_profile_tokens e Live (Some a) tr)" for a
    using assms by (auto simp: capture_auth_file_profile_tokens_def Let_def intro!: safe_capture)
  then show ?thesis
    using assms tail unfolding save_profile_and_activate_locked_def Let_def
    by (auto intro!: safe_and_then [OF safe_save] split: sum.split)
qed

lemma safe_save_live:
  assumes "safe I tr" and "\<And>d. touch d"
    and ok: install
  shows "safe I (snd (save_live_profile_locked e alias email src tr))"
  using assms unfolding save_live_profile_locked_def
  by (auto intro!: safe_and_then [OF safe_save] safe_set_active split: sum.split)

lemma safe_switch:
  assumes "safe I tr" and "\<And>d. touch d"
    and ok: install
  shows "safe I (snd (switch_to_auth_json_from e alias loc tr))"
proof -
  have c: "safe I (capture_auth_file_profile_tokens e loc None tr)"
    using assms by (auto simp: capture_auth_file_profile_tokens_def Let_def intro!: safe_capture)
  show ?thesis
    using assms unfolding switch_to_auth_json_from_def Let_def
    by (auto intro!: safe_and_then safe_install c safe_set_active split: sum.split)
qed

lemma safe_exec:
  assumes "safe I tr" and "\<And>d. touch d"
    and ok: install
  shows "safe I (snd (seed_exec_auth_from e alias loc tr))"
    and "safe I (snd (capture_exec_auth_from e loc alias tr))"
proof -
  have c: "safe I (capture_exec_auth_unlocked e loc p tr)" for p
    using assms by (auto simp: capture_exec_auth_unlocked_def intro!: safe_capture)
  show "safe I (snd (seed_exec_auth_from e alias loc tr))"
    using assms(1) ok by (auto simp: seed_exec_auth_from_def intro!: safe_install c split: sum.split)
  show "safe I (snd (capture_exec_auth_from e loc alias tr))"
    using assms(1) c by (auto simp: capture_exec_auth_from_def split: sum.split)
qed

lemma safe_meta_ops:
  assumes "safe I tr" and "\<And>d. touch d"
  shows "safe I (snd (set_label_locked e alias label tr))"
    and "safe I (snd (update_meta_plan_from e busy alias plan tr))"
    and "safe I (snd (delete_profile_from e alias tr))"
proof -
  show "safe I (snd (set_label_locked e alias label tr))"
    unfolding set_label_locked_def
    using assms by (auto intro!: safe_do dest: profile_dir_idem split: sum.split option.split)
  show "safe I (snd (update_meta_plan_from e busy alias plan tr))"
    unfolding update_meta_plan_from_def
    using assms by (auto intro!: safe_do dest: profile_dir_idem split: sum.split option.split)
  show "safe I (snd (delete_profile_from e alias tr))"
    unfolding delete_profile_from_def
    using assms by (auto intro!: safe_do split: sum.split)
qed

lemma safe_run:
  assumes "safe I tr" and "\<And>d. touch d"
    and ok: install
  shows "safe I (snd (run_profile_op e op tr))"
proof (cases op)
  case (CodexWrites loc bytes)
  then show ?thesis using assms(1) ok by (cases loc) (auto intro!: safe_do)
qed (use assms in \<open>auto intro: safe_save_live safe_activate safe_switch safe_exec safe_meta_ops\<close>)

lemma reach_keeps:
  assumes "profile_reach e s s'" and "I s" and t: "\<And>d. touch d"
    and ok: install
  shows "I s'"
  using assms(1,2)
proof (induction rule: profile_reach.induct)
  case (step s s1 s2 op)
  then have "safe I (snd (run_profile_op e op [s1]))" using t ok by (intro safe_run) auto
  with step.hyps(2) show ?case by (simp add: safe_def list_all_iff)
qed

end

section \<open>The store stays well formed\<close>

text \<open>
  No two entries differ only in letter case, and every profile directory carries the name
  its alias resolves to.
\<close>

definition case_distinct :: "string set \<Rightarrow> bool" where
  "case_distinct S = (\<forall>x \<in> S. \<forall>y \<in> S. eq_ignore_ascii_case x y \<longrightarrow> x = y)"

definition store_wf :: "store \<Rightarrow> bool" where
  "store_wf s = (bt_ok (st_profiles s) \<and> case_distinct (fst ` set (st_profiles s))
     \<and> list_all (\<lambda>(x, en). case en of Dir _ \<Rightarrow> validate_alias x = Inr x | _ \<Rightarrow> True) (st_profiles s))"

lemma case_distinct_mono: "case_distinct T \<Longrightarrow> S \<subseteq> T \<Longrightarrow> case_distinct S"
  by (meson case_distinct_def subsetD)

lemma store_wf_iff:
  "store_wf s \<longleftrightarrow> bt_ok (st_profiles s) \<and> case_distinct (fst ` set (st_profiles s))
     \<and> (\<forall>x p. files_of s x = Some p \<longrightarrow> validate_alias x = Inr x)"
proof (cases "bt_ok (st_profiles s)")
  case True
  have files: "files_of s x = Some p \<longleftrightarrow> (x, Dir p) \<in> set (st_profiles s)" for x p
  proof -
    have "files_of s x = Some p \<longleftrightarrow> bt_get (st_profiles s) x = Some (Dir p)"
      by (auto simp: files_of_def split: option.splits entry.splits)
    then show ?thesis by (simp add: bt_get_in_iff [OF True])
  qed
  have "(\<forall>(x, en) \<in> S. case en of Dir _ \<Rightarrow> V x | _ \<Rightarrow> True) \<longleftrightarrow> (\<forall>x p. (x, Dir p) \<in> S \<longrightarrow> V x)"
    for S :: "(string \<times> entry) set" and V by (auto split: entry.split)
  then show ?thesis
    unfolding store_wf_def list_all_iff files by (simp only: True)
qed (simp add: store_wf_def)

lemma eq_ignore_sym: "eq_ignore_ascii_case x y = eq_ignore_ascii_case y x"
  by (auto simp: eq_ignore_ascii_case_def)

lemma store_wf_set_files:
  assumes "store_wf s" and "profile_dir s a = Inr a"
  shows "store_wf (set_files a f s)"
proof -
  have "bt_ok (st_profiles (set_files a f s))"
    using assms(1) by (auto simp: store_wf_def set_files_def)
  moreover have "case_distinct (insert a (fst ` set (st_profiles s)))"
    using assms eq_ignore_sym [of a]
    unfolding store_wf_def case_distinct_def profile_dir_Inr_iff case_conflict_None_iff by blast
  ultimately show ?thesis
    using assms by (auto simp: store_wf_iff profile_dir_Inr_iff split: if_splits)
qed

lemma store_wf_cong:
  "st_profiles s' = st_profiles s \<Longrightarrow> store_wf s' = store_wf s"
  by (simp add: store_wf_def)

lemma store_wf_write:
  assumes "store_wf s" and "write_allowed (\<lambda>_. True) True s w" and "writable w s"
  shows "store_wf (apply_write w s)"
proof (cases w)
  case (RemoveDir a)
  have "files_of (s\<lparr>st_profiles := bt_del a (st_profiles s)\<rparr>) x = (if x = a then None else files_of s x)" for x
    by (simp add: files_of_def)
  moreover have "fst ` set (bt_del a (st_profiles s)) \<subseteq> fst ` set (st_profiles s)"
    by (auto simp: bt_del_def)
  ultimately show ?thesis
    using assms(1) case_distinct_mono by (auto simp: RemoveDir store_wf_iff simp del: image_iff split: if_splits)
next
  case (PutFile loc b)
  then show ?thesis using assms(1) by (cases loc) (simp_all add: store_wf_def)
qed (use assms store_wf_set_files in \<open>auto simp: store_wf_def\<close>)

interpretation wf_store: crash_invariant store_wf "\<lambda>_. True" True
  by unfold_locales (rule store_wf_write)

text \<open>C22: the store never holds two profiles a case-insensitive file system would merge, nor a
  directory its alias does not name, whatever operations run, crash or fail in between.\<close>

theorem store_stays_well_formed:
  assumes "store_wf s" and "profile_reach e s s'"
  shows "store_wf s'"
  using assms(2,1) by (rule wf_store.reach_keeps) simp_all

end
