(* ===== verification/CaptureFacts.thy ===== *)
theory CaptureFacts
  imports OwnerFacts
begin

text \<open>
  What a capture does to the store it writes into: the workspace a profile has proven
  survives every crash point and every failed write, no profile receives an older token,
  and only the proved owner's files change.
\<close>

section \<open>Reads that a write leaves alone\<close>

lemma files_frame [simp]:
  "files_of (s\<lparr>st_snapshot := x\<rparr>) b = files_of s b"
  "files_of (s\<lparr>st_live := x\<rparr>) b = files_of s b"
  "files_of (s\<lparr>st_others := y\<rparr>) b = files_of s b"
  "files_of (s\<lparr>st_active := z\<rparr>) b = files_of s b"
  by (simp_all add: files_of_def)

definition dir_of :: "store \<Rightarrow> string \<Rightarrow> string option" where
  "dir_of s b = (case profile_dir s b of Inl _ \<Rightarrow> None | Inr d \<Rightarrow> Some d)"

lemma dir_of_Some: "dir_of s b = Some d \<longleftrightarrow> profile_dir s b = Inr d"
  by (simp add: dir_of_def split: sum.split)

lemma dir_of_cong:
  assumes "st_profiles s' = st_profiles s" and "st_unreadable s' = st_unreadable s"
  shows "dir_of s' b = dir_of s b"
  unfolding dir_of_def profile_dir_def checked_child_def case_conflict_def assms ..

lemma dir_frame [simp]:
  "dir_of (s\<lparr>st_snapshot := x\<rparr>) b = dir_of s b"
  "dir_of (s\<lparr>st_live := x\<rparr>) b = dir_of s b"
  "dir_of (s\<lparr>st_others := y\<rparr>) b = dir_of s b"
  "dir_of (s\<lparr>st_active := z\<rparr>) b = dir_of s b"
  by (rule dir_of_cong; simp)+

lemma workspace_via_dir:
  "workspace_of_profile h s b = Option.bind (dir_of s b) (\<lambda>a.
     opt_or (Option.bind (read_auth_json h (auth_file_of s a)) aj_account_id)
            (Option.bind (read_meta h s a) m_account_id))"
  by (simp add: workspace_of_profile_def dir_of_def identity_account split: sum.split)

lemma alias_auth_via_dir: "alias_auth h s b = Option.bind (dir_of s b) (\<lambda>a. read_auth_json h (auth_file_of s a))"
  by (simp add: alias_auth_def dir_of_def split: sum.split)

text \<open>What a store answers about its profiles.\<close>

definition same_profiles :: "store \<Rightarrow> store \<Rightarrow> bool" where
  "same_profiles s s' = (dir_of s' = dir_of s \<and> files_of s' = files_of s)"

lemma same_profiles_reads:
  assumes "same_profiles s s'"
  shows "workspace_of_profile h s' b = workspace_of_profile h s b"
    and "alias_auth h s' b = alias_auth h s b"
    and "auth_file_of s' b = auth_file_of s b"
    and "read_meta h s' b = read_meta h s b"
  using assms by (auto simp: same_profiles_def workspace_via_dir alias_auth_via_dir store_reads)

fun outside_profiles :: "write_op \<Rightarrow> bool" where
  "outside_profiles (MakeDir _) = False"
| "outside_profiles (PutAuth _ _) = False"
| "outside_profiles (PutMeta _ _) = False"
| "outside_profiles (RemoveDir _) = False"
| "outside_profiles _ = True"

lemma same_profiles_write: "outside_profiles w \<Longrightarrow> same_profiles s (apply_write w s)"
proof (cases w)
  case (PutFile loc b)
  then show ?thesis by (cases loc) (auto simp: same_profiles_def)
qed (auto simp: same_profiles_def)

lemma same_profiles_trans: "same_profiles s t \<Longrightarrow> same_profiles t u \<Longrightarrow> same_profiles s u"
  by (simp add: same_profiles_def)

lemma same_profiles_refl [simp]: "same_profiles s s"
  by (simp add: same_profiles_def)

text \<open>Rewriting the files of a directory that exists moves no profile.\<close>

lemma dir_of_set_files:
  assumes "files_of s a \<noteq> None"
  shows "dir_of (set_files a f s) b = dir_of s b"
proof -
  have "a \<in> fst ` set (st_profiles s)"
    using assms by (auto simp: files_of_def bt_has_iff [symmetric] bt_has_def split: option.splits)
  then have "profile_dir (set_files a f s) b = Inr d \<longleftrightarrow> profile_dir s b = Inr d" for d
    using assms by (auto simp: profile_dir_Inr_iff case_conflict_None_iff insert_absorb)
      (auto simp: set_files_def files_of_def split: if_splits option.splits entry.splits)
  then show ?thesis by (metis dir_of_Some option.expand option.collapse not_None_eq)
qed


section \<open>What survives a capture\<close>

definition kept :: "'h host_scheme \<Rightarrow> store \<Rightarrow> store \<Rightarrow> bool" where
  "kept h s s' =
     ((\<forall>b w. workspace_of_profile h s b = Some w \<longrightarrow> workspace_of_profile h s' b = Some w)
      \<and> (\<forall>b old. alias_auth h s b = Some old \<longrightarrow> (\<exists>new. alias_auth h s' b = Some new
             \<and> (new = old \<or> captured_auth_supersedes_profile h (Some new) (Some old)))))"

lemma kept_same: "same_profiles s s' \<Longrightarrow> kept h s s'"
  by (simp add: kept_def same_profiles_reads)

lemma kept_same_left: "same_profiles s t \<Longrightarrow> kept h t u \<Longrightarrow> kept h s u"
  by (simp add: kept_def same_profiles_reads)

lemma kept_same_right: "kept h s t \<Longrightarrow> same_profiles t u \<Longrightarrow> kept h s u"
  by (simp add: kept_def same_profiles_reads)

lemma bt_put_put: "bt_put k v (bt_put k w m) = bt_put k v m"
  by (induction m) auto

lemma set_files_reads:
  assumes "files_of s d = Some p"
  shows "workspace_of_profile h (set_files d f s) b =
      (if dir_of s b = Some d
       then opt_or (Option.bind (read_auth_json h (pf_auth (f p))) aj_account_id)
                   (Option.bind (Option.bind (pf_meta (f p)) (h_meta h)) m_account_id)
       else workspace_of_profile h s b)"
    and "alias_auth h (set_files d f s) b =
      (if dir_of s b = Some d then read_auth_json h (pf_auth (f p)) else alias_auth h s b)"
  using assms
  by (cases "dir_of s b"; auto simp: workspace_via_dir alias_auth_via_dir dir_of_set_files auth_file_of_def read_meta_def)+

lemma set_files_kept:
  assumes p: "files_of s d = Some p" and d: "dir_of s d = Some d"
    and ws: "\<And>w. workspace_of_profile h s d = Some w \<Longrightarrow>
       opt_or (Option.bind (read_auth_json h (pf_auth (f p))) aj_account_id)
              (Option.bind (Option.bind (pf_meta (f p)) (h_meta h)) m_account_id) = Some w"
    and auth: "\<And>old. read_auth_json h (pf_auth p) = Some old \<Longrightarrow> \<exists>new. read_auth_json h (pf_auth (f p)) = Some new
       \<and> (new = old \<or> captured_auth_supersedes_profile h (Some new) (Some old))"
  shows "kept h s (set_files d f s)"
proof -
  have ws_eq: "workspace_of_profile h s b = workspace_of_profile h s d" if "dir_of s b = Some d" for b
    using that d by (simp add: workspace_via_dir)
  have auth_eq: "alias_auth h s b = read_auth_json h (pf_auth p)" if "dir_of s b = Some d" for b
    using that p by (simp add: alias_auth_via_dir auth_file_of_def)
  show ?thesis
    unfolding kept_def set_files_reads [OF p]
    using ws auth ws_eq auth_eq by auto
qed

lemma read_put_bytes:
  assumes "read_auth_json h (pf_auth p) = Some old" and "read_auth_json h snap = Some new" and "af_bytes snap = Some b"
  shows "read_auth_json h (put_bytes b (pf_auth p)) = Some new"
  using assms by (auto simp: read_auth_json_def put_bytes_def split: if_splits)

lemma owner_workspace:
  assumes "owner_proved h s (Some cand) a" and "workspace_of_profile h s a = Some w"
    and "aj_account_id cand \<noteq> Some w"
  shows "aj_account_id cand = None"
  using assms by (auto simp: owner_proved_def Let_def split: option.splits if_splits)

lemma copy_snapshot_states:
  "s' \<in> set (copy_snapshot e d tr) \<Longrightarrow>
     s' \<in> set tr \<or> (\<exists>b. af_bytes (st_snapshot (hd tr)) = Some b
        \<and> s' = set_files d (\<lambda>p. p\<lparr>pf_auth := put_bytes b (pf_auth p)\<rparr>) (hd tr))"
  by (auto simp: copy_snapshot_def try_write_def dest: attempt_cases split: option.splits)

lemma capture_into_owner_kept:
  assumes print: "\<And>m. h_meta e (h_print e m) = Some m"
    and own: "owner_proved e (hd tr) (read_auth_json e (st_snapshot (hd tr))) alias"
    and s': "s' \<in> set (capture_into_owner e alias tr)"
  shows "s' \<in> set tr \<or> kept e (hd tr) s'"
proof -
  let ?s = "hd tr"
  obtain cand where cand: "read_auth_json e (st_snapshot ?s) = Some cand"
    using own by (auto simp: owner_proved_def split: option.splits)
  obtain stored where stored: "alias_auth e ?s alias = Some stored"
    using own by (auto simp: owner_proved_def cand split: option.splits)
  then obtain d where d: "dir_of ?s alias = Some d" and rd: "read_auth_json e (auth_file_of ?s d) = Some stored"
    by (auto simp: alias_auth_via_dir bind_eq_Some_conv)
  then have dd: "dir_of ?s d = Some d" by (auto simp: dir_of_Some dest: profile_dir_idem)
  obtain p where p: "files_of ?s d = Some p" and rp: "read_auth_json e (pf_auth p) = Some stored"
    using rd by (cases "files_of ?s d") (auto simp: auth_file_of_def no_file_def read_auth_json_def split: if_splits)
  have wd: "workspace_of_profile e ?s alias = workspace_of_profile e ?s d"
    using d dd by (simp add: workspace_via_dir)
  have dir: "profile_dir ?s alias = Inr d" using d by (simp add: dir_of_Some)
  show ?thesis
  proof (cases "captured_auth_supersedes_profile e (Some cand) (Some stored)")
    case False
    with s' dir rd show ?thesis by (simp add: capture_into_owner_def Let_def cand)
  next
    case sup: True
    have copied: "kept e ?s (set_files d (\<lambda>p. p\<lparr>pf_auth := put_bytes b (pf_auth p)\<rparr>) ?s)"
      if "af_bytes (st_snapshot ?s) = Some b"
        "workspace_of_profile e ?s d = None \<or> workspace_of_profile e ?s d = aj_account_id cand" for b
      using that read_put_bytes [OF rp cand that(1)] rp sup
      by (intro set_files_kept [OF p dd]) (auto simp: opt_or_def split: option.splits)
    show ?thesis
    proof (cases "workspace_of_profile e ?s d = None \<or> workspace_of_profile e ?s d = aj_account_id cand")
      case True
      then have "capture_into_owner e alias tr = copy_snapshot e d tr"
        using sup rd by (auto simp: capture_into_owner_def Let_def cand dir wd split: option.split)
      with s' copied [OF _ True] show ?thesis by (auto dest: copy_snapshot_states)
    next
      case False
      then obtain w where w: "workspace_of_profile e ?s d = Some w" "aj_account_id cand \<noteq> Some w"
        by (cases "workspace_of_profile e ?s d") auto
      then have none: "aj_account_id cand = None"
        using owner_workspace own wd by (metis cand)
      obtain er tr' where rec: "record_workspace e alias w tr = (er, tr')" by (cases "record_workspace e alias w tr")
      define m where "m = (case read_meta e ?s d of None \<Rightarrow> default_meta | Some m \<Rightarrow> m)"
      define m' where "m' = m\<lparr>m_alias := alias, m_account_id := Some w,
                     m_saved_at := (if m_saved_at m = [] then w_stamp e else m_saved_at m)\<rparr>"
      let ?f = "\<lambda>p. p\<lparr>pf_meta := Some (h_print e m')\<rparr>"
      let ?t = "set_files d ?f ?s"
      have acc: "m_account_id m' = Some w" by (simp add: m'_def)
      have rec': "record_workspace e alias w tr = do_write e (PutMeta d (h_print e m')) tr"
        by (simp add: record_workspace_def dir Let_def m_def m'_def)
      have tr': "tr' = tr \<or> tr' = ?t # tr"
        using rec attempt_cases [of e "PutMeta d (h_print e m')" tr]
        by (auto simp: rec' do_write_def split: option.splits)
      have k1: "kept e ?s ?t"
        using w(1) rp print acc
        by (intro set_files_kept [OF p dd])
           (auto simp: workspace_via_dir dd auth_file_of_def p opt_or_def split: option.splits)
      have cap: "capture_into_owner e alias tr = (case er of Some _ \<Rightarrow> tr' | None \<Rightarrow> copy_snapshot e d tr')"
        using sup rd w none rec by (auto simp: capture_into_owner_def Let_def cand dir wd split: option.split)
      show ?thesis
      proof (cases er)
        case (Some _)
        with s' cap tr' k1 show ?thesis by auto
      next
        case None
        then have t: "tr' = ?t # tr" using rec by (simp add: rec' do_write_None_iff)
        have "kept e ?s (set_files d (\<lambda>p. p\<lparr>pf_auth := put_bytes b (pf_auth p)\<rparr>) ?t)"
          if b: "af_bytes (st_snapshot ?s) = Some b" for b
        proof -
          have "set_files d (\<lambda>p. p\<lparr>pf_auth := put_bytes b (pf_auth p)\<rparr>) ?t
              = set_files d (\<lambda>p. ?f p\<lparr>pf_auth := put_bytes b (pf_auth p)\<rparr>) ?s"
            by (simp add: set_files_def files_of_def bt_put_put p [unfolded files_of_def])
          then show ?thesis
            using read_put_bytes [OF rp cand b] rp sup print acc none w(1)
            by simp (intro set_files_kept [OF p dd]; auto)
        qed
        with s' cap None t k1 show ?thesis by (auto dest!: copy_snapshot_states)
      qed
    qed
  qed
qed


interpretation kept_frame: crash_invariant "kept h s" "\<lambda>_. False" True for h :: "'h host_scheme" and s
proof
  fix s1 w
  assume k: "kept h s s1" and w: "write_allowed (\<lambda>_. False) True s1 w" and "writable w s1"
  from w have "outside_profiles w" by (cases w) auto
  with k show "kept h s (apply_write w s1)" by (blast intro: kept_same_right same_profiles_write)
qed

interpretation wf_true: crash_invariant "\<lambda>_. True" "\<lambda>_. True" True
  by unfold_locales simp

lemma kept_refl [simp]: "kept h s s"
  by (simp add: kept_same)

lemma capture_from_snapshot_kept:
  assumes print: "\<And>m. h_meta e (h_print e m) = Some m"
    and own: "\<And>s t x. resolve s t = Some x \<Longrightarrow> owner_proved e s t x"
  shows "safe (kept e s) (capture_from_snapshot e loc resolve [s])"
proof (cases "af_bytes (auth_at loc s)")
  case (Some bytes)
  show ?thesis
  proof (cases "attempt e (PutSnapshot bytes) [s]")
    case put: (Some tr1)
    let ?s1 = "apply_write (PutSnapshot bytes) s"
    have tr1: "tr1 = [?s1, s]" using attempt_cases(1) [OF put] by simp
    have same: "same_profiles s ?s1" by (rule same_profiles_write) simp
    have start: "safe (kept e s) tr1" using kept_same [OF same] by (simp add: tr1)
    have "safe (kept e s) (capture_into_owner e x tr1)"
      if "resolve ?s1 (read_auth_json e (st_snapshot ?s1)) = Some x" for x
    proof -
      have "s' \<in> set tr1 \<or> kept e ?s1 s'" if "s' \<in> set (capture_into_owner e x tr1)" for s'
        using capture_into_owner_kept [of e tr1 x s'] print own [OF \<open>resolve _ _ = Some x\<close>] that
        by (simp add: tr1)
      moreover have "capture_into_owner e x tr1 \<noteq> []"
        using wf_true.safe_capture_into_owner [of tr1 x e] by (auto simp: safe_def tr1)
      ultimately show ?thesis
        using start kept_same_left [OF same] by (auto simp: safe_def list_all_iff)
    qed
    with start show ?thesis
      by (auto simp: capture_from_snapshot_def Some put tr1 intro!: kept_frame.safe_try split: option.split)
  qed (simp add: capture_from_snapshot_def Some)
qed (simp add: capture_from_snapshot_def)

end
