(* ===== verification/ProfileSafety.thy ===== *)
theory ProfileSafety
  imports CaptureFacts
begin

text \<open>
  The promises of the profile store to its operator, over whole operations: a switch or a
  pinned launch keeps every proven workspace and never installs an older token, a new login
  is not overwritten by the stale live file, a switch saves the outgoing tokens before it
  installs the next profile, and the active marker is honest wherever a crash stops.
\<close>

section \<open>Operations that only capture\<close>

lemma capture_kept:
  assumes "\<And>m. h_meta e (h_print e m) = Some m"
  shows "safe (kept e s) (capture_auth_file_profile_tokens e loc skip [s])"
    and "safe (kept e s) (capture_exec_auth_unlocked e loc pin [s])"
  using assms
  by (auto simp: capture_auth_file_profile_tokens_def capture_exec_auth_unlocked_def Let_def
      intro!: capture_from_snapshot_kept owner_is_proved split: option.splits if_splits)

lemma capturing_op_kept:
  assumes print: "\<And>m. h_meta e (h_print e m) = Some m"
    and op: "op \<in> {SwitchTo a loc, SeedExec a loc, CaptureExec a loc}"
  shows "safe (kept e s) (snd (run_profile_op e op [s]))"
proof -
  note c = capture_kept [OF print]
  have "safe (kept e s) (snd (switch_to_auth_json_from e a loc [s]))"
    using c unfolding switch_to_auth_json_from_def Let_def
    by (auto intro!: kept_frame.safe_and_then kept_frame.safe_install kept_frame.safe_set_active split: sum.split)
  moreover have "safe (kept e s) (snd (seed_exec_auth_from e a loc [s]))"
    using c unfolding seed_exec_auth_from_def by (auto intro!: kept_frame.safe_install split: sum.split)
  moreover have "safe (kept e s) (snd (capture_exec_auth_from e loc a [s]))"
    using c unfolding capture_exec_auth_from_def by (auto split: sum.split)
  ultimately show ?thesis using op by auto
qed

text \<open>C8: a workspace a profile has proven survives every switch, pinned launch and capture,
  wherever a crash stops it and whichever writes fail. A capture of a token that carries no
  workspace claim writes the proven one into the metadata before it replaces the token.\<close>

theorem proven_workspace_survives:
  assumes "\<forall>m. h_meta e (h_print e m) = Some m"
    and "op = SwitchTo a loc \<or> op = SeedExec a loc \<or> op = CaptureExec a loc"
    and "workspace_of_profile e s b = Some w"
  shows "list_all (\<lambda>s'. workspace_of_profile e s' b = Some w) (snd (run_profile_op e op [s]))"
  using capturing_op_kept [of e op a loc s] assms by (auto simp: safe_def list_all_iff kept_def)

definition not_older :: "'h host_scheme \<Rightarrow> string \<Rightarrow> string \<Rightarrow> bool" where
  "not_older h old new =
     (let by_expiry = (case (token_expiry h old, token_expiry h new) of (Some x, Some y) \<Rightarrow> x \<le> y | _ \<Rightarrow> True) in
      case (token_issued_at h old, token_issued_at h new) of
        (Some i, Some j) \<Rightarrow> i < j \<or> i = j \<and> by_expiry
      | _ \<Rightarrow> by_expiry)"

lemma not_older_refl: "not_older h t t"
  by (auto simp: not_older_def Let_def split: option.split)

lemma supersedes_not_older:
  "captured_auth_supersedes_profile h (Some new) (Some old) \<Longrightarrow>
     not_older h (aj_access_token old) (aj_access_token new)"
  using not_older_refl [of h "aj_access_token old"]
  by (auto simp: captured_auth_supersedes_profile_def not_older_def Let_def split: if_splits option.splits)

text \<open>C32: no capture rolls a saved token back. After a switch, a pinned launch or a capture,
  at every crash point, each readable profile still reads, and its token was not issued
  before the one it held; with no issue time to compare, it does not expire before it.\<close>

theorem captured_token_not_older:
  assumes "\<forall>m. h_meta e (h_print e m) = Some m"
    and "op = SwitchTo a loc \<or> op = SeedExec a loc \<or> op = CaptureExec a loc"
    and "alias_auth e s b = Some old"
  shows "list_all (\<lambda>s'. case alias_auth e s' b of
      None \<Rightarrow> False | Some new \<Rightarrow> not_older e (aj_access_token old) (aj_access_token new))
    (snd (run_profile_op e op [s]))"
proof -
  have "safe (kept e s) (snd (run_profile_op e op [s]))"
    using assms by (intro capturing_op_kept [of e op a loc s]) auto
  then have k: "kept e s s'" if "s' \<in> set (snd (run_profile_op e op [s]))" for s'
    using that by (auto simp: safe_def list_all_iff)
  show ?thesis
    unfolding list_all_iff
  proof
    fix s' assume "s' \<in> set (snd (run_profile_op e op [s]))"
    then obtain new where new: "alias_auth e s' b = Some new"
        "new = old \<or> captured_auth_supersedes_profile e (Some new) (Some old)"
      using k assms(3) unfolding kept_def by blast
    with supersedes_not_older not_older_refl
    show "case alias_auth e s' b of None \<Rightarrow> False
        | Some new \<Rightarrow> not_older e (aj_access_token old) (aj_access_token new)" by auto
  qed
qed

section \<open>A new login\<close>

lemma exact_candidates_named:
  assumes "exact_token_candidates h s t = Some (tw, cs)" and "a \<in> fst ` set cs"
  shows "\<exists>as. stored_aliases s = Some as \<and> a \<in> set as"
  using assms by (auto simp: exact_token_candidates_def bind_eq_Some_conv List.map_filter_def split: if_splits)

lemma profile_auths_named:
  "profile_auths h s target as = Some auths \<Longrightarrow> (a, auth) \<in> set auths \<Longrightarrow> a \<in> set as"
proof (induction as arbitrary: auths)
  case (Cons b as)
  then show ?case by (auto split: sum.splits option.splits if_splits)
qed simp

lemma login_named:
  assumes "alias_for_auth_json_from h s t = Inr (Some a)"
  shows "\<exists>as. stored_aliases s = Some as \<and> a \<in> set as"
proof -
  obtain target as auths where t: "t = Some target" "stored_aliases s = Some as"
      "profile_auths h s target as = Some auths"
    using assms by (auto simp: alias_for_auth_json_from_def split: option.splits)
  let ?held = "map (\<lambda>(alias, _). (alias, workspace_of_profile h s alias))"
  have named: "fst c \<in> set as" if "c \<in> set (?held (filter P auths))" for c P
    using that profile_auths_named [OF t(3)] by force
  obtain P Q where "strongest_exact_match (aj_account_id target) (?held (filter P auths)) = Some a
      \<or> (case seat_candidates (aj_account_id target) (?held (filter Q auths)) of
           [only] \<Rightarrow> Some (fst only) | _ \<Rightarrow> None) = Some a"
    using assms unfolding alias_for_auth_json_from_def t option.case sum.inject Let_def
    by (metis (no_types, lifting))
  then show ?thesis
  proof
    assume "strongest_exact_match (aj_account_id target) (?held (filter P auths)) = Some a"
    from strongest_exact_match_sound [OF this] named t(2) show ?thesis by force
  next
    assume "(case seat_candidates (aj_account_id target) (?held (filter Q auths)) of
           [only] \<Rightarrow> Some (fst only) | _ \<Rightarrow> None) = Some a"
    then obtain c where c: "seat_candidates (aj_account_id target) (?held (filter Q auths)) = [c]" "fst c = a"
      by (auto simp: single_match)
    then have "c \<in> set (?held (filter Q auths))"
      unfolding seat_candidates_def by (auto dest: single_filter split: option.splits if_splits)
    with named c(2) t(2) show ?thesis by blast
  qed
qed

lemma stored_alias_named:
  assumes "store_wf s" and "stored_aliases s = Some as" and "a \<in> set as"
  shows "validate_alias a = Inr a"
proof -
  from assms(2,3) obtain en where "(a, en) \<in> set (st_profiles s)" and "case en of Dir _ \<Rightarrow> True | _ \<Rightarrow> False"
    by (auto simp: stored_aliases_def split: if_splits)
  then obtain p where "(a, Dir p) \<in> set (st_profiles s)" by (cases en) auto
  with assms(1) show ?thesis by (auto simp: store_wf_def list_all_iff)
qed

text \<open>In a well-formed store the owner is named by its own directory.\<close>

lemma owner_named:
  assumes "store_wf s" and "alias_for_auth_json_with_hint h s t known = Some a"
  shows "validate_alias a = Inr a"
  using assms(2)
proof (cases rule: owner_cases)
  case (exact tw cs w)
  then have "a \<in> fst ` set cs" by force
  from exact_candidates_named [OF exact(1) this] stored_alias_named [OF assms(1)] show ?thesis by blast
next
  case hint
  then show ?thesis by (simp add: profile_dir_Inr_iff)
next
  case login
  from login_named [OF login] stored_alias_named [OF assms(1)] show ?thesis by blast
qed


section \<open>Frames of a capture\<close>

text \<open>A capture writes no auth file outside the store and no active marker.\<close>

definition same_outside :: "store \<Rightarrow> store \<Rightarrow> bool" where
  "same_outside s s' = (st_live s' = st_live s \<and> st_others s' = st_others s \<and> st_active s' = st_active s)"

lemma set_files_outside [simp]: "same_outside s (set_files a f s') = same_outside s s'"
  by (simp add: same_outside_def)

interpretation outside: crash_invariant "same_outside s" "\<lambda>_. True" False for s
proof
  fix s1 w
  assume "same_outside s s1" and "write_allowed (\<lambda>_. True) False s1 w" and "writable w s1"
  then show "same_outside s (apply_write w s1)"
    by (cases w) (auto simp: same_outside_def)
qed

lemma same_outside_refl [simp]: "same_outside s s"
  by (simp add: same_outside_def)

lemma auth_at_set_files [simp]: "auth_at loc (set_files x g s) = auth_at loc s"
  by (cases loc) simp_all

lemma auth_at_outside: "same_outside s s' \<Longrightarrow> auth_at loc s' = auth_at loc s"
  by (cases loc) (simp_all add: same_outside_def)

lemma capture_outside:
  "safe (same_outside s) (capture_auth_file_profile_tokens e loc skip [s])"
  by (auto simp: capture_auth_file_profile_tokens_def Let_def intro!: outside.safe_capture)

text \<open>A capture that skips an alias leaves the files of its directory alone.\<close>

lemma files_of_del [simp]:
  "files_of (s\<lparr>st_profiles := bt_del a (st_profiles s)\<rparr>) x = (if x = a then None else files_of s x)"
  by (simp add: files_of_def)

definition holds_files :: "string \<Rightarrow> profile_files option \<Rightarrow> store \<Rightarrow> bool" where
  "holds_files a p s = (store_wf s \<and> files_of s a = p)"

interpretation skipped: crash_invariant "holds_files a p" "\<lambda>d. d \<noteq> a" True for a p
proof
  fix s1 w
  assume h: "holds_files a p s1" and w: "write_allowed (\<lambda>d. d \<noteq> a) True s1 w" and wr: "writable w s1"
  have "write_allowed (\<lambda>_. True) True s1 w" using w by (cases w) auto
  then have "store_wf (apply_write w s1)" using h wr store_wf_write by (auto simp: holds_files_def)
  moreover have "files_of (apply_write w s1) a = files_of s1 a"
  proof (cases w)
    case (PutFile loc b)
    then show ?thesis by (cases loc) auto
  qed (use w in auto)
  ultimately show "holds_files a p (apply_write w s1)" using h by (simp add: holds_files_def)
qed

lemma capture_skips:
  assumes "store_wf s" and "validate_alias a = Inr a"
  shows "safe (holds_files a (files_of s a)) (capture_auth_file_profile_tokens e loc (Some a) [s])"
proof -
  have "d \<noteq> a" if "store_wf s1" "alias_for_auth_json_with_hint e s1 t k = Some x" "x \<noteq> a" "validate_alias x = Inr d"
    for s1 t k x d
    using owner_named [OF that(1,2)] that(3,4) by simp
  then show ?thesis
    using assms(1) unfolding capture_auth_file_profile_tokens_def Let_def
    by (intro skipped.safe_capture) (auto simp: holds_files_def split: option.splits if_splits)
qed

section \<open>The writes of a save and of a switch\<close>

lemma do_write_cases:
  obtains (failed) er where "do_write e w tr = (Some er, tr)"
  | (written) "do_write e w tr = (None, apply_write w (hd tr) # tr)" and "writable w (hd tr)"
  using attempt_cases [of e w tr] by (cases "attempt e w tr") (auto simp: do_write_def)

lemma save_states:
  assumes a: "validate_alias a = Inr a"
    and src: "auth_at src (hd tr) = f" "af_bytes f = Some login"
  obtains (stopped) er tr' where "save_profile_unlocked e a email src tr = (Some er, tr')"
      and "\<And>s'. s' \<in> set tr' \<Longrightarrow> s' \<in> set tr
         \<or> same_outside (hd tr) s' \<and> (af_bytes (auth_file_of s' a) = af_bytes (auth_file_of (hd tr) a)
            \<or> af_bytes (auth_file_of s' a) = Some login)"
  | (saved) s3 s2 s1 where "save_profile_unlocked e a email src tr = (None, s3 # s2 # s1 # tr)"
      and "same_outside (hd tr) s1" and "same_outside (hd tr) s2" and "same_outside (hd tr) s3"
      and "af_bytes (auth_file_of s1 a) = af_bytes (auth_file_of (hd tr) a)"
      and "af_bytes (auth_file_of s2 a) = Some login" and "af_bytes (auth_file_of s3 a) = Some login"
      and "profile_dir s3 a = Inr a"
proof (cases "profile_dir (hd tr) a")
  case (Inl er)
  then show ?thesis by (intro stopped) (auto simp: save_profile_unlocked_def a)
next
  case (Inr d)
  then have d: "d = a" using a by (auto simp: profile_dir_Inr_iff)
  let ?s = "hd tr"
  let ?s1 = "apply_write (MakeDir a) ?s"
  let ?s2 = "apply_write (PutAuth a login) ?s1"
  have b1: "af_bytes (auth_file_of ?s1 a) = af_bytes (auth_file_of ?s a)"
    by (simp add: auth_file_of_def no_files_def no_file_def split: option.split)
  have b2: "af_bytes (auth_file_of ?s2 a) = Some login"
    by (simp add: auth_file_of_def put_bytes_def)
  have src1: "af_bytes (auth_at src ?s1) = Some login" using src by simp
  show ?thesis
  proof (cases "af_moved (auth_file_of ?s a)")
    case True
    then show ?thesis using Inr d by (intro stopped) (auto simp: save_profile_unlocked_def a)
  next
    case False
    define m where "m = h_print e (saved_meta e (w_stamp e) a (Option.bind (read_meta e ?s2 a) m_label) email
        (identity_of_auth_file e (auth_file_of ?s2 a)))"
    let ?s3 = "apply_write (PutMeta a m) ?s2"
    have run: "save_profile_unlocked e a email src tr =
        and_then (do_write e (MakeDir a) tr) (\<lambda>tr. case af_bytes (auth_at src (hd tr)) of
            None \<Rightarrow> (Some NoSource, tr)
          | Some bytes \<Rightarrow> and_then (do_write e (PutAuth a bytes) tr) (\<lambda>tr. do_write e (PutMeta a (h_print e
              (saved_meta e (w_stamp e) a (Option.bind (read_meta e (hd tr) a) m_label) email
                (identity_of_auth_file e (auth_file_of (hd tr) a))))) tr))"
      unfolding save_profile_unlocked_def Let_def using False Inr d by (simp add: a)
    show ?thesis
    proof (cases rule: do_write_cases [of e "MakeDir a" tr])
      case (failed er)
      then show ?thesis by (intro stopped) (auto simp: run)
    next
      case w1: written
      show ?thesis
      proof (cases rule: do_write_cases [of e "PutAuth a login" "?s1 # tr"])
        case (failed er)
        then show ?thesis using w1 src1 b1 by (intro stopped [of er "?s1 # tr"]) (auto simp: run)
      next
        case w2: written
        show ?thesis
        proof (cases rule: do_write_cases [of e "PutMeta a m" "?s2 # ?s1 # tr"])
          case (failed er)
          then show ?thesis using w1 w2 src1 b1 b2
            by (intro stopped [of er "?s2 # ?s1 # tr"]) (auto simp: run m_def)
        next
          case w3: written
          have "profile_dir ?s3 a = Inr a" using Inr d by simp
          then show ?thesis using w1 w2 w3 src1 b1 b2
            by (intro saved [of ?s3 ?s2 ?s1]) (auto simp: run m_def auth_file_of_def put_bytes_def)
        qed
      qed
    qed
  qed
qed


text \<open>C21: a new login is never overwritten by the token it replaces. Signing in from an
  isolated home captures the outgoing live file first, but at every crash point the
  profile's file is the one it held before or the new login, never the stale live one; when
  the operation succeeds the new login is both saved and live, and its alias is active.\<close>

theorem new_login_survives:
  assumes wf: "store_wf s" and a: "validate_alias alias = Inr a"
    and login: "af_bytes (auth_at (Other q) s) = Some login"
  shows "list_all (\<lambda>s'. af_bytes (auth_file_of s' a) \<in> {af_bytes (auth_file_of s a), Some login})
      (snd (run_profile_op e (SaveAndActivate alias email (Other q)) [s]))
    \<and> (case run_profile_op e (SaveAndActivate alias email (Other q)) [s] of
         (None, s' # _) \<Rightarrow> af_bytes (auth_file_of s' a) = Some login
           \<and> af_bytes (st_live s') = Some login \<and> st_active s' = MarkerFile a
       | _ \<Rightarrow> True)"
proof -
  let ?ok = "\<lambda>s'. af_bytes (auth_file_of s' a) \<in> {af_bytes (auth_file_of s a), Some login}"
  have aa: "validate_alias a = Inr a" using a by (rule validate_alias_idem)
  define tr where "tr = capture_auth_file_profile_tokens e Live (Some a) [s]"
  have files: "safe (holds_files a (files_of s a)) tr"
    unfolding tr_def using wf aa by (rule capture_skips)
  have out: "same_outside s (hd tr)" unfolding tr_def by (rule safe_hd [OF capture_outside])
  have held: "?ok s'" if "s' \<in> set tr" for s'
    using files that by (auto simp: safe_def list_all_iff holds_files_def auth_file_of_def)
  have hd_held: "auth_file_of (hd tr) a = auth_file_of s a"
    using safe_hd [OF files] by (simp add: holds_files_def auth_file_of_def)
  have src: "auth_at (Other q) (hd tr) = auth_at (Other q) s" using out by (rule auth_at_outside)
  have run: "run_profile_op e (SaveAndActivate alias email (Other q)) [s] =
      (if st_app_auth s then (Some AppAuth, [s]) else
       and_then (save_profile_unlocked e a email (Other q) tr) (\<lambda>tr. and_then
         (case profile_dir (hd tr) a of Inl er \<Rightarrow> (Some er, tr) | Inr d \<Rightarrow> install_live e d Live tr)
         (set_active_unlocked e a)))"
    by (simp add: save_profile_and_activate_locked_def a Let_def tr_def)
  show ?thesis
  proof (cases "st_app_auth s")
    case True
    then show ?thesis unfolding run by simp
  next
    case False
    from aa src login show ?thesis
    proof (cases rule: save_states [where e = e and email = email])
      case (stopped er tr')
      then show ?thesis unfolding run using held hd_held by (auto simp: False list_all_iff)
    next
      case (saved s3 s2 s1)
      let ?tr = "s3 # s2 # s1 # tr"
      let ?s4 = "apply_write (PutFile Live login) s3"
      let ?s5 = "apply_write (PutActive a) ?s4"
      have base: "list_all ?ok ?tr" using saved held hd_held by (auto simp: list_all_iff)
      have inst: "install_live e a Live ?tr = do_write e (PutFile Live login) ?tr"
        using saved by (simp add: install_live_def)
      have act: "set_active_unlocked e a = do_write e (PutActive a)"
        by (rule ext) (simp add: set_active_unlocked_def aa)
      have same: "auth_file_of ?s4 a = auth_file_of s3 a" "auth_file_of ?s5 a = auth_file_of s3 a"
        by (simp_all add: auth_file_of_def)
      have steps: "run_profile_op e (SaveAndActivate alias email (Other q)) [s] =
          and_then (do_write e (PutFile Live login) ?tr) (do_write e (PutActive a))"
        unfolding run using saved by (simp add: False inst act)
      show ?thesis
      proof (cases rule: do_write_cases [of e "PutFile Live login" ?tr])
        case (failed er)
        then show ?thesis unfolding steps using base by simp
      next
        case w4: written
        show ?thesis
          by (cases rule: do_write_cases [of e "PutActive a" "?s4 # ?tr"])
            (use base w4 saved same in \<open>unfold steps, auto simp: put_bytes_def\<close>)
      qed
    qed
  qed
qed

text \<open>the active marker is honest. Wherever a crash stops a switch, the marker is the old
  one, or it names the new alias and the live file is already that profile's; a switch that
  succeeds ends in the second case.\<close>

theorem switch_marker_honest:
  assumes a: "validate_alias alias = Inr a"
  shows "list_all (\<lambda>s'. st_active s' = st_active s
        \<or> st_active s' = MarkerFile a \<and> st_live s' = put_bytes (the (af_bytes (auth_file_of s' a))) (st_live s)
          \<and> \<not> af_bytes (auth_file_of s' a) = None)
      (snd (run_profile_op e (SwitchTo alias Live) [s]))
    \<and> (case run_profile_op e (SwitchTo alias Live) [s] of
         (None, s' # _) \<Rightarrow> st_active s' = MarkerFile a
           \<and> af_bytes (st_live s') = af_bytes (auth_file_of s' a)
       | _ \<Rightarrow> True)"
proof -
  have aa: "validate_alias a = Inr a" using a by (rule validate_alias_idem)
  define tr where "tr = capture_auth_file_profile_tokens e Live None [s]"
  have out: "safe (same_outside s) tr" unfolding tr_def by (rule capture_outside)
  have old: "st_active s' = st_active s" if "s' \<in> set tr" for s'
    using out that by (auto simp: safe_def list_all_iff same_outside_def)
  have hd_live: "st_live (hd tr) = st_live s" using safe_hd [OF out] by (simp add: same_outside_def)
  have act: "set_active_unlocked e a = do_write e (PutActive a)"
    by (rule ext) (simp add: set_active_unlocked_def aa)
  have tr_in: "hd tr \<in> set tr" using out by (auto simp: safe_def)
  show ?thesis
  proof (cases "\<exists>m. get_profile_from e s a = Inr m \<and> \<not> st_app_auth s \<and> \<not> af_moved (auth_file_of s (m_alias m))")
    case False
    then show ?thesis
      by (auto simp: switch_to_auth_json_from_def a Let_def split: sum.split)
  next
    case True
    then obtain m where m: "get_profile_from e s a = Inr m" "\<not> st_app_auth s" "\<not> af_moved (auth_file_of s (m_alias m))"
      by blast
    have ma: "m_alias m = a"
      using m(1) aa by (auto simp: get_profile_from_def split: sum.splits option.splits if_splits)
    have run: "run_profile_op e (SwitchTo alias Live) [s] =
        and_then (install_live e a Live tr) (do_write e (PutActive a))"
      using m by (simp add: switch_to_auth_json_from_def a ma act tr_def)
    show ?thesis
    proof (cases "af_bytes (auth_file_of (hd tr) a)")
      case None
      then show ?thesis unfolding run using old by (simp add: install_live_def list_all_iff)
    next
      case (Some bytes)
      let ?s1 = "apply_write (PutFile Live bytes) (hd tr)"
      let ?s2 = "apply_write (PutActive a) ?s1"
      have s1: "st_active ?s1 = st_active s" using old [OF tr_in] by simp
      have same: "auth_file_of ?s1 a = auth_file_of (hd tr) a" "auth_file_of ?s2 a = auth_file_of (hd tr) a"
        by (simp_all add: auth_file_of_def)
      have run': "run_profile_op e (SwitchTo alias Live) [s] =
          and_then (do_write e (PutFile Live bytes) tr) (do_write e (PutActive a))"
        unfolding run by (simp add: install_live_def Some)
      show ?thesis
      proof (cases rule: do_write_cases [of e "PutFile Live bytes" tr])
        case (failed er)
        then show ?thesis unfolding run' using old by (simp add: list_all_iff)
      next
        case w1: written
        show ?thesis
          by (cases rule: do_write_cases [of e "PutActive a" "?s1 # tr"])
            (use w1 old s1 same Some hd_live in \<open>unfold run', auto simp: list_all_iff put_bytes_def\<close>)
      qed
    qed
  qed
qed

section \<open>The outgoing tokens\<close>

text \<open>Ownership does not depend on the snapshot file.\<close>

lemma snapshot_fields:
  "st_profiles (s\<lparr>st_snapshot := x\<rparr>) = st_profiles s"
  "st_unreadable (s\<lparr>st_snapshot := x\<rparr>) = st_unreadable s"
  by simp_all

lemma checked_child_snapshot: "checked_child (s\<lparr>st_snapshot := x\<rparr>) = checked_child s"
  unfolding checked_child_def case_conflict_def snapshot_fields ..

lemma profile_dir_snapshot: "profile_dir (s\<lparr>st_snapshot := x\<rparr>) = profile_dir s"
  unfolding profile_dir_def checked_child_snapshot ..

lemma reads_snapshot:
  "files_of (s\<lparr>st_snapshot := x\<rparr>) = files_of s"
  "auth_file_of (s\<lparr>st_snapshot := x\<rparr>) = auth_file_of s"
  "read_meta h (s\<lparr>st_snapshot := x\<rparr>) = read_meta h s"
  "dir_exists (s\<lparr>st_snapshot := x\<rparr>) = dir_exists s"
  "stored_aliases (s\<lparr>st_snapshot := x\<rparr>) = stored_aliases s"
  unfolding store_reads stored_aliases_def snapshot_fields by (rule refl)+

lemmas snapshot_1 = profile_dir_snapshot reads_snapshot

lemma holds_snapshot:
  "alias_auth h (s\<lparr>st_snapshot := x\<rparr>) = alias_auth h s"
  "workspace_of_profile h (s\<lparr>st_snapshot := x\<rparr>) = workspace_of_profile h s"
  "get_profile_from h (s\<lparr>st_snapshot := x\<rparr>) = get_profile_from h s"
  "metadata_contradicts h (s\<lparr>st_snapshot := x\<rparr>) = metadata_contradicts h s"
  unfolding alias_auth_def workspace_of_profile_def get_profile_from_def metadata_contradicts_def snapshot_1
  by (rule refl)+

lemmas snapshot_2 = snapshot_1 holds_snapshot

lemma rivals_snapshot:
  "claimless_rival h (s\<lparr>st_snapshot := x\<rparr>) = claimless_rival h s"
  "unreadable_rival h (s\<lparr>st_snapshot := x\<rparr>) = unreadable_rival h s"
  "auth_belongs_to_profile h (s\<lparr>st_snapshot := x\<rparr>) = auth_belongs_to_profile h s"
  "exact_token_candidates h (s\<lparr>st_snapshot := x\<rparr>) = exact_token_candidates h s"
  unfolding claimless_rival_def unreadable_rival_def auth_belongs_to_profile_def exact_token_candidates_def snapshot_2
  by (rule refl)+

lemma profile_auths_snapshot: "profile_auths h (s\<lparr>st_snapshot := x\<rparr>) t as = profile_auths h s t as"
proof (induction as)
  case (Cons b as)
  show ?case unfolding profile_auths.simps snapshot_2 rivals_snapshot Cons ..
qed simp

lemma owner_snapshot:
  "alias_for_auth_json_with_hint h (s\<lparr>st_snapshot := x\<rparr>) t known = alias_for_auth_json_with_hint h s t known"
  unfolding alias_for_auth_json_with_hint_def claimless_match_is_ambiguous_def alias_for_auth_json_from_def
    snapshot_2 rivals_snapshot profile_auths_snapshot ..


lemma attempt_free: "w_ok e w \<Longrightarrow> attempt e w tr = (if writable w (hd tr) then Some (apply_write w (hd tr) # tr) else None)"
  by (simp add: attempt_def)

lemma copy_snapshot_hd:
  assumes "w_ok e (PutAuth b out)" and "files_of (hd tr) b \<noteq> None" and "af_bytes (st_snapshot (hd tr)) = Some out"
  shows "af_bytes (auth_file_of (hd (copy_snapshot e b tr)) b) = Some out"
  using assms
  by (simp add: copy_snapshot_def try_write_def attempt_free dir_room_def auth_file_of_def put_bytes_def)

lemma capture_into_owner_hd:
  assumes ok: "w_ok e (PutAuth b out)" "\<And>m. w_ok e (PutMeta b m)"
    and dir: "profile_dir (hd tr) b = Inr b" and files: "files_of (hd tr) b \<noteq> None"
    and out: "af_bytes (st_snapshot (hd tr)) = Some out"
    and sup: "captured_auth_supersedes_profile e (read_auth_json e (st_snapshot (hd tr))) (read_auth_json e (auth_file_of (hd tr) b))"
  shows "af_bytes (auth_file_of (hd (capture_into_owner e b tr)) b) = Some out"
proof -
  have direct: "af_bytes (auth_file_of (hd (copy_snapshot e b tr)) b) = Some out"
    by (rule copy_snapshot_hd [OF ok(1) files out])
  have after: "\<exists>m. record_workspace e b w tr = (None, apply_write (PutMeta b m) (hd tr) # tr)" for w
    using files by (auto simp: record_workspace_def dir Let_def do_write_def attempt_free [OF ok(2)] dir_room_def)
  have "af_bytes (auth_file_of (hd (case record_workspace e b w tr of (Some _, tr) \<Rightarrow> tr | (None, tr) \<Rightarrow> copy_snapshot e b tr)) b)
      = Some out" for w
  proof -
    obtain m where m: "record_workspace e b w tr = (None, apply_write (PutMeta b m) (hd tr) # tr)"
      using after by blast
    show ?thesis unfolding m using copy_snapshot_hd [OF ok(1), of "apply_write (PutMeta b m) (hd tr) # tr"] out by simp
  qed
  with direct show ?thesis
    using dir sup unfolding capture_into_owner_def Let_def by (simp split: option.split)
qed

lemma capture_saves:
  assumes wf: "store_wf s"
    and ok: "w_ok e (PutSnapshot out)" "w_ok e (PutAuth b out)" "\<And>m. w_ok e (PutMeta b m)"
    and out: "af_bytes (st_live s) = Some out"
    and own: "alias_for_auth_json_with_hint e s
        (read_auth_json e \<lparr>af_bytes = Some out, af_moved = af_moved (st_snapshot s)\<rparr>) (get_active_from s) = Some b"
    and sup: "captured_auth_supersedes_profile e
        (read_auth_json e \<lparr>af_bytes = Some out, af_moved = af_moved (st_snapshot s)\<rparr>) (alias_auth e s b)"
  shows "af_bytes (auth_file_of (hd (capture_auth_file_profile_tokens e Live None [s])) b) = Some out"
proof -
  let ?t = "read_auth_json e \<lparr>af_bytes = Some out, af_moved = af_moved (st_snapshot s)\<rparr>"
  let ?s1 = "apply_write (PutSnapshot out) s"
  have vb: "validate_alias b = Inr b" by (rule owner_named [OF wf own])
  have "owner_proved e s ?t b" using own by (rule owner_is_proved)
  then obtain stored where st: "alias_auth e s b = Some stored"
    by (auto simp: owner_proved_def split: option.splits)
  then obtain d where "profile_dir s b = Inr d" by (auto simp: alias_auth_def split: sum.splits)
  with vb have dir: "profile_dir s b = Inr b" by (auto simp: profile_dir_Inr_iff)
  have files: "files_of s b \<noteq> None"
    using st dir by (auto simp: alias_auth_def auth_file_of_def no_file_def read_auth_json_def split: option.splits if_splits)
  have s1: "?s1 = s\<lparr>st_snapshot := put_bytes out (st_snapshot s)\<rparr>" by simp
  have t1: "read_auth_json e (st_snapshot ?s1) = ?t"
    by (simp add: read_auth_json_def put_bytes_def)
  have resolve: "alias_for_auth_json_with_hint e ?s1 ?t (get_active_from s) = Some b"
    unfolding s1 owner_snapshot by (rule own)
  have sup1: "captured_auth_supersedes_profile e (read_auth_json e (st_snapshot ?s1)) (read_auth_json e (auth_file_of ?s1 b))"
    using sup dir unfolding t1 unfolding s1 reads_snapshot by (simp add: alias_auth_def)
  have "af_bytes (auth_file_of (hd (capture_into_owner e b [?s1, s])) b) = Some out"
    using dir files by (intro capture_into_owner_hd ok(2,3))
      (use sup1 in \<open>auto simp: profile_dir_snapshot put_bytes_def\<close>)
  moreover have "capture_auth_file_profile_tokens e Live None [s] = try_write e DropSnapshot (capture_into_owner e b [?s1, s])"
    using resolve t1 unfolding capture_auth_file_profile_tokens_def capture_from_snapshot_def Let_def
    by (simp add: out attempt_free [OF ok(1)])
  ultimately show ?thesis
    by (simp add: try_write_def attempt_def auth_file_of_def)
qed

text \<open>C24: a switch keeps the tokens it captures. Let the live file belong to a saved profile and
  supersede its copy, and let the writes of the capture succeed: the snapshot of the live file,
  the record of the profile's workspace and the profile's copy. Then every crash point of the
  switch, whichever other write of it fails, still has the outgoing bytes, in the live file or
  already in the profile they belong to. A capture that cannot write is only warned about, and
  the switch goes on without this guarantee.\<close>

theorem switch_saves_outgoing:
  assumes "store_wf s" and "w_ok e (PutSnapshot out)" and "w_ok e (PutAuth b out)"
    and "\<And>m. w_ok e (PutMeta b m)" and "af_bytes (st_live s) = Some out"
    and "alias_for_auth_json_with_hint e s
        (read_auth_json e \<lparr>af_bytes = Some out, af_moved = af_moved (st_snapshot s)\<rparr>) (get_active_from s) = Some b"
    and "captured_auth_supersedes_profile e
        (read_auth_json e \<lparr>af_bytes = Some out, af_moved = af_moved (st_snapshot s)\<rparr>) (alias_auth e s b)"
  shows "list_all (\<lambda>s'. af_bytes (st_live s') = Some out \<or> af_bytes (auth_file_of s' b) = Some out)
      (snd (run_profile_op e (SwitchTo alias Live) [s]))"
proof -
  define tr where "tr = capture_auth_file_profile_tokens e Live None [s]"
  let ?ok = "\<lambda>s'. af_bytes (st_live s') = Some out \<or> af_bytes (auth_file_of s' b) = Some out"
  have live: "?ok s'" if "s' \<in> set tr" for s'
    using capture_outside [of s e Live None] that assms(5) by (auto simp: tr_def safe_def list_all_iff same_outside_def)
  have saved: "af_bytes (auth_file_of (hd tr) b) = Some out"
    unfolding tr_def by (rule capture_saves [OF assms(1-4) assms(5-7)])
  have tail: "list_all ?ok (snd (do_write e w tr')) \<and> af_bytes (auth_file_of (hd (snd (do_write e w tr'))) b) = Some out"
    if "list_all ?ok tr'" "af_bytes (auth_file_of (hd tr') b) = Some out" "outside_profiles w" for w tr'
    using same_profiles_reads(3) [OF same_profiles_write [OF that(3)]] that
    by (cases rule: do_write_cases [of e w tr']) auto
  have "list_all ?ok tr" using live by (simp add: list_all_iff)
  note start = this saved
  have inst: "list_all ?ok (snd (install_live e d Live tr)) \<and> af_bytes (auth_file_of (hd (snd (install_live e d Live tr))) b) = Some out" for d
    using start tail [OF start] by (auto simp: install_live_def split: option.split)
  have act: "list_all ?ok (snd (and_then (install_live e d Live tr) (set_active_unlocked e a)))" for d a
    using inst [of d] tail by (cases "install_live e d Live tr"; cases "fst (install_live e d Live tr)")
      (auto simp: set_active_unlocked_def split: sum.split)
  have "list_all ?ok [s]" using assms(5) by simp
  with act show ?thesis
    by (auto simp: switch_to_auth_json_from_def Let_def tr_def [symmetric] split: sum.split)
qed


section \<open>Writing over a profile\<close>

text \<open>a profile is written over without asking only by its own account. The guard of
  \<open>login\<close> and \<open>save\<close> is silent exactly when the directory does not resolve or does not
  exist, or the workspaces are the same and the logins are proved the same, or both name
  none and the stored file reads; and it calls the accounts different exactly when a claim
  on each side disagrees.\<close>

theorem overwrite_guard:
  "(case profile_dir s alias of
      Inl _ \<Rightarrow> conflicting_workspace h s alias ws user = None
    | Inr a \<Rightarrow>
        (conflicting_workspace h s alias ws user = None) =
          (if dir_exists s a
           then ws = workspace_of_profile h s alias
             \<and> (same_logins user (logins_of_profile h s alias)
                \<or> logins_empty user \<and> logins_empty (logins_of_profile h s alias)
                  \<and> read_auth_json h (auth_file_of s a) \<noteq> None)
           else True)
        \<and> (case conflicting_workspace h s alias ws user of
             Some (Different _) \<Rightarrow>
               (case (ws, workspace_of_profile h s alias) of (Some x, Some y) \<Rightarrow> \<not> x = y | _ \<Rightarrow> False)
               \<or> differs user (logins_of_profile h s alias)
           | Some (Unprovable _) \<Rightarrow>
               \<not> (case (ws, workspace_of_profile h s alias) of (Some x, Some y) \<Rightarrow> \<not> x = y | _ \<Rightarrow> False)
               \<and> \<not> differs user (logins_of_profile h s alias)
           | None \<Rightarrow> True))"
proof (cases "profile_dir s alias")
  case (Inl er)
  then show ?thesis by (simp add: conflicting_workspace_def)
next
  case (Inr a)
  obtain W L R where gen: "workspace_of_profile h s alias = W" "logins_of_profile h s alias = L"
      "(read_auth_json h (auth_file_of s a) \<noteq> None) = R"
    by blast
  have empty: "\<not> same_logins user L" "\<not> differs user L" if "logins_empty L \<or> logins_empty user"
    using that by (auto simp: logins_empty_def login_defs split: option.splits)
  have excl: "\<not> differs user L" if "same_logins user L"
    using that by (auto simp: login_defs split: option.splits)
  show ?thesis
    unfolding conflicting_workspace_def Inr sum.case Let_def gen
    by (cases "dir_exists s a"; cases ws; cases W) (auto simp: empty excl)
qed

end
