(* ===== verification/ProfileDemo.thy ===== *)
theory ProfileDemo
  imports ProfileSafety
begin

text \<open>
  A small profile store on which the store's promises are exercised: the seats \<open>home\<close> and
  \<open>work\<close> of two logins, with concrete decoders. Metadata is printed field by field, so the
  round trip the promises ask of serde holds.
\<close>

section \<open>A decoder with a round trip\<close>

fun enc_str :: "string \<Rightarrow> string" where
  "enc_str [] = ''.''"
| "enc_str (c # s) = CHR ''x'' # c # enc_str s"

fun dec_str :: "string \<Rightarrow> (string \<times> string) option" where
  "dec_str (a # rest) =
     (if a = CHR ''.'' then Some ([], rest)
      else (case rest of [] \<Rightarrow> None | c # t \<Rightarrow> map_option (\<lambda>(s, r). (c # s, r)) (dec_str t)))"
| "dec_str [] = None"

lemma dec_enc_str [simp]: "dec_str (enc_str s @ t) = Some (s, t)"
  by (induction s) auto

fun enc_opt :: "string option \<Rightarrow> string" where
  "enc_opt None = ''n''"
| "enc_opt (Some s) = CHR ''s'' # enc_str s"

fun dec_opt :: "string \<Rightarrow> (string option \<times> string) option" where
  "dec_opt [] = None"
| "dec_opt (c # t) = (if c = CHR ''n'' then Some (None, t) else map_option (\<lambda>(s, r). (Some s, r)) (dec_str t))"

lemma dec_enc_opt [simp]: "dec_opt (enc_opt v @ t) = Some (v, t)"
  by (cases v) auto

definition demo_print :: "meta \<Rightarrow> string" where
  "demo_print m = enc_str (m_alias m) @ enc_str (m_saved_at m) @ enc_opt (m_label m) @ enc_opt (m_email m)
     @ enc_opt (m_plan m) @ enc_opt (m_account_id m) @ enc_opt (m_user_id m)"

definition demo_meta :: "string \<Rightarrow> meta option" where
  "demo_meta text =
     Option.bind (dec_str text) (\<lambda>(alias, t). Option.bind (dec_str t) (\<lambda>(saved, t).
     Option.bind (dec_opt t) (\<lambda>(label, t). Option.bind (dec_opt t) (\<lambda>(email, t).
     Option.bind (dec_opt t) (\<lambda>(plan, t). Option.bind (dec_opt t) (\<lambda>(account, t).
     Option.bind (dec_opt t) (\<lambda>(user, t).
       Some \<lparr>m_alias = alias, m_label = label, m_email = email, m_plan = plan, m_account_id = account,
             m_user_id = user, m_saved_at = saved\<rparr>)))))))"

lemma demo_roundtrip: "demo_meta (demo_print m) = Some m"
  using dec_enc_opt [of "m_user_id m" "[]"]
  by (simp add: demo_meta_def demo_print_def del: dec_opt.simps)

section \<open>Two seats\<close>

definition demo_claims :: "string \<Rightarrow> int \<Rightarrow> json" where
  "demo_claims sub iat = JObject [(''sub'', JString sub), (''iat'', JInt iat)]"

definition demo_file :: "string \<Rightarrow> string option \<Rightarrow> string \<Rightarrow> codex_auth" where
  "demo_file token account refresh =
     \<lparr>ca_tokens = Some \<lparr>ct_access_token = token, ct_refresh_token = Some refresh, ct_account_id = account,
        ct_chatgpt_account_id = None\<rparr>,
      ca_access_token = None, ca_refresh_token = None, ca_account_id = None, ca_chatgpt_account_id = None\<rparr>"

definition demo_world :: world where
  "demo_world = \<lparr>h_base64 = Some,
     h_json = map_of [(''1'', demo_claims ''ann'' 100), (''2'', demo_claims ''ann'' 200), (''3'', demo_claims ''bob'' 150)],
     h_auth = map_of [(''old'', demo_file ''h.1.s'' (Some ''W'') ''r1''), (''rotated'', demo_file ''h.1.s'' None ''r2''),
                      (''new'', demo_file ''h.2.s'' (Some ''W'') ''r3''), (''work'', demo_file ''h.3.s'' (Some ''V'') ''r4'')],
     h_meta = demo_meta, h_print = demo_print, w_ok = (\<lambda>_. True), w_stamp = ''t''\<rparr>"

definition demo_profile :: "string \<Rightarrow> string \<Rightarrow> entry" where
  "demo_profile alias bytes = Dir \<lparr>pf_auth = \<lparr>af_bytes = Some bytes, af_moved = False\<rparr>,
     pf_meta = Some (demo_print (default_meta\<lparr>m_alias := alias\<rparr>))\<rparr>"

definition demo_store :: "string \<Rightarrow> store" where
  "demo_store live = \<lparr>st_profiles = [(''home'', demo_profile ''home'' ''old''), (''work'', demo_profile ''work'' ''work'')],
     st_unreadable = False, st_live = \<lparr>af_bytes = Some live, af_moved = False\<rparr>,
     st_others = [(''login'', \<lparr>af_bytes = Some ''new'', af_moved = False\<rparr>)], st_snapshot = no_file,
     st_active = MarkerFile ''home'', st_app_auth = False\<rparr>"

lemma demo_meta_ok: "\<forall>m. h_meta demo_world (h_print demo_world m) = Some m"
  by (simp add: demo_world_def demo_roundtrip)

lemma demo_valid [simp]:
  "validate_alias ''home'' = Inr ''home''" "validate_alias ''work'' = Inr ''work''"
  by (rule clean_alias_validate, simp add: decide_alias)+

lemma demo_case [simp]:
  "eq_ignore_ascii_case ''home'' ''work'' = False" "eq_ignore_ascii_case ''work'' ''home'' = False"
  by (simp_all add: eq_ignore_ascii_case_def eval_lower)

lemma demo_wf: "store_wf (demo_store live)"
  by (simp add: store_wf_def demo_store_def demo_profile_def case_distinct_def)

lemma demo_dirs [simp]:
  "profile_dir (demo_store live) ''home'' = Inr ''home''" "profile_dir (demo_store live) ''work'' = Inr ''work''"
  by (simp_all add: profile_dir_Inr_iff case_conflict_None_iff demo_store_def demo_profile_def)

lemma demo_aliases [simp]: "stored_aliases (demo_store live) = Some [''home'', ''work'']"
  by (simp add: stored_aliases_def demo_store_def demo_profile_def)

lemma demo_files [simp]:
  "files_of (demo_store live) ''home'' = Some \<lparr>pf_auth = \<lparr>af_bytes = Some ''old'', af_moved = False\<rparr>,
     pf_meta = Some (demo_print (default_meta\<lparr>m_alias := ''home''\<rparr>))\<rparr>"
  "files_of (demo_store live) ''work'' = Some \<lparr>pf_auth = \<lparr>af_bytes = Some ''work'', af_moved = False\<rparr>,
     pf_meta = Some (demo_print (default_meta\<lparr>m_alias := ''work''\<rparr>))\<rparr>"
  by (simp_all add: files_of_def demo_store_def demo_profile_def)

definition demo_auth :: "string \<Rightarrow> string option \<Rightarrow> string \<Rightarrow> auth_json" where
  "demo_auth token account refresh =
     \<lparr>aj_access_token = token, aj_refresh_token = Some refresh, aj_account_id = account\<rparr>"

lemma demo_claims_of [simp]:
  "decode_jwt_payload demo_world ''h.1.s'' = Some (demo_claims ''ann'' 100)"
  "decode_jwt_payload demo_world ''h.2.s'' = Some (demo_claims ''ann'' 200)"
  "decode_jwt_payload demo_world ''h.3.s'' = Some (demo_claims ''bob'' 150)"
  by (simp_all add: decode_jwt_payload_def demo_world_def)

lemma demo_identity [simp]:
  "token_identity demo_world ''h.1.s'' = Some default_ident"
  "token_identity demo_world ''h.2.s'' = Some default_ident"
  "token_identity demo_world ''h.3.s'' = Some default_ident"
  by (simp_all add: token_identity_def demo_claims_def profile_claim_def auth_claim_def string_claim_def default_ident_def)

lemma demo_logins [simp]:
  "token_logins demo_world ''h.1.s'' = \<lparr>login_uid = None, login_sub = Some ''ann''\<rparr>"
  "token_logins demo_world ''h.2.s'' = \<lparr>login_uid = None, login_sub = Some ''ann''\<rparr>"
  "token_logins demo_world ''h.3.s'' = \<lparr>login_uid = None, login_sub = Some ''bob''\<rparr>"
  by (simp_all add: token_logins_def token_subject_def string_claim_def demo_claims_def default_ident_def)

lemma demo_h_auth [simp]:
  "h_auth demo_world ''old'' = Some (demo_file ''h.1.s'' (Some ''W'') ''r1'')"
  "h_auth demo_world ''rotated'' = Some (demo_file ''h.1.s'' None ''r2'')"
  "h_auth demo_world ''new'' = Some (demo_file ''h.2.s'' (Some ''W'') ''r3'')"
  "h_auth demo_world ''work'' = Some (demo_file ''h.3.s'' (Some ''V'') ''r4'')"
  by (simp_all add: demo_world_def)

lemma demo_read [simp]:
  "read_auth_json demo_world \<lparr>af_bytes = Some ''old'', af_moved = False\<rparr> = Some (demo_auth ''h.1.s'' (Some ''W'') ''r1'')"
  "read_auth_json demo_world \<lparr>af_bytes = Some ''rotated'', af_moved = False\<rparr> = Some (demo_auth ''h.1.s'' None ''r2'')"
  "read_auth_json demo_world \<lparr>af_bytes = Some ''new'', af_moved = False\<rparr> = Some (demo_auth ''h.2.s'' (Some ''W'') ''r3'')"
  "read_auth_json demo_world \<lparr>af_bytes = Some ''work'', af_moved = False\<rparr> = Some (demo_auth ''h.3.s'' (Some ''V'') ''r4'')"
  by (simp_all add: read_auth_json_def auth_of_raw_def demo_auth_def extract_account_id_def default_ident_def demo_file_def)

lemma demo_auths [simp]:
  "alias_auth demo_world (demo_store live) ''home'' = Some (demo_auth ''h.1.s'' (Some ''W'') ''r1'')"
  "alias_auth demo_world (demo_store live) ''work'' = Some (demo_auth ''h.3.s'' (Some ''V'') ''r4'')"
  by (simp_all add: alias_auth_def auth_file_of_def)

lemma demo_workspaces [simp]:
  "workspace_of_profile demo_world (demo_store live) ''home'' = Some ''W''"
  "workspace_of_profile demo_world (demo_store live) ''work'' = Some ''V''"
  by (simp_all add: workspace_of_profile_def identity_account auth_file_of_def demo_auth_def)

lemma demo_owner:
  "alias_for_auth_json_with_hint demo_world (demo_store ''new'') (Some (demo_auth ''h.2.s'' (Some ''W'') ''r3'')) None
     = Some ''home''"
  by (simp add: alias_for_auth_json_with_hint_def exact_token_candidates_def List.map_filter_def demo_auth_def
      alias_for_auth_json_from_def auth_file_of_def seat_candidates_def login_defs)

lemma demo_marker [simp]: "get_active_from (demo_store live) = Some ''home''"
  by (simp add: get_active_from_def demo_store_def)

lemma demo_profile_read [simp]:
  "get_profile_from demo_world (demo_store live) ''home'' = Inr (default_meta\<lparr>m_alias := ''home''\<rparr>)"
  using demo_meta_ok
  by (simp add: get_profile_from_def dir_exists_def read_meta_def)
    (simp add: demo_store_def demo_profile_def bt_has_def demo_world_def)

lemma demo_hinted:
  "alias_for_auth_json_with_hint demo_world (demo_store ''new'') (Some (demo_auth ''h.2.s'' (Some ''W'') ''r3'')) (Some ''home'')
     = Some ''home''"
  by (simp add: alias_for_auth_json_with_hint_def exact_token_candidates_def List.map_filter_def demo_auth_def
      auth_belongs_to_profile_def claimless_match_is_ambiguous_def auth_file_of_def login_defs)

section \<open>The promises at work\<close>

lemma store_stays_well_formed_witness:
  "store_wf (hd (snd (run_profile_op demo_world (DeleteProfile ''work'') [demo_store ''new''])))"
proof (rule store_stays_well_formed [OF demo_wf])
  show "profile_reach demo_world (demo_store ''new'')
      (hd (snd (run_profile_op demo_world (DeleteProfile ''work'') [demo_store ''new''])))"
    using wf_store.safe_run [of "[demo_store ''new'']" demo_world "DeleteProfile ''work''"] demo_wf
    by (intro profile_reach.step [OF profile_reach.here, where op = "DeleteProfile ''work''"] hd_in_set)
      (simp add: safe_def)
qed

lemma owner_is_proved_witness:
  "owner_proved demo_world (demo_store ''new'') (Some (demo_auth ''h.2.s'' (Some ''W'') ''r3'')) ''home''"
  by (rule owner_is_proved [OF demo_owner])

lemma proven_workspace_survives_witness:
  "list_all (\<lambda>s'. workspace_of_profile demo_world s' ''home'' = Some ''W'')
     (snd (run_profile_op demo_world (SwitchTo ''work'' Live) [demo_store ''rotated'']))"
  by (rule proven_workspace_survives [OF demo_meta_ok, where a = "''work''" and loc = Live]) simp_all

lemma captured_token_not_older_witness:
  "list_all (\<lambda>s'. case alias_auth demo_world s' ''home'' of
      None \<Rightarrow> False
    | Some new \<Rightarrow> not_older demo_world (aj_access_token (demo_auth ''h.1.s'' (Some ''W'') ''r1'')) (aj_access_token new))
     (snd (run_profile_op demo_world (SwitchTo ''work'' Live) [demo_store ''new'']))"
  by (rule captured_token_not_older [OF demo_meta_ok, where a = "''work''" and loc = Live]) simp_all

lemma new_login_survives_witness:
  "list_all (\<lambda>s'. af_bytes (auth_file_of s' ''home'') \<in> {Some ''old'', Some ''new''})
     (snd (run_profile_op demo_world (SaveAndActivate ''home'' None (Other ''login'')) [demo_store ''rotated'']))"
proof -
  have "af_bytes (auth_at (Other ''login'') (demo_store ''rotated'')) = Some ''new''" by (simp add: demo_store_def)
  from new_login_survives [OF demo_wf demo_valid(1) this, of demo_world None]
  show ?thesis by (simp add: auth_file_of_def)
qed

lemma switch_marker_honest_witness:
  "case run_profile_op demo_world (SwitchTo ''work'' Live) [demo_store ''new''] of
     (None, s' # _) \<Rightarrow> st_active s' = MarkerFile ''work'' \<and> af_bytes (st_live s') = af_bytes (auth_file_of s' ''work'')
   | _ \<Rightarrow> True"
  by (rule switch_marker_honest [OF demo_valid(2), THEN conjunct2])

lemma switch_saves_outgoing_witness:
  "list_all (\<lambda>s'. af_bytes (st_live s') = Some ''new'' \<or> af_bytes (auth_file_of s' ''home'') = Some ''new'')
     (snd (run_profile_op demo_world (SwitchTo ''work'' Live) [demo_store ''new'']))"
proof (rule switch_saves_outgoing [OF demo_wf])
  have snap: "st_snapshot (demo_store ''new'') = no_file" by (simp add: demo_store_def)
  show "w_ok demo_world (PutSnapshot ''new'')" "w_ok demo_world (PutAuth ''home'' ''new'')"
    "w_ok demo_world (PutMeta ''home'' m)" for m
    by (simp_all add: demo_world_def)
  show "af_bytes (st_live (demo_store ''new'')) = Some ''new''" by (simp add: demo_store_def)
  show "alias_for_auth_json_with_hint demo_world (demo_store ''new'')
      (read_auth_json demo_world \<lparr>af_bytes = Some ''new'', af_moved = af_moved (st_snapshot (demo_store ''new''))\<rparr>)
      (get_active_from (demo_store ''new'')) = Some ''home''"
    using demo_hinted by (simp add: snap no_file_def)
  show "captured_auth_supersedes_profile demo_world
      (read_auth_json demo_world \<lparr>af_bytes = Some ''new'', af_moved = af_moved (st_snapshot (demo_store ''new''))\<rparr>)
      (alias_auth demo_world (demo_store ''new'') ''home'')"
    by (simp add: snap no_file_def captured_auth_supersedes_profile_def demo_auth_def token_issued_at_def
        demo_claims_def i64_min_def i64_max_def)
qed

end
