(* ===== verification/Vaults.thy ===== *)
theory Vaults
  imports Tokens
begin

text \<open>
  The credential record of an account owner (\<open>src/central/vault.rs\<close>): what it reads from the
  stored \<open>auth\<close> document, which documents it admits, and its encryption at rest. AES-GCM
  is outside \<open>src/\<close>: \<open>seal\<close> and \<open>unseal\<close> are the cipher under a key, a nonce and a text.
\<close>

record vault =
  v_last_rotation_ms :: "nat option"
  v_alias :: string
  v_tenant :: string
  v_user :: string
  v_auth :: json
  v_label :: "string option"
  v_verified :: bool
  v_import_rejected :: bool
  v_revision :: int

section \<open>Reading a credential document\<close>

datatype vault_error =
  MissingAccessToken | MissingAccountId | AccountIdConflict | MissingRefreshToken | MissingLogin

definition credential :: "json \<Rightarrow> string \<Rightarrow> json option" where
  "credential auth field =
     opt_or (Option.bind (json_get ''tokens'' auth) (json_get field)) (json_get field auth)"

definition credentials_changed :: "json \<Rightarrow> json \<Rightarrow> bool" where
  "credentials_changed before later =
     list_ex (\<lambda>field. credential before field \<noteq> credential later field)
       [''access_token'', ''refresh_token'', ''id_token'']"

definition filled :: "string option \<Rightarrow> string option" where
  "filled s = (case s of Some (c # cs) \<Rightarrow> s | _ \<Rightarrow> None)"

definition vault_token :: "json \<Rightarrow> vault_error + string" where
  "vault_token auth =
     (case filled (Option.bind (credential auth ''access_token'') json_str) of
        None \<Rightarrow> Inl MissingAccessToken | Some t \<Rightarrow> Inr t)"

text \<open>The first identifier the document states that is not empty.\<close>

definition stated_account :: "json \<Rightarrow> string option" where
  "stated_account auth =
     find (\<lambda>i. i \<noteq> [])
       (List.map_filter (\<lambda>path. json_str_at path auth)
          [[''tokens'', ''account_id''], [''tokens'', ''chatgpt_account_id''],
           [''account_id''], [''chatgpt_account_id'']])"

definition vault_account :: "'h host_scheme \<Rightarrow> json \<Rightarrow> vault_error + string" where
  "vault_account h auth =
     (case vault_token auth of
        Inl e \<Rightarrow> Inl e
      | Inr t \<Rightarrow>
          (case filled (opt_or (stated_account auth) (extract_account_id h t)) of
             None \<Rightarrow> Inl MissingAccountId
           | Some i \<Rightarrow>
               (case extract_account_id h t of
                  Some claimed \<Rightarrow> if claimed \<noteq> i then Inl AccountIdConflict else Inr i
                | None \<Rightarrow> Inr i)))"

definition validate_auth :: "'h host_scheme \<Rightarrow> json \<Rightarrow> vault_error + unit" where
  "validate_auth h auth =
     (case vault_account h auth of
        Inl e \<Rightarrow> Inl e
      | Inr _ \<Rightarrow>
          if filled (Option.bind (credential auth ''refresh_token'') json_str) = None
          then Inl MissingRefreshToken
          else (case vault_token auth of
                  Inl e \<Rightarrow> Inl e
                | Inr t \<Rightarrow> if logins_empty (token_logins h t) then Inl MissingLogin else Inr ()))"

lemma filled_eq_Some [simp]: "filled s = Some t \<longleftrightarrow> s = Some t \<and> t \<noteq> []"
  by (auto simp: filled_def split: option.splits list.splits)

lemma vault_account_cases:
  assumes "vault_account h auth = Inr i"
  obtains t where "vault_token auth = Inr t" "i \<noteq> []"
    "extract_account_id h t = None \<or> extract_account_id h t = Some i"
  using assms by (auto simp: vault_account_def split: sum.splits option.splits if_splits)

lemma vault_token_nonempty: "vault_token auth = Inr t \<Longrightarrow> t \<noteq> []"
  by (auto simp: vault_token_def split: option.splits)

section \<open>Private files and encryption\<close>

record disk_file =
  df_regular :: bool
  df_mode :: nat
  df_bytes :: "string option"

datatype secret_error =
  NotRegular | TooOpen | Unread | BadKey | SealFailed | Truncated | AuthenticationFailed | BadVault | WriteFailed

text \<open>\<open>None\<close> is a path that does not exist; \<open>df_bytes = None\<close> one that cannot be read.\<close>

definition private_read :: "disk_file option \<Rightarrow> secret_error + string" where
  "private_read f =
     (case f of
        None \<Rightarrow> Inl Unread
      | Some d \<Rightarrow>
          if \<not> df_regular d then Inl NotRegular
          else if df_mode d mod 64 \<noteq> 0 then Inl TooOpen
          else (case df_bytes d of None \<Rightarrow> Inl Unread | Some b \<Rightarrow> Inr b))"

definition vault_key :: "disk_file option \<Rightarrow> secret_error + string" where
  "vault_key f =
     (case private_read f of
        Inl e \<Rightarrow> Inl e | Inr k \<Rightarrow> if length k = 32 then Inr k else Inl BadKey)"

type_synonym aead_seal = "string \<Rightarrow> string \<Rightarrow> string \<Rightarrow> string option"

definition encrypt_bytes ::
    "aead_seal \<Rightarrow> disk_file option \<Rightarrow> string \<Rightarrow> string \<Rightarrow> secret_error + string" where
  "encrypt_bytes seal key nonce plain =
     (case vault_key key of
        Inl e \<Rightarrow> Inl e
      | Inr k \<Rightarrow> (case seal k nonce plain of None \<Rightarrow> Inl SealFailed | Some c \<Rightarrow> Inr (nonce @ c)))"

definition decrypt_with_cipher :: "aead_seal \<Rightarrow> string \<Rightarrow> string \<Rightarrow> secret_error + string" where
  "decrypt_with_cipher unseal k bytes =
     (if length bytes < 28 then Inl Truncated
      else (case unseal k (take 12 bytes) (drop 12 bytes) of
              None \<Rightarrow> Inl AuthenticationFailed | Some p \<Rightarrow> Inr p))"

definition decrypt_bytes :: "aead_seal \<Rightarrow> disk_file option \<Rightarrow> string \<Rightarrow> secret_error + string" where
  "decrypt_bytes unseal key bytes =
     (case vault_key key of Inl e \<Rightarrow> Inl e | Inr k \<Rightarrow> decrypt_with_cipher unseal k bytes)"

text \<open>\<open>save\<close> and \<open>load\<close> of \<open>vault.enc\<close>, whose replacement succeeds as \<open>wr\<close> says; \<open>print\<close> and \<open>parse\<close> are serde on \<open>Vault\<close>.\<close>

definition vault_save ::
    "bool \<Rightarrow> aead_seal \<Rightarrow> (vault \<Rightarrow> string) \<Rightarrow> disk_file option \<Rightarrow> string \<Rightarrow> vault \<Rightarrow> disk_file option
      \<Rightarrow> (secret_error + unit) \<times> disk_file option" where
  "vault_save wr seal print key nonce v disk =
     (case encrypt_bytes seal key nonce (print v) of
        Inl e \<Rightarrow> (Inl e, disk)
      | Inr bytes \<Rightarrow>
          if wr then (Inr (), Some \<lparr>df_regular = True, df_mode = 384, df_bytes = Some bytes\<rparr>)
          else (Inl WriteFailed, disk))"

definition vault_load ::
    "aead_seal \<Rightarrow> (string \<Rightarrow> vault option) \<Rightarrow> disk_file option \<Rightarrow> disk_file option \<Rightarrow> secret_error + vault" where
  "vault_load unseal parse key disk =
     (case private_read disk of
        Inl e \<Rightarrow> Inl e
      | Inr bytes \<Rightarrow> (case decrypt_bytes unseal key bytes of
            Inl e \<Rightarrow> Inl (if length bytes < 28 then Truncated else e)
          | Inr plain \<Rightarrow> (case parse plain of None \<Rightarrow> Inl BadVault | Some v \<Rightarrow> Inr v)))"

section \<open>The vault file keeps the credential\<close>

text \<open>
  The contract of the cipher: a sealed text carries a 16-byte tag and opens under its key and
  nonce, and only a sealed text opens.
\<close>

definition aead :: "aead_seal \<Rightarrow> aead_seal \<Rightarrow> bool" where
  "aead seal unseal =
     (\<forall>k n p c. (seal k n p = Some c \<longrightarrow> 16 \<le> length c) \<and> (unseal k n c = Some p \<longleftrightarrow> seal k n p = Some c))"

lemma aeadD:
  assumes "aead seal unseal"
  shows "seal k n p = Some c \<Longrightarrow> 16 \<le> length c"
    and "unseal k n c = Some p \<longleftrightarrow> seal k n p = Some c"
  using assms by (auto simp: aead_def)

lemma decrypt_encrypt:
  assumes "aead seal unseal" and "length nonce = 12" and "encrypt_bytes seal key nonce plain = Inr bytes"
  shows "decrypt_bytes unseal key bytes = Inr plain \<and> 28 \<le> length bytes"
proof -
  from assms(3) obtain k c where k: "vault_key key = Inr k" and c: "seal k nonce plain = Some c"
    and b: "bytes = nonce @ c"
    by (auto simp: encrypt_bytes_def split: sum.splits option.splits)
  from c have "unseal k nonce c = Some plain" "16 \<le> length c"
    by (simp_all only: aeadD [OF assms(1)])
  with k b assms(2) show ?thesis
    by (simp add: decrypt_bytes_def decrypt_with_cipher_def)
qed

text \<open>Only a text that was sealed opens: bytes changed in place do not.\<close>

lemma decrypt_only_sealed:
  assumes "aead seal unseal" and "decrypt_bytes unseal key bytes = Inr plain"
  shows "encrypt_bytes seal key (take 12 bytes) plain = Inr bytes"
proof -
  from assms(2) obtain k where k: "vault_key key = Inr k"
    and u: "unseal k (take 12 bytes) (drop 12 bytes) = Some plain"
    by (auto simp: decrypt_bytes_def decrypt_with_cipher_def split: sum.splits option.splits if_splits)
  from u have "seal k (take 12 bytes) plain = Some (drop 12 bytes)"
    by (simp only: aeadD(2) [OF assms(1)])
  with k show ?thesis
    by (simp add: encrypt_bytes_def)
qed

lemma vault_save_read:
  assumes "vault_save wr seal print key nonce v disk = (Inr (), disk')"
  obtains bytes where "encrypt_bytes seal key nonce (print v) = Inr bytes" "private_read disk' = Inr bytes"
  using assms by (auto simp: vault_save_def private_read_def split: sum.splits if_splits)

text \<open>C25: a saved vault loads back to the very record under the same key; and a file that
  loads at all is, byte for byte, an encryption of the record it loads to, so a changed,
  truncated or foreign file is refused.\<close>
theorem vault_file_roundtrip:
  assumes "aead seal unseal" and "parse (print v) = Some v" and "length nonce = 12"
  shows "(\<forall>disk'. vault_save wr seal print key nonce v disk = (Inr (), disk')
           \<longrightarrow> vault_load unseal parse key disk' = Inr v)
    \<and> (\<forall>w. vault_load unseal parse key disk = Inr w
           \<longrightarrow> (\<exists>bytes plain. private_read disk = Inr bytes \<and> parse plain = Some w
                 \<and> encrypt_bytes seal key (take 12 bytes) plain = Inr bytes))"
proof (intro conjI allI impI)
  fix disk' assume "vault_save wr seal print key nonce v disk = (Inr (), disk')"
  then obtain bytes where b: "encrypt_bytes seal key nonce (print v) = Inr bytes"
    and r: "private_read disk' = Inr bytes" by (rule vault_save_read)
  from decrypt_encrypt [OF assms(1,3) b] assms(2) r show "vault_load unseal parse key disk' = Inr v"
    by (simp add: vault_load_def)
next
  fix w assume "vault_load unseal parse key disk = Inr w"
  then obtain bytes plain where "private_read disk = Inr bytes" "parse plain = Some w"
    and d: "decrypt_bytes unseal key bytes = Inr plain"
    by (auto simp: vault_load_def split: sum.splits option.splits)
  with decrypt_only_sealed [OF assms(1) d]
  show "\<exists>bytes plain. private_read disk = Inr bytes \<and> parse plain = Some w
          \<and> encrypt_bytes seal key (take 12 bytes) plain = Inr bytes" by blast
qed

section \<open>A worked example\<close>

text \<open>A cipher with the contract: the tag is cut from the key and the nonce.\<close>

definition demo_seal :: aead_seal where
  "demo_seal k n p = (if length k = 32 \<and> length n = 12 then Some (take 4 k @ n @ p) else None)"

definition demo_unseal :: aead_seal where
  "demo_unseal k n c =
     (if length k = 32 \<and> length n = 12 \<and> 16 \<le> length c \<and> take 16 c = take 4 k @ n then Some (drop 16 c) else None)"

lemma demo_aead: "aead demo_seal demo_unseal"
proof -
  have "16 \<le> length c" if "demo_seal k n p = Some c" for k n p c
    using that by (auto simp: demo_seal_def split: if_splits)
  moreover have "demo_seal k n p = Some c" if "demo_unseal k n c = Some p" for k n p c
  proof -
    from that have "length k = 32" "length n = 12" "take 16 c = take 4 k @ n" "p = drop 16 c"
      by (auto simp: demo_unseal_def split: if_splits)
    then show ?thesis
      using append_take_drop_id [of 16 c] by (simp add: demo_seal_def)
  qed
  moreover have "demo_unseal k n c = Some p" if "demo_seal k n p = Some c" for k n p c
    using that by (auto simp: demo_unseal_def demo_seal_def split: if_splits)
  ultimately show ?thesis
    unfolding aead_def by blast
qed

definition demo_vault :: vault where
  "demo_vault = \<lparr>v_last_rotation_ms = None, v_alias = ''work'', v_tenant = ''t'', v_user = ''u'',
     v_auth = JNull, v_label = None, v_verified = True, v_import_rejected = False, v_revision = 7\<rparr>"

definition demo_key :: "disk_file option" where
  "demo_key = Some \<lparr>df_regular = True, df_mode = 384, df_bytes = Some (replicate 32 CHR ''k'')\<rparr>"

definition demo_print_vault :: "vault \<Rightarrow> string" where "demo_print_vault v = ''vault''"

definition demo_parse_vault :: "string \<Rightarrow> vault option" where
  "demo_parse_vault s = (if s = ''vault'' then Some demo_vault else None)"

definition demo_nonce :: string where "demo_nonce = replicate 12 CHR ''n''"

definition demo_disk :: "disk_file option" where
  "demo_disk = snd (vault_save True demo_seal demo_print_vault demo_key demo_nonce demo_vault None)"

lemma demo_saved:
  "vault_save True demo_seal demo_print_vault demo_key demo_nonce demo_vault None = (Inr (), demo_disk)"
  unfolding demo_disk_def by code_simp

theorem vault_file_roundtrip_witness:
  "vault_load demo_unseal demo_parse_vault demo_key demo_disk = Inr demo_vault
   \<and> (\<exists>bytes plain. private_read demo_disk = Inr bytes \<and> demo_parse_vault plain = Some demo_vault
        \<and> encrypt_bytes demo_seal demo_key (take 12 bytes) plain = Inr bytes)"
proof -
  have "demo_parse_vault (demo_print_vault demo_vault) = Some demo_vault" and "length demo_nonce = 12"
    by (simp_all add: demo_parse_vault_def demo_print_vault_def demo_nonce_def)
  from vault_file_roundtrip [where print = demo_print_vault and v = demo_vault and parse = demo_parse_vault
      and wr = True and key = demo_key and disk = None, OF demo_aead this] demo_saved
    vault_file_roundtrip [where print = demo_print_vault and v = demo_vault and parse = demo_parse_vault
      and key = demo_key and disk = demo_disk, OF demo_aead this]
  show ?thesis by blast
qed

end
