(* ===== verification/Loans.thy ===== *)
theory Loans
  imports Aliases
begin

text \<open>
  The loan rules of \<open>src/central/loans.rs\<close>: the grant record and its audit events, the
  conditions under which a lender's request becomes a grant (\<open>plan_grant\<close>), and how a
  borrower's reference picks a grant (\<open>match_reference\<close>). Storage is in \<open>LoanStore\<close>.
\<close>

section \<open>Grants and audit events\<close>

definition retention_seconds :: int where "retention_seconds = 90 * 24 * 60 * 60"

datatype end_reason = Revoked | Returned | Expired | AccountRemoved

fun end_reason_str :: "end_reason \<Rightarrow> string" where
  "end_reason_str Revoked = ''revoked''"
| "end_reason_str Returned = ''returned''"
| "end_reason_str Expired = ''expired''"
| "end_reason_str AccountRemoved = ''account_removed''"

definition end_reason_parse :: "string \<Rightarrow> end_reason option" where
  "end_reason_parse v =
     find (\<lambda>r. end_reason_str r = v) [Revoked, Returned, Expired, AccountRemoved]"

datatype audit_kind = Granted | TokenIssued | Ended | Paused

fun audit_kind_str :: "audit_kind \<Rightarrow> string" where
  "audit_kind_str Granted = ''granted''"
| "audit_kind_str TokenIssued = ''token_issued''"
| "audit_kind_str Ended = ''ended''"
| "audit_kind_str Paused = ''paused''"

definition audit_kind_parse :: "string \<Rightarrow> audit_kind option" where
  "audit_kind_parse v =
     find (\<lambda>k. audit_kind_str k = v) [Granted, TokenIssued, Ended, Paused]"

lemma end_reason_roundtrip: "end_reason_parse s = Some r \<longleftrightarrow> s = end_reason_str r"
  by (cases r) (auto simp: end_reason_parse_def)

lemma audit_kind_roundtrip: "audit_kind_parse s = Some k \<longleftrightarrow> s = audit_kind_str k"
  by (cases k) (auto simp: audit_kind_parse_def)

record grant =
  g_id :: string
  g_account_id :: string
  g_lender :: string
  g_borrower :: string
  g_lender_email :: string
  g_borrower_email :: string
  g_alias :: string
  g_reference :: string
  g_subject :: subject
  g_created_at :: int
  g_ends_at :: int
  g_ended_at :: "int option"
  g_ended_by :: "string option"
  g_end_reason :: "end_reason option"
  g_deleted_at :: "int option"

definition active :: "int \<Rightarrow> grant \<Rightarrow> bool" where
  "active now g = (g_ended_at g = None \<and> now < g_ends_at g)"

definition involves :: "string \<Rightarrow> grant \<Rightarrow> bool" where
  "involves user g = (g_lender g = user \<or> g_borrower g = user)"

definition end_grant :: "int \<Rightarrow> string option \<Rightarrow> end_reason \<Rightarrow> grant \<Rightarrow> grant" where
  "end_grant at by_user reason g =
     g\<lparr>g_ended_at := Some at, g_ended_by := by_user, g_end_reason := Some reason\<rparr>"

record audit_event =
  a_at :: int
  a_grant_id :: string
  a_kind :: audit_kind
  a_actor :: "string option"
  a_machine :: "string option"
  a_reason :: "string option"
  a_coalesce_key :: "string option"
  a_deleted_at :: "int option"

definition new_event :: "int \<Rightarrow> string \<Rightarrow> audit_kind \<Rightarrow> audit_event" where
  "new_event at grant_id kind =
     \<lparr>a_at = at, a_grant_id = grant_id, a_kind = kind, a_actor = None, a_machine = None,
      a_reason = None, a_coalesce_key = None, a_deleted_at = None\<rparr>"

definition granted_event :: "grant \<Rightarrow> audit_event" where
  "granted_event g =
     (new_event (g_created_at g) (g_id g) Granted)\<lparr>a_actor := Some (g_lender g)\<rparr>"

definition ended_event :: "grant \<Rightarrow> audit_event" where
  "ended_event g =
     (new_event (case g_ended_at g of Some t \<Rightarrow> t | None \<Rightarrow> g_ends_at g) (g_id g) Ended)
       \<lparr>a_actor := g_ended_by g, a_reason := map_option end_reason_str (g_end_reason g)\<rparr>"

definition token_key :: "string \<Rightarrow> string \<Rightarrow> int \<Rightarrow> string" where
  "token_key grant_id machine hour =
     ''token:'' @ grant_id @ '':'' @ machine @ '':'' @ dec_int hour"

definition pause_key :: "string \<Rightarrow> string \<Rightarrow> int \<Rightarrow> string" where
  "pause_key grant_id reason hour =
     ''pause:'' @ grant_id @ '':'' @ reason @ '':'' @ dec_int hour"

definition token_issued_event :: "int \<Rightarrow> string \<Rightarrow> string \<Rightarrow> audit_event" where
  "token_issued_event at grant_id machine =
     (new_event at grant_id TokenIssued)
       \<lparr>a_machine := Some machine, a_coalesce_key := Some (token_key grant_id machine (at div 3600))\<rparr>"

definition paused_event :: "int \<Rightarrow> string \<Rightarrow> string \<Rightarrow> audit_event" where
  "paused_event at grant_id reason =
     (new_event at grant_id Paused)
       \<lparr>a_reason := Some reason, a_coalesce_key := Some (pause_key grant_id reason (at div 3600))\<rparr>"

lemmas event_defs = new_event_def granted_event_def ended_event_def token_issued_event_def
  paused_event_def

subsection \<open>Coalescing keys\<close>

text \<open>
  Identifiers are generated without a colon, so a key names one grant, one machine (or
  reason) and one UTC hour; the two kinds of key never meet.
\<close>

lemma colon_split:
  assumes "CHR '':'' \<notin> set a" and "CHR '':'' \<notin> set b"
  shows "a @ CHR '':'' # x = b @ CHR '':'' # y \<longleftrightarrow> a = b \<and> x = y"
  using assms by (metis option.inject prod.inject split_once_append)

lemma token_key_inject:
  assumes "CHR '':'' \<notin> set g" "CHR '':'' \<notin> set g'" "CHR '':'' \<notin> set m" "CHR '':'' \<notin> set m'"
  shows "token_key g m h = token_key g' m' h' \<longleftrightarrow> g = g' \<and> m = m' \<and> h = h'"
  using assms by (simp add: token_key_def colon_split)

lemma token_key_hour: "token_key g m h = token_key g m h' \<longleftrightarrow> h = h'"
  by (simp add: token_key_def)

lemma token_pause_key: "token_key g m h \<noteq> pause_key g' r h'"
  by (simp add: token_key_def pause_key_def)

section \<open>Granting\<close>

record user =
  user_id :: string
  user_email :: string
  user_enabled :: bool

record grant_request =
  req_lender :: user
  req_borrower :: "user option"
  req_alias :: string
  req_account_id :: string
  req_subject :: subject
  req_weekly_reset :: "int option"
  req_until :: "int option"
  req_now :: int

datatype grant_error = BorrowerNotFound | SelfLoan | BorrowerDisabled | WeeklyResetUnknown
| LoanEndInPast | LoanEndAfterWeeklyReset | LenderNameInvalid

definition plan_grant :: "grant_request \<Rightarrow> string \<Rightarrow> grant_error + grant" where
  "plan_grant r new_id =
     (case req_borrower r of
        None \<Rightarrow> Inl BorrowerNotFound
      | Some borrower \<Rightarrow>
          if user_id borrower = user_id (req_lender r) then Inl SelfLoan
          else if \<not> user_enabled borrower then Inl BorrowerDisabled
          else (case req_weekly_reset r of
              None \<Rightarrow> Inl WeeklyResetUnknown
            | Some reset \<Rightarrow>
                if \<not> req_now r < reset then Inl WeeklyResetUnknown
                else (case (case req_until r of
                          None \<Rightarrow> Inr reset
                        | Some until \<Rightarrow>
                            if until \<le> req_now r then Inl LoanEndInPast
                            else if reset < until then Inl LoanEndAfterWeeklyReset
                            else Inr until) of
                    Inl e \<Rightarrow> Inl e
                  | Inr ends_at \<Rightarrow>
                      (case reference (user_email (req_lender r)) (req_alias r) of
                         Inl _ \<Rightarrow> Inl LenderNameInvalid
                       | Inr ref \<Rightarrow>
                           Inr \<lparr>g_id = new_id, g_account_id = req_account_id r,
                                g_lender = user_id (req_lender r), g_borrower = user_id borrower,
                                g_lender_email = user_email (req_lender r),
                                g_borrower_email = user_email borrower,
                                g_alias = req_alias r, g_reference = ref,
                                g_subject = req_subject r, g_created_at = req_now r,
                                g_ends_at = ends_at, g_ended_at = None, g_ended_by = None,
                                g_end_reason = None, g_deleted_at = None\<rparr>))))"

text \<open>What the lender, the borrower and the clock must satisfy, as the ADR states it.\<close>

definition grant_allowed :: "grant_request \<Rightarrow> bool" where
  "grant_allowed r =
     (\<exists>b w ref. req_borrower r = Some b \<and> req_weekly_reset r = Some w
        \<and> reference (user_email (req_lender r)) (req_alias r) = Inr ref
        \<and> user_id b \<noteq> user_id (req_lender r) \<and> user_enabled b \<and> req_now r < w
        \<and> (case req_until r of None \<Rightarrow> True | Some u \<Rightarrow> req_now r < u \<and> u \<le> w))"

text \<open>A grant no one has ended yet.\<close>

definition fresh :: "grant \<Rightarrow> bool" where
  "fresh g = (g_ended_at g = None \<and> g_ended_by g = None \<and> g_end_reason g = None
     \<and> g_deleted_at g = None)"

lemma plan_grant_Inr:
  assumes "plan_grant r i = Inr g"
  obtains b w where "req_borrower r = Some b" "req_weekly_reset r = Some w"
    "user_id b \<noteq> user_id (req_lender r)" "user_enabled b" "req_now r < w"
    "g_ends_at g = (case req_until r of None \<Rightarrow> w | Some u \<Rightarrow> u)"
    "case req_until r of None \<Rightarrow> True | Some u \<Rightarrow> req_now r < u \<and> u \<le> w"
    "reference (user_email (req_lender r)) (req_alias r) = Inr (g_reference g)"
    "g_id g = i" "g_account_id g = req_account_id r" "g_lender g = user_id (req_lender r)"
    "g_borrower g = user_id b" "g_alias g = req_alias r" "g_subject g = req_subject r"
    "g_created_at g = req_now r" "fresh g"
  using assms unfolding plan_grant_def fresh_def
  by (auto split: option.splits sum.splits if_splits)

lemma plan_grant_allowed: "(\<exists>g. plan_grant r i = Inr g) \<longleftrightarrow> grant_allowed r"
proof
  assume "\<exists>g. plan_grant r i = Inr g"
  then obtain g where "plan_grant r i = Inr g" ..
  then show "grant_allowed r"
    by (rule plan_grant_Inr) (auto simp: grant_allowed_def)
next
  assume "grant_allowed r"
  then show "\<exists>g. plan_grant r i = Inr g"
    by (auto simp: grant_allowed_def plan_grant_def split: option.splits)
qed

section \<open>Resolving a reference\<close>

datatype match_error = AmbiguousLoan

definition matches :: "string \<Rightarrow> string \<Rightarrow> int \<Rightarrow> grant \<Rightarrow> bool" where
  "matches borrower ref now g =
     (g_borrower g = borrower \<and> active now g \<and> eq_ignore_ascii_case (g_reference g) ref)"

definition match_reference ::
    "grant list \<Rightarrow> string \<Rightarrow> string \<Rightarrow> int \<Rightarrow> match_error + grant option" where
  "match_reference grants borrower ref now =
     (case filter (matches borrower ref now) grants of
        [] \<Rightarrow> Inr None
      | [g] \<Rightarrow> Inr (Some g)
      | _ # _ # _ \<Rightarrow> Inl AmbiguousLoan)"

lemma match_reference_Some:
  "match_reference gs b ref now = Inr (Some g) \<longleftrightarrow> filter (matches b ref now) gs = [g]"
  by (auto simp: match_reference_def split: list.splits)

lemma match_reference_None:
  "match_reference gs b ref now = Inr None \<longleftrightarrow> (\<forall>g \<in> set gs. \<not> matches b ref now g)"
  by (auto simp: match_reference_def filter_empty_conv split: list.splits)
    (metis filter_empty_conv neq_Nil_conv)+

lemma match_reference_Inl:
  "match_reference gs b ref now = Inl e \<longleftrightarrow> 2 \<le> length (filter (matches b ref now) gs)"
  by (cases e) (auto simp: match_reference_def split: list.splits)

end
