(* ===== verification/CentralState.thy ===== *)
theory CentralState
  imports BTree Loans
begin

text \<open>
  The durable state of the account server in file mode (\<open>FileState\<close> in
  \<open>src/central/storage.rs\<close>): one encrypted file, read, changed and rewritten under one
  lock. Encryption and JSON are libraries outside \<open>src/\<close>; the model keeps the decoded
  values. A stored account is a credential record, or bytes that do not decode to one
  (a registry payload, or a record the key no longer opens).
\<close>

record credential_record =
  cr_account_id :: string
  cr_user_id :: "string option"
  cr_alias :: string
  cr_workspace :: "string option"
  cr_login :: "string option"
  cr_vault :: string
  cr_revision :: int

datatype sealed = SealedRecord credential_record | SealedBytes string

fun unseal :: "sealed \<Rightarrow> credential_record option" where
  "unseal (SealedRecord r) = Some r"
| "unseal (SealedBytes _) = None"

record file_lease =
  fl_holder_id :: string
  fl_epoch :: int
  fl_expires_at :: nat

record enrollment =
  en_payload :: string
  en_expires_at :: nat
  en_consumed :: bool

record file_state =
  fs_accounts :: "(string, sealed) btree"
  fs_leases :: "(string, file_lease) btree"
  fs_enrollments :: "(string, enrollment) btree"
  fs_loans :: "(string, grant) btree"
  fs_audit :: "audit_event list"

definition empty_file_state :: file_state where
  "empty_file_state =
     \<lparr>fs_accounts = [], fs_leases = [], fs_enrollments = [], fs_loans = [], fs_audit = []\<rparr>"

text \<open>
  \<open>FileStore::with_lock\<close>: the closure runs on the state read under the lock; the state
  is written back only when the closure succeeds.
\<close>

definition with_lock ::
    "(file_state \<Rightarrow> 'e + 'a \<times> file_state) \<Rightarrow> file_state \<Rightarrow> ('e + 'a) \<times> file_state" where
  "with_lock f st = (case f st of Inl e \<Rightarrow> (Inl e, st) | Inr (x, st') \<Rightarrow> (Inr x, st'))"

end
