(* ===== verification/LoanStore.thy ===== *)
theory LoanStore
  imports CentralState
begin

text \<open>
  The loan ledger in file mode (\<open>impl FileStore\<close> in
  \<open>src/central/storage/loans.rs\<close>). Operations that look at the file before they take
  the lock take that earlier reading as the argument \<open>seen\<close>, so every interleaving of
  other writers between the two readings is covered.
\<close>

section \<open>Operations\<close>

definition due :: "string option \<Rightarrow> int \<Rightarrow> grant \<Rightarrow> bool" where
  "due account now g =
     (g_ended_at g = None \<and> g_deleted_at g = None \<and> g_ends_at g \<le> now
      \<and> (case account of None \<Rightarrow> True | Some a \<Rightarrow> g_account_id g = a))"

definition expire_grant :: "string option \<Rightarrow> int \<Rightarrow> grant \<Rightarrow> grant" where
  "expire_grant account now g =
     (if due account now g then end_grant (g_ends_at g) None Expired g else g)"

definition file_expire_loans ::
    "file_state \<Rightarrow> string option \<Rightarrow> int \<Rightarrow> file_state \<Rightarrow> grant list \<times> file_state" where
  "file_expire_loans seen account now st =
     (if \<not> list_ex (due account now) (bt_values (fs_loans seen)) then ([], st)
      else
        let expired = map (expire_grant account now)
                        (filter (due account now) (bt_values (fs_loans st)))
        in (expired,
            st\<lparr>fs_loans := bt_map (expire_grant account now) (fs_loans st),
               fs_audit := fs_audit st @ map ended_event expired\<rparr>))"

definition file_create_loan :: "grant \<Rightarrow> file_state \<Rightarrow> bool \<times> file_state" where
  "file_create_loan g st =
     (if bt_has (fs_loans st) (g_id g)
         \<or> list_ex (\<lambda>h. g_account_id h = g_account_id g \<and> g_ended_at h = None)
             (bt_values (fs_loans st))
      then (False, st)
      else (True, st\<lparr>fs_loans := bt_put (g_id g) g (fs_loans st),
                     fs_audit := fs_audit st @ [granted_event g]\<rparr>))"

definition mirror_replaces :: "grant \<Rightarrow> file_state \<Rightarrow> bool" where
  "mirror_replaces g st =
     (case bt_get (fs_loans st) (g_id g) of
        None \<Rightarrow> True
      | Some e \<Rightarrow> g_ended_at e = None \<and> e \<noteq> g)"

definition mirror_missing :: "audit_event \<Rightarrow> file_state \<Rightarrow> bool" where
  "mirror_missing ev st =
     (\<not> list_ex (\<lambda>e. a_grant_id e = a_grant_id ev \<and> a_kind e = a_kind ev) (fs_audit st))"

definition file_mirror_loan ::
    "file_state \<Rightarrow> grant \<Rightarrow> audit_event \<Rightarrow> file_state \<Rightarrow> file_state" where
  "file_mirror_loan seen g ev st =
     (if \<not> mirror_replaces g seen \<and> \<not> mirror_missing ev seen then st
      else
        let st1 = (if mirror_replaces g st
                   then st\<lparr>fs_loans := bt_put (g_id g) g (fs_loans st)\<rparr> else st)
        in if mirror_missing ev st1 then st1\<lparr>fs_audit := fs_audit st1 @ [ev]\<rparr> else st1)"

definition file_end_loan ::
    "string \<Rightarrow> int \<Rightarrow> string \<Rightarrow> end_reason \<Rightarrow> file_state \<Rightarrow> grant option \<times> file_state" where
  "file_end_loan i at by_user reason st =
     (case bt_get (fs_loans st) i of
        Some g \<Rightarrow>
          if g_ended_at g = None \<and> g_deleted_at g = None then
            let g' = end_grant at (Some by_user) reason g
            in (Some g', st\<lparr>fs_loans := bt_put i g' (fs_loans st),
                            fs_audit := fs_audit st @ [ended_event g']\<rparr>)
          else (None, st)
      | None \<Rightarrow> (None, st))"

definition audit_duplicate :: "audit_event \<Rightarrow> file_state \<Rightarrow> bool" where
  "audit_duplicate ev st =
     (a_coalesce_key ev \<noteq> None
      \<and> list_ex (\<lambda>e. a_coalesce_key e = a_coalesce_key ev) (fs_audit st))"

definition issuable :: "int \<Rightarrow> grant option \<Rightarrow> bool" where
  "issuable at og = (case og of None \<Rightarrow> False | Some g \<Rightarrow> active at g \<and> g_deleted_at g = None)"

definition file_append_audit :: "file_state \<Rightarrow> audit_event \<Rightarrow> file_state \<Rightarrow> file_state" where
  "file_append_audit seen ev st =
     (if audit_duplicate ev seen then st
      else
        let ended = (a_kind ev = TokenIssued
                     \<and> \<not> issuable (a_at ev) (bt_get (fs_loans st) (a_grant_id ev)))
        in if \<not> audit_duplicate ev st \<and> \<not> ended
           then st\<lparr>fs_audit := fs_audit st @ [ev]\<rparr> else st)"

text \<open>\<open>at\<close> is the clock, read under the lock.\<close>

definition file_issue_token ::
    "int \<Rightarrow> string \<Rightarrow> string \<Rightarrow> file_state \<Rightarrow> bool \<times> file_state" where
  "file_issue_token at grant_id machine st =
     (let ev = token_issued_event at grant_id machine;
          act = issuable (a_at ev) (bt_get (fs_loans st) grant_id);
          duplicate = list_ex (\<lambda>e. a_coalesce_key e = a_coalesce_key ev) (fs_audit st)
      in (act, if act \<and> \<not> duplicate then st\<lparr>fs_audit := fs_audit st @ [ev]\<rparr> else st))"

definition file_mirror_audit :: "audit_event \<Rightarrow> file_state \<Rightarrow> file_state" where
  "file_mirror_audit ev st =
     (if a_coalesce_key ev = None
         \<or> \<not> list_ex (\<lambda>e. a_coalesce_key e = a_coalesce_key ev) (fs_audit st)
      then st\<lparr>fs_audit := fs_audit st @ [ev]\<rparr> else st)"

definition retire_due_grant :: "int \<Rightarrow> grant \<Rightarrow> bool" where
  "retire_due_grant cutoff g =
     (g_deleted_at g = None \<and> (case g_ended_at g of None \<Rightarrow> False | Some t \<Rightarrow> t < cutoff))"

definition retire_due_event :: "int \<Rightarrow> audit_event \<Rightarrow> bool" where
  "retire_due_event cutoff e = (a_deleted_at e = None \<and> a_at e < cutoff)"

definition retire_grant :: "int \<Rightarrow> int \<Rightarrow> grant \<Rightarrow> grant" where
  "retire_grant cutoff now g =
     (if retire_due_grant cutoff g then g\<lparr>g_deleted_at := Some now\<rparr> else g)"

definition retire_event :: "int \<Rightarrow> int \<Rightarrow> audit_event \<Rightarrow> audit_event" where
  "retire_event cutoff now e =
     (if retire_due_event cutoff e then e\<lparr>a_deleted_at := Some now\<rparr> else e)"

definition file_retire_loans :: "file_state \<Rightarrow> int \<Rightarrow> int \<Rightarrow> file_state \<Rightarrow> file_state" where
  "file_retire_loans seen cutoff now st =
     (if \<not> (list_ex (retire_due_grant cutoff) (bt_values (fs_loans seen))
            \<or> list_ex (retire_due_event cutoff) (fs_audit seen))
      then st
      else st\<lparr>fs_loans := bt_map (retire_grant cutoff now) (fs_loans st),
              fs_audit := map (retire_event cutoff now) (fs_audit st)\<rparr>)"

subsection \<open>Reads\<close>

definition read_limit :: nat where "read_limit = 10000"

definition file_has_active_loan :: "string \<Rightarrow> int \<Rightarrow> file_state \<Rightarrow> bool" where
  "file_has_active_loan account_id now st =
     list_ex (\<lambda>g. g_account_id g = account_id \<and> active now g \<and> g_deleted_at g = None)
       (bt_values (fs_loans st))"

definition file_has_due_loans :: "int \<Rightarrow> file_state \<Rightarrow> bool" where
  "file_has_due_loans now st = list_ex (due None now) (bt_values (fs_loans st))"

definition file_load_loan :: "string \<Rightarrow> file_state \<Rightarrow> grant option" where
  "file_load_loan i st =
     (case bt_get (fs_loans st) i of
        None \<Rightarrow> None
      | Some g \<Rightarrow> if g_deleted_at g = None then Some g else None)"

definition file_loans_for_user :: "string \<Rightarrow> file_state \<Rightarrow> grant list" where
  "file_loans_for_user u st =
     take read_limit
       (filter (\<lambda>g. involves u g \<and> g_deleted_at g = None) (bt_values (fs_loans st)))"

definition file_active_loans_for_borrower :: "string \<Rightarrow> file_state \<Rightarrow> grant list" where
  "file_active_loans_for_borrower b st =
     filter (\<lambda>g. g_borrower g = b \<and> g_ended_at g = None \<and> g_deleted_at g = None)
       (bt_values (fs_loans st))"

text \<open>Newest first, and within one time stamp the latest append first.\<close>

definition file_loan_audit ::
    "string \<Rightarrow> string option \<Rightarrow> int option \<Rightarrow> nat \<Rightarrow> file_state \<Rightarrow> audit_event list" where
  "file_loan_audit u grant_id before limit st =
     (let visible = map g_id (filter (\<lambda>g. (involves u g \<and> g_deleted_at g = None)
                      \<and> (case grant_id of None \<Rightarrow> True | Some i \<Rightarrow> i = g_id g))
                      (bt_values (fs_loans st)));
          events = filter (\<lambda>e. a_deleted_at e = None \<and> a_grant_id e \<in> set visible
                      \<and> (case before of None \<Rightarrow> True | Some t \<Rightarrow> a_at e < t)) (fs_audit st)
      in take limit (sort_key (\<lambda>e. - a_at e) (rev events)))"

section \<open>The ledger invariant\<close>

text \<open>
  An end is recorded as a whole; an account has at most one unended grant; every grant
  has its grant event, and exactly the ended ones their end event, with the content the
  grant now has; no two audit events share a coalescing key.
\<close>

definition grant_wf :: "grant \<Rightarrow> bool" where
  "grant_wf g = ((g_ended_at g = None) = (g_end_reason g = None)
     \<and> (g_ended_at g = None \<longrightarrow> g_ended_by g = None \<and> g_deleted_at g = None))"

definition one_active :: "(string \<Rightarrow> grant option) \<Rightarrow> bool" where
  "one_active find_grant = (\<forall>i j g h. find_grant i = Some g \<longrightarrow> find_grant j = Some h \<longrightarrow>
     g_account_id g = g_account_id h \<longrightarrow> g_ended_at g = None \<longrightarrow> g_ended_at h = None \<longrightarrow> i = j)"

definition events_of :: "string \<Rightarrow> audit_kind \<Rightarrow> audit_event list \<Rightarrow> audit_event list" where
  "events_of i k es =
     map (\<lambda>e. e\<lparr>a_deleted_at := None\<rparr>) (filter (\<lambda>e. a_grant_id e = i \<and> a_kind e = k) es)"

definition audited :: "grant option \<Rightarrow> string \<Rightarrow> audit_event list \<Rightarrow> bool" where
  "audited og i es =
     (case og of
        None \<Rightarrow> events_of i Granted es = [] \<and> events_of i Ended es = []
      | Some g \<Rightarrow> events_of i Granted es = [granted_event g]
          \<and> events_of i Ended es = (if g_ended_at g = None then [] else [ended_event g]))"

definition coalesced :: "audit_event list \<Rightarrow> bool" where
  "coalesced es = distinct (List.map_filter a_coalesce_key es)"

definition ledger_inv :: "file_state \<Rightarrow> bool" where
  "ledger_inv st =
     (bt_keyed g_id (fs_loans st)
      \<and> (\<forall>i g. bt_get (fs_loans st) i = Some g \<longrightarrow> grant_wf g)
      \<and> one_active (bt_get (fs_loans st))
      \<and> (\<forall>i. audited (bt_get (fs_loans st) i) i (fs_audit st))
      \<and> coalesced (fs_audit st))"

lemma ledger_invD:
  assumes "ledger_inv st"
  shows "bt_keyed g_id (fs_loans st)"
    and "bt_get (fs_loans st) i = Some g \<Longrightarrow> grant_wf g"
    and "one_active (bt_get (fs_loans st))"
    and "audited (bt_get (fs_loans st) i) i (fs_audit st)"
    and "coalesced (fs_audit st)"
  using assms by (simp_all add: ledger_inv_def)

lemma ledger_inv_empty: "ledger_inv empty_file_state"
  by (simp add: ledger_inv_def empty_file_state_def one_active_def audited_def events_of_def
      coalesced_def List.map_filter_def)

subsection \<open>Reading the audit log\<close>

lemma events_of_append [simp]: "events_of i k (es @ fs) = events_of i k es @ events_of i k fs"
  by (simp add: events_of_def)

lemma events_of_Nil [simp]: "events_of i k [] = []"
  by (simp add: events_of_def)

lemma events_of_single:
  "events_of i k [e] = (if a_grant_id e = i \<and> a_kind e = k then [e\<lparr>a_deleted_at := None\<rparr>] else [])"
  by (simp add: events_of_def)

lemma coalesced_append:
  "coalesced (es @ [e]) \<longleftrightarrow> coalesced es
     \<and> (a_coalesce_key e = None \<or> (\<forall>x \<in> set es. a_coalesce_key x \<noteq> a_coalesce_key e))"
  by (force simp: coalesced_def List.map_filter_def split: option.splits)

lemma coalesced_append_plain:
  "(\<And>e. e \<in> set fs \<Longrightarrow> a_coalesce_key e = None) \<Longrightarrow> coalesced (es @ fs) = coalesced es"
  by (simp add: coalesced_def List.map_filter_def)

lemma event_sel [simp]:
  "a_grant_id (granted_event g) = g_id g" "a_kind (granted_event g) = Granted"
  "a_coalesce_key (granted_event g) = None" "a_deleted_at (granted_event g) = None"
  "a_grant_id (ended_event g) = g_id g" "a_kind (ended_event g) = Ended"
  "a_coalesce_key (ended_event g) = None" "a_deleted_at (ended_event g) = None"
  "a_grant_id (token_issued_event t i m) = i" "a_kind (token_issued_event t i m) = TokenIssued"
  "a_at (token_issued_event t i m) = t"
  "a_coalesce_key (token_issued_event t i m) = Some (token_key i m (t div 3600))"
  "a_grant_id (paused_event t i r) = i" "a_kind (paused_event t i r) = Paused"
  "a_at (paused_event t i r) = t"
  "a_coalesce_key (paused_event t i r) = Some (pause_key i r (t div 3600))"
  by (simp_all add: event_defs)

lemma erase_deleted [simp]:
  "(granted_event g)\<lparr>a_deleted_at := None\<rparr> = granted_event g"
  "(ended_event g)\<lparr>a_deleted_at := None\<rparr> = ended_event g"
  by (simp_all add: event_defs)

lemma end_grant_sel [simp]:
  "g_id (end_grant t u r g) = g_id g" "g_account_id (end_grant t u r g) = g_account_id g"
  "g_ended_at (end_grant t u r g) = Some t" "g_end_reason (end_grant t u r g) = Some r"
  "g_ended_by (end_grant t u r g) = u" "g_deleted_at (end_grant t u r g) = g_deleted_at g"
  "g_ends_at (end_grant t u r g) = g_ends_at g" "g_borrower (end_grant t u r g) = g_borrower g"
  "granted_event (end_grant t u r g) = granted_event g"
  by (simp_all add: end_grant_def event_defs)

lemma audited_other:
  "a_grant_id e \<noteq> i \<or> a_kind e \<notin> {Granted, Ended} \<Longrightarrow> audited og i (es @ [e]) = audited og i es"
  by (auto simp: audited_def events_of_single split: option.splits)

subsection \<open>Each operation keeps it\<close>

lemma one_active_end:
  assumes "one_active f" and "\<And>i. f' i = None \<longleftrightarrow> f i = None"
    and "\<And>i g g'. f i = Some g \<Longrightarrow> f' i = Some g' \<Longrightarrow>
      g_account_id g' = g_account_id g \<and> (g_ended_at g' = None \<longrightarrow> g_ended_at g = None)"
  shows "one_active f'"
  unfolding one_active_def
proof (intro allI impI)
  fix i j g h
  assume "f' i = Some g" "f' j = Some h" "g_account_id g = g_account_id h"
    "g_ended_at g = None" "g_ended_at h = None"
  moreover from this obtain g0 h0 where "f i = Some g0" "f j = Some h0"
    using assms(2) by (metis option.distinct(1) option.exhaust)
  ultimately show "i = j"
    using assms(1) assms(3) [of i g0 g] assms(3) [of j h0 h] unfolding one_active_def by metis
qed

lemma one_active_put:
  assumes "one_active f"
    and "\<And>i h. f i = Some h \<Longrightarrow> g_account_id h = g_account_id g \<Longrightarrow> g_ended_at h \<noteq> None"
  shows "one_active (f(k \<mapsto> g))"
  using assms unfolding one_active_def by (auto split: if_splits dest: assms(2) assms(2) [OF _ sym])

lemma create_loan_inv:
  assumes "ledger_inv st" and "fresh g"
  shows "ledger_inv (snd (file_create_loan g st))"
proof (cases "fst (file_create_loan g st)")
  case False
  then show ?thesis using assms by (auto simp: file_create_loan_def)
next
  case True
  then have new: "bt_get (fs_loans st) (g_id g) = None"
    and free: "\<And>i h. bt_get (fs_loans st) i = Some h \<Longrightarrow> g_account_id h = g_account_id g \<Longrightarrow>
      g_ended_at h \<noteq> None"
    using ledger_invD(1) [OF assms(1), THEN bt_keyed_ok]
    by (auto simp: file_create_loan_def bt_has_def list_ex_iff in_bt_values split: if_splits)
  have st': "snd (file_create_loan g st) =
      st\<lparr>fs_loans := bt_put (g_id g) g (fs_loans st), fs_audit := fs_audit st @ [granted_event g]\<rparr>"
    using True by (auto simp: file_create_loan_def split: if_splits)
  have aud: "audited (bt_get (bt_put (g_id g) g (fs_loans st)) i) i (fs_audit st @ [granted_event g])" for i
    using ledger_invD(4) [OF assms(1), of i] new assms(2)
    by (cases "i = g_id g") (auto simp: audited_other, auto simp: audited_def events_of_single fresh_def)
  have wf: "grant_wf g" using assms(2) by (simp add: fresh_def grant_wf_def)
  have "one_active (bt_get (bt_put (g_id g) g (fs_loans st)))"
    using one_active_put [OF ledger_invD(3) [OF assms(1)] free] by simp
  with aud wf ledger_invD(1,2,5) [OF assms(1)] show ?thesis
    by (auto simp: st' ledger_inv_def coalesced_append)
qed

lemma end_loan_inv:
  assumes "ledger_inv st"
  shows "ledger_inv (snd (file_end_loan i at u r st))"
proof (cases "fst (file_end_loan i at u r st)")
  case None
  then show ?thesis
    using assms by (auto simp: file_end_loan_def Let_def split: option.splits if_splits)
next
  case (Some g')
  then obtain g where g: "bt_get (fs_loans st) i = Some g" "g_ended_at g = None"
      "g_deleted_at g = None" "g' = end_grant at (Some u) r g"
    and st': "snd (file_end_loan i at u r st) =
      st\<lparr>fs_loans := bt_put i g' (fs_loans st), fs_audit := fs_audit st @ [ended_event g']\<rparr>"
    by (auto simp: file_end_loan_def Let_def split: option.splits if_splits)
  have gid: "g_id g = i" using bt_keyed_get [OF ledger_invD(1) [OF assms] g(1)] .
  have aud: "audited (bt_get (bt_put i g' (fs_loans st)) j) j (fs_audit st @ [ended_event g'])" for j
    using ledger_invD(4) [OF assms, of j] g gid
    by (cases "j = i") (auto simp: audited_other, auto simp: audited_def events_of_single)
  have "one_active (bt_get (bt_put i g' (fs_loans st)))"
    using g by (intro one_active_end [OF ledger_invD(3) [OF assms]]) (auto split: if_splits)
  moreover have "grant_wf g'" using g by (simp add: grant_wf_def)
  ultimately show ?thesis
    using aud g gid ledger_invD(1,2,5) [OF assms]
    by (auto simp: st' ledger_inv_def coalesced_append)
qed

lemma expire_grant_sel [simp]:
  "g_id (expire_grant a now g) = g_id g"
  "g_account_id (expire_grant a now g) = g_account_id g"
  "g_deleted_at (expire_grant a now g) = g_deleted_at g"
  "granted_event (expire_grant a now g) = granted_event g"
  by (simp_all add: expire_grant_def)

lemma expire_grant_ended:
  "g_ended_at (expire_grant a now g) = (if due a now g then Some (g_ends_at g) else g_ended_at g)"
  by (simp add: expire_grant_def)

lemma expired_events:
  assumes "bt_keyed g_id m"
  shows "events_of i Ended (map (ended_event \<circ> expire_grant a now) (filter (due a now) (bt_values m)))
     = (case bt_get m i of None \<Rightarrow> []
        | Some g \<Rightarrow> if due a now g then [ended_event (expire_grant a now g)] else [])"
proof -
  have "events_of i Ended (map (ended_event \<circ> expire_grant a now) (filter (due a now) (bt_values m)))
      = map (\<lambda>g. ended_event (expire_grant a now g)) (filter (\<lambda>g. g_id g = i \<and> due a now g) (bt_values m))"
    by (simp add: events_of_def filter_map comp_def filter_filter conj_commute)
  then show ?thesis
    by (simp add: bt_values_filter_key [OF assms] split: option.splits)
qed

lemma expire_loans_inv:
  assumes "ledger_inv st"
  shows "ledger_inv (snd (file_expire_loans seen a now st))"
proof (cases "list_ex (due a now) (bt_values (fs_loans seen))")
  case False
  then show ?thesis using assms by (simp add: file_expire_loans_def)
next
  case True
  let ?m = "bt_map (expire_grant a now) (fs_loans st)"
    and ?es = "map (ended_event \<circ> expire_grant a now) (filter (due a now) (bt_values (fs_loans st)))"
  have st': "snd (file_expire_loans seen a now st) =
      st\<lparr>fs_loans := ?m, fs_audit := fs_audit st @ ?es\<rparr>"
    using True by (simp add: file_expire_loans_def Let_def)
  have granted: "events_of i Granted ?es = []" for i
    by (simp add: events_of_def filter_map comp_def)
  have "audited (bt_get ?m i) i (fs_audit st @ ?es)" for i
    using ledger_invD(4) [OF assms, of i] expired_events [OF ledger_invD(1) [OF assms], of i a now]
    by (auto simp: audited_def granted expire_grant_ended split: option.splits)
      (auto simp: due_def expire_grant_def)
  moreover have "one_active (bt_get ?m)"
    by (rule one_active_end [OF ledger_invD(3) [OF assms]])
      (auto simp: expire_grant_ended split: if_splits)
  moreover have "grant_wf (expire_grant a now g)" if "grant_wf g" for g
    using that by (auto simp: grant_wf_def expire_grant_def)
  moreover have "coalesced (fs_audit st @ ?es)"
    using ledger_invD(5) [OF assms] by (subst coalesced_append_plain) auto
  ultimately show ?thesis
    using ledger_invD(1,2) [OF assms] by (auto simp: st' ledger_inv_def)
qed

lemma append_event_inv:
  assumes "ledger_inv st" and "a_kind ev \<notin> {Granted, Ended}"
    and "a_coalesce_key ev = None \<or> \<not> list_ex (\<lambda>e. a_coalesce_key e = a_coalesce_key ev) (fs_audit st)"
  shows "ledger_inv (st\<lparr>fs_audit := fs_audit st @ [ev]\<rparr>)"
  using assms by (auto simp: ledger_inv_def audited_other coalesced_append list_ex_iff)

lemma append_audit_inv:
  "ledger_inv st \<Longrightarrow> a_kind ev \<notin> {Granted, Ended} \<Longrightarrow> ledger_inv (file_append_audit seen ev st)"
  by (simp add: file_append_audit_def audit_duplicate_def append_event_inv)

lemma issue_token_inv: "ledger_inv st \<Longrightarrow> ledger_inv (snd (file_issue_token at i m st))"
  by (simp add: file_issue_token_def Let_def append_event_inv)

lemma mirror_audit_inv:
  "ledger_inv st \<Longrightarrow> a_kind ev \<notin> {Granted, Ended} \<Longrightarrow> ledger_inv (file_mirror_audit ev st)"
  by (auto simp: file_mirror_audit_def intro: append_event_inv)

lemma retire_grant_sel [simp]:
  "g_id (retire_grant c now g) = g_id g" "g_account_id (retire_grant c now g) = g_account_id g"
  "g_ended_at (retire_grant c now g) = g_ended_at g"
  "g_end_reason (retire_grant c now g) = g_end_reason g"
  "g_ended_by (retire_grant c now g) = g_ended_by g"
  "granted_event (retire_grant c now g) = granted_event g"
  "ended_event (retire_grant c now g) = ended_event g"
  by (simp_all add: retire_grant_def event_defs split: option.split)

lemma retire_event_sel [simp]:
  "a_grant_id (retire_event c now e) = a_grant_id e" "a_kind (retire_event c now e) = a_kind e"
  "a_coalesce_key (retire_event c now e) = a_coalesce_key e" "a_at (retire_event c now e) = a_at e"
  "(retire_event c now e)\<lparr>a_deleted_at := d\<rparr> = e\<lparr>a_deleted_at := d\<rparr>"
  by (simp_all add: retire_event_def)

lemma events_of_retire [simp]: "events_of i k (map (retire_event c now) es) = events_of i k es"
  by (simp add: events_of_def filter_map comp_def)

lemma coalesced_retire [simp]: "coalesced (map (retire_event c now) es) = coalesced es"
  by (simp add: coalesced_def List.map_filter_def filter_map comp_def)

lemma retire_loans_inv:
  assumes "ledger_inv st"
  shows "ledger_inv (file_retire_loans seen c now st)"
proof -
  have "audited (map_option (retire_grant c now) og) i (map (retire_event c now) es)
      = audited og i es" for og i es
    by (cases og) (simp_all add: audited_def)
  moreover have "grant_wf (retire_grant c now g)" if "grant_wf g" for g
    using that by (auto simp: grant_wf_def retire_grant_def retire_due_grant_def split: option.splits)
  moreover have "one_active (bt_get (bt_map (retire_grant c now) (fs_loans st)))"
    by (rule one_active_end [OF ledger_invD(3) [OF assms]]) auto
  ultimately show ?thesis
    using assms by (auto simp: file_retire_loans_def ledger_inv_def)
qed

section \<open>Runs of the ledger\<close>

text \<open>
  The requests that reach a file-mode ledger, in any order. \<open>Lend\<close> is the handler's
  \<open>plan_grant\<close> followed by \<open>create_loan\<close>; the earlier readings are arbitrary.
\<close>

datatype ledger_op =
  Lend grant_request string
| EndLoan string int string end_reason
| ExpireLoans file_state "string option" int
| IssueToken int string string
| RecordPause file_state int string string
| RetireLoans file_state int

fun ledger_step :: "file_state \<Rightarrow> ledger_op \<Rightarrow> file_state" where
  "ledger_step st (Lend r i) =
     (case plan_grant r i of Inl _ \<Rightarrow> st | Inr g \<Rightarrow> snd (file_create_loan g st))"
| "ledger_step st (EndLoan i at u r) = snd (file_end_loan i at u r st)"
| "ledger_step st (ExpireLoans seen a now) = snd (file_expire_loans seen a now st)"
| "ledger_step st (IssueToken at i m) = snd (file_issue_token at i m st)"
| "ledger_step st (RecordPause seen at i r) = file_append_audit seen (paused_event at i r) st"
| "ledger_step st (RetireLoans seen now) =
     file_retire_loans seen (sat_sub now retention_seconds) now st"

lemma ledger_step_inv: "ledger_inv st \<Longrightarrow> ledger_inv (ledger_step st op)"
proof (cases op)
  case (Lend r i)
  assume "ledger_inv st"
  then show ?thesis
    by (cases "plan_grant r i") (auto simp: Lend intro: create_loan_inv elim: plan_grant_Inr)
qed (simp_all add: end_loan_inv expire_loans_inv issue_token_inv append_audit_inv retire_loans_inv)

text \<open>
  Once ended, a grant keeps its end; and the token events of an ended grant are those it
  had. This is the preorder a run of the ledger climbs.
\<close>

definition token_count :: "string \<Rightarrow> file_state \<Rightarrow> nat" where
  "token_count i st = length (events_of i TokenIssued (fs_audit st))"

definition same_end :: "grant \<Rightarrow> grant \<Rightarrow> bool" where
  "same_end g h = (g_id h = g_id g \<and> g_ended_at h = g_ended_at g \<and> g_ended_by h = g_ended_by g
     \<and> g_end_reason h = g_end_reason g \<and> (g_deleted_at g \<noteq> None \<longrightarrow> g_deleted_at h = g_deleted_at g))"

definition ledger_le :: "file_state \<Rightarrow> file_state \<Rightarrow> bool" where
  "ledger_le s t = (\<forall>i g. bt_get (fs_loans s) i = Some g \<longrightarrow>
     (\<exists>h. bt_get (fs_loans t) i = Some h \<and> g_id h = g_id g
        \<and> (g_ended_at g \<noteq> None \<longrightarrow> same_end g h \<and> token_count i t = token_count i s)))"

lemma ledger_le_refl: "ledger_le s s"
  by (simp add: ledger_le_def same_end_def)

lemma ledger_le_trans:
  assumes "ledger_le s t" and "ledger_le t u"
  shows "ledger_le s u"
  unfolding ledger_le_def
proof (intro allI impI)
  fix i g
  assume g: "bt_get (fs_loans s) i = Some g"
  with assms(1) obtain h where h: "bt_get (fs_loans t) i = Some h" "g_id h = g_id g"
    "g_ended_at g \<noteq> None \<longrightarrow> same_end g h \<and> token_count i t = token_count i s"
    unfolding ledger_le_def by blast
  with assms(2) obtain k where k: "bt_get (fs_loans u) i = Some k" "g_id k = g_id h"
    "g_ended_at h \<noteq> None \<longrightarrow> same_end h k \<and> token_count i u = token_count i t"
    unfolding ledger_le_def by blast
  with h show "\<exists>k. bt_get (fs_loans u) i = Some k \<and> g_id k = g_id g \<and>
      (g_ended_at g \<noteq> None \<longrightarrow> same_end g k \<and> token_count i u = token_count i s)"
    by (auto simp: same_end_def)
qed

text \<open>One state is above another as soon as each grant and its tokens are.\<close>

lemma ledger_leI:
  assumes "\<And>i g. bt_get (fs_loans s) i = Some g \<Longrightarrow> \<exists>h. bt_get (fs_loans t) i = Some h \<and> g_id h = g_id g
      \<and> (g_ended_at g \<noteq> None \<longrightarrow> same_end g h)"
    and "\<And>i g. bt_get (fs_loans s) i = Some g \<Longrightarrow> g_ended_at g \<noteq> None \<Longrightarrow> token_count i t = token_count i s"
  shows "ledger_le s t"
  using assms unfolding ledger_le_def by metis

lemma token_count_append:
  "token_count i (st\<lparr>fs_loans := m, fs_audit := fs_audit st @ [e]\<rparr>) =
     token_count i st + (if a_grant_id e = i \<and> a_kind e = TokenIssued then 1 else 0)"
  by (simp add: token_count_def events_of_single)

lemma token_count_loans [simp]: "token_count i (st\<lparr>fs_loans := m\<rparr>) = token_count i st"
  by (simp add: token_count_def)

lemma create_loan_le:
  assumes "ledger_inv st"
  shows "ledger_le st (snd (file_create_loan g st))"
proof (cases "fst (file_create_loan g st)")
  case True
  then have "bt_get (fs_loans st) (g_id g) = None"
    and "snd (file_create_loan g st) =
      st\<lparr>fs_loans := bt_put (g_id g) g (fs_loans st), fs_audit := fs_audit st @ [granted_event g]\<rparr>"
    by (auto simp: file_create_loan_def bt_has_def split: if_splits)
  then show ?thesis
    by (auto intro!: ledger_leI simp: token_count_append same_end_def)
next
  case False
  then have "snd (file_create_loan g st) = st"
    by (auto simp: file_create_loan_def split: if_splits)
  then show ?thesis by (simp add: ledger_le_refl)
qed

lemma end_loan_le: "ledger_le st (snd (file_end_loan i at u r st))"
proof (cases "fst (file_end_loan i at u r st)")
  case (Some g')
  then obtain g where "bt_get (fs_loans st) i = Some g" "g_ended_at g = None" "g_id g' = g_id g"
    and "snd (file_end_loan i at u r st) =
      st\<lparr>fs_loans := bt_put i g' (fs_loans st), fs_audit := fs_audit st @ [ended_event g']\<rparr>"
    by (auto simp: file_end_loan_def Let_def split: option.splits if_splits)
  then show ?thesis
    by (auto intro!: ledger_leI simp: token_count_append same_end_def split: if_splits)
next
  case None
  then have "snd (file_end_loan i at u r st) = st"
    by (auto simp: file_end_loan_def Let_def split: option.splits if_splits)
  then show ?thesis by (simp add: ledger_le_refl)
qed

lemma expire_loans_le: "ledger_le st (snd (file_expire_loans seen a now st))"
proof -
  have "token_count i (snd (file_expire_loans seen a now st)) = token_count i st" for i
    by (simp add: file_expire_loans_def Let_def token_count_def events_of_def filter_map comp_def)
  then show ?thesis
    by (intro ledger_leI) (auto simp: file_expire_loans_def Let_def expire_grant_def due_def same_end_def)
qed

lemma append_other_le:
  assumes "a_kind e = TokenIssued \<Longrightarrow> issuable t (bt_get (fs_loans st) (a_grant_id e))"
  shows "ledger_le st (st\<lparr>fs_audit := fs_audit st @ [e]\<rparr>)"
  using assms
  by (intro ledger_leI)
    (auto simp: token_count_def events_of_single same_end_def issuable_def active_def)

lemma issue_token_le: "ledger_le st (snd (file_issue_token at i m st))"
  by (auto simp: file_issue_token_def Let_def ledger_le_refl intro: append_other_le)

lemma append_audit_le: "a_kind ev = Paused \<Longrightarrow> ledger_le st (file_append_audit seen ev st)"
  by (auto simp: file_append_audit_def ledger_le_refl intro: append_other_le)

lemma retire_loans_le: "ledger_le st (file_retire_loans seen c now st)"
  by (intro ledger_leI)
    (auto simp: file_retire_loans_def token_count_def same_end_def retire_grant_def retire_due_grant_def)

lemma ledger_step_le: "ledger_inv st \<Longrightarrow> ledger_le st (ledger_step st op)"
proof (cases op)
  case (Lend r i)
  assume "ledger_inv st"
  then show ?thesis
    by (cases "plan_grant r i") (simp_all add: Lend ledger_le_refl create_loan_le)
qed (simp_all add: end_loan_le expire_loans_le issue_token_le append_audit_le retire_loans_le
    event_defs)

interpretation ledger: monotone_system ledger_step ledger_inv ledger_le
  by unfold_locales
    (auto intro: ledger_step_inv ledger_step_le ledger_le_refl ledger_le_trans)

lemmas ledger_ops = file_create_loan_def file_end_loan_def file_expire_loans_def
  file_issue_token_def file_append_audit_def file_retire_loans_def

section \<open>Properties\<close>

definition ada :: user where
  "ada = \<lparr>user_id = ''u1'', user_email = ''Ada@x.io'', user_enabled = True\<rparr>"
definition bob :: user where
  "bob = \<lparr>user_id = ''u2'', user_email = ''bob@x.io'', user_enabled = True\<rparr>"

definition ada_lends :: grant_request where
  "ada_lends =
     \<lparr>req_lender = ada, req_borrower = Some bob, req_alias = ''Work'', req_account_id = ''acct'',
      req_subject = \<lparr>subj_workspace = ''w'', subj_claims = \<lparr>login_uid = Some ''l'', login_sub = None\<rparr>\<rparr>,
      req_weekly_reset = Some 9000, req_until = None, req_now = 1000\<rparr>"

definition ledger_after :: "ledger_op list \<Rightarrow> file_state" where
  "ledger_after ops = foldl ledger_step empty_file_state ops"

lemma ledger_after_inv: "ledger_inv (ledger_after ops)"
  unfolding ledger_after_def by (rule ledger.run_inv [OF ledger_inv_empty])

text \<open>C1: whatever requests reach a file-mode ledger, in any order and with any stale
  pre-lock readings, at most one grant of an account is unended, each grant has exactly its
  grant event and (when ended) its one end event with the grant's own data, an end is
  recorded as a whole, and no two audit events share a coalescing key.\<close>

theorem ledger_consistent: "ledger_inv (foldl ledger_step empty_file_state ops)"
  by (rule ledger.run_inv [OF ledger_inv_empty])

text \<open>C34: an end is final. Once a grant of a reachable ledger has ended, every later state
  keeps the same end time, actor and reason, no further token event is written for it, and
  a token request for it is refused at every clock reading.\<close>

theorem ended_grant_final:
  assumes "bt_get (fs_loans (ledger_after ops)) i = Some g" and "g_ended_at g \<noteq> None"
  shows "\<exists>h. bt_get (fs_loans (ledger_after (ops @ later))) i = Some h \<and> same_end g h
     \<and> token_count i (ledger_after (ops @ later)) = token_count i (ledger_after ops)
     \<and> \<not> fst (file_issue_token at i machine (ledger_after (ops @ later)))"
proof -
  have "ledger_le (ledger_after ops) (ledger_after (ops @ later))"
    unfolding ledger_after_def by (rule ledger.run_le_later [OF ledger_inv_empty])
  with assms obtain h where "bt_get (fs_loans (ledger_after (ops @ later))) i = Some h"
    "same_end g h" "token_count i (ledger_after (ops @ later)) = token_count i (ledger_after ops)"
    unfolding ledger_le_def by blast
  with assms(2) show ?thesis
    by (auto simp: file_issue_token_def Let_def issuable_def active_def same_end_def)
qed

definition ended_run :: "ledger_op list" where
  "ended_run = [Lend ada_lends ''g1'', IssueToken 1500 ''g1'' ''m'', EndLoan ''g1'' 2000 ''u2'' Returned]"

lemma ada_reference: "reference ''Ada@x.io'' ''Work'' = Inr ''ada/work''"
  by (subst reference_clean) (simp_all add: decide_alias eval_lower)

lemma ended_run_state:
  "\<exists>g. bt_get (fs_loans (ledger_after ended_run)) ''g1'' = Some g \<and> g_ended_at g = Some 2000"
  by (simp add: ledger_after_def ended_run_def ledger_ops empty_file_state_def plan_grant_def
      ada_lends_def ada_def bob_def ada_reference bt_has_def bt_values_def issuable_def active_def Let_def)

theorem ended_grant_final_witness:
  "\<exists>g h. bt_get (fs_loans (ledger_after ended_run)) ''g1'' = Some g \<and> g_ended_at g = Some 2000
     \<and> bt_get (fs_loans (ledger_after (ended_run @ [IssueToken 2100 ''g1'' ''m'']))) ''g1'' = Some h
     \<and> same_end g h"
  using ended_run_state ended_grant_final [of ended_run "''g1''" _ "[IssueToken 2100 ''g1'' ''m'']"]
  by force

end
