(* ===== verification/LoanBackends.thy ===== *)
theory LoanBackends
  imports LoanStore
begin

text \<open>
  The loan ledger behind one interface: the PostgreSQL statements of
  \<open>src/central/storage/loans.rs\<close> as operations on the two tables, the dispatch of
  \<open>CentralStore\<close> over file, PostgreSQL and dual mode, and the contract \<open>loan_ledger\<close>
  that file mode and PostgreSQL mode both meet. A statement is atomic, as PostgreSQL runs
  it; the order of unordered rows is the list order, and rows another transaction holds
  (\<open>SKIP LOCKED\<close>) are the argument \<open>locked\<close>. A deleted row stays, with its mark.
\<close>

section \<open>The contract\<close>

locale loan_ledger =
  fixes find_grant :: "'s \<Rightarrow> string \<Rightarrow> grant option"
    and create :: "grant \<Rightarrow> 's \<Rightarrow> bool \<times> 's"
    and finish :: "string \<Rightarrow> int \<Rightarrow> string \<Rightarrow> end_reason \<Rightarrow> 's \<Rightarrow> grant option \<times> 's"
    and issue :: "int \<Rightarrow> string \<Rightarrow> string \<Rightarrow> 's \<Rightarrow> bool \<times> 's"
    and good :: "'s \<Rightarrow> bool"
  assumes create_good: "good s \<Longrightarrow> fresh g \<Longrightarrow> good (snd (create g s))"
    and create_find: "good s \<Longrightarrow> fresh g \<Longrightarrow> create g s = (done, s') \<Longrightarrow>
      find_grant s' = (if done then (find_grant s)(g_id g \<mapsto> g) else find_grant s)"
    and create_free: "good s \<Longrightarrow> fst (create g s) \<Longrightarrow> find_grant s i = Some h \<Longrightarrow>
      g_account_id h = g_account_id g \<Longrightarrow> g_ended_at h \<noteq> None"
    and finish_good: "good s \<Longrightarrow> good (snd (finish i t u r s))"
    and finish_Some: "good s \<Longrightarrow> finish i t u r s = (Some g', s') \<Longrightarrow>
      \<exists>g. find_grant s i = Some g \<and> g_ended_at g = None \<and> g' = end_grant t (Some u) r g
        \<and> find_grant s' = (find_grant s)(i \<mapsto> g')"
    and finish_None: "good s \<Longrightarrow> finish i t u r s = (None, s') \<Longrightarrow>
      find_grant s' = find_grant s
        \<and> (\<forall>g. find_grant s i = Some g \<longrightarrow> g_ended_at g \<noteq> None \<or> g_deleted_at g \<noteq> None)"
    and issue_good: "good s \<Longrightarrow> good (snd (issue t i m s))"
    and issue_find: "good s \<Longrightarrow> find_grant (snd (issue t i m s)) = find_grant s"
    and issue_iff: "good s \<Longrightarrow> fst (issue t i m s) \<longleftrightarrow> issuable t (find_grant s i)"
begin

lemma no_token_after_end:
  assumes "good s" and "finish i t u r s = (Some g', s')"
  shows "\<not> fst (issue t' i m s')"
  using finish_Some [OF assms] finish_good [OF assms(1), of i t u r] assms(2)
  by (auto simp: issue_iff issuable_def active_def)

lemma ends_once:
  assumes "good s" and "finish i t u r s = (Some g', s')"
  shows "fst (finish i t' u' r' s') = None"
proof (cases "finish i t' u' r' s'")
  case (Pair res s'')
  have "good s'" using finish_good [OF assms(1), of i t u r] assms(2) by simp
  moreover have "find_grant s' i = Some g'" and "g_ended_at g' \<noteq> None"
    using finish_Some [OF assms] by auto
  ultimately show ?thesis
    using finish_Some [of s' i t' u' r' _ s''] Pair by (cases res) auto
qed

lemma second_lend_refused:
  assumes "good s" "fresh g" "fresh h" and "create g s = (True, s')"
    and "g_account_id h = g_account_id g"
  shows "\<not> fst (create h s')"
proof
  assume "fst (create h s')"
  moreover have "good s'" using create_good [OF assms(1,2)] assms(4) by simp
  moreover have "find_grant s' (g_id g) = Some g"
    using create_find [OF assms(1,2,4)] by simp
  ultimately have "g_ended_at g \<noteq> None"
    using create_free [of s' h "g_id g" g] assms(5) by simp
  with assms(2) show False by (simp add: fresh_def)
qed

lemma lent_then_issued:
  assumes "good s" "fresh g" and "create g s = (True, s')"
  shows "fst (issue t (g_id g) m s') \<longleftrightarrow> t < g_ends_at g"
  using create_good [OF assms(1,2)] create_find [OF assms] assms(2,3)
  by (simp add: issue_iff issuable_def active_def fresh_def)

end

section \<open>File mode meets the contract\<close>

definition file_find :: "file_state \<Rightarrow> string \<Rightarrow> grant option" where
  "file_find st i = bt_get (fs_loans st) i"

lemma file_create_free:
  assumes "ledger_inv st" and "fst (file_create_loan g st)"
    and "file_find st i = Some h" and "g_account_id h = g_account_id g"
  shows "g_ended_at h \<noteq> None"
  using assms ledger_invD(1) [OF assms(1), THEN bt_keyed_ok]
  by (auto simp: file_create_loan_def file_find_def list_ex_iff in_bt_values split: if_splits)

interpretation file_ledger: loan_ledger file_find file_create_loan file_end_loan
    file_issue_token ledger_inv
proof (unfold_locales, goal_cases)
  case (1 s g)
  then show ?case by (rule create_loan_inv)
next
  case (2 s g d s')
  then show ?case
    by (auto simp: file_create_loan_def file_find_def fun_eq_iff split: if_splits)
next
  case (3 s g i h)
  then show ?case by (rule file_create_free)
next
  case (4 s i t u r)
  then show ?case by (rule end_loan_inv)
next
  case (5 s i t u r g' s')
  then show ?case
    by (auto simp: file_end_loan_def file_find_def fun_eq_iff Let_def split: option.splits if_splits)
next
  case (6 s i t u r s')
  then show ?case
    by (auto simp: file_end_loan_def file_find_def fun_eq_iff Let_def split: option.splits if_splits)
next
  case (7 s t i m)
  then show ?case by (rule issue_token_inv)
next
  case (8 s t i m)
  show ?case by (simp add: file_issue_token_def file_find_def Let_def fun_eq_iff)
next
  case (9 s t i m)
  show ?case by (simp add: file_issue_token_def file_find_def Let_def)
qed

section \<open>The PostgreSQL tables\<close>

record pg_ledger =
  pl_loans :: "grant list"
  pl_audit :: "audit_event list"
  pl_accounts :: "string list"

text \<open>\<open>INSERT .. ON CONFLICT DO NOTHING\<close> into the audit table: the coalescing key is unique.\<close>

definition pg_insert_audit :: "audit_event \<Rightarrow> audit_event list \<Rightarrow> audit_event list" where
  "pg_insert_audit ev es =
     (if a_coalesce_key ev \<noteq> None \<and> list_ex (\<lambda>e. a_coalesce_key e = a_coalesce_key ev) es
      then es else es @ [ev])"

definition pg_find :: "pg_ledger \<Rightarrow> string \<Rightarrow> grant option" where
  "pg_find db i = find (\<lambda>g. g_id g = i) (pl_loans db)"

definition pg_expire_loans ::
    "string list \<Rightarrow> string option \<Rightarrow> int \<Rightarrow> pg_ledger \<Rightarrow> grant list \<times> pg_ledger" where
  "pg_expire_loans locked account now db =
     (let rows = take 1000 (filter (\<lambda>g. due account now g \<and> g_id g \<notin> set locked) (pl_loans db));
          ids = map g_id rows;
          finish = (\<lambda>g. end_grant (g_ends_at g) None Expired g);
          ended = map finish rows
      in (ended,
          db\<lparr>pl_loans := map (\<lambda>g. if g_id g \<in> set ids \<and> g_ended_at g = None then finish g else g)
                            (pl_loans db),
             pl_audit := pl_audit db @ map ended_event ended\<rparr>))"

text \<open>The statement inserts NULL in the four end columns whatever the grant holds.\<close>

definition pg_create_loan :: "grant \<Rightarrow> pg_ledger \<Rightarrow> bool \<times> pg_ledger" where
  "pg_create_loan g db =
     (if g_account_id g \<notin> set (pl_accounts db) then (False, db)
      else if list_ex (\<lambda>h. g_id h = g_id g
                \<or> g_account_id h = g_account_id g \<and> g_ended_at h = None) (pl_loans db)
      then (False, db)
      else (True, db\<lparr>pl_loans := pl_loans db @
                       [g\<lparr>g_ended_at := None, g_ended_by := None, g_end_reason := None,
                          g_deleted_at := None\<rparr>],
                     pl_audit := pl_audit db @ [granted_event g]\<rparr>))"

definition pg_load_loan :: "string \<Rightarrow> pg_ledger \<Rightarrow> grant option" where
  "pg_load_loan i db =
     (case pg_find db i of
        None \<Rightarrow> None
      | Some g \<Rightarrow> if g_deleted_at g = None then Some g else None)"

text \<open>\<open>store_end\<close>: persist an ended grant unless the row ended meanwhile.\<close>

definition pg_store_end :: "grant \<Rightarrow> pg_ledger \<Rightarrow> bool \<times> pg_ledger" where
  "pg_store_end g db =
     (let hit = (\<lambda>h. g_id h = g_id g \<and> g_ended_at h = None \<and> g_deleted_at h = None) in
      if list_ex hit (pl_loans db) then
        (True, db\<lparr>pl_loans := map (\<lambda>h. if hit h
                    then h\<lparr>g_ended_at := g_ended_at g, g_ended_by := g_ended_by g,
                           g_end_reason := g_end_reason g\<rparr> else h) (pl_loans db),
                  pl_audit := pl_audit db @ [ended_event g]\<rparr>)
      else (False, db))"

text \<open>\<open>seen\<close> is the table when the grant was loaded, before the update statement.\<close>

definition pg_end_loan ::
    "pg_ledger \<Rightarrow> string \<Rightarrow> int \<Rightarrow> string \<Rightarrow> end_reason \<Rightarrow> pg_ledger \<Rightarrow> grant option \<times> pg_ledger" where
  "pg_end_loan seen i at by_user reason db =
     (case pg_load_loan i seen of
        None \<Rightarrow> (None, db)
      | Some g \<Rightarrow>
          if g_ended_at g \<noteq> None then (None, db)
          else
            let g' = end_grant at (Some by_user) reason g; (stored, db') = pg_store_end g' db
            in (if stored then Some g' else None, db'))"

text \<open>SQL's integer division truncates towards zero.\<close>

definition sql_hour :: "int \<Rightarrow> int" where
  "sql_hour at = (if at < 0 then - ((- at) div 3600) else at div 3600)"

text \<open>The statement reads the clock for the row test and again for the event.\<close>

definition pg_issue_token ::
    "int \<Rightarrow> int \<Rightarrow> string \<Rightarrow> string \<Rightarrow> pg_ledger \<Rightarrow> int option \<times> pg_ledger" where
  "pg_issue_token test_at at grant_id machine db =
     (case pg_find db grant_id of
        Some g \<Rightarrow>
          if g_ended_at g = None \<and> g_deleted_at g = None \<and> test_at < g_ends_at g then
            (Some at, db\<lparr>pl_audit := pg_insert_audit
               ((token_issued_event at grant_id machine)
                  \<lparr>a_coalesce_key := Some (token_key grant_id machine (sql_hour at))\<rparr>)
               (pl_audit db)\<rparr>)
          else (None, db)
      | None \<Rightarrow> (None, db))"

text \<open>
  The flag is false when the statement fails: an inserted row must reference a grant
  (the foreign key), while a row that conflicts is not inserted at all.
\<close>

definition pg_append_audit :: "audit_event \<Rightarrow> pg_ledger \<Rightarrow> bool \<times> pg_ledger" where
  "pg_append_audit ev db =
     (if a_kind ev = TokenIssued \<and> \<not> issuable (a_at ev) (pg_find db (a_grant_id ev)) then (True, db)
      else
        let es = pg_insert_audit (ev\<lparr>a_deleted_at := None\<rparr>) (pl_audit db)
        in if es \<noteq> pl_audit db \<and> pg_find db (a_grant_id ev) = None then (False, db)
           else (True, db\<lparr>pl_audit := es\<rparr>))"

definition pg_retire_loans :: "int \<Rightarrow> int \<Rightarrow> pg_ledger \<Rightarrow> pg_ledger" where
  "pg_retire_loans cutoff now db =
     db\<lparr>pl_loans := map (retire_grant cutoff now) (pl_loans db),
        pl_audit := map (retire_event cutoff now) (pl_audit db)\<rparr>"

definition pg_has_active_loan :: "string \<Rightarrow> int \<Rightarrow> pg_ledger \<Rightarrow> bool" where
  "pg_has_active_loan account_id now db =
     list_ex (\<lambda>g. g_account_id g = account_id \<and> g_ended_at g = None \<and> g_deleted_at g = None
                 \<and> now < g_ends_at g) (pl_loans db)"

definition pg_has_due_loans :: "int \<Rightarrow> pg_ledger \<Rightarrow> bool" where
  "pg_has_due_loans now db =
     list_ex (\<lambda>g. g_ended_at g = None \<and> g_deleted_at g = None \<and> g_ends_at g \<le> now) (pl_loans db)"

definition pg_loans_for_user :: "string \<Rightarrow> pg_ledger \<Rightarrow> grant list" where
  "pg_loans_for_user u db =
     take 10000 (sort_key g_id (filter (\<lambda>g. involves u g \<and> g_deleted_at g = None) (pl_loans db)))"

definition pg_active_loans_for_borrower :: "string \<Rightarrow> pg_ledger \<Rightarrow> grant list" where
  "pg_active_loans_for_borrower b db =
     filter (\<lambda>g. g_borrower g = b \<and> g_ended_at g = None \<and> g_deleted_at g = None) (pl_loans db)"

text \<open>The serial \<open>id\<close> of the audit table is the position in the list.\<close>

definition pg_loan_audit ::
    "string \<Rightarrow> string option \<Rightarrow> int option \<Rightarrow> nat \<Rightarrow> pg_ledger \<Rightarrow> audit_event list" where
  "pg_loan_audit u grant_id before limit db =
     take limit (sort_key (\<lambda>e. - a_at e) (rev (filter
       (\<lambda>e. (case pg_find db (a_grant_id e) of
               None \<Rightarrow> False
             | Some g \<Rightarrow> involves u g \<and> g_deleted_at g = None)
          \<and> a_deleted_at e = None
          \<and> (case grant_id of None \<Rightarrow> True | Some i \<Rightarrow> a_grant_id e = i)
          \<and> (case before of None \<Rightarrow> True | Some t \<Rightarrow> a_at e < t)) (pl_audit db))))"

subsection \<open>The tables keep the ledger's invariant\<close>

definition pg_inv :: "pg_ledger \<Rightarrow> bool" where
  "pg_inv db = (distinct (map g_id (pl_loans db))
     \<and> (\<forall>i g. pg_find db i = Some g \<longrightarrow> grant_wf g)
     \<and> one_active (pg_find db)
     \<and> (\<forall>i. audited (pg_find db i) i (pl_audit db))
     \<and> coalesced (pl_audit db))"

lemma pg_invD:
  assumes "pg_inv db"
  shows "distinct (map g_id (pl_loans db))" and "pg_find db i = Some g \<Longrightarrow> grant_wf g"
    and "one_active (pg_find db)" and "audited (pg_find db i) i (pl_audit db)"
    and "coalesced (pl_audit db)"
  using assms by (simp_all add: pg_inv_def)

lemma pg_find_id: "pg_find db i = Some g \<Longrightarrow> g_id g = i"
  by (auto simp: pg_find_def find_Some_iff)

lemma pg_find_in: "pg_find db i = Some g \<Longrightarrow> g \<in> set (pl_loans db)"
  by (auto simp: pg_find_def find_Some_iff)

lemma find_distinct_key:
  "distinct (map f xs) \<Longrightarrow> x \<in> set xs \<Longrightarrow> find (\<lambda>y. f y = f x) xs = Some x"
  by (induction xs) auto

lemma pg_find_row:
  "distinct (map g_id (pl_loans db)) \<Longrightarrow> g \<in> set (pl_loans db) \<Longrightarrow> pg_find db (g_id g) = Some g"
  by (simp add: pg_find_def find_distinct_key)

lemma find_map_key: "(\<And>x. key (f x) = key x) \<Longrightarrow> find (\<lambda>x. key x = i) (map f xs) = map_option f (find (\<lambda>x. key x = i) xs)"
  by (induction xs) auto

lemma pg_find_audit [simp]: "pg_find (db\<lparr>pl_audit := es\<rparr>) = pg_find db"
  by (simp add: pg_find_def fun_eq_iff)

lemma pg_find_map:
  "(\<And>g. g_id (f g) = g_id g) \<Longrightarrow>
     pg_find (db\<lparr>pl_loans := map f (pl_loans db)\<rparr>) i = map_option f (pg_find db i)"
  by (simp add: pg_find_def find_map_key)

lemma pg_find_insert:
  "pg_find db (g_id g) = None \<Longrightarrow>
     pg_find (db\<lparr>pl_loans := pl_loans db @ [g]\<rparr>) = (pg_find db)(g_id g \<mapsto> g)"
proof
  fix i
  have "find P (xs @ [x]) = (case find P xs of None \<Rightarrow> if P x then Some x else None | Some y \<Rightarrow> Some y)"
    for P and xs :: "grant list" and x
    by (induction xs) auto
  moreover assume "pg_find db (g_id g) = None"
  ultimately show "pg_find (db\<lparr>pl_loans := pl_loans db @ [g]\<rparr>) i
      = ((pg_find db)(g_id g \<mapsto> g)) i"
    by (auto simp: pg_find_def split: option.splits)
qed

lemma pg_insert_audit_other:
  "a_kind ev \<notin> {Granted, Ended} \<Longrightarrow> audited og i (pg_insert_audit ev es) = audited og i es"
  by (simp add: pg_insert_audit_def audited_other)

lemma pg_insert_audit_coalesced: "coalesced es \<Longrightarrow> coalesced (pg_insert_audit ev es)"
  by (auto simp: pg_insert_audit_def coalesced_append list_ex_iff)

lemma fresh_ends_null:
  "fresh g \<Longrightarrow> g\<lparr>g_ended_at := None, g_ended_by := None, g_end_reason := None, g_deleted_at := None\<rparr> = g"
  by (simp add: fresh_def)

lemma pg_create_cases:
  assumes "fresh g"
  obtains (refused) "pg_create_loan g db = (False, db)"
  | (stored) "pg_create_loan g db =
      (True, db\<lparr>pl_loans := pl_loans db @ [g], pl_audit := pl_audit db @ [granted_event g]\<rparr>)"
    "pg_find db (g_id g) = None"
    "\<And>i h. pg_find db i = Some h \<Longrightarrow> g_account_id h = g_account_id g \<Longrightarrow> g_ended_at h \<noteq> None"
proof (cases "fst (pg_create_loan g db)")
  case False
  then show ?thesis by (intro refused) (auto simp: pg_create_loan_def split: if_splits)
next
  case True
  then have none: "\<forall>h \<in> set (pl_loans db). g_id h \<noteq> g_id g
      \<and> (g_account_id h = g_account_id g \<longrightarrow> g_ended_at h \<noteq> None)"
    by (auto simp: pg_create_loan_def list_ex_iff split: if_splits)
  show ?thesis
  proof (rule stored)
    show "pg_create_loan g db =
      (True, db\<lparr>pl_loans := pl_loans db @ [g], pl_audit := pl_audit db @ [granted_event g]\<rparr>)"
      using True by (auto simp: pg_create_loan_def fresh_ends_null [OF assms] split: if_splits)
    show "pg_find db (g_id g) = None"
      using none by (auto simp: pg_find_def find_None_iff)
    show "g_ended_at h \<noteq> None" if "pg_find db i = Some h" "g_account_id h = g_account_id g" for i h
      using none pg_find_in [OF that(1)] that(2) by blast
  qed
qed

lemma pg_create_inv:
  assumes "pg_inv db" and "fresh g"
  shows "pg_inv (snd (pg_create_loan g db))"
  using assms(2)
proof (cases rule: pg_create_cases [of g db])
  case refused
  then show ?thesis using assms(1) by simp
next
  case stored
  have "g_id g \<notin> g_id ` set (pl_loans db)"
    using stored(2) by (auto simp: pg_find_def find_None_iff)
  moreover have "audited (((pg_find db)(g_id g \<mapsto> g)) i) i (pl_audit db @ [granted_event g])" for i
    using pg_invD(4) [OF assms(1), of i] stored(2) assms(2)
    by (cases "i = g_id g") (auto simp: audited_other, auto simp: audited_def events_of_single fresh_def)
  moreover have "grant_wf g" using assms(2) by (simp add: fresh_def grant_wf_def)
  moreover have "one_active ((pg_find db)(g_id g \<mapsto> g))"
    by (rule one_active_put [OF pg_invD(3) [OF assms(1)] stored(3)])
  ultimately show ?thesis
    using pg_invD(1,2,5) [OF assms(1)]
    by (auto simp: pg_inv_def stored(1) pg_find_insert [OF stored(2)] coalesced_append)
qed

text \<open>The row \<open>store_end\<close> hits, as a rewriting of every row.\<close>

definition end_row :: "grant \<Rightarrow> grant \<Rightarrow> grant" where
  "end_row g h =
     (if g_id h = g_id g \<and> g_ended_at h = None \<and> g_deleted_at h = None
      then h\<lparr>g_ended_at := g_ended_at g, g_ended_by := g_ended_by g, g_end_reason := g_end_reason g\<rparr>
      else h)"

lemma end_row_sel [simp]:
  "g_id (end_row g h) = g_id h" "g_account_id (end_row g h) = g_account_id h"
  "granted_event (end_row g h) = granted_event h" "g_deleted_at (end_row g h) = g_deleted_at h"
  by (simp_all add: end_row_def event_defs)

lemma pg_store_end_cases:
  assumes "distinct (map g_id (pl_loans db))"
  obtains (lost) "pg_store_end g db = (False, db)"
    "\<And>h. pg_find db (g_id g) = Some h \<Longrightarrow> g_ended_at h \<noteq> None \<or> g_deleted_at h \<noteq> None"
  | (won) h where "pg_store_end g db =
      (True, db\<lparr>pl_loans := map (end_row g) (pl_loans db), pl_audit := pl_audit db @ [ended_event g]\<rparr>)"
    "pg_find db (g_id g) = Some h" "g_ended_at h = None" "g_deleted_at h = None"
proof (cases "fst (pg_store_end g db)")
  case False
  show ?thesis
  proof (rule lost)
    show "pg_store_end g db = (False, db)"
      using False by (auto simp: pg_store_end_def Let_def split: if_splits)
    show "g_ended_at h \<noteq> None \<or> g_deleted_at h \<noteq> None" if "pg_find db (g_id g) = Some h" for h
      using False pg_find_in [OF that] pg_find_id [OF that]
      by (auto simp: pg_store_end_def Let_def list_ex_iff split: if_splits)
  qed
next
  case True
  then obtain h where h: "h \<in> set (pl_loans db)" "g_id h = g_id g" "g_ended_at h = None"
      "g_deleted_at h = None"
    by (auto simp: pg_store_end_def Let_def list_ex_iff split: if_splits)
  show ?thesis
  proof (rule won)
    show "pg_store_end g db =
      (True, db\<lparr>pl_loans := map (end_row g) (pl_loans db), pl_audit := pl_audit db @ [ended_event g]\<rparr>)"
      using True by (auto simp: pg_store_end_def Let_def end_row_def [abs_def] split: if_splits)
    show "pg_find db (g_id g) = Some h"
      using pg_find_row [OF assms h(1)] h(2) by simp
  qed (use h in auto)
qed


lemma audited_finished:
  assumes "audited (Some h) i es" and "g_ended_at h = None" and "g_id h = i"
    and "granted_event h' = granted_event h" and "g_ended_at h' \<noteq> None"
  shows "audited (Some h') i (es @ [ended_event h'])"
  using assms by (auto simp: audited_def events_of_single event_defs)

lemma end_row_event:
  assumes "g_id h = g_id g" "g_ended_at h = None" "g_deleted_at h = None" "g_ended_at g \<noteq> None"
  shows "ended_event (end_row g h) = ended_event g"
  using assms by (auto simp: end_row_def event_defs)

lemma pg_store_end_inv:
  assumes "pg_inv db" and "g_ended_at g \<noteq> None" and "g_end_reason g \<noteq> None"
  shows "pg_inv (snd (pg_store_end g db))"
  using pg_invD(1) [OF assms(1)]
proof (cases rule: pg_store_end_cases [of db g])
  case lost
  then show ?thesis using assms(1) by simp
next
  case (won h)
  note I = pg_invD [OF assms(1)]
  have m: "pg_find (db\<lparr>pl_loans := map (end_row g) (pl_loans db)\<rparr>) = (\<lambda>i. map_option (end_row g) (pg_find db i))"
    by (rule ext) (simp add: pg_find_map)
  have "distinct (map g_id (map (end_row g) (pl_loans db)))"
    using I(1) by (simp add: comp_def)
  moreover have "grant_wf (end_row g h')" if "pg_find db i = Some h'" for i h'
    using I(2) [OF that] assms(2,3) by (auto simp: grant_wf_def end_row_def)
  moreover have "one_active (\<lambda>i. map_option (end_row g) (pg_find db i))"
    by (rule one_active_end [OF I(3)]) (auto simp: end_row_def split: if_splits)
  moreover have "audited (map_option (end_row g) (pg_find db i)) i (pl_audit db @ [ended_event g])" for i
  proof (cases "i = g_id g")
    case True
    have hit: "g_ended_at (end_row g h) = g_ended_at g"
      using won pg_find_id [OF won(2)] by (simp add: end_row_def)
    have "ended_event g = ended_event (end_row g h)"
      using won pg_find_id [OF won(2)] assms(2) by (simp add: end_row_event)
    moreover have "audited (Some (end_row g h)) i (pl_audit db @ [ended_event (end_row g h)])"
      using I(4) [of i] won pg_find_id [OF won(2)] assms(2)
      by (intro audited_finished [of h]) (simp_all add: True hit)
    ultimately show ?thesis using won(2) True by simp
  next
    case False
    then have "map_option (end_row g) (pg_find db i) = pg_find db i"
      by (cases "pg_find db i") (auto simp: end_row_def dest: pg_find_id)
    with False I(4) [of i] show ?thesis by (simp add: audited_other)
  qed
  ultimately show ?thesis
    using I(5) by (auto simp: pg_inv_def won(1) m coalesced_append)
qed

lemma pg_load_Some:
  "pg_load_loan i db = Some g \<longleftrightarrow> pg_find db i = Some g \<and> g_deleted_at g = None"
  by (auto simp: pg_load_loan_def split: option.splits if_splits)

lemma pg_end_inv: "pg_inv db \<Longrightarrow> pg_inv (snd (pg_end_loan seen i t u r db))"
  by (auto simp: pg_end_loan_def Let_def split_def pg_store_end_inv split: option.split)

lemma pg_end_now:
  assumes "pg_inv db" and "pg_end_loan db i t u r db = (res, db')"
  shows "case res of
      Some g' \<Rightarrow> (\<exists>g. pg_find db i = Some g \<and> g_ended_at g = None \<and> g' = end_grant t (Some u) r g
        \<and> pg_find db' = (pg_find db)(i \<mapsto> g'))
    | None \<Rightarrow> pg_find db' = pg_find db
        \<and> (\<forall>g. pg_find db i = Some g \<longrightarrow> g_ended_at g \<noteq> None \<or> g_deleted_at g \<noteq> None)"
proof (cases "pg_find db i")
  case None
  then show ?thesis using assms(2) by (auto simp: pg_end_loan_def pg_load_loan_def)
next
  case (Some g)
  show ?thesis
  proof (cases "g_deleted_at g = None \<and> g_ended_at g = None")
    case False
    then show ?thesis using assms(2) Some by (auto simp: pg_end_loan_def pg_load_loan_def split: if_splits)
  next
    case True
    let ?g' = "end_grant t (Some u) r g"
    have id: "g_id g = i" using pg_find_id [OF Some] .
    have run: "(case pg_store_end ?g' db of (stored, d) \<Rightarrow> (if stored then Some ?g' else None, d)) = (res, db')"
      using assms(2) Some True by (simp add: pg_end_loan_def pg_load_loan_def Let_def)
    from pg_invD(1) [OF assms(1)] show ?thesis
    proof (cases rule: pg_store_end_cases [of db ?g'])
      case lost
      with Some True id show ?thesis by auto
    next
      case (won h)
      with Some id have [simp]: "h = g" by simp
      have "end_row ?g' g = ?g'"
        using True by (simp add: end_row_def end_grant_def)
      moreover have "map_option (end_row ?g') (pg_find db j) = pg_find db j" if "j \<noteq> i" for j
        using that id by (cases "pg_find db j") (auto simp: end_row_def dest: pg_find_id)
      ultimately have "pg_find db' = (pg_find db)(i \<mapsto> ?g')" and "res = Some ?g'"
        using run won(1) Some by (auto simp: fun_eq_iff pg_find_map)
      with Some True show ?thesis by simp
    qed
  qed
qed

lemma pg_issue_inv: "pg_inv db \<Longrightarrow> pg_inv (snd (pg_issue_token t0 t i m db))"
  by (auto simp: pg_issue_token_def pg_inv_def pg_insert_audit_other pg_insert_audit_coalesced
      token_issued_event_def new_event_def split: option.split)

lemma pg_issue_find [simp]: "pg_find (snd (pg_issue_token t0 t i m db)) = pg_find db"
  by (auto simp: pg_issue_token_def split: option.split)

lemma pg_append_inv:
  "pg_inv db \<Longrightarrow> a_kind ev \<notin> {Granted, Ended} \<Longrightarrow> pg_inv (snd (pg_append_audit ev db))"
  by (auto simp: pg_append_audit_def Let_def pg_inv_def pg_insert_audit_other pg_insert_audit_coalesced)

lemma pg_retire_inv:
  assumes "pg_inv db"
  shows "pg_inv (pg_retire_loans c now db)"
proof -
  note I = pg_invD [OF assms]
  have m: "pg_find (db\<lparr>pl_loans := map (retire_grant c now) (pl_loans db)\<rparr>)
      = (\<lambda>i. map_option (retire_grant c now) (pg_find db i))"
    by (rule ext) (simp add: pg_find_map)
  have "audited (map_option (retire_grant c now) og) i (map (retire_event c now) es)
      = audited og i es" for og i es
    by (cases og) (simp_all add: audited_def)
  moreover have "grant_wf (retire_grant c now g)" if "grant_wf g" for g
    using that by (auto simp: grant_wf_def retire_grant_def retire_due_grant_def split: option.splits)
  moreover have "one_active (\<lambda>i. map_option (retire_grant c now) (pg_find db i))"
    by (rule one_active_end [OF I(3)]) auto
  ultimately show ?thesis
    using I by (auto simp: pg_retire_loans_def pg_inv_def m comp_def)
qed

subsection \<open>The expiry sweep\<close>

definition pg_rows :: "string list \<Rightarrow> string option \<Rightarrow> int \<Rightarrow> pg_ledger \<Rightarrow> grant list" where
  "pg_rows locked account now db =
     take 1000 (filter (\<lambda>g. due account now g \<and> g_id g \<notin> set locked) (pl_loans db))"

definition expire_row :: "string set \<Rightarrow> grant \<Rightarrow> grant" where
  "expire_row ids g =
     (if g_id g \<in> ids \<and> g_ended_at g = None then end_grant (g_ends_at g) None Expired g else g)"

lemma expire_row_sel [simp]:
  "g_id (expire_row ids g) = g_id g" "g_account_id (expire_row ids g) = g_account_id g"
  "granted_event (expire_row ids g) = granted_event g"
  by (simp_all add: expire_row_def)

lemma pg_expire_unfold:
  "pg_expire_loans locked a now db =
     (map (\<lambda>g. end_grant (g_ends_at g) None Expired g) (pg_rows locked a now db),
      db\<lparr>pl_loans := map (expire_row (g_id ` set (pg_rows locked a now db))) (pl_loans db),
         pl_audit := pl_audit db @ map ended_event
           (map (\<lambda>g. end_grant (g_ends_at g) None Expired g) (pg_rows locked a now db))\<rparr>)"
  by (simp add: pg_expire_loans_def pg_rows_def expire_row_def [abs_def] Let_def)

lemma pg_rows_mem:
  "g \<in> set (pg_rows locked a now db) \<Longrightarrow> g \<in> set (pl_loans db) \<and> due a now g"
  unfolding pg_rows_def by (auto dest: in_set_takeD)

lemma pg_rows_distinct:
  "distinct (map g_id (pl_loans db)) \<Longrightarrow> distinct (map g_id (pg_rows locked a now db))"
  unfolding pg_rows_def
  by (subst take_map [symmetric]) (rule distinct_take, erule distinct_map_filter)

lemma filter_distinct_key:
  "distinct (map f xs) \<Longrightarrow> x \<in> set xs \<Longrightarrow> filter (\<lambda>y. f y = f x) xs = [x]"
proof (induction xs)
  case (Cons y xs)
  have "filter (\<lambda>z. f z = f y) xs = []"
    using Cons.prems(1) by (auto simp: filter_empty_conv image_iff)
  with Cons show ?case by auto
qed simp

lemma pg_expire_inv:
  assumes "pg_inv db"
  shows "pg_inv (snd (pg_expire_loans locked a now db))"
proof -
  note I = pg_invD [OF assms]
  let ?rows = "pg_rows locked a now db" and ?ended = "\<lambda>g. end_grant (g_ends_at g) None Expired g"
  let ?ids = "g_id ` set ?rows"
  have m: "pg_find (db\<lparr>pl_loans := map (expire_row ?ids) (pl_loans db)\<rparr>)
      = (\<lambda>i. map_option (expire_row ?ids) (pg_find db i))"
    by (rule ext) (simp add: pg_find_map)
  have wf: "grant_wf (expire_row ?ids g)" if "grant_wf g" for g
    using that by (auto simp: grant_wf_def expire_row_def)
  have act: "one_active (\<lambda>i. map_option (expire_row ?ids) (pg_find db i))"
    by (rule one_active_end [OF I(3)]) (auto simp: expire_row_def split: if_splits)
  have ev: "events_of i k (map ended_event (map ?ended rs)) =
      (if k = Ended then map (\<lambda>g. ended_event (?ended g)) (filter (\<lambda>g. g_id g = i) rs) else [])" for i k rs
    by (induction rs) (auto simp: events_of_def)
  have aud: "audited (map_option (expire_row ?ids) (pg_find db i)) i
      (pl_audit db @ map ended_event (map ?ended ?rows))" for i
  proof (cases "i \<in> ?ids")
    case True
    then obtain g where g: "g \<in> set ?rows" "g_id g = i" by auto
    then have "pg_find db i = Some g" "g_ended_at g = None"
      using pg_rows_mem [OF g(1)] pg_find_row [OF I(1)] by (auto simp: due_def)
    moreover have "filter (\<lambda>h. g_id h = i) ?rows = [g]"
      using filter_distinct_key [OF pg_rows_distinct [OF I(1)] g(1)] g(2) by simp
    ultimately show ?thesis
      using I(4) [of i] True g(2) by (simp add: audited_def ev expire_row_def del: map_map)
  next
    case False
    then have "filter (\<lambda>g. g_id g = i) ?rows = []" by (auto simp: filter_empty_conv)
    moreover have "map_option (expire_row ?ids) (pg_find db i) = pg_find db i"
      using False by (cases "pg_find db i") (auto simp: expire_row_def dest: pg_find_id)
    ultimately show ?thesis
      using I(4) [of i] by (simp add: audited_def ev del: map_map split: option.splits)
  qed
  have "coalesced (pl_audit db @ map ended_event (map ?ended ?rows))"
    using I(5) by (subst coalesced_append_plain) auto
  moreover have "distinct (map g_id (map (expire_row ?ids) (pl_loans db)))"
    using I(1) by (simp add: comp_def)
  ultimately show ?thesis
    using I(2) wf act aud by (auto simp: pg_inv_def pg_expire_unfold m simp del: map_map)
qed


subsection \<open>PostgreSQL meets the contract\<close>

text \<open>One clock reading stands for the two of a statement, which differ by microseconds.\<close>

interpretation pg_loans: loan_ledger pg_find pg_create_loan
    "\<lambda>i t u r db. pg_end_loan db i t u r db"
    "\<lambda>t i m db. (fst (pg_issue_token t t i m db) \<noteq> None, snd (pg_issue_token t t i m db))" pg_inv
proof (unfold_locales, goal_cases)
  case (1 s g)
  then show ?case by (rule pg_create_inv)
next
  case (2 s g d s')
  from 2(2) show ?case
    by (cases rule: pg_create_cases [of g s]) (use 2(3) in \<open>auto simp: pg_find_insert\<close>)
next
  case (3 s g i h)
  then show ?case
    using pg_find_in [OF 3(3)] by (auto simp: pg_create_loan_def list_ex_iff split: if_splits)
next
  case (4 s i t u r)
  then show ?case by (rule pg_end_inv)
next
  case (5 s i t u r g' s')
  then show ?case using pg_end_now [OF 5] by simp
next
  case (6 s i t u r s')
  then show ?case using pg_end_now [OF 6] by simp
next
  case (7 s t i m)
  then show ?case by (simp add: pg_issue_inv)
next
  case (8 s t i m)
  show ?case by simp
next
  case (9 s t i m)
  show ?case by (auto simp: pg_issue_token_def issuable_def active_def split: option.split)
qed

end
