(* ===== verification/LoanModes.thy ===== *)
theory LoanModes
  imports LoanBackends
begin

text \<open>
  \<open>CentralStore\<close> over the loan ledger (\<open>impl CentralStore\<close> in
  \<open>src/central/storage/loans.rs\<close>): file mode, PostgreSQL mode, and dual mode, which
  answers from PostgreSQL and mirrors what it committed to the file. A mirror write can
  fail; the failure is counted and nothing else happens. \<open>mirror_io\<close> says of each mirror
  write whether it succeeds and what the file held when it was read before the lock.
\<close>

section \<open>Dispatch\<close>

datatype central_ledger =
  FileMode file_state
| PgMode pg_ledger
| DualMode file_state pg_ledger nat

record mirror_io =
  io_ok :: bool
  io_seen :: file_state

text \<open>The file and the failure counter after one mirror write.\<close>

definition mirror_write ::
    "mirror_io \<Rightarrow> (file_state \<Rightarrow> file_state) \<Rightarrow> file_state \<times> nat \<Rightarrow> file_state \<times> nat" where
  "mirror_write io f fn = (if io_ok io then (f (fst fn), snd fn) else (fst fn, Suc (snd fn)))"

definition mirror_grant ::
    "mirror_io \<Rightarrow> grant \<Rightarrow> audit_event \<Rightarrow> file_state \<times> nat \<Rightarrow> file_state \<times> nat" where
  "mirror_grant io g ev = mirror_write io (file_mirror_loan (io_seen io) g ev)"

fun dual :: "file_state \<times> nat \<Rightarrow> pg_ledger \<Rightarrow> central_ledger" where
  "dual (f, n) db = DualMode f db n"

fun ledger_issue_token ::
    "mirror_io \<Rightarrow> int \<Rightarrow> int \<Rightarrow> string \<Rightarrow> string \<Rightarrow> central_ledger \<Rightarrow> bool \<times> central_ledger" where
  "ledger_issue_token io t0 t i m (FileMode f) =
     (let (a, f') = file_issue_token t i m f in (a, FileMode f'))"
| "ledger_issue_token io t0 t i m (PgMode db) =
     (let (a, db') = pg_issue_token t0 t i m db in (a \<noteq> None, PgMode db'))"
| "ledger_issue_token io t0 t i m (DualMode f db n) =
     (let (issued, db') = pg_issue_token t0 t i m db
      in (issued \<noteq> None,
          dual (case issued of
              Some at \<Rightarrow> mirror_write io (file_mirror_audit (token_issued_event at i m)) (f, n)
            | None \<Rightarrow> (f, n)) db'))"

text \<open>One expiry may mirror several grants; \<open>ios\<close> gives each grant's mirror write.\<close>

fun ledger_expire ::
    "mirror_io \<Rightarrow> (string \<Rightarrow> mirror_io) \<Rightarrow> string list \<Rightarrow> string option \<Rightarrow> int \<Rightarrow> central_ledger
      \<Rightarrow> grant list \<times> central_ledger" where
  "ledger_expire io ios locked a now (FileMode f) =
     (let (gs, f') = file_expire_loans (io_seen io) a now f in (gs, FileMode f'))"
| "ledger_expire io ios locked a now (PgMode db) =
     (let (gs, db') = pg_expire_loans locked a now db in (gs, PgMode db'))"
| "ledger_expire io ios locked a now (DualMode f db n) =
     (let (gs, db') = pg_expire_loans locked a now db
      in (gs, dual (fold (\<lambda>g. mirror_grant (ios (g_id g)) g (ended_event g)) gs (f, n)) db'))"

fun ledger_create_loan :: "mirror_io \<Rightarrow> grant \<Rightarrow> central_ledger \<Rightarrow> bool \<times> central_ledger" where
  "ledger_create_loan io g (FileMode f) = (let (a, f') = file_create_loan g f in (a, FileMode f'))"
| "ledger_create_loan io g (PgMode db) = (let (a, db') = pg_create_loan g db in (a, PgMode db'))"
| "ledger_create_loan io g (DualMode f db n) =
     (let (created, db') = pg_create_loan g db
      in (created, dual (if created then mirror_grant io g (granted_event g) (f, n) else (f, n)) db'))"

text \<open>
  \<open>seen\<close> is the table when \<open>end_loan\<close> loads the grant; \<open>late\<close> the table when dual mode
  loads it again because this call ended nothing.
\<close>

fun ledger_end_loan ::
    "mirror_io \<Rightarrow> pg_ledger \<Rightarrow> pg_ledger \<Rightarrow> string \<Rightarrow> int \<Rightarrow> string \<Rightarrow> end_reason \<Rightarrow> central_ledger
      \<Rightarrow> grant option \<times> central_ledger" where
  "ledger_end_loan io seen late i at u r (FileMode f) =
     (let (a, f') = file_end_loan i at u r f in (a, FileMode f'))"
| "ledger_end_loan io seen late i at u r (PgMode db) =
     (let (a, db') = pg_end_loan seen i at u r db in (a, PgMode db'))"
| "ledger_end_loan io seen late i at u r (DualMode f db n) =
     (let (ended, db') = pg_end_loan seen i at u r db;
          mirror = (case ended of
              Some g \<Rightarrow> Some g
            | None \<Rightarrow>
                (case pg_load_loan i late of
                   Some g \<Rightarrow> if g_ended_at g \<noteq> None then Some g else None
                 | None \<Rightarrow> None))
      in (ended,
          dual (case mirror of
              Some g \<Rightarrow> mirror_grant io g (ended_event g) (f, n)
            | None \<Rightarrow> (f, n)) db'))"

text \<open>In dual mode a failed PostgreSQL statement returns before the mirror write.\<close>

fun ledger_append_audit :: "mirror_io \<Rightarrow> audit_event \<Rightarrow> central_ledger \<Rightarrow> bool \<times> central_ledger" where
  "ledger_append_audit io ev (FileMode f) = (True, FileMode (file_append_audit (io_seen io) ev f))"
| "ledger_append_audit io ev (PgMode db) = (let (ok, db') = pg_append_audit ev db in (ok, PgMode db'))"
| "ledger_append_audit io ev (DualMode f db n) =
     (let (ok, db') = pg_append_audit ev db
      in (ok, dual (if ok then mirror_write io (file_append_audit (io_seen io) ev) (f, n) else (f, n)) db'))"

fun ledger_retire_loans :: "mirror_io \<Rightarrow> int \<Rightarrow> central_ledger \<Rightarrow> central_ledger" where
  "ledger_retire_loans io now (FileMode f) =
     FileMode (file_retire_loans (io_seen io) (sat_sub now retention_seconds) now f)"
| "ledger_retire_loans io now (PgMode db) =
     PgMode (pg_retire_loans (sat_sub now retention_seconds) now db)"
| "ledger_retire_loans io now (DualMode f db n) =
     dual (mirror_write io (file_retire_loans (io_seen io) (sat_sub now retention_seconds) now) (f, n))
       (pg_retire_loans (sat_sub now retention_seconds) now db)"

section \<open>Dual mode answers as PostgreSQL mode\<close>

fun primary :: "central_ledger \<Rightarrow> central_ledger" where
  "primary (DualMode f db n) = PgMode db"
| "primary s = s"

lemma primary_dual [simp]: "primary (dual fn db) = PgMode db"
  by (cases fn) simp

text \<open>in dual mode every operation returns what PostgreSQL mode returns and leaves
  the PostgreSQL tables as PostgreSQL mode leaves them, whether or not the mirror writes
  succeed and whatever the mirror file holds.\<close>

theorem dual_answers_as_postgres:
  "map_prod id primary (ledger_create_loan io g (DualMode f db n)) = ledger_create_loan io' g (PgMode db)
   \<and> map_prod id primary (ledger_end_loan io seen late i t u r (DualMode f db n))
     = ledger_end_loan io' seen late' i t u r (PgMode db)
   \<and> map_prod id primary (ledger_issue_token io t0 t i m (DualMode f db n))
     = ledger_issue_token io' t0 t i m (PgMode db)
   \<and> map_prod id primary (ledger_expire io ios locked a now (DualMode f db n))
     = ledger_expire io' ios' locked a now (PgMode db)
   \<and> map_prod id primary (ledger_append_audit io ev (DualMode f db n)) = ledger_append_audit io' ev (PgMode db)
   \<and> primary (ledger_retire_loans io now (DualMode f db n)) = ledger_retire_loans io' now (PgMode db)"
  by (simp add: split_def Let_def)

section \<open>The mirror\<close>

text \<open>A delivered copy: the event that goes with it is fixed by the copy.\<close>

definition copy_event :: "grant \<Rightarrow> audit_event" where
  "copy_event g = (if g_ended_at g = None then granted_event g else ended_event g)"

definition deliver :: "file_state \<Rightarrow> grant \<Rightarrow> file_state" where
  "deliver st g = file_mirror_loan st g (copy_event g) st"

lemma copy_event_sel [simp]:
  "a_grant_id (copy_event g) = g_id g"
  "a_kind (copy_event g) = (if g_ended_at g = None then Granted else Ended)"
  "(copy_event g)\<lparr>a_deleted_at := None\<rparr> = copy_event g"
  by (simp_all add: copy_event_def)

lemma mirror_missing_iff: "mirror_missing ev st \<longleftrightarrow> events_of (a_grant_id ev) (a_kind ev) (fs_audit st) = []"
  by (auto simp: mirror_missing_def events_of_def list_ex_iff filter_empty_conv)

lemma deliver_loans:
  "bt_get (fs_loans (deliver st g)) i =
     (if i = g_id g \<and> mirror_replaces g st then Some g else bt_get (fs_loans st) i)"
  by (auto simp: deliver_def file_mirror_loan_def Let_def)

lemma deliver_events:
  "events_of i k (fs_audit (deliver st g)) = events_of i k (fs_audit st)
     @ (if i = g_id g \<and> k = a_kind (copy_event g) \<and> events_of i k (fs_audit st) = []
        then [copy_event g] else [])"
  by (auto simp: deliver_def file_mirror_loan_def Let_def mirror_missing_iff events_of_single)

text \<open>The mirror of one grant after the deliveries \<open>ms\<close>, in any order.\<close>

definition mirror_of :: "grant \<Rightarrow> grant \<Rightarrow> grant list \<Rightarrow> file_state \<Rightarrow> bool" where
  "mirror_of a b ms st =
     (bt_get (fs_loans st) (g_id a)
        = (if b \<in> set ms then Some b else if a \<in> set ms then Some a else None)
      \<and> events_of (g_id a) Granted (fs_audit st) = (if a \<in> set ms then [granted_event a] else [])
      \<and> events_of (g_id a) Ended (fs_audit st) = (if b \<in> set ms then [ended_event b] else []))"

lemma mirror_of_step:
  assumes "g_ended_at a = None" and "g_ended_at b \<noteq> None" and "g_id b = g_id a"
    and "mirror_of a b ms st" and "g_id g = g_id a \<longrightarrow> g = a \<or> g = b"
  shows "mirror_of a b (ms @ [g]) (deliver st g)"
proof (cases "g_id g = g_id a")
  case False
  then show ?thesis
    using assms(3,4) by (auto simp: mirror_of_def deliver_loans deliver_events)
next
  case True
  with assms(5) have "g = a \<or> g = b" by simp
  then show ?thesis
    using assms(1-4)
    by (auto simp: mirror_of_def deliver_loans deliver_events mirror_replaces_def copy_event_def)
qed

text \<open>the mirror does not depend on the order of the deliveries or on repeats: once
  the ended copy of a grant has been delivered the file holds it, a delayed copy from
  before the end never reopens the loan, and each delivered copy has left exactly one
  event.\<close>

theorem mirror_order_free:
  assumes "g_ended_at a = None" and "g_ended_at b \<noteq> None" and "g_id b = g_id a"
    and "\<forall>g \<in> set ms. g_id g = g_id a \<longrightarrow> g = a \<or> g = b"
  shows "mirror_of a b ms (foldl deliver empty_file_state ms)"
  using assms(4)
proof (induction ms rule: rev_induct)
  case Nil
  show ?case by (simp add: mirror_of_def empty_file_state_def)
next
  case (snoc g ms)
  then show ?case
    using mirror_of_step [OF assms(1-3), of ms "foldl deliver empty_file_state ms" g] by simp
qed

definition mirrored_grant :: grant where
  "mirrored_grant =
     \<lparr>g_id = ''g1'', g_account_id = ''acct'', g_lender = ''u1'', g_borrower = ''u2'',
      g_lender_email = ''ada@x.io'', g_borrower_email = ''bob@x.io'', g_alias = ''work'',
      g_reference = ''ada/work'',
      g_subject = \<lparr>subj_workspace = ''w'', subj_claims = \<lparr>login_uid = Some ''l'', login_sub = None\<rparr>\<rparr>,
      g_created_at = 1000, g_ends_at = 9000, g_ended_at = None, g_ended_by = None,
      g_end_reason = None, g_deleted_at = None\<rparr>"

definition mirrored_end :: grant where
  "mirrored_end = end_grant 2000 (Some ''u2'') Returned mirrored_grant"

theorem mirror_order_free_witness:
  "bt_get (fs_loans (foldl deliver empty_file_state [mirrored_end, mirrored_grant])) ''g1''
     = Some mirrored_end"
  using mirror_order_free [of mirrored_grant mirrored_end "[mirrored_end, mirrored_grant]"]
  by (simp add: mirror_of_def mirrored_end_def mirrored_grant_def)

section \<open>File mode and PostgreSQL mode agree\<close>

text \<open>
  One request at a time, as both stores serve it when no other writer interleaves. The
  expiry is the per-account one that token requests run; the sweep of every account is
  bounded in PostgreSQL and unbounded in file mode.
\<close>

datatype loan_request =
  ReqLend grant_request string
| ReqEnd string int string end_reason
| ReqExpire string int
| ReqToken int string string
| ReqPause int string string
| ReqRetire int

datatype loan_answer = Refused | Did bool | EndedGrant "grant option" | ExpiredGrants "grant list" | Done

fun file_serve :: "file_state \<Rightarrow> loan_request \<Rightarrow> loan_answer \<times> file_state" where
  "file_serve st (ReqLend r i) =
     (case plan_grant r i of Inl _ \<Rightarrow> (Refused, st)
      | Inr g \<Rightarrow> map_prod Did id (file_create_loan g st))"
| "file_serve st (ReqEnd i t u r) = map_prod EndedGrant id (file_end_loan i t u r st)"
| "file_serve st (ReqExpire a now) = map_prod ExpiredGrants id (file_expire_loans st (Some a) now st)"
| "file_serve st (ReqToken t i m) = map_prod Did id (file_issue_token t i m st)"
| "file_serve st (ReqPause t i r) = (Done, file_append_audit st (paused_event t i r) st)"
| "file_serve st (ReqRetire now) = (Done, file_retire_loans st (sat_sub now retention_seconds) now st)"

fun pg_serve :: "pg_ledger \<Rightarrow> loan_request \<Rightarrow> loan_answer \<times> pg_ledger" where
  "pg_serve db (ReqLend r i) =
     (case plan_grant r i of Inl _ \<Rightarrow> (Refused, db)
      | Inr g \<Rightarrow> map_prod Did id (pg_create_loan g db))"
| "pg_serve db (ReqEnd i t u r) = map_prod EndedGrant id (pg_end_loan db i t u r db)"
| "pg_serve db (ReqExpire a now) = map_prod ExpiredGrants id (pg_expire_loans [] (Some a) now db)"
| "pg_serve db (ReqToken t i m) = map_prod (\<lambda>x. Did (x \<noteq> None)) id (pg_issue_token t t i m db)"
| "pg_serve db (ReqPause t i r) = (Done, snd (pg_append_audit (paused_event t i r) db))"
| "pg_serve db (ReqRetire now) = (Done, pg_retire_loans (sat_sub now retention_seconds) now db)"

text \<open>
  What a request must satisfy: clock readings after 1970, an account that is stored, and
  a pause for a grant that is stored (both are how the handlers call the store).
\<close>

fun proper_request :: "string list \<Rightarrow> string list \<Rightarrow> loan_request \<Rightarrow> bool" where
  "proper_request accounts grants (ReqLend r i) = (req_account_id r \<in> set accounts)"
| "proper_request accounts grants (ReqToken t i m) = (0 \<le> t)"
| "proper_request accounts grants (ReqPause t i r) = (i \<in> set grants)"
| "proper_request accounts grants _ = True"

definition same_ledger :: "file_state \<Rightarrow> pg_ledger \<Rightarrow> bool" where
  "same_ledger st db = (ledger_inv st \<and> pg_inv db \<and> bt_get (fs_loans st) = pg_find db
     \<and> fs_audit st = pl_audit db)"

lemma same_ledgerD:
  assumes "same_ledger st db"
  shows "ledger_inv st" "pg_inv db" "bt_get (fs_loans st) = pg_find db" "fs_audit st = pl_audit db"
  using assms by (simp_all add: same_ledger_def)

lemma file_some: "ledger_inv st \<Longrightarrow> list_ex P (bt_values (fs_loans st)) \<longleftrightarrow> (\<exists>i g. bt_get (fs_loans st) i = Some g \<and> P g)"
  unfolding list_ex_iff by (metis bt_keyed_ok in_bt_values ledger_invD(1))

lemma pg_some: "pg_inv db \<Longrightarrow> list_ex P (pl_loans db) \<longleftrightarrow> (\<exists>i g. pg_find db i = Some g \<and> P g)"
  using pg_find_row [OF pg_invD(1)] by (auto simp: list_ex_iff dest: pg_find_in)

lemma same_has: "same_ledger st db \<Longrightarrow> list_ex P (bt_values (fs_loans st)) = list_ex P (pl_loans db)"
  by (simp add: file_some pg_some same_ledgerD)

lemma create_agrees:
  assumes "same_ledger st db" and "fresh g" and "g_account_id g \<in> set (pl_accounts db)"
  shows "fst (file_create_loan g st) = fst (pg_create_loan g db)
     \<and> same_ledger (snd (file_create_loan g st)) (snd (pg_create_loan g db))"
proof -
  note S = same_ledgerD [OF assms(1)]
  let ?P = "\<lambda>h. g_id h = g_id g \<or> g_account_id h = g_account_id g \<and> g_ended_at h = None"
  have "bt_has (fs_loans st) (g_id g) \<longleftrightarrow> (\<exists>i h. pg_find db i = Some h \<and> g_id h = g_id g)"
    unfolding bt_has_def S(3) by (metis not_None_eq pg_find_id)
  then have busy: "bt_has (fs_loans st) (g_id g)
      \<or> list_ex (\<lambda>h. g_account_id h = g_account_id g \<and> g_ended_at h = None) (bt_values (fs_loans st))
      \<longleftrightarrow> list_ex ?P (pl_loans db)"
    by (auto simp: file_some [OF S(1)] pg_some [OF S(2)] S(3))
  have eq: "fst (file_create_loan g st) = fst (pg_create_loan g db)"
    using busy assms(3) by (simp add: file_create_loan_def pg_create_loan_def)
  have keep: "ledger_inv (snd (file_create_loan g st))" "pg_inv (snd (pg_create_loan g db))"
    using S assms(2) by (simp_all add: create_loan_inv pg_create_inv)
  from assms(2) show ?thesis
  proof (cases rule: pg_create_cases [of g db])
    case refused
    with eq have "snd (file_create_loan g st) = st"
      by (auto simp: file_create_loan_def split: if_splits)
    with refused assms(1) eq show ?thesis by simp
  next
    case stored
    with eq have "snd (file_create_loan g st)
        = st\<lparr>fs_loans := bt_put (g_id g) g (fs_loans st), fs_audit := fs_audit st @ [granted_event g]\<rparr>"
      by (auto simp: file_create_loan_def split: if_splits)
    with keep stored S(3,4) eq show ?thesis
      by (simp add: same_ledger_def pg_find_insert)
  qed
qed

lemma end_agrees:
  assumes "same_ledger st db"
  shows "fst (file_end_loan i t u r st) = fst (pg_end_loan db i t u r db)
     \<and> same_ledger (snd (file_end_loan i t u r st)) (snd (pg_end_loan db i t u r db))"
proof -
  note S = same_ledgerD [OF assms]
  obtain res db' where run: "pg_end_loan db i t u r db = (res, db')" by (cases "pg_end_loan db i t u r db")
  have aud: "pl_audit db' = pl_audit db @ (case res of None \<Rightarrow> [] | Some g' \<Rightarrow> [ended_event g'])"
    using run by (auto simp: pg_end_loan_def pg_store_end_def Let_def split: option.splits if_splits prod.splits)
  have keep: "ledger_inv (snd (file_end_loan i t u r st))" "pg_inv db'"
    using S pg_end_inv [of db db i t u r] run by (simp_all add: end_loan_inv)
  show ?thesis
  proof (cases res)
    case None
    with pg_end_now [OF S(2) run] have "pg_find db' = pg_find db"
      "\<forall>g. pg_find db i = Some g \<longrightarrow> g_ended_at g \<noteq> None \<or> g_deleted_at g \<noteq> None" by auto
    with None aud keep S run show ?thesis
      by (auto simp: same_ledger_def file_end_loan_def Let_def split: option.splits if_splits)
  next
    case (Some g')
    with pg_end_now [OF S(2) run] obtain g where g: "pg_find db i = Some g" "g_ended_at g = None"
      "g' = end_grant t (Some u) r g" "pg_find db' = (pg_find db)(i \<mapsto> g')" by auto
    then have "g_deleted_at g = None"
      using pg_invD(2) [OF S(2) g(1)] by (simp add: grant_wf_def)
    with g Some aud keep S run show ?thesis
      by (simp add: same_ledger_def file_end_loan_def Let_def)
  qed
qed

lemma token_agrees:
  assumes "same_ledger st db" and "0 \<le> t"
  shows "fst (file_issue_token t i m st) = (fst (pg_issue_token t t i m db) \<noteq> None)
     \<and> same_ledger (snd (file_issue_token t i m st)) (snd (pg_issue_token t t i m db))"
proof -
  note S = same_ledgerD [OF assms(1)]
  have "sql_hour t = t div 3600" using assms(2) by (simp add: sql_hour_def)
  then have ev: "(token_issued_event t i m)\<lparr>a_coalesce_key := Some (token_key i m (sql_hour t))\<rparr>
      = token_issued_event t i m"
    by (simp add: token_issued_event_def)
  have "ledger_inv (snd (file_issue_token t i m st))" "pg_inv (snd (pg_issue_token t t i m db))"
    using S by (simp_all add: issue_token_inv pg_issue_inv)
  moreover have "pl_audit (snd (pg_issue_token t t i m db)) = fs_audit (snd (file_issue_token t i m st))"
    using S(3,4)
    by (auto simp: pg_issue_token_def file_issue_token_def Let_def ev pg_insert_audit_def issuable_def
        active_def split: option.splits)
  moreover have "fst (file_issue_token t i m st) = (fst (pg_issue_token t t i m db) \<noteq> None)"
    using S(3) by (auto simp: pg_issue_token_def file_issue_token_def Let_def issuable_def active_def
        split: option.splits)
  ultimately show ?thesis
    using S(3) by (simp add: same_ledger_def file_issue_token_def Let_def)
qed

lemma pause_agrees:
  assumes "same_ledger st db" and "pg_find db i \<noteq> None"
  shows "same_ledger (file_append_audit st (paused_event t i r) st)
     (snd (pg_append_audit (paused_event t i r) db))"
proof -
  note S = same_ledgerD [OF assms(1)]
  have "ledger_inv (file_append_audit st (paused_event t i r) st)"
    "pg_inv (snd (pg_append_audit (paused_event t i r) db))"
    using S by (simp_all add: append_audit_inv pg_append_inv)
  moreover have "(paused_event t i r)\<lparr>a_deleted_at := None\<rparr> = paused_event t i r"
    by (simp add: event_defs)
  ultimately show ?thesis
    using S(3,4) assms(2)
    by (auto simp: same_ledger_def file_append_audit_def pg_append_audit_def Let_def
        audit_duplicate_def pg_insert_audit_def)
qed

lemma retire_agrees:
  assumes "same_ledger st db"
  shows "same_ledger (file_retire_loans st c now st) (pg_retire_loans c now db)"
proof -
  note S = same_ledgerD [OF assms]
  have keep: "ledger_inv (file_retire_loans st c now st)" "pg_inv (pg_retire_loans c now db)"
    using S by (simp_all add: retire_loans_inv pg_retire_inv)
  have find: "pg_find (pg_retire_loans c now db) = (\<lambda>i. map_option (retire_grant c now) (pg_find db i))"
    by (rule ext) (simp add: pg_retire_loans_def pg_find_map)
  show ?thesis
  proof (cases "list_ex (retire_due_grant c) (bt_values (fs_loans st)) \<or> list_ex (retire_due_event c) (fs_audit st)")
    case True
    with keep S(3,4) find show ?thesis
      by (auto simp: same_ledger_def file_retire_loans_def pg_retire_loans_def fun_eq_iff)
  next
    case False
    then have "map_option (retire_grant c now) (pg_find db i) = pg_find db i" for i
      using S by (cases "pg_find db i") (auto simp: file_some retire_grant_def)
    moreover have "map (retire_event c now) (fs_audit st) = fs_audit st"
      using False by (intro map_idI) (auto simp: retire_event_def list_ex_iff)
    ultimately show ?thesis
      using keep False S(3,4) find
      by (auto simp: same_ledger_def file_retire_loans_def pg_retire_loans_def fun_eq_iff)
  qed
qed

text \<open>An account has at most one due grant, so both expiries find the same one.\<close>

lemma due_unique:
  assumes "one_active (pg_find db)" and "pg_find db i = Some g" and "due (Some a) now g"
    and "pg_find db j = Some h" and "due (Some a) now h"
  shows "h = g"
  using assms unfolding one_active_def due_def by (metis option.inject option.simps(5))

lemma expire_agrees:
  assumes "same_ledger st db"
  shows "fst (file_expire_loans st (Some a) now st) = fst (pg_expire_loans [] (Some a) now db)
     \<and> same_ledger (snd (file_expire_loans st (Some a) now st)) (snd (pg_expire_loans [] (Some a) now db))"
proof -
  note S = same_ledgerD [OF assms]
  let ?P = "due (Some a) now" and ?ended = "\<lambda>g. end_grant (g_ends_at g) None Expired g"
  have keep: "ledger_inv (snd (file_expire_loans st (Some a) now st))"
    "pg_inv (snd (pg_expire_loans [] (Some a) now db))"
    using S by (simp_all add: expire_loans_inv pg_expire_inv)
  have find: "pg_find (snd (pg_expire_loans [] (Some a) now db)) =
      (\<lambda>i. map_option (expire_row (g_id ` set (pg_rows [] (Some a) now db))) (pg_find db i))"
    by (rule ext) (simp add: pg_expire_unfold pg_find_map)
  show ?thesis
  proof (cases "list_ex ?P (pl_loans db)")
    case False
    then have "pg_rows [] (Some a) now db = []"
      by (simp add: pg_rows_def list_ex_iff filter_empty_conv)
    moreover have "expire_row {} = id" by (rule ext) (simp add: expire_row_def)
    ultimately show ?thesis
      using False keep find S(3,4) same_has [OF assms, of ?P]
      by (simp add: file_expire_loans_def pg_expire_unfold same_ledger_def option.map_id0 option.map_id)
  next
    case True
    then obtain i g where g: "pg_find db i = Some g" "?P g" by (auto simp: pg_some [OF S(2)])
    have id: "g_id g = i" using pg_find_id [OF g(1)] .
    have only: "?P h \<longleftrightarrow> g_id h = i \<and> ?P h" if "pg_find db j = Some h" for h j
      using due_unique [OF pg_invD(3) [OF S(2)] g that] id by auto
    have one: "filter (\<lambda>h. g_id h = i) (pl_loans db) = [g]"
      using filter_distinct_key [OF pg_invD(1) [OF S(2)] pg_find_in [OF g(1)]] id by simp
    have "filter ?P (pl_loans db) = filter ?P (filter (\<lambda>h. g_id h = i) (pl_loans db))"
      unfolding filter_filter
      by (rule filter_cong [OF refl]) (rule only [OF pg_find_row [OF pg_invD(1) [OF S(2)]]])
    then have "filter ?P (pl_loans db) = [g]"
      unfolding one using g(2) by simp
    then have rows: "pg_rows [] (Some a) now db = [g]" by (simp add: pg_rows_def)
    have val: "?P h \<longleftrightarrow> g_id h = i \<and> ?P h" if "h \<in> set (bt_values (fs_loans st))" for h
      using that only S(3) in_bt_values [OF bt_keyed_ok [OF ledger_invD(1) [OF S(1)]]] by auto
    have "filter ?P (bt_values (fs_loans st)) = filter (\<lambda>h. g_id h = i \<and> ?P h) (bt_values (fs_loans st))"
      by (rule filter_cong [OF refl]) (rule val)
    then have filed: "filter ?P (bt_values (fs_loans st)) = [g]"
      using bt_values_filter_key [OF ledger_invD(1) [OF S(1)], of i ?P] g S(3) by simp
    have "list_ex ?P (bt_values (fs_loans st))" using True same_has [OF assms] by simp
    then have file': "file_expire_loans st (Some a) now st = ([?ended g],
        st\<lparr>fs_loans := bt_map (expire_grant (Some a) now) (fs_loans st),
           fs_audit := fs_audit st @ [ended_event (?ended g)]\<rparr>)"
      using g(2) by (simp add: file_expire_loans_def Let_def filed expire_grant_def)
    have pg': "pg_expire_loans [] (Some a) now db = ([?ended g],
        db\<lparr>pl_loans := map (expire_row {i}) (pl_loans db),
           pl_audit := pl_audit db @ [ended_event (?ended g)]\<rparr>)"
      using id by (simp add: pg_expire_unfold rows)
    have "expire_grant (Some a) now h = expire_row {i} h" if "pg_find db j = Some h" for j h
    proof (cases "g_id h = i")
      case True
      then have "h = g" using pg_find_id [OF that] g(1) that by simp
      with g(2) id show ?thesis by (simp add: expire_grant_def expire_row_def due_def)
    next
      case False
      with only [OF that] show ?thesis by (simp add: expire_grant_def expire_row_def)
    qed
    then have "map_option (expire_grant (Some a) now) (pg_find db j) = map_option (expire_row {i}) (pg_find db j)" for j
      by (cases "pg_find db j") simp_all
    then show ?thesis
      using keep S(3,4) find rows id unfolding file' pg'
      by (simp add: same_ledger_def fun_eq_iff)
  qed
qed

lemma pl_accounts_serve [simp]: "pl_accounts (snd (pg_serve db q)) = pl_accounts db"
  by (cases q)
    (auto simp: pg_create_loan_def pg_end_loan_def pg_store_end_def pg_expire_loans_def pg_issue_token_def
      pg_append_audit_def pg_retire_loans_def Let_def split: option.splits sum.splits prod.splits if_splits)

lemma serve_agrees:
  assumes "same_ledger st db" and "proper_request (pl_accounts db) (map g_id (pl_loans db)) q"
  shows "fst (file_serve st q) = fst (pg_serve db q) \<and> same_ledger (snd (file_serve st q)) (snd (pg_serve db q))"
proof (cases q)
  case (ReqLend r i)
  show ?thesis
  proof (cases "plan_grant r i")
    case (Inl e)
    with ReqLend assms(1) show ?thesis by simp
  next
    case (Inr g)
    then have "fresh g" and "g_account_id g = req_account_id r" by (auto elim: plan_grant_Inr)
    with create_agrees [OF assms(1), of g] ReqLend Inr assms(2) show ?thesis by simp
  qed
next
  case (ReqPause t i r)
  with assms have "pg_find db i \<noteq> None"
    by (auto simp: pg_find_row [OF pg_invD(1) [OF same_ledgerD(2) [OF assms(1)]]])
  with pause_agrees [OF assms(1)] ReqPause show ?thesis by simp
qed (use assms end_agrees [OF assms(1)] expire_agrees [OF assms(1)] token_agrees [OF assms(1)]
    retire_agrees [OF assms(1)] in simp_all)

text \<open>A run of requests, each proper for the tables it meets.\<close>

fun proper_run :: "pg_ledger \<Rightarrow> loan_request list \<Rightarrow> bool" where
  "proper_run db [] = True"
| "proper_run db (q # qs) =
     (proper_request (pl_accounts db) (map g_id (pl_loans db)) q \<and> proper_run (snd (pg_serve db q)) qs)"

fun answers :: "('s \<Rightarrow> loan_request \<Rightarrow> loan_answer \<times> 's) \<Rightarrow> 's \<Rightarrow> loan_request list \<Rightarrow> loan_answer list" where
  "answers serve s [] = []"
| "answers serve s (q # qs) = fst (serve s q) # answers serve (snd (serve s q)) qs"

definition empty_pg :: "string list \<Rightarrow> pg_ledger" where
  "empty_pg accounts = \<lparr>pl_loans = [], pl_audit = [], pl_accounts = accounts\<rparr>"

lemma same_ledger_empty: "same_ledger empty_file_state (empty_pg accounts)"
  using ledger_inv_empty
  by (simp add: same_ledger_def pg_inv_def empty_pg_def empty_file_state_def pg_find_def fun_eq_iff
      one_active_def audited_def coalesced_def List.map_filter_def)

lemma answers_agree:
  "same_ledger st db \<Longrightarrow> proper_run db qs \<Longrightarrow> answers file_serve st qs = answers pg_serve db qs"
  by (induction qs arbitrary: st db) (simp_all add: serve_agrees)

text \<open>C18: file mode and PostgreSQL mode give the same answers to every sequence of loan
  requests: the same grants are accepted, refused, ended, expired and issued tokens for,
  with the same contents.\<close>

theorem file_and_postgres_agree:
  assumes "proper_run (empty_pg accounts) qs"
  shows "answers file_serve empty_file_state qs = answers pg_serve (empty_pg accounts) qs"
  using assms by (rule answers_agree [OF same_ledger_empty])

definition agree_run :: "loan_request list" where
  "agree_run = [ReqLend ada_lends ''g1'', ReqToken 1500 ''g1'' ''m'', ReqLend ada_lends ''g2'',
     ReqExpire ''acct'' 9000, ReqToken 9100 ''g1'' ''m'']"

lemma agree_run_proper: "proper_run (empty_pg [''acct'']) agree_run"
  by (simp add: agree_run_def ada_lends_def empty_pg_def del: pg_serve.simps)

theorem file_and_postgres_agree_witness:
  "answers file_serve empty_file_state agree_run = answers pg_serve (empty_pg [''acct'']) agree_run
     \<and> length (answers file_serve empty_file_state agree_run) = 5"
  using file_and_postgres_agree [OF agree_run_proper] by (simp add: agree_run_def)

end
