(* ===== verification/LoanFacts.thy ===== *)
theory LoanFacts
  imports LoanModes "HOL-Library.Multiset"
begin

text \<open>
  What the loan rules and the file-mode ledger promise to their callers: the exact
  conditions of a grant, the names that reach it, the token requests it answers, what one
  expiry sweep leaves, what retention hides and what the audit page shows.
\<close>

section \<open>References\<close>

text \<open>every reference that parses prints back to itself, and the reference a grant
  stores parses to a borrowed account with a valid lender part and alias, both in lower
  case; so a reference typed in any case reaches the same connection file.\<close>

theorem reference_roundtrip:
  "(case parse_ref raw of Inl _ \<Rightarrow> True | Inr r \<Rightarrow> parse_ref (ref_name r) = Inr r)
   \<and> (case reference email alias of
        Inl _ \<Rightarrow> True
      | Inr name \<Rightarrow> (\<exists>l a. parse_ref name = Inr (Borrowed l a)
          \<and> ascii_lower l = l \<and> ascii_lower a = a
          \<and> validate_alias l = Inr l \<and> validate_alias a = Inr a))"
proof (intro conjI)
  show "case parse_ref raw of Inl _ \<Rightarrow> True | Inr r \<Rightarrow> parse_ref (ref_name r) = Inr r"
    by (auto split: sum.split dest: parse_ref_ok intro: parse_ref_name)
next
  have "\<exists>l a. parse_ref name = Inr (Borrowed l a) \<and> ascii_lower l = l \<and> ascii_lower a = a
      \<and> validate_alias l = Inr l \<and> validate_alias a = Inr a" if eq: "reference email alias = Inr name" for name
    using eq
  proof (rule reference_Inr)
    fix l a
    assume "ref_ok (Borrowed l a)" and "name = ref_name (Borrowed l a)"
    then show ?thesis using parse_ref_name [of "Borrowed l a"] by (auto simp: clean_alias_validate)
  qed
  then show "case reference email alias of
        Inl _ \<Rightarrow> True
      | Inr name \<Rightarrow> (\<exists>l a. parse_ref name = Inr (Borrowed l a)
          \<and> ascii_lower l = l \<and> ascii_lower a = a
          \<and> validate_alias l = Inr l \<and> validate_alias a = Inr a)"
    by (auto split: sum.split)
qed

text \<open>
  The connection files of two references are different paths: an owned alias has no slash
  and lies in the root, a borrowed one two directories below.
\<close>

lemma connection_file_inject: "connection_file root r = connection_file root q \<longleftrightarrow> r = q"
  by (cases r; cases q) auto

text \<open>An alias that is accepted is a single, printable, visible file name of at most
  128 ASCII bytes that does not leave its directory, and accepting it again changes
  nothing; the check that it is one path component never fires after the others.\<close>

theorem accepted_alias_is_file_name:
  "(case validate_alias raw of
      Inr a \<Rightarrow> a = trim raw \<and> alias_ok a \<and> validate_alias a = Inr a \<and> path_components a = [Normal a]
    | Inl e \<Rightarrow> \<not> alias_ok (trim raw) \<and> e \<noteq> AliasNotOneComponent)"
proof (cases "validate_alias raw")
  case (Inl e)
  have "\<not> alias_ok (trim raw)"
    using Inl validate_alias_Inr_iff [of raw "trim raw"] by simp
  with Inl validate_alias_component_guard [of raw] show ?thesis by simp
next
  case (Inr a)
  then have both: "a = trim raw \<and> alias_ok a" by (rule iffD1 [OF validate_alias_Inr_iff])
  have ok: "alias_ok a" by (rule conjunct2 [OF both])
  have "path_components a = [Normal a]"
    using ok by (intro path_components_one) (auto simp: alias_ok_def)
  with both validate_alias_idem [OF Inr] show ?thesis
    unfolding Inr sum.case by blast
qed

section \<open>Granting\<close>

text \<open>a loan is granted exactly when the borrower exists, is enabled and is not the
  lender, the account's weekly reset is known and ahead, the requested end (if any) lies
  between now and that reset, and the lender's email names a valid reference; the grant
  made then ends after now and no later than the reset, and is active exactly until its
  end.\<close>

theorem granted_exactly_when_allowed:
  "(\<exists>g. plan_grant r i = Inr g) = grant_allowed r
   \<and> (case plan_grant r i of
        Inl _ \<Rightarrow> \<not> grant_allowed r
      | Inr g \<Rightarrow> req_now r < g_ends_at g
          \<and> (case req_weekly_reset r of None \<Rightarrow> False | Some w \<Rightarrow> g_ends_at g \<le> w)
          \<and> g_lender g \<noteq> g_borrower g \<and> g_account_id g = req_account_id r
          \<and> (\<forall>t. active t g = (t < g_ends_at g)))"
proof -
  have "req_now r < g_ends_at g
          \<and> (case req_weekly_reset r of None \<Rightarrow> False | Some w \<Rightarrow> g_ends_at g \<le> w)
          \<and> g_lender g \<noteq> g_borrower g \<and> g_account_id g = req_account_id r
          \<and> (\<forall>t. active t g = (t < g_ends_at g))" if "plan_grant r i = Inr g" for g
    using that
    by (rule plan_grant_Inr) (auto simp: active_def fresh_def split: option.splits)
  then show ?thesis
    using plan_grant_allowed [of r i] by (auto split: sum.split)
qed

text \<open>A reference resolves to the one grant of this borrower that is active and
  carries the reference in any letter case; it is ambiguous exactly when two such grants
  exist, and resolves to nothing exactly when none does.\<close>

theorem reference_resolution:
  "(case match_reference gs b ref now of
      Inr (Some g) \<Rightarrow> filter (matches b ref now) gs = [g] \<and> g \<in> set gs \<and> active now g
        \<and> g_borrower g = b \<and> ascii_lower (g_reference g) = ascii_lower ref
    | Inr None \<Rightarrow> filter (matches b ref now) gs = []
    | Inl _ \<Rightarrow> 2 \<le> length (filter (matches b ref now) gs))
   \<and> match_reference gs b (ascii_lower ref) now = match_reference gs b ref now"
proof
  have "g \<in> set gs \<and> active now g \<and> g_borrower g = b \<and> ascii_lower (g_reference g) = ascii_lower ref"
    if "filter (matches b ref now) gs = [g]" for g
  proof -
    have "g \<in> set (filter (matches b ref now) gs)" using that by simp
    then show ?thesis by (simp add: matches_def eq_ignore_ascii_case_def)
  qed
  note found = this
  show "case match_reference gs b ref now of
      Inr (Some g) \<Rightarrow> filter (matches b ref now) gs = [g] \<and> g \<in> set gs \<and> active now g
        \<and> g_borrower g = b \<and> ascii_lower (g_reference g) = ascii_lower ref
    | Inr None \<Rightarrow> filter (matches b ref now) gs = []
    | Inl _ \<Rightarrow> 2 \<le> length (filter (matches b ref now) gs)"
  proof (cases "match_reference gs b ref now")
    case (Inl e)
    with match_reference_Inl [of gs b ref now e] show ?thesis by simp
  next
    case (Inr res)
    then show ?thesis
      using match_reference_None [of gs b ref now] match_reference_Some [of gs b ref now "the res"]
        found [of "the res"]
      by (cases res) (simp_all add: filter_empty_conv)
  qed
  have "matches b (ascii_lower ref) now = matches b ref now"
    by (simp add: fun_eq_iff matches_def eq_ignore_ascii_case_def)
  then show "match_reference gs b (ascii_lower ref) now = match_reference gs b ref now"
    by (simp add: match_reference_def)
qed

section \<open>Token requests, expiry and retention\<close>

definition key_count :: "string \<Rightarrow> file_state \<Rightarrow> nat" where
  "key_count k st = length (filter (\<lambda>e. a_coalesce_key e = Some k) (fs_audit st))"

lemma key_count_coalesced:
  assumes "coalesced es"
  shows "length (filter (\<lambda>e. a_coalesce_key e = Some k) es)
     = (if list_ex (\<lambda>e. a_coalesce_key e = Some k) es then 1 else 0)"
  using assms
proof (induction es)
  case (Cons e es)
  have tail: "coalesced es" using Cons.prems
    by (auto simp: coalesced_def List.map_filter_def split: if_splits)
  show ?case
  proof (cases "a_coalesce_key e = Some k")
    case True
    then have "\<forall>x \<in> set es. a_coalesce_key x \<noteq> Some k"
      using Cons.prems by (force simp: coalesced_def List.map_filter_def)
    with True show ?thesis by (simp add: list_ex_iff filter_empty_conv)
  next
    case False
    with Cons.IH [OF tail] show ?thesis by simp
  qed
qed simp

text \<open>A token request is granted exactly while its grant is stored, unended, unretired
  and before its end time; a granted request leaves exactly one event for its machine and
  hour however often it is repeated, a refused one changes nothing, and neither touches a
  grant.\<close>

theorem token_request_exact:
  "fst (file_issue_token at i m (ledger_after ops))
     = issuable at (bt_get (fs_loans (ledger_after ops)) i)
   \<and> fs_loans (snd (file_issue_token at i m (ledger_after ops))) = fs_loans (ledger_after ops)
   \<and> (if fst (file_issue_token at i m (ledger_after ops))
      then key_count (token_key i m (at div 3600)) (snd (file_issue_token at i m (ledger_after ops))) = 1
      else snd (file_issue_token at i m (ledger_after ops)) = ledger_after ops)"
proof -
  let ?st = "snd (file_issue_token at i m (ledger_after ops))"
  have "coalesced (fs_audit ?st)"
    using issue_token_inv [OF ledger_after_inv] by (rule ledger_invD)
  moreover have "list_ex (\<lambda>e. a_coalesce_key e = Some (token_key i m (at div 3600))) (fs_audit ?st)"
    if "fst (file_issue_token at i m (ledger_after ops))"
    using that by (auto simp: file_issue_token_def Let_def list_ex_iff)
  ultimately have "key_count (token_key i m (at div 3600)) ?st = 1"
    if "fst (file_issue_token at i m (ledger_after ops))"
    using that by (simp add: key_count_def key_count_coalesced)
  moreover have "?st = ledger_after ops" if "\<not> fst (file_issue_token at i m (ledger_after ops))"
    using that by (simp add: file_issue_token_def Let_def)
  moreover have "fst (file_issue_token at i m (ledger_after ops))
      = issuable at (bt_get (fs_loans (ledger_after ops)) i)"
    "fs_loans ?st = fs_loans (ledger_after ops)"
    by (simp_all add: file_issue_token_def Let_def)
  ultimately show ?thesis by (simp only: if_split) blast
qed

text \<open>one expiry sweep leaves no due grant. It returns exactly the due grants, each
  ended at its own end time with reason expired and no actor, rewrites those alone, and
  adds one end event for each in the same write.\<close>

theorem expiry_sweep_complete:
  "\<not> file_has_due_loans now (snd (file_expire_loans (ledger_after ops) None now (ledger_after ops)))
   \<and> fst (file_expire_loans (ledger_after ops) None now (ledger_after ops))
       = map (\<lambda>g. end_grant (g_ends_at g) None Expired g)
           (filter (due None now) (bt_values (fs_loans (ledger_after ops))))
   \<and> bt_get (fs_loans (snd (file_expire_loans (ledger_after ops) None now (ledger_after ops)))) i
       = map_option (\<lambda>g. if due None now g then end_grant (g_ends_at g) None Expired g else g)
           (bt_get (fs_loans (ledger_after ops)) i)
   \<and> fs_audit (snd (file_expire_loans (ledger_after ops) None now (ledger_after ops)))
       = fs_audit (ledger_after ops)
           @ map ended_event (fst (file_expire_loans (ledger_after ops) None now (ledger_after ops)))"
  (is "?none \<and> ?ret \<and> ?get \<and> ?aud")
proof -
  let ?st = "ledger_after ops" and ?r = "file_expire_loans (ledger_after ops) None now (ledger_after ops)"
  have ex: "map (expire_grant None now) (filter (due None now) gs)
      = map (\<lambda>g. end_grant (g_ends_at g) None Expired g) (filter (due None now) gs)" for gs
    by (simp add: expire_grant_def)
  have ret: ?ret
    by (auto simp: file_expire_loans_def Let_def ex list_ex_iff filter_empty_conv)
  have get: "bt_get (fs_loans (snd ?r)) j = map_option (expire_grant None now) (bt_get (fs_loans ?st) j)" for j
  proof (cases "list_ex (due None now) (bt_values (fs_loans ?st))")
    case True
    then show ?thesis by (simp add: file_expire_loans_def Let_def)
  next
    case False
    then have "expire_grant None now g = g" if "bt_get (fs_loans ?st) j = Some g" for g
      using that by (auto simp: file_some [OF ledger_after_inv] expire_grant_def)
    with False show ?thesis
      by (cases "bt_get (fs_loans ?st) j") (simp_all add: file_expire_loans_def)
  qed
  have inv: "ledger_inv (snd ?r)" by (rule expire_loans_inv [OF ledger_after_inv])
  have "\<not> due None now (expire_grant None now g)" for g by (auto simp: expire_grant_def due_def)
  then have ?none
    unfolding file_has_due_loans_def file_some [OF inv] get by auto
  moreover have ?get using get [of i] by (simp add: expire_grant_def [abs_def])
  moreover have ?aud by (simp add: file_expire_loans_def Let_def)
  ultimately show ?thesis using ret by blast
qed

text \<open>Retention hides and never deletes. It keeps every grant and every event in place,
  marks exactly those that ended (or happened) before the window and were not marked yet,
  and a grant that has not ended stays visible whatever its age.\<close>

theorem retention_only_hides:
  "map_option (\<lambda>g. g\<lparr>g_deleted_at := None\<rparr>)
       (bt_get (fs_loans (file_retire_loans (ledger_after ops) (sat_sub now retention_seconds) now (ledger_after ops))) i)
     = map_option (\<lambda>g. g\<lparr>g_deleted_at := None\<rparr>) (bt_get (fs_loans (ledger_after ops)) i)
   \<and> map (\<lambda>e. e\<lparr>a_deleted_at := None\<rparr>) (fs_audit (file_retire_loans (ledger_after ops) (sat_sub now retention_seconds) now (ledger_after ops)))
     = map (\<lambda>e. e\<lparr>a_deleted_at := None\<rparr>) (fs_audit (ledger_after ops))
   \<and> map_option (\<lambda>g. g_deleted_at g = None)
       (bt_get (fs_loans (file_retire_loans (ledger_after ops) (sat_sub now retention_seconds) now (ledger_after ops))) i)
     = map_option (\<lambda>g. g_deleted_at g = None \<and> \<not> retire_due_grant (sat_sub now retention_seconds) g)
         (bt_get (fs_loans (ledger_after ops)) i)
   \<and> (\<forall>g. if g_ended_at g = None then retire_grant (sat_sub now retention_seconds) now g = g else True)"
proof -
  let ?st = "ledger_after ops" and ?c = "sat_sub now retention_seconds"
  have loans: "bt_get (fs_loans (file_retire_loans ?st ?c now ?st)) i
      = map_option (retire_grant ?c now) (bt_get (fs_loans ?st) i)"
  proof (cases "list_ex (retire_due_grant ?c) (bt_values (fs_loans ?st)) \<or> list_ex (retire_due_event ?c) (fs_audit ?st)")
    case True
    then show ?thesis by (auto simp: file_retire_loans_def)
  next
    case False
    then have "retire_grant ?c now g = g" if "bt_get (fs_loans ?st) i = Some g" for g
      using that ledger_after_inv [of ops] by (auto simp: file_some retire_grant_def)
    with False show ?thesis
      by (cases "bt_get (fs_loans ?st) i") (simp_all add: file_retire_loans_def)
  qed
  have audit: "fs_audit (file_retire_loans ?st ?c now ?st) = map (retire_event ?c now) (fs_audit ?st)"
    by (auto simp: file_retire_loans_def retire_event_def list_ex_iff intro!: map_idI [symmetric])
  have erase: "(retire_grant ?c now g)\<lparr>g_deleted_at := None\<rparr> = g\<lparr>g_deleted_at := None\<rparr>" for g
    by (simp add: retire_grant_def)
  have mark: "g_deleted_at (retire_grant ?c now g) = None
      \<longleftrightarrow> g_deleted_at g = None \<and> \<not> retire_due_grant ?c g" for g
    by (simp add: retire_grant_def)
  have keep: "if g_ended_at g = None then retire_grant ?c now g = g else True" for g
    by (cases "g_ended_at g") (simp_all add: retire_grant_def retire_due_grant_def)
  show ?thesis
    unfolding loans audit option.map_comp comp_def erase mark
    by (intro conjI allI keep) (simp_all add: comp_def)
qed

text \<open>The audit page shows a user exactly the unretired events of the unretired grants
  they take part in (of the one asked for, before the time asked for), newest first, cut
  to the limit.\<close>

theorem audit_page:
  "\<exists>page. file_loan_audit u grant_id before limit (ledger_after ops) = take limit page
     \<and> sorted_wrt (\<lambda>d e. a_at e \<le> a_at d) page
     \<and> mset page = mset (filter (\<lambda>e. a_deleted_at e = None
          \<and> (\<exists>g. bt_get (fs_loans (ledger_after ops)) (a_grant_id e) = Some g
                \<and> (g_lender g = u \<or> g_borrower g = u) \<and> g_deleted_at g = None)
          \<and> (case grant_id of None \<Rightarrow> True | Some i \<Rightarrow> a_grant_id e = i)
          \<and> (case before of None \<Rightarrow> True | Some t \<Rightarrow> a_at e < t)) (fs_audit (ledger_after ops)))"
proof -
  let ?st = "ledger_after ops"
  let ?visible = "map g_id (filter (\<lambda>g. (involves u g \<and> g_deleted_at g = None)
      \<and> (case grant_id of None \<Rightarrow> True | Some i \<Rightarrow> i = g_id g)) (bt_values (fs_loans ?st)))"
  let ?events = "filter (\<lambda>e. a_deleted_at e = None \<and> a_grant_id e \<in> set ?visible
      \<and> (case before of None \<Rightarrow> True | Some t \<Rightarrow> a_at e < t)) (fs_audit ?st)"
  let ?page = "sort_key (\<lambda>e. - a_at e) (rev ?events)"
  note keyed = ledger_invD(1) [OF ledger_after_inv [of ops]]
  have seen: "i \<in> set ?visible \<longleftrightarrow> (\<exists>g. bt_get (fs_loans ?st) i = Some g
      \<and> (g_lender g = u \<or> g_borrower g = u) \<and> g_deleted_at g = None)
      \<and> (case grant_id of None \<Rightarrow> True | Some j \<Rightarrow> i = j)" for i
  proof -
    have "i \<in> set ?visible \<longleftrightarrow> (\<exists>g \<in> set (bt_values (fs_loans ?st)). i = g_id g
        \<and> involves u g \<and> g_deleted_at g = None \<and> (case grant_id of None \<Rightarrow> True | Some j \<Rightarrow> j = g_id g))"
      by auto
    also have "\<dots> \<longleftrightarrow> (\<exists>g. bt_get (fs_loans ?st) i = Some g
        \<and> involves u g \<and> g_deleted_at g = None \<and> (case grant_id of None \<Rightarrow> True | Some j \<Rightarrow> j = i))"
      using bt_keyed_get [OF keyed] by (fastforce simp: in_bt_values [OF bt_keyed_ok [OF keyed]])
    finally show ?thesis by (cases grant_id) (auto simp: involves_def)
  qed
  have listed: "?events = filter (\<lambda>e. a_deleted_at e = None
          \<and> (\<exists>g. bt_get (fs_loans ?st) (a_grant_id e) = Some g
                \<and> (g_lender g = u \<or> g_borrower g = u) \<and> g_deleted_at g = None)
          \<and> (case grant_id of None \<Rightarrow> True | Some i \<Rightarrow> a_grant_id e = i)
          \<and> (case before of None \<Rightarrow> True | Some t \<Rightarrow> a_at e < t)) (fs_audit ?st)"
    unfolding seen by (simp only: conj_assoc)
  show ?thesis
  proof (intro exI conjI)
    show "file_loan_audit u grant_id before limit ?st = take limit ?page"
      by (simp only: file_loan_audit_def Let_def)
    have "sorted (map (\<lambda>e. - a_at e) ?page)" by (rule sorted_sort_key)
    then show "sorted_wrt (\<lambda>d e. a_at e \<le> a_at d) ?page" by (simp add: sorted_wrt_map)
  qed (simp only: mset_sort mset_rev listed)
qed

end
