(* ===== verification/Leases.thy ===== *)
theory Leases
  imports LoanFacts
begin

text \<open>
  Credential custody in the central store (\<open>src/central/storage.rs\<close>): refresh leases,
  fenced credential writes, account saves, registry blobs and enrollment challenges, in
  file mode and as the PostgreSQL statements, with the contract \<open>fenced_store\<close> both meet.
  Times are whole seconds and every operation takes the clock it reads. SHA-256 and the
  vault cipher are outside \<open>src/\<close> and are the parameters \<open>digest\<close>, \<open>enc\<close> and \<open>dec\<close>. An epoch
  is a 64-bit integer of the code that grows by one with each acquisition; it is unbounded
  here, which is the same for the first \<open>2 ^ 63 - 1\<close> acquisitions of an account.
\<close>

section \<open>The configured backend\<close>

datatype store_mode = ModeFile | ModePostgres | ModeDual

datatype store_mode_error = InvalidStoreMode string

definition truthy :: "string option \<Rightarrow> bool" where
  "truthy v = (case v of
      None \<Rightarrow> False
    | Some s \<Rightarrow> ascii_lower s \<in> set [''1'', ''true'', ''yes''])"

definition store_mode_from_env ::
    "string option \<Rightarrow> string option \<Rightarrow> store_mode_error + store_mode" where
  "store_mode_from_env store dual_write =
     (let configured = ascii_lower (case store of Some s \<Rightarrow> s | None \<Rightarrow> ''file'');
          configured = (if truthy dual_write \<and> configured = ''file'' then ''dual'' else configured)
      in if configured = ''file'' then Inr ModeFile
         else if configured = ''postgres'' then Inr ModePostgres
         else if configured = ''dual'' then Inr ModeDual
         else Inl (InvalidStoreMode configured))"

fun store_mode_name :: "store_mode \<Rightarrow> string" where
  "store_mode_name ModeFile = ''file''"
| "store_mode_name ModePostgres = ''postgres''"
| "store_mode_name ModeDual = ''dual''"

section \<open>File mode\<close>

record lease =
  l_account :: string
  l_holder :: string
  l_epoch :: int

datatype store_error =
  LeaseHeldElsewhere | LeaseAccountMismatch | UndecodableAccount | UndecodablePayload
| RegistryTooLarge | RegistryUnsupported | AccountWasRemoved | WriteFenced | MirrorTaskFailed

definition file_acquire_lease ::
    "string \<Rightarrow> string \<Rightarrow> nat \<Rightarrow> nat \<Rightarrow> file_state \<Rightarrow> (store_error + lease) \<times> file_state" where
  "file_acquire_lease account holder ttl now = with_lock (\<lambda>st.
     let existing = bt_get (fs_leases st) account in
     if (case existing of None \<Rightarrow> False | Some l \<Rightarrow> now < fl_expires_at l \<and> fl_holder_id l \<noteq> holder)
     then Inl LeaseHeldElsewhere
     else
       let epoch = (case existing of None \<Rightarrow> 1 | Some l \<Rightarrow> fl_epoch l + 1)
       in Inr (\<lparr>l_account = account, l_holder = holder, l_epoch = epoch\<rparr>,
               st\<lparr>fs_leases := bt_put account
                    \<lparr>fl_holder_id = holder, fl_epoch = epoch, fl_expires_at = now + ttl\<rparr> (fs_leases st)\<rparr>))"

text \<open>Dual mode copies PostgreSQL's lease to the file.\<close>

definition file_mirror_lease :: "lease \<Rightarrow> nat \<Rightarrow> nat \<Rightarrow> file_state \<Rightarrow> file_state" where
  "file_mirror_lease l ttl now st =
     st\<lparr>fs_leases := bt_put (l_account l)
          \<lparr>fl_holder_id = l_holder l, fl_epoch = l_epoch l, fl_expires_at = now + ttl\<rparr> (fs_leases st)\<rparr>"

definition holds :: "lease \<Rightarrow> file_lease \<Rightarrow> bool" where
  "holds l current = (fl_holder_id current = l_holder l \<and> fl_epoch current = l_epoch l)"

definition file_renew :: "lease \<Rightarrow> nat \<Rightarrow> nat \<Rightarrow> file_state \<Rightarrow> bool \<times> file_state" where
  "file_renew l ttl now st =
     (case bt_get (fs_leases st) (l_account l) of
        None \<Rightarrow> (False, st)
      | Some current \<Rightarrow>
          if \<not> holds l current \<or> fl_expires_at current \<le> now then (False, st)
          else (True, st\<lparr>fs_leases := bt_put (l_account l)
                          (current\<lparr>fl_expires_at := now + ttl\<rparr>) (fs_leases st)\<rparr>))"

definition file_release_lease :: "lease \<Rightarrow> file_state \<Rightarrow> bool \<times> file_state" where
  "file_release_lease l st =
     (case bt_get (fs_leases st) (l_account l) of
        Some current \<Rightarrow>
          if holds l current
          then (True, st\<lparr>fs_leases := bt_put (l_account l) (current\<lparr>fl_expires_at := 0\<rparr>) (fs_leases st)\<rparr>)
          else (False, st)
      | None \<Rightarrow> (False, st))"

text \<open>Whether a stored account gives way to a record: unreadable bytes always do.\<close>

definition newer :: "credential_record \<Rightarrow> sealed option \<Rightarrow> bool" where
  "newer r stored =
     (case stored of
        None \<Rightarrow> True
      | Some bytes \<Rightarrow> (case unseal bytes of None \<Rightarrow> True | Some old \<Rightarrow> cr_revision old < cr_revision r))"

definition put_account :: "credential_record \<Rightarrow> file_state \<Rightarrow> file_state" where
  "put_account r st = st\<lparr>fs_accounts := bt_put (cr_account_id r) (SealedRecord r) (fs_accounts st)\<rparr>"

definition file_save_account_if_newer :: "credential_record \<Rightarrow> file_state \<Rightarrow> bool \<times> file_state" where
  "file_save_account_if_newer r st =
     (if newer r (bt_get (fs_accounts st) (cr_account_id r)) then (True, put_account r st) else (False, st))"

definition file_load_account :: "string \<Rightarrow> file_state \<Rightarrow> store_error + credential_record option" where
  "file_load_account i st =
     (case bt_get (fs_accounts st) i of
        None \<Rightarrow> Inr None
      | Some bytes \<Rightarrow> (case unseal bytes of None \<Rightarrow> Inl UndecodableAccount | Some r \<Rightarrow> Inr (Some r)))"

definition file_fenced_write ::
    "lease \<Rightarrow> credential_record \<Rightarrow> nat \<Rightarrow> file_state \<Rightarrow> (store_error + bool) \<times> file_state" where
  "file_fenced_write l r now st =
     (case bt_get (fs_leases st) (l_account l) of
        None \<Rightarrow> (Inr False, st)
      | Some current \<Rightarrow>
          if \<not> holds l current \<or> fl_expires_at current \<le> now then (Inr False, st)
          else if l_account l \<noteq> cr_account_id r then (Inl LeaseAccountMismatch, st)
          else
            let stored = bt_get (fs_accounts st) (cr_account_id r) in
            if \<not> newer r stored then
              (Inr (case stored of
                   None \<Rightarrow> False
                 | Some bytes \<Rightarrow>
                     (case unseal bytes of
                        None \<Rightarrow> False
                      | Some old \<Rightarrow> cr_revision old = cr_revision r \<and> cr_vault old = cr_vault r)), st)
            else (Inr True, put_account r st))"

definition file_save_registry :: "string \<Rightarrow> string \<Rightarrow> file_state \<Rightarrow> (store_error + unit) \<times> file_state" where
  "file_save_registry name payload st =
     (if 1024 * 1024 < length payload then (Inl RegistryTooLarge, st)
      else (Inr (), st\<lparr>fs_accounts := bt_put (''registry:'' @ name) (SealedBytes payload) (fs_accounts st)\<rparr>))"

definition file_create_enrollment ::
    "(string \<Rightarrow> string) \<Rightarrow> (string \<Rightarrow> string) \<Rightarrow> string \<Rightarrow> string \<Rightarrow> nat \<Rightarrow> nat \<Rightarrow> file_state \<Rightarrow> file_state" where
  "file_create_enrollment digest enc challenge payload ttl now st =
     st\<lparr>fs_enrollments := bt_put (digest challenge)
          \<lparr>en_payload = enc payload, en_expires_at = now + ttl, en_consumed = False\<rparr> (fs_enrollments st)\<rparr>"

text \<open>A payload that does not decrypt fails the closure, so the mark is not written.\<close>

definition file_consume_enrollment ::
    "(string \<Rightarrow> string) \<Rightarrow> (string \<Rightarrow> string option) \<Rightarrow> string \<Rightarrow> nat \<Rightarrow> file_state
      \<Rightarrow> (store_error + string option) \<times> file_state" where
  "file_consume_enrollment digest dec challenge now = with_lock (\<lambda>st.
     let hash = digest challenge in
     case bt_get (fs_enrollments st) hash of
       None \<Rightarrow> Inr (None, st)
     | Some entry \<Rightarrow>
         if en_consumed entry \<or> en_expires_at entry \<le> now then Inr (None, st)
         else
           (case dec (en_payload entry) of
              None \<Rightarrow> Inl UndecodablePayload
            | Some payload \<Rightarrow> Inr (Some payload,
                st\<lparr>fs_enrollments := bt_put hash (entry\<lparr>en_consumed := True\<rparr>) (fs_enrollments st)\<rparr>)))"

section \<open>PostgreSQL\<close>

record pg_lease =
  pgl_holder :: string
  pgl_epoch :: int
  pgl_expires_at :: nat
  pgl_released :: bool
  pgl_legacy_handoff :: bool

record pg_account =
  pga_record :: credential_record
  pga_deleted :: bool

record pg_custody =
  pc_accounts :: "(string, pg_account) btree"
  pc_leases :: "(string, pg_lease) btree"

definition pg_active :: "pg_custody \<Rightarrow> string \<Rightarrow> bool" where
  "pg_active db i = (case bt_get (pc_accounts db) i of None \<Rightarrow> False | Some a \<Rightarrow> \<not> pga_deleted a)"

text \<open>
  The ordinary claim (\<open>acquire_login_lease\<close> with no login). \<open>guard\<close> is the reset guard
  and \<open>fenced\<close> says that a login journal blocks the account; both are read from tables
  this state does not hold.
\<close>

definition pg_acquire_lease ::
    "bool \<Rightarrow> bool \<Rightarrow> string \<Rightarrow> string \<Rightarrow> nat \<Rightarrow> nat \<Rightarrow> pg_custody \<Rightarrow> (store_error + lease) \<times> pg_custody" where
  "pg_acquire_lease guard fenced account holder ttl now db =
     (let claimable = (guard \<and> pg_active db account \<and> \<not> fenced);
          put = (\<lambda>epoch. db\<lparr>pc_leases := bt_put account
             \<lparr>pgl_holder = holder, pgl_epoch = epoch, pgl_expires_at = now + ttl, pgl_released = False,
              pgl_legacy_handoff = False\<rparr> (pc_leases db)\<rparr>);
          row = (if \<not> claimable then None
                 else (case bt_get (pc_leases db) account of
                         None \<Rightarrow> Some 1
                       | Some l \<Rightarrow>
                           if pgl_expires_at l \<le> now \<or> pgl_holder l = holder
                           then Some (pgl_epoch l + 1) else None))
      in case row of
           Some epoch \<Rightarrow>
             (Inr \<lparr>l_account = account, l_holder = holder, l_epoch = epoch\<rparr>, put epoch)
         | None \<Rightarrow>
             (case bt_get (pc_accounts db) account of
                Some a \<Rightarrow> if pga_deleted a then (Inl AccountWasRemoved, db) else (Inl LeaseHeldElsewhere, db)
              | None \<Rightarrow> (Inl LeaseHeldElsewhere, db)))"

definition pg_current :: "lease \<Rightarrow> pg_lease \<Rightarrow> bool" where
  "pg_current l row = (pgl_holder row = l_holder l \<and> pgl_epoch row = l_epoch l)"

definition pg_renew :: "lease \<Rightarrow> nat \<Rightarrow> nat \<Rightarrow> pg_custody \<Rightarrow> bool \<times> pg_custody" where
  "pg_renew l ttl now db =
     (case bt_get (pc_leases db) (l_account l) of
        Some row \<Rightarrow>
          if pg_current l row \<and> now < pgl_expires_at row \<and> pg_active db (l_account l)
          then (True, db\<lparr>pc_leases := bt_put (l_account l) (row\<lparr>pgl_expires_at := now + ttl\<rparr>) (pc_leases db)\<rparr>)
          else (False, db)
      | None \<Rightarrow> (False, db))"

definition pg_release_lease :: "lease \<Rightarrow> nat \<Rightarrow> pg_custody \<Rightarrow> bool \<times> pg_custody" where
  "pg_release_lease l now db =
     (case bt_get (pc_leases db) (l_account l) of
        Some row \<Rightarrow>
          if pg_current l row
          then (True, db\<lparr>pc_leases := bt_put (l_account l)
                  (row\<lparr>pgl_expires_at := now, pgl_released := True, pgl_legacy_handoff := False\<rparr>) (pc_leases db)\<rparr>)
          else (False, db)
      | None \<Rightarrow> (False, db))"

text \<open>
  \<open>fenced_write\<close>; \<open>denied\<close> is the answer of the identity claims (\<open>record_claims\<close>), which
  rolls the transaction back.
\<close>

definition pg_fenced_write ::
    "bool \<Rightarrow> lease \<Rightarrow> credential_record \<Rightarrow> nat \<Rightarrow> pg_custody \<Rightarrow> (store_error + bool) \<times> pg_custody" where
  "pg_fenced_write denied l r now db =
     (if l_account l \<noteq> cr_account_id r then (Inl LeaseAccountMismatch, db)
      else
        let live = (case bt_get (pc_leases db) (cr_account_id r) of
                      None \<Rightarrow> False
                    | Some row \<Rightarrow> pg_current l row \<and> now < pgl_expires_at row)
        in (case bt_get (pc_accounts db) (cr_account_id r) of
              None \<Rightarrow> (Inr False, db)
            | Some a \<Rightarrow>
                if pga_deleted a \<or> \<not> live then (Inr False, db)
                else if cr_revision (pga_record a) < cr_revision r then
                  (if denied then (Inr False, db)
                   else (Inr True, db\<lparr>pc_accounts := bt_put (cr_account_id r)
                                       (a\<lparr>pga_record := r\<rparr>) (pc_accounts db)\<rparr>))
                else
                  (Inr (cr_revision (pga_record a) = cr_revision r \<and> cr_vault (pga_record a) = cr_vault r), db)))"

text \<open>\<open>save_account\<close>; \<open>claimed\<close> is the answer of \<open>check_claims\<close> and \<open>record_claims\<close>.\<close>

definition pg_save_account ::
    "(store_error + unit) \<Rightarrow> credential_record \<Rightarrow> pg_custody \<Rightarrow> (store_error + unit) \<times> pg_custody" where
  "pg_save_account claimed r db =
     (case bt_get (pc_accounts db) (cr_account_id r) of
        Some a \<Rightarrow>
          if pga_deleted a then (Inl AccountWasRemoved, db)
          else (case claimed of
              Inl e \<Rightarrow> (Inl e, db)
            | Inr _ \<Rightarrow>
                if cr_revision (pga_record a) < cr_revision r
                then (Inr (), db\<lparr>pc_accounts := bt_put (cr_account_id r) (a\<lparr>pga_record := r\<rparr>) (pc_accounts db)\<rparr>)
                else if cr_vault (pga_record a) = cr_vault r then (Inr (), db)
                else (Inl WriteFenced, db))
      | None \<Rightarrow>
          (case claimed of
             Inl e \<Rightarrow> (Inl e, db)
           | Inr _ \<Rightarrow> (Inr (), db\<lparr>pc_accounts := bt_put (cr_account_id r)
                                    \<lparr>pga_record = r, pga_deleted = False\<rparr> (pc_accounts db)\<rparr>)))"

section \<open>The fencing contract\<close>

text \<open>
  \<open>holder\<close> reads the lease of an account, \<open>revision\<close> the revision of its stored
  credential. States are ordered by what fencing relies on: an epoch never goes back, one
  epoch has one holder, and a stored revision never goes back.
\<close>

definition fence_le ::
    "('s \<Rightarrow> string \<Rightarrow> (string \<times> int) option) \<Rightarrow> ('s \<Rightarrow> string \<Rightarrow> int option) \<Rightarrow> 's \<Rightarrow> 's \<Rightarrow> bool" where
  "fence_le holder revision s t = (\<forall>a.
     (\<forall>h e. holder s a = Some (h, e) \<longrightarrow>
        (\<exists>h' e'. holder t a = Some (h', e') \<and> (e < e' \<or> e = e' \<and> h = h')))
     \<and> (\<forall>r. revision s a = Some r \<longrightarrow> (\<exists>r'. revision t a = Some r' \<and> r \<le> r')))"

lemma fence_le_refl: "fence_le holder revision s s"
  by (auto simp: fence_le_def)

lemma fence_le_trans:
  assumes "fence_le holder revision s t" and "fence_le holder revision t u"
  shows "fence_le holder revision s u"
  unfolding fence_le_def
proof (intro allI conjI impI)
  fix a h e
  assume "holder s a = Some (h, e)"
  with assms(1) obtain h1 e1 where one: "holder t a = Some (h1, e1)" "e < e1 \<or> e = e1 \<and> h = h1"
    unfolding fence_le_def by blast
  with assms(2) obtain h2 e2 where "holder u a = Some (h2, e2)" "e1 < e2 \<or> e1 = e2 \<and> h1 = h2"
    unfolding fence_le_def by blast
  with one show "\<exists>h' e'. holder u a = Some (h', e') \<and> (e < e' \<or> e = e' \<and> h = h')" by auto
next
  fix a r
  assume "revision s a = Some r"
  with assms(1) obtain r1 where one: "revision t a = Some r1" "r \<le> r1" unfolding fence_le_def by blast
  with assms(2) obtain r2 where "revision u a = Some r2" "r1 \<le> r2" unfolding fence_le_def by blast
  with one show "\<exists>r'. revision u a = Some r' \<and> r \<le> r'" by auto
qed

locale fenced_store =
  fixes step :: "'s \<Rightarrow> 'e \<Rightarrow> 's"
    and holder :: "'s \<Rightarrow> string \<Rightarrow> (string \<times> int) option"
    and revision :: "'s \<Rightarrow> string \<Rightarrow> int option"
    and publish :: "lease \<Rightarrow> credential_record \<Rightarrow> nat \<Rightarrow> 's \<Rightarrow> (store_error + bool) \<times> 's"
  assumes step_fences: "fence_le holder revision s (step s e)"
    and publish_holds: "fst (publish l r now s) = Inr True \<Longrightarrow>
      holder s (l_account l) = Some (l_holder l, l_epoch l) \<and> l_account l = cr_account_id r"
    and publish_fails: "fst (publish l r now s) \<noteq> Inr True \<Longrightarrow> snd (publish l r now s) = s"

sublocale fenced_store \<subseteq> fences: monotone_system step "\<lambda>s. True" "fence_le holder revision"
  by unfold_locales (auto intro: fence_le_refl fence_le_trans step_fences)

context fenced_store begin

text \<open>A lease that lost its account once never writes again.\<close>

lemma stale_never_writes:
  assumes "holder s a = Some (h, e)" and "l_account l = a"
    and "l_epoch l < e \<or> l_epoch l = e \<and> l_holder l \<noteq> h"
  shows "fst (publish l r now (foldl step s es)) \<noteq> Inr True"
    and "snd (publish l r now (foldl step s es)) = foldl step s es"
    and "holder (foldl step s es) a \<noteq> Some (l_holder l, l_epoch l)"
proof -
  obtain h' e' where later: "holder (foldl step s es) a = Some (h', e')" "e < e' \<or> e = e' \<and> h = h'"
    using fences.run_le [of s es] assms(1) unfolding fence_le_def by blast
  then show "holder (foldl step s es) a \<noteq> Some (l_holder l, l_epoch l)"
    using assms(3) by auto
  from later show w: "fst (publish l r now (foldl step s es)) \<noteq> Inr True"
    using publish_holds [of l r now "foldl step s es"] assms(2,3) by auto
  show "snd (publish l r now (foldl step s es)) = foldl step s es" by (rule publish_fails [OF w])
qed

lemma revision_grows:
  "revision s a = Some r \<Longrightarrow> \<exists>r'. revision (foldl step s es) a = Some r' \<and> r \<le> r'"
  using fences.run_le [of s es] unfolding fence_le_def by blast

end

section \<open>File mode meets the contract\<close>

definition file_holder :: "file_state \<Rightarrow> string \<Rightarrow> (string \<times> int) option" where
  "file_holder st a = map_option (\<lambda>l. (fl_holder_id l, fl_epoch l)) (bt_get (fs_leases st) a)"

text \<open>
  The revision of a readable account record. Registry blobs share the map under the
  prefix \<open>registry:\<close>; account ids are hexadecimal digests and never have it.
\<close>

definition file_revision :: "file_state \<Rightarrow> string \<Rightarrow> int option" where
  "file_revision st a =
     (if starts_with ''registry:'' a then None
      else (case bt_get (fs_accounts st) a of
              None \<Rightarrow> None
            | Some bytes \<Rightarrow> map_option cr_revision (unseal bytes)))"

datatype custody_op =
  Acquire string string nat nat
| Renew lease nat nat
| Release lease
| Write lease credential_record nat
| Save credential_record
| SaveRegistry string string
| CreateEnrollment string string nat nat
| ConsumeEnrollment string nat
| LoanLedger ledger_op

fun custody_step ::
    "(string \<Rightarrow> string) \<Rightarrow> (string \<Rightarrow> string) \<Rightarrow> (string \<Rightarrow> string option) \<Rightarrow> file_state \<Rightarrow> custody_op \<Rightarrow> file_state" where
  "custody_step digest enc dec st (Acquire a h ttl now) = snd (file_acquire_lease a h ttl now st)"
| "custody_step digest enc dec st (Renew l ttl now) = snd (file_renew l ttl now st)"
| "custody_step digest enc dec st (Release l) = snd (file_release_lease l st)"
| "custody_step digest enc dec st (Write l r now) = snd (file_fenced_write l r now st)"
| "custody_step digest enc dec st (Save r) = snd (file_save_account_if_newer r st)"
| "custody_step digest enc dec st (SaveRegistry n p) = snd (file_save_registry n p st)"
| "custody_step digest enc dec st (CreateEnrollment c p ttl now) =
     file_create_enrollment digest enc c p ttl now st"
| "custody_step digest enc dec st (ConsumeEnrollment c now) = snd (file_consume_enrollment digest dec c now st)"
| "custody_step digest enc dec st (LoanLedger op) = ledger_step st op"

lemmas lease_op_defs = file_acquire_lease_def file_renew_def file_release_lease_def with_lock_def holds_def

lemma ledger_step_frame [simp, step_frame]:
  "fs_leases (ledger_step st op) = fs_leases st"
  "fs_accounts (ledger_step st op) = fs_accounts st"
  "fs_enrollments (ledger_step st op) = fs_enrollments st"
  by (cases op; auto simp: ledger_ops Let_def split: option.split sum.split)+

lemma holder_moves:
  assumes "bt_get (fs_leases (custody_step d e c st op)) a \<noteq> bt_get (fs_leases st) a"
    and "bt_get (fs_leases st) a = Some l"
  shows "\<exists>l'. bt_get (fs_leases (custody_step d e c st op)) a = Some l'
     \<and> (fl_epoch l < fl_epoch l' \<or> fl_epoch l = fl_epoch l' \<and> fl_holder_id l = fl_holder_id l')"
  using assms
  by (cases op)
    (auto simp: lease_op_defs Let_def file_fenced_write_def file_save_account_if_newer_def put_account_def
      file_save_registry_def file_create_enrollment_def file_consume_enrollment_def
      split: option.splits if_splits)

lemma holder_step:
  assumes "file_holder st a = Some (h, k)"
  shows "\<exists>h' k'. file_holder (custody_step d e c st op) a = Some (h', k') \<and> (k < k' \<or> k = k' \<and> h = h')"
proof (cases "bt_get (fs_leases (custody_step d e c st op)) a = bt_get (fs_leases st) a")
  case True
  with assms show ?thesis by (auto simp: file_holder_def)
next
  case False
  obtain l where l: "bt_get (fs_leases st) a = Some l" "h = fl_holder_id l" "k = fl_epoch l"
    using assms by (auto simp: file_holder_def)
  from holder_moves [OF False l(1)] l(2,3) show ?thesis by (force simp: file_holder_def)
qed

lemma newer_put:
  assumes "newer r (bt_get (fs_accounts st) (cr_account_id r))" and "file_revision st a = Some k"
  shows "\<exists>k'. file_revision (put_account r st) a = Some k' \<and> k \<le> k'"
  using assms by (auto simp: file_revision_def put_account_def newer_def split: option.splits if_splits)

lemma revision_moves:
  assumes "file_revision st a = Some k"
  shows "\<exists>k'. file_revision (custody_step d e c st op) a = Some k' \<and> k \<le> k'"
proof (cases op)
  case (Write l r now)
  then show ?thesis
    using assms newer_put [of r st a k]
    by (auto simp: file_fenced_write_def Let_def split: option.split)
next
  case (Save r)
  then show ?thesis
    using assms newer_put [of r st a k] by (simp add: file_save_account_if_newer_def)
next
  case (SaveRegistry n p)
  have "starts_with ''registry:'' (''registry:'' @ n)" by (simp add: starts_with_def)
  with assms show ?thesis
    by (auto simp: SaveRegistry file_save_registry_def file_revision_def split: if_splits)
qed (use assms in \<open>auto simp: file_revision_def lease_op_defs Let_def file_create_enrollment_def
      file_consume_enrollment_def split: option.splits if_splits\<close>)

interpretation file_custody: fenced_store "custody_step digest enc dec" file_holder file_revision
    file_fenced_write
proof (unfold_locales, goal_cases)
  case (1 s op)
  show ?case
    unfolding fence_le_def by (intro allI conjI impI) (erule holder_step, erule revision_moves)
next
  case (2 l r now s)
  then show ?case
    by (auto simp: file_fenced_write_def file_holder_def holds_def Let_def split: option.splits if_splits)
next
  case (3 l r now s)
  then show ?case
    by (auto simp: file_fenced_write_def Let_def split: option.splits if_splits)
qed

section \<open>PostgreSQL meets the contract\<close>

text \<open>
  The statements of \<open>remove_account\<close> (\<open>storage/removal.rs\<close>) on these two tables: the row
  is marked and its revision moves on, so a stale copy never equals it; the remover's own
  lease is released.
\<close>

definition pg_tombstone :: "string \<Rightarrow> string \<Rightarrow> nat \<Rightarrow> pg_custody \<Rightarrow> pg_custody" where
  "pg_tombstone i holder now db =
     db\<lparr>pc_accounts := (case bt_get (pc_accounts db) i of
             None \<Rightarrow> pc_accounts db
           | Some a \<Rightarrow> bt_put i (a\<lparr>pga_record := (pga_record a)\<lparr>cr_revision := cr_revision (pga_record a) + 1\<rparr>,
                                  pga_deleted := True\<rparr>) (pc_accounts db)),
        pc_leases := (case bt_get (pc_leases db) i of
             None \<Rightarrow> pc_leases db
           | Some l \<Rightarrow>
               if pgl_holder l = holder
               then bt_put i (l\<lparr>pgl_released := True, pgl_expires_at := now\<rparr>) (pc_leases db)
               else pc_leases db)\<rparr>"

definition pg_holder :: "pg_custody \<Rightarrow> string \<Rightarrow> (string \<times> int) option" where
  "pg_holder db a = map_option (\<lambda>l. (pgl_holder l, pgl_epoch l)) (bt_get (pc_leases db) a)"

definition pg_revision :: "pg_custody \<Rightarrow> string \<Rightarrow> int option" where
  "pg_revision db a = map_option (\<lambda>x. cr_revision (pga_record x)) (bt_get (pc_accounts db) a)"

datatype pg_op =
  PgAcquire bool bool string string nat nat
| PgRenew lease nat nat
| PgRelease lease nat
| PgWrite bool lease credential_record nat
| PgSave "store_error + unit" credential_record
| PgTombstone string string nat

fun pg_step :: "pg_custody \<Rightarrow> pg_op \<Rightarrow> pg_custody" where
  "pg_step db (PgAcquire g f a h ttl now) = snd (pg_acquire_lease g f a h ttl now db)"
| "pg_step db (PgRenew l ttl now) = snd (pg_renew l ttl now db)"
| "pg_step db (PgRelease l now) = snd (pg_release_lease l now db)"
| "pg_step db (PgWrite denied l r now) = snd (pg_fenced_write denied l r now db)"
| "pg_step db (PgSave claimed r) = snd (pg_save_account claimed r db)"
| "pg_step db (PgTombstone i h now) = pg_tombstone i h now db"

lemmas pg_custody_defs = pg_acquire_lease_def pg_renew_def pg_release_lease_def pg_fenced_write_def
  pg_save_account_def pg_tombstone_def pg_current_def

lemma pg_holder_step:
  assumes "pg_holder db a = Some (h, k)"
  shows "\<exists>h' k'. pg_holder (pg_step db op) a = Some (h', k') \<and> (k < k' \<or> k = k' \<and> h = h')"
  using assms
  by (cases op) (auto simp: pg_custody_defs pg_holder_def Let_def split: option.splits sum.splits if_splits)

lemma pg_revision_step:
  assumes "pg_revision db a = Some k"
  shows "\<exists>k'. pg_revision (pg_step db op) a = Some k' \<and> k \<le> k'"
  using assms
  by (cases op) (auto simp: pg_custody_defs pg_revision_def Let_def split: option.splits sum.splits if_splits)

interpretation pg_custody: fenced_store pg_step pg_holder pg_revision "pg_fenced_write denied"
proof (unfold_locales, goal_cases)
  case (1 s op)
  show ?case
    unfolding fence_le_def by (intro allI conjI impI) (erule pg_holder_step, erule pg_revision_step)
next
  case (2 l r now s)
  then show ?case
    by (auto simp: pg_fenced_write_def pg_holder_def pg_current_def Let_def split: option.splits if_splits)
next
  case (3 l r now s)
  then show ?case
    by (auto simp: pg_fenced_write_def Let_def split: option.splits if_splits)
qed

text \<open>An account's tombstone is final: no later statement revives the row.\<close>

definition pg_removed :: "pg_custody \<Rightarrow> string \<Rightarrow> bool" where
  "pg_removed db i = (case bt_get (pc_accounts db) i of None \<Rightarrow> False | Some a \<Rightarrow> pga_deleted a)"

lemma pg_removed_step: "pg_removed db i \<Longrightarrow> pg_removed (pg_step db op) i"
  by (cases op) (auto simp: pg_custody_defs pg_removed_def Let_def split: option.splits sum.splits if_splits)

interpretation pg_tombstones: guarded_system pg_step "\<lambda>db. pg_removed db i"
  by unfold_locales (rule pg_removed_step)

section \<open>Properties\<close>

lemma acquired:
  assumes "file_acquire_lease a h ttl now st = (Inr l, st')"
  shows "file_holder st' a = Some (h, l_epoch l)" "l_account l = a" "l_holder l = h"
  using assms by (auto simp: file_acquire_lease_def with_lock_def Let_def file_holder_def split: if_splits)

text \<open>C7: acquiring a lease fences every other lease of the account issued before it, for
  good: whatever operations follow, such a lease never publishes a credential and changes
  nothing when it tries, and its renewals and releases are refused.\<close>

theorem older_leases_fenced:
  assumes "file_acquire_lease a h ttl now st = (Inr l, st')"
    and "l_account old = a" and "l_epoch old < l_epoch l \<or> l_epoch old = l_epoch l \<and> l_holder old \<noteq> h"
  shows "fst (file_fenced_write old r t (foldl (custody_step digest enc dec) st' ops)) \<noteq> Inr True
    \<and> snd (file_fenced_write old r t (foldl (custody_step digest enc dec) st' ops))
        = foldl (custody_step digest enc dec) st' ops
    \<and> \<not> fst (file_renew old ttl' t (foldl (custody_step digest enc dec) st' ops))
    \<and> \<not> fst (file_release_lease old (foldl (custody_step digest enc dec) st' ops))"
proof -
  note stale = file_custody.stale_never_writes [OF acquired(1) [OF assms(1)] assms(2,3)]
  have "\<not> (\<exists>cur. bt_get (fs_leases (foldl (custody_step digest enc dec) st' ops)) (l_account old) = Some cur
      \<and> holds old cur)"
    using stale(3) [of digest enc dec ops] assms(2) by (auto simp: file_holder_def holds_def)
  then show ?thesis
    using stale(1,2) by (auto simp: file_renew_def file_release_lease_def split: option.split)
qed

definition custody_start :: file_state where
  "custody_start = snd (file_acquire_lease ''acct'' ''pod1'' 60 100 empty_file_state)"

definition pod1_lease :: lease where
  "pod1_lease = \<lparr>l_account = ''acct'', l_holder = ''pod1'', l_epoch = 1\<rparr>"

definition a_record :: credential_record where
  "a_record = \<lparr>cr_account_id = ''acct'', cr_user_id = None, cr_alias = ''work'', cr_workspace = None,
     cr_login = None, cr_vault = ''v2'', cr_revision = 2\<rparr>"

lemma pod2_acquires:
  "file_acquire_lease ''acct'' ''pod2'' 60 200 custody_start
     = (Inr \<lparr>l_account = ''acct'', l_holder = ''pod2'', l_epoch = 2\<rparr>,
        snd (file_acquire_lease ''acct'' ''pod2'' 60 200 custody_start))"
  by (simp add: custody_start_def file_acquire_lease_def with_lock_def Let_def empty_file_state_def)

theorem older_leases_fenced_witness:
  "fst (file_fenced_write pod1_lease a_record 201
     (snd (file_acquire_lease ''acct'' ''pod2'' 60 200 custody_start))) \<noteq> Inr True"
  using older_leases_fenced [OF pod2_acquires, of pod1_lease a_record 201 id id Some "[]" 0]
  by (simp add: pod1_lease_def)

text \<open>A lease is granted exactly when no other holder has an unexpired one; the grant
  raises the epoch by one, and until it expires, another holder is refused while the same
  holder may acquire again with the next epoch.\<close>

theorem lease_granted_exactly_when_free:
  "(case fst (file_acquire_lease a h ttl now st) of
      Inr l \<Rightarrow>
        l = \<lparr>l_account = a, l_holder = h,
             l_epoch = (case bt_get (fs_leases st) a of None \<Rightarrow> 1 | Some cur \<Rightarrow> fl_epoch cur + 1)\<rparr>
        \<and> (case bt_get (fs_leases st) a of
             None \<Rightarrow> True | Some cur \<Rightarrow> fl_expires_at cur \<le> now \<or> fl_holder_id cur = h)
        \<and> (fst (file_acquire_lease a h' ttl' later (snd (file_acquire_lease a h ttl now st)))
              = Inl LeaseHeldElsewhere) = (later < now + ttl \<and> h' \<noteq> h)
    | Inl e \<Rightarrow>
        e = LeaseHeldElsewhere \<and> snd (file_acquire_lease a h ttl now st) = st
        \<and> (case bt_get (fs_leases st) a of
             None \<Rightarrow> False | Some cur \<Rightarrow> now < fl_expires_at cur \<and> fl_holder_id cur \<noteq> h))"
  by (auto simp: file_acquire_lease_def with_lock_def Let_def split: option.splits)

definition custody_after ::
    "(string \<Rightarrow> string) \<Rightarrow> (string \<Rightarrow> string) \<Rightarrow> (string \<Rightarrow> string option) \<Rightarrow> custody_op list \<Rightarrow> file_state" where
  "custody_after digest enc dec ops = foldl (custody_step digest enc dec) empty_file_state ops"

text \<open>the stored revision of an account never goes back: no sequence of writes, saves,
  registry blobs, lease, enrollment and loan operations replaces a readable credential by
  one of a lower revision or loses it.\<close>

theorem revisions_never_go_back:
  "case file_revision (custody_after digest enc dec ops) a of
     None \<Rightarrow> True
   | Some k \<Rightarrow> (\<exists>k'. file_revision (custody_after digest enc dec (ops @ later)) a = Some k' \<and> k \<le> k')"
  unfolding custody_after_def foldl_append
  by (auto split: option.split intro: file_custody.revision_grows)

text \<open>in PostgreSQL, once a newer lease of an account is stored no older lease of it ever
  publishes a credential, and a removed account is never published to, saved or leased
  again, whatever statements run in between.\<close>

theorem postgres_fencing_and_tombstones:
  assumes "pg_holder db a = Some (h, k)" and "pg_removed db b"
    and "l_account l = a" and "l_epoch l < k \<or> l_epoch l = k \<and> l_holder l \<noteq> h"
    and "cr_account_id r' = b"
  shows "fst (pg_fenced_write denied l r t (foldl pg_step db ops)) \<noteq> Inr True
    \<and> fst (pg_fenced_write denied l' r' t (foldl pg_step db ops)) \<noteq> Inr True
    \<and> fst (pg_save_account claimed r' (foldl pg_step db ops)) = Inl AccountWasRemoved
    \<and> fst (pg_acquire_lease guard fenced b h' ttl t (foldl pg_step db ops)) = Inl AccountWasRemoved"
proof -
  have gone: "pg_removed (foldl pg_step db ops) b" by (rule pg_tombstones.run_inv [OF assms(2)])
  have "fst (pg_fenced_write denied l r t (foldl pg_step db ops)) \<noteq> Inr True"
    by (rule pg_custody.stale_never_writes(1) [OF assms(1,3,4)])
  moreover have "fst (pg_fenced_write denied l' r' t (foldl pg_step db ops)) \<noteq> Inr True"
    "fst (pg_save_account claimed r' (foldl pg_step db ops)) = Inl AccountWasRemoved"
    "fst (pg_acquire_lease guard fenced b h' ttl t (foldl pg_step db ops)) = Inl AccountWasRemoved"
    using gone assms(5)
    by (auto simp: pg_removed_def pg_fenced_write_def pg_save_account_def pg_acquire_lease_def pg_active_def
        Let_def split: option.splits)
  ultimately show ?thesis by blast
qed

definition removed_custody :: pg_custody where
  "removed_custody =
     \<lparr>pc_accounts = [(''acct'', \<lparr>pga_record = a_record, pga_deleted = True\<rparr>)],
      pc_leases = [(''acct'', \<lparr>pgl_holder = ''pod2'', pgl_epoch = 2, pgl_expires_at = 100,
         pgl_released = True, pgl_legacy_handoff = False\<rparr>)]\<rparr>"

theorem postgres_fencing_and_tombstones_witness:
  "fst (pg_save_account (Inr ()) a_record (foldl pg_step removed_custody [PgRenew pod1_lease 60 50]))
     = Inl AccountWasRemoved"
  using postgres_fencing_and_tombstones [of removed_custody "''acct''" "''pod2''" 2 "''acct''" pod1_lease
      a_record False a_record 50 "[PgRenew pod1_lease 60 50]" pod1_lease "Inr ()" True False "''pod2''" 60]
  by (simp add: removed_custody_def pg_holder_def pg_removed_def pod1_lease_def a_record_def)

section \<open>Enrollment\<close>

fun reissues :: "(string \<Rightarrow> string) \<Rightarrow> string \<Rightarrow> custody_op \<Rightarrow> bool" where
  "reissues digest c (CreateEnrollment c' p ttl now) = (digest c' = digest c)"
| "reissues digest c _ = False"

definition spent :: "(string \<Rightarrow> string) \<Rightarrow> string \<Rightarrow> file_state \<Rightarrow> bool" where
  "spent digest c st =
     (case bt_get (fs_enrollments st) (digest c) of None \<Rightarrow> False | Some e \<Rightarrow> en_consumed e)"

lemma spent_step:
  "spent digest c st \<Longrightarrow> \<not> reissues digest c op \<Longrightarrow> spent digest c (custody_step digest enc dec st op)"
  by (cases op)
    (auto simp: spent_def lease_op_defs Let_def file_fenced_write_def file_save_account_if_newer_def
      put_account_def file_save_registry_def file_create_enrollment_def file_consume_enrollment_def
      split: option.splits if_splits)

lemma spent_run:
  "spent digest c st \<Longrightarrow> list_all (\<lambda>op. \<not> reissues digest c op) ops \<Longrightarrow>
     spent digest c (foldl (custody_step digest enc dec) st ops)"
  by (induction ops arbitrary: st) (simp_all add: spent_step)

lemma spent_refused: "spent digest c st \<Longrightarrow> fst (file_consume_enrollment digest dec c now st) = Inr None"
  by (auto simp: spent_def file_consume_enrollment_def with_lock_def Let_def split: option.splits)

text \<open>an enrollment challenge is honoured at most once: after the caller that received
  its payload, every later caller gets nothing, whatever other operations run in between,
  unless the challenge is issued again.\<close>

theorem enrollment_single_use:
  assumes "fst (file_consume_enrollment digest dec c now st) = Inr (Some p)"
    and "list_all (\<lambda>op. \<not> reissues digest c op) ops"
  shows "fst (file_consume_enrollment digest dec c later
     (foldl (custody_step digest enc dec) (snd (file_consume_enrollment digest dec c now st)) ops)) = Inr None"
proof (rule spent_refused, rule spent_run [OF _ assms(2)])
  show "spent digest c (snd (file_consume_enrollment digest dec c now st))"
    using assms(1)
    by (auto simp: spent_def file_consume_enrollment_def with_lock_def Let_def
        split: option.splits if_splits)
qed

theorem enrollment_single_use_witness:
  "fst (file_consume_enrollment id Some ''c'' 20
     (foldl (custody_step id id Some)
       (snd (file_consume_enrollment id Some ''c'' 10
          (file_create_enrollment id id ''c'' ''hello'' 60 0 empty_file_state)))
       [Acquire ''a'' ''h'' 5 15])) = Inr None"
  by (rule enrollment_single_use [where p = "''hello''"])
    (simp_all add: file_consume_enrollment_def file_create_enrollment_def with_lock_def Let_def
      empty_file_state_def)

section \<open>Dual mode\<close>

datatype account_state = AccActive credential_record | AccRemoved | AccMissing

definition pg_account_state :: "string \<Rightarrow> pg_custody \<Rightarrow> account_state" where
  "pg_account_state i db =
     (case bt_get (pc_accounts db) i of
        None \<Rightarrow> AccMissing
      | Some a \<Rightarrow> if pga_deleted a then AccRemoved else AccActive (pga_record a))"

fun account_state_active :: "account_state \<Rightarrow> store_error + credential_record option" where
  "account_state_active (AccActive r) = Inr (Some r)"
| "account_state_active AccMissing = Inr None"
| "account_state_active AccRemoved = Inl AccountWasRemoved"

definition file_account_state :: "string \<Rightarrow> file_state \<Rightarrow> store_error + account_state" where
  "file_account_state i st =
     (case file_load_account i st of
        Inl e \<Rightarrow> Inl e
      | Inr None \<Rightarrow> Inr AccMissing
      | Inr (Some r) \<Rightarrow> Inr (AccActive r))"

definition dual_account_state :: "string \<Rightarrow> file_state \<Rightarrow> pg_custody \<Rightarrow> store_error + account_state" where
  "dual_account_state i st db =
     (case pg_account_state i db of AccMissing \<Rightarrow> file_account_state i st | s \<Rightarrow> Inr s)"

definition dual_load_account :: "string \<Rightarrow> file_state \<Rightarrow> pg_custody \<Rightarrow> store_error + credential_record option" where
  "dual_load_account i st db =
     (case dual_account_state i st db of
        Inl e \<Rightarrow> Inl e
      | Inr (AccActive r) \<Rightarrow> Inr (Some r)
      | Inr AccRemoved \<Rightarrow> Inr None
      | Inr AccMissing \<Rightarrow> Inr None)"

text \<open>
  Dual mode acquires, renews and publishes in PostgreSQL and mirrors to the file in a task of its
  own, which ends, successfully or not, or is lost, before or after it wrote. A lost task fails the
  call, although PostgreSQL has committed.
\<close>

datatype mirror_task = MirrorEnded bool | MirrorLost bool

definition dual_acquire_lease ::
    "mirror_task \<Rightarrow> bool \<Rightarrow> bool \<Rightarrow> string \<Rightarrow> string \<Rightarrow> nat \<Rightarrow> nat \<Rightarrow> file_state \<times> pg_custody \<times> nat
      \<Rightarrow> (store_error + lease) \<times> file_state \<times> pg_custody \<times> nat" where
  "dual_acquire_lease task guard fenced a h ttl now s =
     (case s of (st, db, fails) \<Rightarrow>
        (case pg_acquire_lease guard fenced a h ttl now db of
           (Inl e, db') \<Rightarrow> (Inl e, st, db', fails)
         | (Inr l, db') \<Rightarrow>
             (case task of
                MirrorEnded ok \<Rightarrow>
                  (Inr l, if ok then file_mirror_lease l ttl now st else st, db', if ok then fails else Suc fails)
              | MirrorLost wrote \<Rightarrow>
                  (Inl MirrorTaskFailed, if wrote then file_mirror_lease l ttl now st else st, db', fails))))"

definition dual_renew ::
    "bool \<Rightarrow> lease \<Rightarrow> nat \<Rightarrow> nat \<Rightarrow> file_state \<times> pg_custody \<times> nat \<Rightarrow> bool \<times> file_state \<times> pg_custody \<times> nat" where
  "dual_renew ok l ttl now s =
     (case s of (st, db, fails) \<Rightarrow>
        (case pg_renew l ttl now db of
           (False, db') \<Rightarrow> (False, st, db', fails)
         | (True, db') \<Rightarrow>
             (case (if ok then file_renew l ttl now st else (False, st)) of
                (mirrored, st') \<Rightarrow> (True, st', db', if mirrored then fails else Suc fails))))"

definition dual_fenced_write ::
    "mirror_task \<Rightarrow> bool \<Rightarrow> lease \<Rightarrow> credential_record \<Rightarrow> nat \<Rightarrow> file_state \<times> pg_custody \<times> nat
      \<Rightarrow> (store_error + bool) \<times> file_state \<times> pg_custody \<times> nat" where
  "dual_fenced_write task denied l r now s =
     (case s of (st, db, fails) \<Rightarrow>
        (case pg_fenced_write denied l r now db of
           (Inr True, db') \<Rightarrow>
             (case task of
                MirrorEnded ok \<Rightarrow>
                  (case (if ok then file_fenced_write l r now st else (Inr False, st)) of
                     (mirrored, st') \<Rightarrow> (Inr True, st', db', if mirrored = Inr True then fails else Suc fails))
              | MirrorLost wrote \<Rightarrow>
                  (Inl MirrorTaskFailed, if wrote then snd (file_fenced_write l r now st) else st, db', fails))
         | (res, db') \<Rightarrow> (res, st, db', fails)))"

definition dual_release_lease ::
    "bool \<Rightarrow> lease \<Rightarrow> nat \<Rightarrow> file_state \<times> pg_custody \<times> nat \<Rightarrow> bool \<times> file_state \<times> pg_custody \<times> nat" where
  "dual_release_lease ok l now s =
     (case s of (st, db, fails) \<Rightarrow>
        (case pg_release_lease l now db of
           (released, db') \<Rightarrow>
             (released, if ok then snd (file_release_lease l st) else st, db', fails)))"

text \<open>PostgreSQL's state is as if it had been asked alone, and so is the answer, unless the task was lost.\<close>

lemma dual_acquire_primary:
  "case dual_acquire_lease task guard fenced a h ttl now (st, db, fails) of
     (res, st', db', fails') \<Rightarrow> db' = snd (pg_acquire_lease guard fenced a h ttl now db) \<and> fails \<le> fails'
       \<and> (res = fst (pg_acquire_lease guard fenced a h ttl now db) \<or> res = Inl MirrorTaskFailed \<and> (\<exists>w. task = MirrorLost w))"
  by (cases "pg_acquire_lease guard fenced a h ttl now db"; cases "fst (pg_acquire_lease guard fenced a h ttl now db)"; cases task)
    (simp_all add: dual_acquire_lease_def)

lemma dual_renew_primary:
  "case dual_renew ok l ttl now (st, db, fails) of
     (res, st', db', fails') \<Rightarrow> (res, db') = pg_renew l ttl now db \<and> fails \<le> fails'"
  by (cases "pg_renew l ttl now db"; cases "fst (pg_renew l ttl now db)"; cases "file_renew l ttl now st")
    (simp_all add: dual_renew_def)

lemma dual_release_primary:
  "case dual_release_lease ok l now (st, db, fails) of
     (res, st', db', fails') \<Rightarrow> (res, db') = pg_release_lease l now db \<and> fails' = fails"
  by (cases "pg_release_lease l now db") (simp add: dual_release_lease_def)

lemma dual_write_primary:
  "case dual_fenced_write task denied l r now (st, db, fails) of
     (res, st', db', fails') \<Rightarrow> db' = snd (pg_fenced_write denied l r now db) \<and> fails \<le> fails'
       \<and> (res = fst (pg_fenced_write denied l r now db) \<or> res = Inl MirrorTaskFailed \<and> (\<exists>w. task = MirrorLost w))"
proof -
  obtain res db' where run: "pg_fenced_write denied l r now db = (res, db')"
    by (cases "pg_fenced_write denied l r now db")
  obtain m st' where mir: "file_fenced_write l r now st = (m, st')"
    by (cases "file_fenced_write l r now st")
  consider e where "res = Inl e" | "res = Inr True" | "res = Inr False"
    by (cases res) auto
  then show ?thesis
    by cases (auto simp: dual_fenced_write_def run mir split: mirror_task.split)
qed

lemma dual_load_primary:
  "dual_load_account i st db =
     (if pg_removed db i then Inr None
      else if bt_get (pc_accounts db) i = None then file_load_account i st
      else Inr (map_option pga_record (bt_get (pc_accounts db) i)))"
proof (cases "bt_get (pc_accounts db) i")
  case None
  then show ?thesis
    by (cases "file_load_account i st"; cases "projr (file_load_account i st)")
      (simp_all add: dual_load_account_def dual_account_state_def file_account_state_def pg_account_state_def
        pg_removed_def)
next
  case (Some x)
  then show ?thesis
    by (simp add: dual_load_account_def dual_account_state_def pg_account_state_def pg_removed_def)
qed

end
