(* ===== verification/FastPath.thy ===== *)
theory FastPath
  imports Vaults Leases
begin

text \<open>
  The valid-token fast path (\<open>src/central/fast_path.rs\<close>, \<open>fast_token\<close> in
  \<open>src/central/managed.rs\<close> and the evidence table of \<open>src/central/storage.rs\<close>): serving a
  committed credential without the account lease, on evidence that a lease holder observed
  on that very revision. Durations are nanoseconds, database times microseconds.
\<close>

section \<open>Requests, responses and evidence\<close>

record token_request =
  tq_previous_revision :: "string option"
  tq_account_id :: "string option"
  tq_billing :: bool
  tq_alias :: "string option"
  tq_loan_id :: "string option"

record token_response =
  tr_user_id :: "string option"
  tr_access_token :: string
  tr_account_id :: string
  tr_plan_type :: "string option"
  tr_revision :: string
  tr_billing_class :: "billing_class option"
  tr_routing_supported :: bool
  tr_usage :: "sl_usage option"
  tr_label :: "string option"

record fast_billing =
  fb_class :: billing_class
  fb_plan_type :: "string option"
  fb_usage :: "sl_usage option"
  fb_peak :: "f64 option"
  fb_age :: nat

record fast_evidence =
  fe_auth_revision :: string
  fe_account_revision :: int
  fe_routing_supported :: bool
  fe_routing_age :: nat
  fe_billing :: "fast_billing option"

record observation =
  ob_auth_revision :: string
  ob_routing_age :: nat
  ob_billing :: "fast_billing option"

record candidate =
  ca_database :: string
  ca_auth :: json
  ca_account_revision :: int
  ca_label :: "string option"
  ca_now :: int
  ca_evidence :: "fast_evidence option"

text \<open>\<open>h_vault\<close> is the derived reader of \<open>Vault\<close>, \<open>h_to_vec\<close> is \<open>serde_json::to_vec\<close>.\<close>

record token_host = host +
  h_vault :: "json \<Rightarrow> vault option"
  h_to_vec :: "json \<Rightarrow> string option"
  h_digest :: "string \<Rightarrow> string"

definition sat_add :: "int \<Rightarrow> int \<Rightarrow> int" where "sat_add a b = clamp_i64 (a + b)"

definition nanos :: nat where "nanos = 1000000000"
definition min_remaining_seconds :: int where "min_remaining_seconds = 3600"
definition fast_evidence_max_age :: nat where "fast_evidence_max_age = 60 * nanos"
definition usage_ceiling_percent :: f64 where "usage_ceiling_percent = Fin 90"
definition canary_database :: string where "canary_database = ''codexctl_a5_canary''"

datatype fast_policy = Observed | VaultOnly

datatype miss =
  MissDisabled | MissExpiring | MissForced | MissEvidenceMissing | MissEvidenceStale | MissRouting
| MissUsageHigh | MissFenced | MissIdentity | MissReadFailed | MissRemoved | MissBusy

section \<open>The decision\<close>

definition below_ceiling :: "f64 \<Rightarrow> bool" where
  "below_ceiling used =
     (is_finite used \<and> f64_le (Fin 0) used \<and> f64_lt used usage_ceiling_percent)"

definition auth_revision :: "'h token_host_scheme \<Rightarrow> json \<Rightarrow> string option" where
  "auth_revision h auth = map_option (h_digest h) (h_to_vec h auth)"

definition observed :: "candidate \<Rightarrow> token_request \<Rightarrow> token_response \<Rightarrow> miss + token_response" where
  "observed c q token =
     (case ca_evidence c of
        None \<Rightarrow> Inl MissEvidenceMissing
      | Some e \<Rightarrow>
          if fe_auth_revision e \<noteq> tr_revision token \<or> fe_account_revision e \<noteq> ca_account_revision c
          then Inl MissEvidenceStale
          else if fast_evidence_max_age < fe_routing_age e then Inl MissEvidenceStale
          else if \<not> fe_routing_supported e then Inl MissRouting
          else
            let token = token\<lparr>tr_routing_supported := True\<rparr> in
            if \<not> tq_billing q then Inr token
            else (case fe_billing e of
                None \<Rightarrow> Inl MissEvidenceMissing
              | Some b \<Rightarrow>
                  if fast_evidence_max_age < fb_age b then Inl MissEvidenceStale
                  else if fb_class b = RateLimited
                    \<and> \<not> (case fb_peak b of None \<Rightarrow> False | Some p \<Rightarrow> below_ceiling p)
                  then Inl MissUsageHigh
                  else Inr (token\<lparr>tr_billing_class := Some (fb_class b),
                       tr_plan_type := fb_plan_type b,
                       tr_usage := map_option (\<lambda>u. u\<lparr>sl_age_seconds := fb_age b div nanos\<rparr>) (fb_usage b)\<rparr>)))"

definition plain_token ::
    "'h token_host_scheme \<Rightarrow> candidate \<Rightarrow> token_request \<Rightarrow> string \<Rightarrow> string \<Rightarrow> string \<Rightarrow> token_response" where
  "plain_token h c q access revision account =
     \<lparr>tr_user_id = None, tr_access_token = access, tr_account_id = account,
      tr_plan_type = Option.bind (token_identity h access) ti_plan, tr_revision = revision,
      tr_billing_class = (if tq_billing q then Some UnknownBilling else None),
      tr_routing_supported = False, tr_usage = None, tr_label = ca_label c\<rparr>"

definition policy_answer ::
    "fast_policy \<Rightarrow> token_response \<Rightarrow> miss + token_response \<Rightarrow> miss + token_response" where
  "policy_answer policy token r =
     (case r of
        Inr seen \<Rightarrow>
          if policy = VaultOnly \<and> tr_billing_class seen = Some UnknownBilling then Inr token else Inr seen
      | Inl m \<Rightarrow>
          if policy = VaultOnly \<and> (m = MissEvidenceMissing \<or> m = MissEvidenceStale) then Inr token else Inl m)"

definition decide ::
    "'h token_host_scheme \<Rightarrow> candidate \<Rightarrow> token_request \<Rightarrow> fast_policy \<Rightarrow> miss + token_response" where
  "decide h c q policy =
     (if policy = VaultOnly \<and> ca_database c \<noteq> canary_database then Inl MissDisabled
      else case vault_token (ca_auth c) of
        Inl _ \<Rightarrow> Inl MissIdentity
      | Inr access \<Rightarrow> (case token_expiry h access of
          None \<Rightarrow> Inl MissExpiring
        | Some expires \<Rightarrow>
            if expires < sat_add (ca_now c) min_remaining_seconds then Inl MissExpiring
            else (case auth_revision h (ca_auth c) of
              None \<Rightarrow> Inl MissIdentity
            | Some revision \<Rightarrow>
                if policy = Observed \<and> tq_previous_revision q = Some revision then Inl MissForced
                else (case vault_account h (ca_auth c) of
                  Inl _ \<Rightarrow> Inl MissIdentity
                | Inr account \<Rightarrow>
                    let token = plain_token h c q access revision account in
                    policy_answer policy token (observed c q token)))))"

text \<open>The highest use of the windows of a native rate-limit read.\<close>

definition json_index :: "string \<Rightarrow> json \<Rightarrow> json" where
  "json_index k v = (case json_get k v of None \<Rightarrow> JNull | Some w \<Rightarrow> w)"

fun json_as_f64 :: "(rat \<Rightarrow> f64) \<Rightarrow> json \<Rightarrow> f64 option" where
  "json_as_f64 rnd (JInt i) = Some (rnd (of_int i))"
| "json_as_f64 rnd (JFloat f) = Some f"
| "json_as_f64 rnd _ = None"

fun peak_over :: "(rat \<Rightarrow> f64) \<Rightarrow> json \<Rightarrow> string list \<Rightarrow> f64 option \<Rightarrow> f64 option" where
  "peak_over rnd limits [] peak = peak"
| "peak_over rnd limits (name # names) peak =
     (let window = json_index name (json_index ''rateLimits'' limits) in
      if window = JNull then peak_over rnd limits names peak
      else (case json_as_f64 rnd (json_index ''usedPercent'' window) of
          None \<Rightarrow> None
        | Some used \<Rightarrow>
            if \<not> is_finite used then None
            else peak_over rnd limits names
                   (Some (case peak of None \<Rightarrow> used | Some p \<Rightarrow> f64_max p used))))"

definition peak_used_percent :: "(rat \<Rightarrow> f64) \<Rightarrow> json \<Rightarrow> f64 option" where
  "peak_used_percent rnd limits = peak_over rnd limits [''primary'', ''secondary''] None"

section \<open>Decision counters\<close>

fun miss_label :: "miss \<Rightarrow> string" where
  "miss_label MissDisabled = ''disabled''"
| "miss_label MissExpiring = ''expiring''"
| "miss_label MissForced = ''forced''"
| "miss_label MissEvidenceMissing = ''evidence_missing''"
| "miss_label MissEvidenceStale = ''evidence_stale''"
| "miss_label MissRouting = ''routing''"
| "miss_label MissUsageHigh = ''usage_high''"
| "miss_label MissFenced = ''fenced''"
| "miss_label MissIdentity = ''identity''"
| "miss_label MissReadFailed = ''read_failed''"
| "miss_label MissRemoved = ''removed''"
| "miss_label MissBusy = ''busy''"

definition fast_results :: "string list" where
  "fast_results =
     [''served'', ''disabled'', ''expiring'', ''forced'', ''evidence_missing'', ''evidence_stale'',
      ''routing'', ''usage_high'', ''fenced'', ''identity'', ''read_failed'', ''busy'', ''removed'']"

fun position :: "'a \<Rightarrow> 'a list \<Rightarrow> nat option" where
  "position x [] = None"
| "position x (y # ys) = (if y = x then Some 0 else map_option Suc (position x ys))"

text \<open>\<open>AtomicU64::fetch_add\<close> wraps.\<close>

definition bump :: "nat \<Rightarrow> nat list \<Rightarrow> nat list" where
  "bump i counts = counts[i := (counts ! i + 1) mod 2 ^ 64]"

definition result_label :: "(miss + 'a) \<Rightarrow> string" where
  "result_label r = (case r of Inr _ \<Rightarrow> ''served'' | Inl m \<Rightarrow> miss_label m)"

definition record_result :: "(miss + 'a) \<Rightarrow> nat list \<Rightarrow> nat list" where
  "record_result r counts =
     (case position (result_label r) fast_results of None \<Rightarrow> counts | Some i \<Rightarrow> bump i counts)"

end
