(* ===== verification/TokenEvidence.thy ===== *)
theory TokenEvidence
  imports FastPath
begin

text \<open>
  The evidence table behind the fast path (\<open>central_token_evidence\<close> in
  \<open>src/central/storage.rs\<close>): a lease holder's observation upserts the row of its account,
  a fence tombstones it, and \<open>fast_token_read\<close> joins it with the committed account.
  \<open>clock_timestamp()\<close> is \<open>now\<close>, in microseconds. PostgreSQL answers an age as \<open>float8\<close>
  seconds; for the ages below ten days this keeps every microsecond, so it is the difference.
\<close>

section \<open>The table\<close>

record billing_columns =
  bc_class :: "string option"
  bc_plan :: "string option"
  bc_usage :: "sl_usage option"
  bc_peak :: "f64 option"
  bc_observed_at :: "int option"

definition no_billing :: billing_columns where
  "no_billing = \<lparr>bc_class = None, bc_plan = None, bc_usage = None, bc_peak = None, bc_observed_at = None\<rparr>"

record token_evidence =
  te_account_revision :: int
  te_auth_revision :: string
  te_routing_supported :: bool
  te_routing_observed_at :: int
  te_billing :: billing_columns
  te_deleted :: bool

record token_db =
  tb_custody :: pg_custody
  tb_evidence :: "(string, token_evidence) btree"

fun billing_class_name :: "billing_class \<Rightarrow> string" where
  "billing_class_name RateLimited = ''rate_limited''"
| "billing_class_name UsageBased = ''usage_based''"
| "billing_class_name UnknownBilling = ''unknown''"

definition billing_class_of :: "string \<Rightarrow> billing_class option" where
  "billing_class_of s = find (\<lambda>c. billing_class_name c = s) [RateLimited, UsageBased, UnknownBilling]"

lemma billing_class_of_name [simp]: "billing_class_of (billing_class_name c) = Some c"
  by (cases c) (simp_all add: billing_class_of_def)

section \<open>Writing evidence\<close>

definition age_millis :: "nat \<Rightarrow> int" where
  "age_millis age = min (int (age div 1000000)) i64_max"

definition observed_columns :: "int \<Rightarrow> observation \<Rightarrow> billing_columns" where
  "observed_columns now ob =
     (case ob_billing ob of
        None \<Rightarrow> no_billing
      | Some b \<Rightarrow> \<lparr>bc_class = Some (billing_class_name (fb_class b)), bc_plan = fb_plan_type b,
          bc_usage = map_option (\<lambda>u. u\<lparr>sl_age_seconds := 0\<rparr>) (fb_usage b),
          bc_peak = fb_peak b, bc_observed_at = Some (now - age_millis (fb_age b) * 1000)\<rparr>)"

text \<open>
  The billing columns follow a billing observation, or keep an active row's values of the
  same two revisions; anything else clears them.
\<close>

definition merged_columns :: "token_evidence \<Rightarrow> token_evidence option \<Rightarrow> billing_columns" where
  "merged_columns new old =
     (if bc_observed_at (te_billing new) \<noteq> None then te_billing new
      else (case old of
          None \<Rightarrow> te_billing new
        | Some row \<Rightarrow>
            if \<not> te_deleted row \<and> te_auth_revision row = te_auth_revision new
               \<and> te_account_revision row = te_account_revision new
            then te_billing row else no_billing))"

definition lease_live :: "lease \<Rightarrow> string \<Rightarrow> int \<Rightarrow> pg_custody \<Rightarrow> bool" where
  "lease_live l account now db =
     (case bt_get (pc_leases db) account of
        None \<Rightarrow> False | Some row \<Rightarrow> pg_current l row \<and> now < int (pgl_expires_at row))"

definition record_observation ::
    "lease \<Rightarrow> string \<Rightarrow> int \<Rightarrow> observation \<Rightarrow> int \<Rightarrow> token_db \<Rightarrow> token_db" where
  "record_observation l account revision ob now db =
     (if \<not> lease_live l account now (tb_custody db) then db
      else
        let new = \<lparr>te_account_revision = revision, te_auth_revision = ob_auth_revision ob,
                   te_routing_supported = True,
                   te_routing_observed_at = now - age_millis (ob_routing_age ob) * 1000,
                   te_billing = observed_columns now ob, te_deleted = False\<rparr>
        in db\<lparr>tb_evidence := bt_put account
                (new\<lparr>te_billing := merged_columns new (bt_get (tb_evidence db) account)\<rparr>) (tb_evidence db)\<rparr>)"

definition clear_token_evidence :: "string \<Rightarrow> token_db \<Rightarrow> token_db" where
  "clear_token_evidence account db =
     (case bt_get (tb_evidence db) account of
        None \<Rightarrow> db
      | Some e \<Rightarrow> db\<lparr>tb_evidence := bt_put account (e\<lparr>te_deleted := True\<rparr>) (tb_evidence db)\<rparr>)"

section \<open>Reading without a lease\<close>

record fast_read =
  fr_database :: string
  fr_user_id :: "string option"
  fr_alias :: string
  fr_revision :: int
  fr_vault :: json
  fr_fenced :: bool
  fr_evidence :: "fast_evidence option"
  fr_now :: int

definition age_nanos :: "int \<Rightarrow> int \<Rightarrow> nat" where
  "age_nanos now at_time = nat (max 0 (now - at_time)) * 1000"

text \<open>\<open>None\<close> is a billing class that does not read, which fails the whole read.\<close>

definition read_billing :: "int \<Rightarrow> billing_columns \<Rightarrow> fast_billing option option" where
  "read_billing now bc =
     (case (bc_class bc, bc_observed_at bc) of
        (Some name, Some seen_at) \<Rightarrow> map_option (\<lambda>c. Some
           \<lparr>fb_class = c, fb_plan_type = bc_plan bc, fb_usage = bc_usage bc, fb_peak = bc_peak bc,
            fb_age = age_nanos now seen_at\<rparr>) (billing_class_of name)
      | _ \<Rightarrow> Some None)"

definition read_evidence :: "int \<Rightarrow> token_evidence option \<Rightarrow> fast_evidence option option" where
  "read_evidence now row =
     (case row of
        None \<Rightarrow> Some None
      | Some e \<Rightarrow> map_option (\<lambda>b. Some
          \<lparr>fe_auth_revision = te_auth_revision e, fe_account_revision = te_account_revision e,
           fe_routing_supported = te_routing_supported e,
           fe_routing_age = age_nanos now (te_routing_observed_at e), fe_billing = b\<rparr>)
          (read_billing now (te_billing e)))"

definition epoch_seconds :: "int \<Rightarrow> int" where
  "epoch_seconds now = (now + 500000) div 1000000"

datatype read_failure = ReadRemoved | ReadBroken

text \<open>
  \<open>fenced\<close> is the login fence of the account, read from the login journal; \<open>decode\<close>
  decrypts a stored vault and parses it.
\<close>

definition pg_fast_token_read ::
    "string \<Rightarrow> (string \<Rightarrow> json option) \<Rightarrow> bool \<Rightarrow> int \<Rightarrow> string \<Rightarrow> token_db
      \<Rightarrow> read_failure + fast_read option" where
  "pg_fast_token_read database decode fenced now account db =
     (case bt_get (pc_accounts (tb_custody db)) account of
        None \<Rightarrow> Inr None
      | Some a \<Rightarrow>
          if pga_deleted a then Inl ReadRemoved
          else (case decode (cr_vault (pga_record a)) of
              None \<Rightarrow> Inl ReadBroken
            | Some v \<Rightarrow>
                (case read_evidence now (Option.bind (bt_get (tb_evidence db) account)
                         (\<lambda>e. if te_deleted e then None else Some e)) of
                   None \<Rightarrow> Inl ReadBroken
                 | Some e \<Rightarrow> Inr (Some
                     \<lparr>fr_database = database, fr_user_id = cr_user_id (pga_record a),
                      fr_alias = cr_alias (pga_record a), fr_revision = cr_revision (pga_record a),
                      fr_vault = v, fr_fenced = fenced, fr_evidence = e, fr_now = epoch_seconds now\<rparr>))))"

definition store_fast_token_read ::
    "store_mode \<Rightarrow> (read_failure + fast_read option) \<Rightarrow> read_failure + fast_read option" where
  "store_fast_token_read mode pg = (if mode = ModePostgres then pg else Inr None)"

text \<open>\<open>account_revision\<close> and \<open>lease_held_elsewhere\<close>, for a request that lost the lease.\<close>

definition account_revision :: "store_mode \<Rightarrow> string \<Rightarrow> token_db \<Rightarrow> read_failure + int option" where
  "account_revision mode account db =
     (if mode = ModeFile then Inr None
      else (case bt_get (pc_accounts (tb_custody db)) account of
          None \<Rightarrow> Inr None
        | Some a \<Rightarrow> if pga_deleted a then Inl ReadRemoved else Inr (Some (cr_revision (pga_record a)))))"

definition lease_held_elsewhere :: "store_mode \<Rightarrow> string \<Rightarrow> string \<Rightarrow> int \<Rightarrow> token_db \<Rightarrow> bool" where
  "lease_held_elsewhere mode account holder now db =
     (if mode = ModeFile then False
      else (case bt_get (pc_leases (tb_custody db)) account of
          None \<Rightarrow> False
        | Some row \<Rightarrow> pgl_holder row \<noteq> holder \<and> \<not> pgl_released row \<and> now < int (pgl_expires_at row)))"

section \<open>The lease-free token\<close>

text \<open>
  The owner on this replica: probed without waiting (\<open>None\<close> when it is busy), or held by
  the caller. The pair is \<open>available\<close> and \<open>routing_refused\<close>.
\<close>

datatype local_owner = Probe "(bool \<times> bool) option" | LockedOwner bool bool

fun local_fence :: "local_owner \<Rightarrow> bool option" where
  "local_fence (Probe None) = None"
| "local_fence (Probe (Some (available, refused))) = Some (\<not> available \<or> refused)"
| "local_fence (LockedOwner available refused) = Some (\<not> available \<or> refused)"

definition vault_agrees :: "'h token_host_scheme \<Rightarrow> vault \<Rightarrow> string option \<Rightarrow> bool" where
  "vault_agrees h v requested =
     (case requested of
        None \<Rightarrow> True
      | Some i \<Rightarrow> (case vault_account h (v_auth v) of Inl _ \<Rightarrow> False | Inr held \<Rightarrow> held = i))"

definition fast_token ::
    "'h token_host_scheme \<Rightarrow> (read_failure + fast_read option) option \<Rightarrow> local_owner \<Rightarrow> string \<Rightarrow> string
      \<Rightarrow> token_request \<Rightarrow> fast_policy \<Rightarrow> miss + (token_response \<times> string)" where
  "fast_token h central owner user alias q policy =
     (case central of
        None \<Rightarrow> Inl MissDisabled
      | Some (Inl ReadRemoved) \<Rightarrow> Inl MissRemoved
      | Some (Inl ReadBroken) \<Rightarrow> Inl MissReadFailed
      | Some (Inr None) \<Rightarrow> Inl MissIdentity
      | Some (Inr (Some r)) \<Rightarrow>
          if fr_fenced r then Inl MissFenced
          else if fr_user_id r \<noteq> Some user \<or> \<not> eq_ignore_ascii_case (trim (fr_alias r)) alias
          then Inl MissIdentity
          else (case h_vault h (fr_vault r) of
              None \<Rightarrow> Inl MissIdentity
            | Some v \<Rightarrow>
                if \<not> v_verified v then Inl MissFenced
                else if \<not> vault_agrees h v (tq_account_id q) then Inl MissIdentity
                else (case local_fence owner of
                    None \<Rightarrow> Inl MissBusy
                  | Some fenced \<Rightarrow>
                      if fenced then Inl MissFenced
                      else (case decide h \<lparr>ca_database = fr_database r, ca_auth = v_auth v,
                                ca_account_revision = fr_revision r, ca_label = v_label v,
                                ca_now = fr_now r, ca_evidence = fr_evidence r\<rparr> q policy of
                              Inl m \<Rightarrow> Inl m
                            | Inr token \<Rightarrow> Inr (token, fr_alias r)))))"

text \<open>What a request observed of the credential it is about to publish.\<close>

record owner_facts =
  of_auth :: json
  of_routing_observed :: bool
  of_limits_observed :: "(nat \<times> string) option"
  of_limits :: "json option"

definition observation_of ::
    "'h token_host_scheme \<Rightarrow> (rat \<Rightarrow> f64) \<Rightarrow> owner_facts \<Rightarrow> ('e + token_response) \<Rightarrow> nat \<Rightarrow> nat
      \<Rightarrow> observation option" where
  "observation_of h rnd owner result observed_from now =
     (case result of
        Inl _ \<Rightarrow> None
      | Inr token \<Rightarrow> (case auth_revision h (of_auth owner) of
            None \<Rightarrow> None
          | Some published \<Rightarrow>
              if \<not> of_routing_observed owner \<or> \<not> tr_routing_supported token
                 \<or> tr_revision token \<noteq> published then None
              else Some \<lparr>ob_auth_revision = tr_revision token, ob_routing_age = now - observed_from,
                ob_billing = Option.bind (tr_billing_class token) (\<lambda>class.
                  Option.bind (of_limits_observed owner) (\<lambda>(seen_at, revision).
                    if revision = tr_revision token
                    then Some \<lparr>fb_class = class, fb_plan_type = tr_plan_type token,
                           fb_usage = tr_usage token,
                           fb_peak = Option.bind (of_limits owner) (peak_used_percent rnd),
                           fb_age = now - seen_at\<rparr>
                    else None))\<rparr>))"

end
