(* ===== verification/TokenFacts.thy ===== *)
theory TokenFacts
  imports TokenEvidence
begin

text \<open>
  What a token served without the lease can be trusted for: its remaining life, the
  committed credential it came from, and that the routing and billing it states were
  observed by a lease holder on that very revision within the last minute.
\<close>

section \<open>Inversion of the decision\<close>

lemma observed_cases:
  assumes "observed c q token = Inr t"
  obtains e where "ca_evidence c = Some e" "fe_auth_revision e = tr_revision token"
    "fe_account_revision e = ca_account_revision c" "fe_routing_age e \<le> fast_evidence_max_age"
    "fe_routing_supported e" "tr_routing_supported t"
    "tr_access_token t = tr_access_token token" "tr_revision t = tr_revision token"
    "tr_account_id t = tr_account_id token"
    "\<not> tq_billing q \<and> tr_billing_class t = tr_billing_class token
     \<or> (tq_billing q \<and> (\<exists>b. fe_billing e = Some b \<and> fb_age b \<le> fast_evidence_max_age
          \<and> tr_billing_class t = Some (fb_class b)
          \<and> (fb_class b = RateLimited \<longrightarrow> (\<exists>p. fb_peak b = Some p \<and> below_ceiling p))))"
  using assms
  by (auto simp: observed_def Let_def split: option.splits if_splits)

lemma decide_cases:
  assumes "decide h c q policy = Inr t"
  obtains access expires revision account where
    "vault_token (ca_auth c) = Inr access" "token_expiry h access = Some expires"
    "sat_add (ca_now c) min_remaining_seconds \<le> expires" "auth_revision h (ca_auth c) = Some revision"
    "vault_account h (ca_auth c) = Inr account"
    "policy = VaultOnly \<Longrightarrow> ca_database c = canary_database"
    "policy = Observed \<Longrightarrow> tq_previous_revision q \<noteq> Some revision"
    "policy_answer policy (plain_token h c q access revision account)
       (observed c q (plain_token h c q access revision account)) = Inr t"
proof -
  have disabled: "\<not> (policy = VaultOnly \<and> ca_database c \<noteq> canary_database)"
    using assms unfolding decide_def by (rule contrapos_pn) simp
  then have chain: "(case vault_token (ca_auth c) of
        Inl _ \<Rightarrow> Inl MissIdentity
      | Inr access \<Rightarrow> (case token_expiry h access of
          None \<Rightarrow> Inl MissExpiring
        | Some expires \<Rightarrow>
            if expires < sat_add (ca_now c) min_remaining_seconds then Inl MissExpiring
            else (case auth_revision h (ca_auth c) of
              None \<Rightarrow> Inl MissIdentity
            | Some revision \<Rightarrow>
                if policy = Observed \<and> tq_previous_revision q = Some revision then Inl MissForced
                else (case vault_account h (ca_auth c) of
                  Inl _ \<Rightarrow> Inl MissIdentity
                | Inr account \<Rightarrow>
                    let token = plain_token h c q access revision account in
                    policy_answer policy token (observed c q token))))) = Inr t"
    using assms unfolding decide_def by simp
  show ?thesis
    using chain disabled
    by (auto simp: Let_def split: sum.splits option.splits if_splits intro: that)
qed

lemma policy_answer_cases:
  assumes "policy_answer policy token r = Inr t"
  shows "r = Inr t \<or> (policy = VaultOnly \<and> t = token)"
  using assms by (auto simp: policy_answer_def split: sum.splits if_splits)

text \<open>Either the evidence carried the answer, or the canary vault policy served it bare.\<close>

lemma decide_answers:
  assumes "decide h c q policy = Inr t"
  obtains (Evidence) token where "observed c q token = Inr t"
      "vault_token (ca_auth c) = Inr (tr_access_token token)" "auth_revision h (ca_auth c) = Some (tr_revision token)"
      "tr_billing_class token = (if tq_billing q then Some UnknownBilling else None)"
  | (Bare) "policy = VaultOnly" "ca_database c = canary_database" "\<not> tr_routing_supported t"
      "tr_usage t = None" "tr_billing_class t = (if tq_billing q then Some UnknownBilling else None)"
      "vault_token (ca_auth c) = Inr (tr_access_token t)" "auth_revision h (ca_auth c) = Some (tr_revision t)"
  using assms
proof (cases rule: decide_cases)
  case (1 access expires revision account)
  note facts = 1 and sel = policy_answer_cases [OF 1(8)]
  let ?p = "plain_token h c q access revision account"
  from sel show ?thesis
  proof
    assume "observed c q ?p = Inr t"
    then show ?thesis using facts(1,4) by (intro Evidence [of ?p]) (simp_all add: plain_token_def)
  next
    assume "policy = VaultOnly \<and> t = ?p"
    then show ?thesis using facts(1,4,6) by (intro Bare) (simp_all add: plain_token_def)
  qed
qed

lemma decide_lives:
  assumes "decide h c q policy = Inr t"
  obtains expires where "vault_token (ca_auth c) = Inr (tr_access_token t)"
    "auth_revision h (ca_auth c) = Some (tr_revision t)" "token_expiry h (tr_access_token t) = Some expires"
    "sat_add (ca_now c) min_remaining_seconds \<le> expires"
proof (rule decide_cases [OF assms], goal_cases)
  case (1 access expires revision account)
  from assms have "vault_token (ca_auth c) = Inr (tr_access_token t)
      \<and> auth_revision h (ca_auth c) = Some (tr_revision t)"
  proof (cases rule: decide_answers)
    case (Evidence token)
    then show ?thesis by (cases rule: observed_cases) simp_all
  qed simp_all
  with 1 show ?case by (auto intro: that)
qed

text \<open>\<open>saturating_add\<close>: below the top of \<open>i64\<close> the token keeps the full hour.\<close>

lemma sat_add_hour:
  assumes "0 \<le> now" "now \<le> i64_max - 3600"
  shows "sat_add now min_remaining_seconds = now + 3600"
  using assms by (simp add: sat_add_def clamp_i64_def min_remaining_seconds_def i64_max_def i64_min_def)

section \<open>Where evidence comes from\<close>

text \<open>
  A history of the database: observations by lease holders, tombstones, and every other
  change of accounts and leases (\<open>pg_step\<close>, in \<open>Leases\<close>), which leaves evidence alone.
\<close>

datatype evidence_op =
  Observe lease string int observation int
| Tombstone string
| Custody pg_op

fun evidence_step :: "token_db \<Rightarrow> evidence_op \<Rightarrow> token_db" where
  "evidence_step db (Observe l account revision ob now) = record_observation l account revision ob now db"
| "evidence_step db (Tombstone account) = clear_token_evidence account db"
| "evidence_step db (Custody op) = db\<lparr>tb_custody := pg_step (tb_custody db) op\<rparr>"

definition evidence_run :: "token_db \<Rightarrow> evidence_op list \<Rightarrow> token_db" where
  "evidence_run db ops = foldl evidence_step db ops"

lemma evidence_run_simps [simp]:
  "evidence_run db [] = db" "evidence_run db (ops @ [op]) = evidence_step (evidence_run db ops) op"
  by (simp_all add: evidence_run_def)

text \<open>An observation of the account in the history, written while its lease was live.\<close>

definition observed_in :: "token_db \<Rightarrow> evidence_op list \<Rightarrow> string \<Rightarrow> int \<Rightarrow> observation \<Rightarrow> int \<Rightarrow> bool" where
  "observed_in db ops account revision ob t =
     (\<exists>l before rest. ops = before @ Observe l account revision ob t # rest
        \<and> lease_live l account t (tb_custody (evidence_run db before)))"

lemma observed_in_later: "observed_in db ops account revision ob t \<Longrightarrow> observed_in db (ops @ [op]) account revision ob t"
  unfolding observed_in_def by fastforce

lemma observed_in_now:
  "lease_live l account t (tb_custody (evidence_run db ops)) \<Longrightarrow>
     observed_in db (ops @ [Observe l account revision ob t]) account revision ob t"
  unfolding observed_in_def by blast

definition routing_backed :: "token_db \<Rightarrow> evidence_op list \<Rightarrow> string \<Rightarrow> token_evidence \<Rightarrow> bool" where
  "routing_backed db ops account e =
     (\<exists>ob t. observed_in db ops account (te_account_revision e) ob t \<and> ob_auth_revision ob = te_auth_revision e
        \<and> te_routing_observed_at e = t - age_millis (ob_routing_age ob) * 1000)"

definition billing_backed :: "token_db \<Rightarrow> evidence_op list \<Rightarrow> string \<Rightarrow> token_evidence \<Rightarrow> bool" where
  "billing_backed db ops account e =
     (bc_observed_at (te_billing e) = None
      \<or> (\<exists>ob t b. observed_in db ops account (te_account_revision e) ob t
           \<and> ob_auth_revision ob = te_auth_revision e \<and> ob_billing ob = Some b
           \<and> te_billing e = observed_columns t ob))"

lemma backed_later:
  "routing_backed db ops account e \<Longrightarrow> routing_backed db (ops @ [op]) account e"
  "billing_backed db ops account e \<Longrightarrow> billing_backed db (ops @ [op]) account e"
  unfolding routing_backed_def billing_backed_def by (blast intro: observed_in_later)+

lemma backed_deleted [simp]:
  "routing_backed db ops account (e\<lparr>te_deleted := d\<rparr>) = routing_backed db ops account e"
  "billing_backed db ops account (e\<lparr>te_deleted := d\<rparr>) = billing_backed db ops account e"
  by (simp_all add: routing_backed_def billing_backed_def)

lemma observed_columns_at: "bc_observed_at (observed_columns t ob) \<noteq> None \<Longrightarrow> \<exists>b. ob_billing ob = Some b"
  by (cases "ob_billing ob") (simp_all add: observed_columns_def no_billing_def)

lemma merged_backed:
  assumes old: "\<And>row. old = Some row \<Longrightarrow> billing_backed db ops account row"
    and new: "te_billing new = observed_columns t ob" "te_auth_revision new = ob_auth_revision ob"
      "observed_in db (ops @ [op]) account (te_account_revision new) ob t"
  shows "billing_backed db (ops @ [op]) account (new\<lparr>te_billing := merged_columns new old\<rparr>)"
proof (cases "bc_observed_at (te_billing new) = None")
  case False
  then show ?thesis
    using new observed_columns_at [of t ob] by (auto simp: merged_columns_def billing_backed_def)
next
  case True
  show ?thesis
  proof (cases old)
    case None
    with True show ?thesis by (simp add: merged_columns_def billing_backed_def)
  next
    case (Some row)
    have "billing_backed db (ops @ [op]) account row"
      using old [OF Some] by (rule backed_later)
    then have "te_auth_revision row = te_auth_revision new \<Longrightarrow> te_account_revision row = te_account_revision new \<Longrightarrow>
        billing_backed db (ops @ [op]) account (new\<lparr>te_billing := te_billing row\<rparr>)"
      unfolding billing_backed_def by simp
    moreover have "billing_backed db (ops @ [op]) account (new\<lparr>te_billing := no_billing\<rparr>)"
      by (simp add: billing_backed_def no_billing_def)
    ultimately show ?thesis
      using True Some by (simp add: merged_columns_def)
  qed
qed

lemma evidence_backed:
  assumes "tb_evidence db = []"
  shows "bt_get (tb_evidence (evidence_run db ops)) account = Some e
    \<Longrightarrow> routing_backed db ops account e \<and> billing_backed db ops account e"
proof (induction ops arbitrary: e rule: rev_induct)
  case Nil
  with assms show ?case by simp
next
  case (snoc op ops)
  let ?db = "evidence_run db ops"
  have keep: ?case if "bt_get (tb_evidence ?db) account = Some e'" "e = e'\<lparr>te_deleted := d\<rparr>" for e' d
    using snoc.IH [OF that(1)] that(2) by (simp add: backed_later)
  have same: ?case if "bt_get (tb_evidence ?db) account = Some e"
    using keep [OF that, of "te_deleted e"] by simp
  show ?case
  proof (cases op)
    case (Custody cop)
    with snoc.prems same show ?thesis by simp
  next
    case (Tombstone a)
    with snoc.prems same keep show ?thesis
      by (auto simp: clear_token_evidence_def split: option.splits if_splits)
  next
    case op: (Observe l a revision ob t)
    show ?thesis
    proof (cases "lease_live l a t (tb_custody ?db) \<and> a = account")
      case False
      with snoc.prems op same show ?thesis
        by (auto simp: record_observation_def Let_def split: if_splits)
    next
      case True
      define new where "new = \<lparr>te_account_revision = revision, te_auth_revision = ob_auth_revision ob,
          te_routing_supported = True, te_routing_observed_at = t - age_millis (ob_routing_age ob) * 1000,
          te_billing = observed_columns t ob, te_deleted = False\<rparr>"
      let ?old = "bt_get (tb_evidence ?db) account"
      from True have live: "lease_live l account t (tb_custody ?db)" and a: "a = account" by auto
      from snoc.prems op live have e: "e = new\<lparr>te_billing := merged_columns new ?old\<rparr>"
        by (simp add: a record_observation_def Let_def new_def)
      have seen: "observed_in db (ops @ [op]) account revision ob t"
        unfolding op a using live by (rule observed_in_now)
      have "billing_backed db (ops @ [op]) account e"
        unfolding e by (rule merged_backed [where t = t and ob = ob])
          (use snoc.IH seen in \<open>simp_all add: new_def\<close>)
      moreover have "routing_backed db (ops @ [op]) account e"
        unfolding routing_backed_def e using seen by (auto simp: new_def)
      ultimately show ?thesis by simp
    qed
  qed
qed

section \<open>What a served token rests on\<close>

lemma fast_token_cases:
  assumes "fast_token h central owner user alias q policy = Inr (t, al)"
  obtains r v where "central = Some (Inr (Some r))" "\<not> fr_fenced r" "fr_user_id r = Some user"
    "eq_ignore_ascii_case (trim (fr_alias r)) alias" "h_vault h (fr_vault r) = Some v" "v_verified v"
    "vault_agrees h v (tq_account_id q)" "local_fence owner = Some False" "al = fr_alias r"
    "decide h \<lparr>ca_database = fr_database r, ca_auth = v_auth v, ca_account_revision = fr_revision r,
       ca_label = v_label v, ca_now = fr_now r, ca_evidence = fr_evidence r\<rparr> q policy = Inr t"
  using assms
  by (auto simp: fast_token_def split: option.splits sum.splits read_failure.splits if_splits)

lemma pg_fast_token_read_cases:
  assumes "pg_fast_token_read database decode fenced now account db = Inr (Some r)"
  obtains a where "bt_get (pc_accounts (tb_custody db)) account = Some a" "\<not> pga_deleted a"
    "decode (cr_vault (pga_record a)) = Some (fr_vault r)" "fr_user_id r = cr_user_id (pga_record a)"
    "fr_alias r = cr_alias (pga_record a)" "fr_revision r = cr_revision (pga_record a)"
    "fr_fenced r = fenced" "fr_database r = database" "fr_now r = epoch_seconds now"
    "read_evidence now (Option.bind (bt_get (tb_evidence db) account)
       (\<lambda>e. if te_deleted e then None else Some e)) = Some (fr_evidence r)"
  using assms
  by (auto simp: pg_fast_token_read_def split: option.splits if_splits)

lemma read_evidence_cases:
  assumes "read_evidence now (Option.bind row (\<lambda>e. if te_deleted e then None else Some e)) = Some (Some f)"
  obtains e where "row = Some e" "\<not> te_deleted e" "fe_auth_revision f = te_auth_revision e"
    "fe_account_revision f = te_account_revision e" "fe_routing_age f = age_nanos now (te_routing_observed_at e)"
    "read_billing now (te_billing e) = Some (fe_billing f)"
  using assms
  by (auto simp: read_evidence_def split: option.splits if_splits bind_splits)

lemma read_billing_observed:
  assumes "read_billing now (observed_columns t ob) = Some (Some b)"
  shows "\<exists>c. ob_billing ob = Some c \<and> fb_class c = fb_class b \<and> fb_peak c = fb_peak b
    \<and> fb_age b = age_nanos now (t - age_millis (fb_age c) * 1000)"
  using assms
  by (cases "ob_billing ob") (auto simp: read_billing_def observed_columns_def no_billing_def)

lemma read_billing_at: "read_billing now bc = Some (Some b) \<Longrightarrow> bc_observed_at bc \<noteq> None"
  by (auto simp: read_billing_def split: option.splits)

lemma age_within_minute:
  "age_nanos now at_time \<le> fast_evidence_max_age \<Longrightarrow> now - at_time \<le> 60000000"
  by (auto simp: age_nanos_def fast_evidence_max_age_def nanos_def)

lemma routing_observed:
  assumes "routing_backed db ops account e" "age_nanos now (te_routing_observed_at e) \<le> fast_evidence_max_age"
    and "te_account_revision e = revision" "te_auth_revision e = auth"
  shows "\<exists>ob seen. observed_in db ops account revision ob seen \<and> ob_auth_revision ob = auth
          \<and> now - (seen - age_millis (ob_routing_age ob) * 1000) \<le> 60000000"
proof -
  from assms(1) obtain ob seen where "observed_in db ops account (te_account_revision e) ob seen"
      "ob_auth_revision ob = te_auth_revision e"
      "te_routing_observed_at e = seen - age_millis (ob_routing_age ob) * 1000"
    unfolding routing_backed_def by blast
  with assms(2-4) age_within_minute show ?thesis by metis
qed

lemma billing_observed:
  assumes "billing_backed db ops account e" "read_billing now (te_billing e) = Some (Some b)"
    and "fb_age b \<le> fast_evidence_max_age" "te_account_revision e = revision" "te_auth_revision e = auth"
  shows "\<exists>ob seen c. observed_in db ops account revision ob seen
          \<and> ob_auth_revision ob = auth \<and> ob_billing ob = Some c \<and> fb_class c = fb_class b
          \<and> fb_peak c = fb_peak b \<and> now - (seen - age_millis (fb_age c) * 1000) \<le> 60000000"
proof -
  from assms(1) read_billing_at [OF assms(2)] obtain ob seen
    where ob: "observed_in db ops account (te_account_revision e) ob seen"
      "ob_auth_revision ob = te_auth_revision e" "te_billing e = observed_columns seen ob"
    unfolding billing_backed_def by blast
  from read_billing_observed [of now seen ob b] assms(2) ob(3)
  obtain c where "ob_billing ob = Some c" "fb_class c = fb_class b" "fb_peak c = fb_peak b"
    "fb_age b = age_nanos now (seen - age_millis (fb_age c) * 1000)" by auto
  with ob assms(3-5) age_within_minute show ?thesis by metis
qed

text \<open>C3: a token served without the lease comes from the committed, verified, unfenced
  credential of an account that exists, under the user and the alias asked for, and it keeps
  the required hour of life. Whether it was the canary policy or not, the routing it states
  was observed on that very credential and account revision by a writer that held the
  account's lease, and so was the billing class it states; both observations were less than a
  minute old, and an account near its limit was left to a live read.\<close>
theorem served_token_is_backed:
  assumes "fast_token h (Some (store_fast_token_read mode
        (pg_fast_token_read database decode fenced now account (evidence_run start ops)))) owner user alias q policy
      = Inr (t, al)"
    and "tb_evidence start = []"
  shows "mode = ModePostgres \<and> \<not> fenced \<and> local_fence owner = Some False
    \<and> (\<exists>a v document x. bt_get (pc_accounts (tb_custody (evidence_run start ops))) account = Some a
        \<and> \<not> pga_deleted a \<and> cr_user_id (pga_record a) = Some user \<and> cr_alias (pga_record a) = al
        \<and> decode (cr_vault (pga_record a)) = Some document \<and> h_vault h document = Some v \<and> v_verified v
        \<and> vault_token (v_auth v) = Inr (tr_access_token t) \<and> auth_revision h (v_auth v) = Some (tr_revision t)
        \<and> token_expiry h (tr_access_token t) = Some x
        \<and> sat_add (epoch_seconds now) min_remaining_seconds \<le> x
        \<and> (if tr_routing_supported t
           then \<exists>ob seen. observed_in start ops account (cr_revision (pga_record a)) ob seen
                  \<and> ob_auth_revision ob = tr_revision t
                  \<and> now - (seen - age_millis (ob_routing_age ob) * 1000) \<le> 60000000
           else policy = VaultOnly \<and> database = canary_database)
        \<and> (case (tq_billing q, tr_billing_class t) of
             (True, Some c) \<Rightarrow>
               (\<exists>ob seen b. observed_in start ops account (cr_revision (pga_record a)) ob seen
                  \<and> ob_auth_revision ob = tr_revision t \<and> ob_billing ob = Some b \<and> fb_class b = c
                  \<and> now - (seen - age_millis (fb_age b) * 1000) \<le> 60000000
                  \<and> (c = RateLimited \<longrightarrow> (\<exists>p. fb_peak b = Some p \<and> below_ceiling p)))
               \<or> (c = UnknownBilling \<and> policy = VaultOnly \<and> database = canary_database)
           | (True, None) \<Rightarrow> False
           | (False, c) \<Rightarrow> c = None))"
proof -
  let ?db = "evidence_run start ops"
  from assms(1) obtain r v where central: "store_fast_token_read mode
        (pg_fast_token_read database decode fenced now account ?db) = Inr (Some r)"
    and r: "\<not> fr_fenced r" "fr_user_id r = Some user" "h_vault h (fr_vault r) = Some v" "v_verified v"
      "local_fence owner = Some False" "al = fr_alias r"
    and d: "decide h \<lparr>ca_database = fr_database r, ca_auth = v_auth v, ca_account_revision = fr_revision r,
       ca_label = v_label v, ca_now = fr_now r, ca_evidence = fr_evidence r\<rparr> q policy = Inr t"
    by (rule fast_token_cases) auto
  from central have mode: "mode = ModePostgres"
    and read: "pg_fast_token_read database decode fenced now account ?db = Inr (Some r)"
    by (simp_all add: store_fast_token_read_def split: if_splits)
  from read obtain a where a: "bt_get (pc_accounts (tb_custody ?db)) account = Some a" "\<not> pga_deleted a"
      "decode (cr_vault (pga_record a)) = Some (fr_vault r)" "fr_user_id r = cr_user_id (pga_record a)"
      "fr_alias r = cr_alias (pga_record a)" "fr_revision r = cr_revision (pga_record a)"
      "fr_fenced r = fenced" "fr_database r = database" "fr_now r = epoch_seconds now"
    and ev: "read_evidence now (Option.bind (bt_get (tb_evidence ?db) account)
       (\<lambda>e. if te_deleted e then None else Some e)) = Some (fr_evidence r)"
    by (rule pg_fast_token_read_cases)
  from d obtain x where x: "vault_token (v_auth v) = Inr (tr_access_token t)"
      "auth_revision h (v_auth v) = Some (tr_revision t)" "token_expiry h (tr_access_token t) = Some x"
      "sat_add (epoch_seconds now) min_remaining_seconds \<le> x"
    by (rule decide_lives) (auto simp: a)
  have backed: "routing_backed start ops account e \<and> billing_backed start ops account e"
    if "bt_get (tb_evidence ?db) account = Some e" for e
    using evidence_backed [OF assms(2) that] .
  have facts: "(if tr_routing_supported t
           then \<exists>ob seen. observed_in start ops account (cr_revision (pga_record a)) ob seen
                  \<and> ob_auth_revision ob = tr_revision t
                  \<and> now - (seen - age_millis (ob_routing_age ob) * 1000) \<le> 60000000
           else policy = VaultOnly \<and> database = canary_database)
        \<and> (case (tq_billing q, tr_billing_class t) of
             (True, Some c) \<Rightarrow>
               (\<exists>ob seen b. observed_in start ops account (cr_revision (pga_record a)) ob seen
                  \<and> ob_auth_revision ob = tr_revision t \<and> ob_billing ob = Some b \<and> fb_class b = c
                  \<and> now - (seen - age_millis (fb_age b) * 1000) \<le> 60000000
                  \<and> (c = RateLimited \<longrightarrow> (\<exists>p. fb_peak b = Some p \<and> below_ceiling p)))
               \<or> (c = UnknownBilling \<and> policy = VaultOnly \<and> database = canary_database)
           | (True, None) \<Rightarrow> False
           | (False, c) \<Rightarrow> c = None)"
    using d
  proof (cases rule: decide_answers)
    case Bare
    then show ?thesis by (cases "tq_billing q") (simp_all add: a)
  next
    case (Evidence token)
    then have none: "\<not> tq_billing q \<Longrightarrow> tr_billing_class token = None" by simp
    from Evidence(1) show ?thesis
    proof (cases rule: observed_cases)
      case (1 f)
      with ev a have "read_evidence now (Option.bind (bt_get (tb_evidence ?db) account)
          (\<lambda>e. if te_deleted e then None else Some e)) = Some (Some f)" by simp
      then obtain e where e: "bt_get (tb_evidence ?db) account = Some e"
          "fe_auth_revision f = te_auth_revision e" "fe_account_revision f = te_account_revision e"
          "fe_routing_age f = age_nanos now (te_routing_observed_at e)"
          "read_billing now (te_billing e) = Some (fe_billing f)"
        by (rule read_evidence_cases)
      have revisions: "te_account_revision e = cr_revision (pga_record a)" "te_auth_revision e = tr_revision t"
        using 1 e a by simp_all
      have routing: "\<exists>ob seen. observed_in start ops account (cr_revision (pga_record a)) ob seen
          \<and> ob_auth_revision ob = tr_revision t
          \<and> now - (seen - age_millis (ob_routing_age ob) * 1000) \<le> 60000000"
        by (rule routing_observed [OF conjunct1 [OF backed [OF e(1)]]]) (use 1 e(4) revisions in simp_all)
      have billing: "\<exists>ob seen c. observed_in start ops account (cr_revision (pga_record a)) ob seen
          \<and> ob_auth_revision ob = tr_revision t \<and> ob_billing ob = Some c \<and> fb_class c = fb_class b
          \<and> fb_peak c = fb_peak b \<and> now - (seen - age_millis (fb_age c) * 1000) \<le> 60000000"
        if "fe_billing f = Some b" "fb_age b \<le> fast_evidence_max_age" for b
        by (rule billing_observed [OF conjunct2 [OF backed [OF e(1)]], where b = b and now = now])
          (use that e revisions in simp_all)
      show ?thesis
        using 1 routing billing none by (auto split: option.splits)
    qed
  qed
  show ?thesis
    using mode r a x facts by auto
qed

section \<open>Decisions are counted\<close>

lemma position_Some: "position x xs = Some i \<Longrightarrow> i < length xs \<and> xs ! i = x"
  by (induction xs arbitrary: i) (auto split: if_splits)

lemma position_None: "position x xs = None \<longleftrightarrow> x \<notin> set xs"
  by (induction xs) auto

lemma result_label_known: "result_label r \<in> set fast_results"
proof (cases r)
  case (Inl m)
  then show ?thesis by (cases m) (simp_all add: result_label_def fast_results_def)
qed (simp add: result_label_def fast_results_def)

lemma fast_results_distinct: "distinct fast_results"
  by (simp add: fast_results_def)

lemma record_result_counts:
  assumes "counts = map (\<lambda>l. f l mod 2 ^ 64) fast_results"
  shows "record_result r counts
    = map (\<lambda>l. (f l + (if l = result_label r then 1 else 0)) mod 2 ^ 64) fast_results"
proof -
  obtain i where i: "position (result_label r) fast_results = Some i"
    using result_label_known [of r] position_None [of "result_label r"] by fastforce
  note ii = position_Some [OF i]
  have "record_result r counts = counts[i := (counts ! i + 1) mod 2 ^ 64]"
    by (simp add: record_result_def i bump_def)
  also have "\<dots> = map (\<lambda>l. (f l + (if l = result_label r then 1 else 0)) mod 2 ^ 64) fast_results"
  proof (rule nth_equalityI)
    fix j assume "j < length (counts[i := (counts ! i + 1) mod 2 ^ 64])"
    then have j: "j < length fast_results" by (simp add: assms)
    then have "fast_results ! j = result_label r \<longleftrightarrow> j = i"
      using ii nth_eq_iff_index_eq [OF fast_results_distinct j conjunct1 [OF ii]] by simp
    with ii j show "counts[i := (counts ! i + 1) mod 2 ^ 64] ! j
        = map (\<lambda>l. (f l + (if l = result_label r then 1 else 0)) mod 2 ^ 64) fast_results ! j"
      by (auto simp: assms nth_list_update mod_simps)
  qed (simp add: assms)
  finally show ?thesis .
qed

text \<open>every fast-path decision is counted under exactly one label: after any sequence of
  decisions each counter holds the number of decisions with its label, modulo the width of
  the counter, and every decision has a counter.\<close>
theorem decisions_counted:
  "foldl (\<lambda>counts r. record_result r counts) (replicate 13 0) rs
     = map (\<lambda>l. length (filter (\<lambda>r. result_label r = l) rs) mod 2 ^ 64) fast_results
   \<and> length rs = sum_list (map (\<lambda>l. length (filter (\<lambda>r. result_label r = l) rs)) fast_results)"
proof (induction rs rule: rev_induct)
  case Nil
  have "replicate 13 (0 :: nat) = [0, 0, 0, 0, 0, 0, 0, 0, 0, 0, 0, 0, 0]" by code_simp
  then show ?case by (simp add: fast_results_def)
next
  case (snoc r rs)
  have "{l. l = result_label r \<and> l \<in> set fast_results} = {result_label r}"
    using result_label_known [of r] by auto
  then have "sum_list (map (\<lambda>l. if l = result_label r then 1 else 0) fast_results) = (1 :: nat)"
    using result_label_known [of r] fast_results_distinct
    by (simp add: sum_list_map_filter' [symmetric] distinct_length_filter sum_list_distinct_conv_sum_set)
  moreover have "length (filter (\<lambda>r. result_label r = l) (rs @ [r]))
      = length (filter (\<lambda>r. result_label r = l) rs) + (if l = result_label r then 1 else 0)" for l
    by simp
  ultimately show ?case
    using snoc record_result_counts [where f = "\<lambda>l. length (filter (\<lambda>r. result_label r = l) rs)", OF refl, of r]
    by (simp add: sum_list_addf)
qed

end
