(* ===== verification/LeaseWait.thy ===== *)
theory LeaseWait
  imports TokenEvidence
begin

text \<open>
  A request that loses the account lease (\<open>wait_for_holder\<close> in \<open>src/central/fast_path.rs\<close>
  and the retry loop of \<open>token\<close> in \<open>src/central/managed/owner_request.rs\<close>): it polls with
  jittered backoff until the holder commits, releases, or fifteen seconds have passed, and
  then tries again. Times are nanoseconds; what each poll and each try meets is an argument. The
  two early returns of a turn that only end the loop sooner, a closed settlement queue and a
  worker that was cancelled, are left out.
\<close>

section \<open>Polling\<close>

definition lease_wait :: nat where "lease_wait = 15 * nanos"
definition milli :: nat where "milli = 1000000"

datatype seen = SeenCommitted | SeenReleased | SeenTimeout | SeenRemoved

text \<open>
  What one poll meets: the hasher's random word, how far the clock ran past the requested
  sleep, and the two answers of the database (\<open>None\<close> for a failed read of the lease).
\<close>

record poll =
  po_random :: nat
  po_late :: nat
  po_revision :: "read_failure + int option"
  po_held :: "bool option"

definition lease_jitter :: "nat \<Rightarrow> nat \<Rightarrow> nat" where
  "lease_jitter random base_ms = (let b = max base_ms 1 in b div 2 + random mod b)"

text \<open>The backoff before poll \<open>i\<close>, in milliseconds: 50, doubled up to a second.\<close>

fun lease_backoff :: "nat \<Rightarrow> nat" where
  "lease_backoff 0 = 50"
| "lease_backoff (Suc i) = min (lease_backoff i * 2) 1000"

definition poll_seen :: "int \<Rightarrow> poll \<Rightarrow> seen option" where
  "poll_seen revision p =
     (case po_revision p of
        Inl ReadRemoved \<Rightarrow> Some SeenRemoved
      | Inr (Some current) \<Rightarrow>
          if current \<noteq> revision then Some SeenCommitted
          else if po_held p = Some False then Some SeenReleased else None
      | _ \<Rightarrow> if po_held p = Some False then Some SeenReleased else None)"

lemma lease_backoff_ge: "50 \<le> lease_backoff i"
  by (induction i) auto

lemma lease_backoff_late: "5 \<le> i \<Longrightarrow> lease_backoff i = 1000"
proof (induction i rule: nat_induct_at_least)
  case base
  show ?case by (simp add: eval_nat_numeral)
qed simp

lemma lease_jitter_ge: "25 \<le> lease_jitter r (lease_backoff i)"
  using lease_backoff_ge [of i] by (simp add: lease_jitter_def Let_def max_def)

lemma lease_jitter_late: "5 \<le> i \<Longrightarrow> 500 \<le> lease_jitter r (lease_backoff i)"
  by (simp add: lease_jitter_def lease_backoff_late)

definition poll_sleep :: "poll \<Rightarrow> nat \<Rightarrow> nat \<Rightarrow> nat \<Rightarrow> nat" where
  "poll_sleep p i deadline now = min (lease_jitter (po_random p) (lease_backoff i) * milli) (deadline - now)"

lemma poll_sleep_pos: "now < deadline \<Longrightarrow> 0 < poll_sleep p i deadline now"
  using lease_jitter_ge [of "po_random p" i] by (simp add: poll_sleep_def milli_def)

text \<open>The answer, the number of the next poll, and the time.\<close>

function wait_for_holder :: "(nat \<Rightarrow> poll) \<Rightarrow> int \<Rightarrow> nat \<Rightarrow> nat \<Rightarrow> nat \<Rightarrow> seen \<times> nat \<times> nat" where
  "wait_for_holder polls revision deadline i now =
     (if deadline \<le> now then (SeenTimeout, i, now)
      else
        let p = polls i; now' = now + poll_sleep p i deadline now + po_late p in
        case poll_seen revision p of
          Some s \<Rightarrow> (s, Suc i, now')
        | None \<Rightarrow> wait_for_holder polls revision deadline (Suc i) now')"
  by pat_completeness auto
termination
proof (relation "measure (\<lambda>(polls, revision, deadline, i, now). deadline - now)", goal_cases)
  case (2 polls revision deadline i now p now')
  then show ?case using poll_sleep_pos [of now deadline p i] by simp
qed simp

declare wait_for_holder.simps [simp del]

lemma wait_for_holder_late [simp]:
  "deadline \<le> now \<Longrightarrow> wait_for_holder polls revision deadline i now = (SeenTimeout, i, now)"
  by (simp add: wait_for_holder.simps)

text \<open>The states of one wait: the number of the coming poll and the time before it.\<close>

fun clock_before :: "(nat \<Rightarrow> poll) \<Rightarrow> nat \<Rightarrow> nat \<Rightarrow> nat \<Rightarrow> nat" where
  "clock_before polls deadline start 0 = start"
| "clock_before polls deadline start (Suc i) =
     (let now = clock_before polls deadline start i in
      now + poll_sleep (polls i) i deadline now + po_late (polls i))"

text \<open>How many polls a wait can still make: the last five backoffs are a second.\<close>

definition polls_left :: "nat \<Rightarrow> nat \<Rightarrow> nat \<Rightarrow> nat" where
  "polls_left i deadline now = (5 - i) + (deadline - now + (500 * milli - 1)) div (500 * milli)"

lemma ceil_div_step:
  fixes h :: nat
  assumes "0 < h" "d' + h \<le> d"
  shows "Suc ((d' + (h - 1)) div h) \<le> (d + (h - 1)) div h"
proof -
  have "Suc ((d' + (h - 1)) div h) = (d' + (h - 1) + h) div h"
    using assms(1) div_add_self2 [of h "d' + (h - 1)"] by linarith
  also have "\<dots> \<le> (d + (h - 1)) div h" using assms by (intro div_le_mono) linarith
  finally show ?thesis .
qed

lemma polls_left_step:
  assumes "now < deadline"
  shows "Suc (polls_left (Suc i) deadline (now + poll_sleep p i deadline now + late)) \<le> polls_left i deadline now"
proof -
  let ?s = "poll_sleep p i deadline now" and ?h = "500 * milli"
  have h: "0 < ?h" by (simp add: milli_def)
  have mono: "(deadline - (now + ?s + late) + (?h - 1)) div ?h \<le> (deadline - (now + ?s) + (?h - 1)) div ?h"
    by (intro div_le_mono) simp
  show ?thesis
  proof (cases "i < 5")
    case True
    have "(deadline - (now + ?s) + (?h - 1)) div ?h \<le> (deadline - now + (?h - 1)) div ?h"
      by (intro div_le_mono) simp
    moreover have "Suc (5 - Suc i) = 5 - i" using True by simp
    ultimately show ?thesis using mono unfolding polls_left_def by linarith
  next
    case False
    have "Suc ((deadline - (now + ?s) + (?h - 1)) div ?h) \<le> (deadline - now + (?h - 1)) div ?h"
    proof (cases "?h \<le> deadline - now")
      case True
      have "?h \<le> ?s"
        using True lease_jitter_late [of i "po_random p"] False by (simp add: poll_sleep_def milli_def)
      moreover have "?s \<le> deadline - now" by (simp add: poll_sleep_def)
      ultimately have "deadline - (now + ?s) + ?h \<le> deadline - now" by linarith
      then show ?thesis by (rule ceil_div_step [OF h])
    next
      case small: False
      then have "?s = deadline - now"
        using lease_jitter_late [of i "po_random p"] False by (simp add: poll_sleep_def milli_def)
      then have "(deadline - (now + ?s) + (?h - 1)) div ?h = 0"
        using h assms by simp
      moreover have "1 \<le> (deadline - now + (?h - 1)) div ?h"
        using h assms by (simp add: Suc_le_eq div_greater_zero_iff)
      ultimately show ?thesis by linarith
    qed
    moreover have "5 - Suc i = 0" "5 - i = 0" using False by simp_all
    ultimately show ?thesis using mono unfolding polls_left_def by linarith
  qed
qed

lemma wait_for_holder_polls:
  assumes "wait_for_holder polls revision deadline i now = (s, j, later)"
  shows "i \<le> j \<and> j \<le> i + polls_left i deadline now"
  using assms
proof (induction polls revision deadline i now rule: wait_for_holder.induct)
  case (1 polls revision deadline i now)
  show ?case
  proof (cases "deadline \<le> now")
    case False
    let ?now = "now + poll_sleep (polls i) i deadline now + po_late (polls i)"
    have left: "Suc (polls_left (Suc i) deadline ?now) \<le> polls_left i deadline now"
      by (rule polls_left_step) (use False in simp)
    show ?thesis
    proof (cases "poll_seen revision (polls i)")
      case None
      with 1 False have "Suc i \<le> j \<and> j \<le> Suc i + polls_left (Suc i) deadline ?now"
        by (subst (asm) (2) wait_for_holder.simps) (simp add: Let_def)
      with left show ?thesis by linarith
    next
      case (Some r)
      with 1 False left show ?thesis
        by (subst (asm) (2) wait_for_holder.simps) (simp add: Let_def)
    qed
  qed (use 1 in simp)
qed

text \<open>What the answer says of the polls made: every earlier one saw the holder still busy.\<close>

lemma wait_for_holder_answer:
  assumes "wait_for_holder polls revision deadline i now = (s, j, later)"
  shows "now \<le> later \<and> (\<forall>k. i \<le> k \<and> Suc k < j \<longrightarrow> poll_seen revision (polls k) = None)
    \<and> (if s = SeenTimeout then deadline \<le> later
          \<and> (\<forall>k. i \<le> k \<and> k < j \<longrightarrow> poll_seen revision (polls k) = None)
       else now < later \<and> i < j \<and> poll_seen revision (polls (j - 1)) = Some s)"
  using assms
proof (induction polls revision deadline i now rule: wait_for_holder.induct)
  case (1 polls revision deadline i now)
  show ?case
  proof (cases "deadline \<le> now")
    case False
    let ?now = "now + poll_sleep (polls i) i deadline now + po_late (polls i)"
    have pos: "now < ?now" using poll_sleep_pos [of now deadline "polls i" i] False by simp
    show ?thesis
    proof (cases "poll_seen revision (polls i)")
      case None
      with 1(2) False have rest: "wait_for_holder polls revision deadline (Suc i) ?now = (s, j, later)"
        by (subst (asm) wait_for_holder.simps) (simp add: Let_def)
      have "k = i \<or> Suc i \<le> k" if "i \<le> k" for k using that by linarith
      with 1(1) [OF False refl refl None rest] None pos show ?thesis
        by (auto split: if_splits)
    next
      case (Some r)
      have "r \<noteq> SeenTimeout"
        using Some by (auto simp: poll_seen_def split: sum.splits read_failure.splits option.splits if_splits)
      with 1(2) False Some pos show ?thesis
        by (subst (asm) wait_for_holder.simps) (auto simp: Let_def)
    qed
  qed (use 1 in auto)
qed

lemma polls_left_start: "polls_left 0 (now + lease_wait) now = 35"
  by (simp add: polls_left_def lease_wait_def nanos_def milli_def)

lemma wait_for_holder_advances:
  assumes "wait_for_holder polls revision deadline i now = (s, j, later)" "s \<noteq> SeenTimeout"
  shows "now < deadline \<and> (now + 25 * milli \<le> later \<or> deadline \<le> later)"
proof (cases "deadline \<le> now")
  case True
  with assms show ?thesis by simp
next
  case False
  let ?now = "now + poll_sleep (polls i) i deadline now + po_late (polls i)"
  have step: "now + 25 * milli \<le> ?now \<or> deadline \<le> ?now"
    using lease_jitter_ge [of "po_random (polls i)" i] False
    by (auto simp: poll_sleep_def min_def milli_def)
  have "?now \<le> later"
  proof (cases "poll_seen revision (polls i)")
    case None
    with assms(1) False have "wait_for_holder polls revision deadline (Suc i) ?now = (s, j, later)"
      by (subst (asm) wait_for_holder.simps) (simp add: Let_def)
    then show ?thesis by (auto dest: wait_for_holder_answer)
  next
    case (Some r)
    with assms(1) False show ?thesis
      by (subst (asm) wait_for_holder.simps) (simp add: Let_def)
  qed
  with step False show ?thesis by linarith
qed

section \<open>The request's loop\<close>

text \<open>
  One turn of the loop meets an answer of the fast path, then an answer of the attempt under
  the owner's lock: served, refused, or another holder's lease over a credential revision.
\<close>

datatype 'a attempt = AttemptServed 'a | AttemptLost int | AttemptFailed nat string

record 'a turn =
  tn_fast :: "miss + 'a"
  tn_fast_time :: nat
  tn_attempt :: "'a attempt"
  tn_attempt_time :: nat
  tn_polls :: "nat \<Rightarrow> poll"

datatype wait_outcome = WaitCommitted | WaitAcquired | WaitTimeout | WaitRefused

datatype loop_event = FastDecision "miss + unit" | WaitRecorded wait_outcome nat

datatype 'a token_answer = TokenServed 'a | TokenError nat string

text \<open>\<open>wait\<close> is the start and the deadline of the first wait; the deadline never moves.\<close>

definition waited :: "(nat \<times> nat) option \<Rightarrow> wait_outcome \<Rightarrow> nat \<Rightarrow> loop_event list" where
  "waited wait outcome now =
     (case wait of None \<Rightarrow> [] | Some (started, _) \<Rightarrow> [WaitRecorded outcome (now - started)])"

definition fast_answer ::
    "bool \<Rightarrow> (nat \<times> nat) option \<Rightarrow> nat \<Rightarrow> (miss + 'a) \<Rightarrow> ('a token_answer \<times> loop_event list) option" where
  "fast_answer vault_fast wait now r =
     (case r of
        Inl MissRemoved \<Rightarrow> Some (TokenError 404 ''account_removed'', [])
      | Inr t \<Rightarrow> Some (TokenServed t, waited wait WaitCommitted now)
      | Inl m \<Rightarrow>
          if vault_fast \<and> m \<noteq> MissExpiring then Some (TokenError 503 ''owner_unavailable'', []) else None)"

definition fast_event :: "(miss + 'a) \<Rightarrow> loop_event" where
  "fast_event r = FastDecision (case r of Inl m \<Rightarrow> Inl m | Inr _ \<Rightarrow> Inr ())"

text \<open>A turn ends the request, or names the wait, the time and whether to try the fast path next.\<close>

definition token_turn ::
    "bool \<Rightarrow> 'a turn \<Rightarrow> bool \<Rightarrow> (nat \<times> nat) option \<Rightarrow> nat
      \<Rightarrow> loop_event list \<times> ('a token_answer + (bool \<times> (nat \<times> nat) \<times> nat))" where
  "token_turn vault_fast tn try_fast wait now =
     (let now1 = (if try_fast then now + tn_fast_time tn else now);
          decided = (if try_fast then [fast_event (tn_fast tn)] else [])
      in case (if try_fast then fast_answer vault_fast wait now1 (tn_fast tn) else None) of
           Some (answer, evs) \<Rightarrow> (decided @ evs, Inl answer)
         | None \<Rightarrow>
             let now2 = now1 + tn_attempt_time tn in
             (case tn_attempt tn of
                AttemptServed t \<Rightarrow> (decided @ waited wait WaitAcquired now2, Inl (TokenServed t))
              | AttemptFailed status reason \<Rightarrow>
                  (decided @ waited wait WaitRefused now2, Inl (TokenError status reason))
              | AttemptLost revision \<Rightarrow>
                  let w = (case wait of None \<Rightarrow> (now2, now2 + lease_wait) | Some w \<Rightarrow> w);
                      (s, _, now3) = wait_for_holder (tn_polls tn) revision (snd w) 0 now2
                  in (case s of
                        SeenRemoved \<Rightarrow> (decided @ [WaitRecorded WaitRefused (now3 - fst w)],
                                         Inl (TokenError 404 ''account_removed''))
                      | SeenTimeout \<Rightarrow> (decided @ [WaitRecorded WaitTimeout (now3 - fst w)],
                                         Inl (TokenError 503 ''refresh_in_progress''))
                      | SeenCommitted \<Rightarrow> (decided, Inr (True, w, now3))
                      | SeenReleased \<Rightarrow> (decided, Inr (False, w, now3)))))"

definition wait_left :: "(nat \<times> nat) option \<Rightarrow> nat \<Rightarrow> nat" where
  "wait_left wait now = (case wait of None \<Rightarrow> lease_wait | Some (_, deadline) \<Rightarrow> deadline - now)"

text \<open>A turn that goes on lost the lease, waited, and was not told that the account is gone.\<close>

lemma token_turn_again:
  assumes "token_turn vault_fast tn try_fast wait now = (evs, Inr (again, w, later))"
  obtains start revision s j where "now \<le> start" "evs = (if try_fast then [fast_event (tn_fast tn)] else [])"
    "w = (case wait of None \<Rightarrow> (start, start + lease_wait) | Some w \<Rightarrow> w)"
    "wait_for_holder (tn_polls tn) revision (snd w) 0 start = (s, j, later)"
    "s = (if again then SeenCommitted else SeenReleased)"
    "try_fast \<longrightarrow> fast_answer vault_fast wait (now + tn_fast_time tn) (tn_fast tn) = None"
proof -
  define now1 where "now1 = (if try_fast then now + tn_fast_time tn else now)"
  define now2 where "now2 = now1 + tn_attempt_time tn"
  from assms have none: "(if try_fast then fast_answer vault_fast wait now1 (tn_fast tn) else None) = None"
    and lost: "\<exists>revision. tn_attempt tn = AttemptLost revision"
    by (auto simp: token_turn_def Let_def now1_def split: option.splits attempt.splits if_splits)
  then obtain revision where rev: "tn_attempt tn = AttemptLost revision" by blast
  define w' where "w' = (case wait of None \<Rightarrow> (now2, now2 + lease_wait) | Some w \<Rightarrow> w)"
  obtain s j later' where r: "wait_for_holder (tn_polls tn) revision (snd w') 0 now2 = (s, j, later')"
    by (metis prod_cases3)
  have "now \<le> now2" by (simp add: now2_def now1_def)
  moreover have "w = w' \<and> later = later' \<and> s = (if again then SeenCommitted else SeenReleased)
      \<and> evs = (if try_fast then [fast_event (tn_fast tn)] else [])"
    using assms none unfolding token_turn_def Let_def now1_def [symmetric] now2_def [symmetric]
    by (cases s) (simp_all add: rev r flip: w'_def)
  ultimately show ?thesis
    using that [of now2 revision s j] r w'_def none by (auto simp: now1_def split: if_splits)
qed

text \<open>Such a turn leaves at least 25 ms less to wait, and keeps a deadline once set.\<close>

lemma token_turn_waits:
  assumes "token_turn vault_fast tn try_fast wait now = (evs, Inr (again, w, later))"
  shows "wait_left (Some w) later < wait_left wait now
    \<and> (wait_left (Some w) later + 25 * milli \<le> wait_left wait now \<or> wait_left (Some w) later = 0)"
  using assms
proof (cases rule: token_turn_again)
  case (1 start revision s j)
  then have "s \<noteq> SeenTimeout" by simp
  from wait_for_holder_advances [OF 1(4) this] 1 show ?thesis
    by (cases wait) (auto simp: wait_left_def milli_def split: prod.splits)
qed

section \<open>Whole requests\<close>

function token_loop ::
    "bool \<Rightarrow> (nat \<Rightarrow> 'a turn) \<Rightarrow> nat \<Rightarrow> bool \<Rightarrow> (nat \<times> nat) option \<Rightarrow> nat
      \<Rightarrow> 'a token_answer \<times> loop_event list \<times> nat" where
  "token_loop vault_fast turns k try_fast wait now =
     (case token_turn vault_fast (turns k) try_fast wait now of
        (evs, Inl answer) \<Rightarrow> (answer, evs, Suc k)
      | (evs, Inr (again, w, later)) \<Rightarrow>
          (case token_loop vault_fast turns (Suc k) again (Some w) later of
             (answer, rest, n) \<Rightarrow> (answer, evs @ rest, n)))"
  by pat_completeness auto
termination
proof (relation "measure (\<lambda>(vault_fast, turns, k, try_fast, wait, now). wait_left wait now)", goal_cases)
  case 2
  then show ?case by (auto dest!: token_turn_waits [OF sym])
qed simp

declare token_loop.simps [simp del]

text \<open>A turn ends with one report of the wait, when there was one and no fast answer refused.\<close>

fun wait_report :: "'a token_answer \<Rightarrow> loop_event list \<Rightarrow> bool" where
  "wait_report answer [] = True"
| "wait_report (TokenServed t) [WaitRecorded outcome ns] = (outcome = WaitCommitted \<or> outcome = WaitAcquired)"
| "wait_report (TokenError status reason) [WaitRecorded outcome ns] =
     (outcome = WaitRefused
      \<or> (outcome = WaitTimeout \<and> status = 503 \<and> reason = ''refresh_in_progress'' \<and> lease_wait \<le> ns))"
| "wait_report _ _ = False"

definition wait_ok :: "(nat \<times> nat) option \<Rightarrow> nat \<Rightarrow> bool" where
  "wait_ok wait now = (case wait of None \<Rightarrow> True | Some (s, d) \<Rightarrow> d = s + lease_wait \<and> s \<le> now)"

lemma wait_report_waited [simp]:
  "wait_report (TokenServed t) (waited wait WaitCommitted now)"
  "wait_report (TokenServed t) (waited wait WaitAcquired now)"
  "wait_report (TokenError c r) (waited wait WaitRefused now)"
  by (cases wait; auto simp: waited_def)+

lemma waited_nonempty: "waited wait outcome now = [] \<longleftrightarrow> wait = None"
  by (auto simp: waited_def split: option.splits)

lemma fast_answer_report:
  assumes "fast_answer vault_fast wait now r = Some (answer, evs)"
  shows "wait_report answer evs" "(case answer of TokenServed t \<Rightarrow> evs = [] \<longleftrightarrow> wait = None | _ \<Rightarrow> True)"
  using assms
  by (auto simp: fast_answer_def waited_nonempty split: sum.splits miss.splits if_splits)

text \<open>How a turn ends.\<close>

lemma token_turn_ends:
  assumes "token_turn vault_fast tn try_fast wait now = (evs, Inl answer)" "wait_ok wait now"
  obtains ws where "evs = (if try_fast then [fast_event (tn_fast tn)] else []) @ ws" "wait_report answer ws"
    "case answer of TokenServed t \<Rightarrow> ws = [] \<longleftrightarrow> wait = None | _ \<Rightarrow> True"
proof -
  define now1 where "now1 = (if try_fast then now + tn_fast_time tn else now)"
  define now2 where "now2 = now1 + tn_attempt_time tn"
  define d where "d = (if try_fast then [fast_event (tn_fast tn)] else [])"
  define w where "w = (case wait of None \<Rightarrow> (now2, now2 + lease_wait) | Some w \<Rightarrow> w)"
  note turn = assms(1) [unfolded token_turn_def Let_def, folded now1_def now2_def d_def]
  have w: "snd w = fst w + lease_wait" "fst w \<le> now2"
    using assms(2) by (auto simp: w_def wait_ok_def now2_def now1_def split: option.splits)
  show ?thesis
  proof (cases "if try_fast then fast_answer vault_fast wait now1 (tn_fast tn) else None")
    case (Some r)
    obtain answer' evs' where r: "r = (answer', evs')" by (cases r)
    from Some r have f: "fast_answer vault_fast wait now1 (tn_fast tn) = Some (answer', evs')"
      by (simp split: if_splits)
    from turn Some r have "evs = d @ evs'" "answer = answer'" by simp_all
    with fast_answer_report [OF f] show ?thesis by (intro that [of evs']) (simp_all add: d_def)
  next
    case None
    show ?thesis
    proof (cases "tn_attempt tn")
      case (AttemptServed t)
      with turn None show ?thesis
        by (intro that [of "waited wait WaitAcquired now2"]) (auto simp: d_def waited_nonempty)
    next
      case (AttemptFailed c r)
      with turn None show ?thesis
        by (intro that [of "waited wait WaitRefused now2"]) (auto simp: d_def)
    next
      case (AttemptLost revision)
      obtain s j later where r: "wait_for_holder (tn_polls tn) revision (snd w) 0 now2 = (s, j, later)"
        by (metis prod_cases3)
      from wait_for_holder_answer [OF r] w have late: "s = SeenTimeout \<Longrightarrow> lease_wait \<le> later - fst w"
        by auto
      show ?thesis
        using turn None r late by (cases s) (auto simp: AttemptLost d_def simp flip: w_def intro: that)
    qed
  qed
qed

fun is_wait :: "loop_event \<Rightarrow> bool" where
  "is_wait (WaitRecorded outcome ns) = True"
| "is_wait (FastDecision r) = False"

definition turns_left :: "nat \<Rightarrow> nat" where
  "turns_left ns = (ns + (25 * milli - 1)) div (25 * milli)"

lemma turns_left_waits:
  assumes "token_turn vault_fast tn try_fast wait now = (evs, Inr (again, w, later))"
  shows "Suc (turns_left (wait_left (Some w) later)) \<le> turns_left (wait_left wait now)"
proof -
  have h: "0 < 25 * milli" by (simp add: milli_def)
  from token_turn_waits [OF assms] show ?thesis
  proof (elim conjE disjE)
    assume "wait_left (Some w) later + 25 * milli \<le> wait_left wait now"
    then show ?thesis unfolding turns_left_def by (rule ceil_div_step [OF h])
  next
    assume "wait_left (Some w) later < wait_left wait now" and "wait_left (Some w) later = 0"
    then have "turns_left (wait_left (Some w) later) = 0" and "0 < turns_left (wait_left wait now)"
      using h by (auto simp: turns_left_def div_greater_zero_iff)
    then show ?thesis by linarith
  qed
qed

lemma token_turn_wait_ok:
  assumes "token_turn vault_fast tn try_fast wait now = (evs, Inr (again, w, later))" "wait_ok wait now"
  shows "wait_ok (Some w) later"
  using assms(1)
proof (cases rule: token_turn_again)
  case (1 start revision s j)
  with wait_for_holder_answer [OF 1(4)] assms(2) show ?thesis
    by (auto simp: wait_ok_def split: option.splits)
qed

lemma token_turn_decision:
  "token_turn vault_fast tn try_fast wait now = (evs, Inr r) \<Longrightarrow> filter is_wait evs = [] \<and> length evs \<le> 1"
proof (cases r)
  fix again w later
  assume "token_turn vault_fast tn try_fast wait now = (evs, Inr r)" "r = (again, w, later)"
  then have "token_turn vault_fast tn try_fast wait now = (evs, Inr (again, w, later))" by simp
  then show ?thesis by (cases rule: token_turn_again) (simp add: fast_event_def)
qed

lemma wait_report_waits: "wait_report answer ws \<Longrightarrow> filter is_wait ws = ws"
  by (cases "(answer, ws)" rule: wait_report.cases) auto

lemma ended_filters:
  assumes "wait_report answer ws"
  shows "filter is_wait ((if try_fast then [fast_event r] else []) @ ws) = ws"
    and "length (filter (\<lambda>e. \<not> is_wait e) ((if try_fast then [fast_event r] else []) @ ws)) \<le> 1"
proof -
  have "\<forall>e \<in> set ws. is_wait e"
    using wait_report_waits [OF assms] by (metis filter_id_conv)
  then have "filter is_wait ws = ws" "filter (\<lambda>e. \<not> is_wait e) ws = []"
    by (simp_all add: filter_id_conv filter_empty_conv)
  then show "filter is_wait ((if try_fast then [fast_event r] else []) @ ws) = ws"
    and "length (filter (\<lambda>e. \<not> is_wait e) ((if try_fast then [fast_event r] else []) @ ws)) \<le> 1"
    by (simp_all add: fast_event_def)
qed

lemma token_loop_turns:
  "token_turn vault_fast (turns k) try_fast wait now = (evs, Inl answer) \<Longrightarrow>
     token_loop vault_fast turns k try_fast wait now = (answer, evs, Suc k)"
  "token_turn vault_fast (turns k) try_fast wait now = (evs, Inr (again, w, later)) \<Longrightarrow>
     token_loop vault_fast turns (Suc k) again (Some w) later = (answer, rest, n) \<Longrightarrow>
     token_loop vault_fast turns k try_fast wait now = (answer, evs @ rest, n)"
  by (subst token_loop.simps; simp)+

lemma token_loop_ends:
  assumes "token_loop vault_fast turns k try_fast wait now = (answer, evs, n)" "wait_ok wait now"
  shows "k < n \<and> n \<le> Suc k + turns_left (wait_left wait now)
    \<and> wait_report answer (filter is_wait evs) \<and> length (filter (\<lambda>e. \<not> is_wait e) evs) \<le> n - k
    \<and> (case answer of TokenServed t \<Rightarrow> filter is_wait evs = [] \<longleftrightarrow> wait = None \<and> n = Suc k | _ \<Rightarrow> True)"
  using assms
proof (induction vault_fast turns k try_fast wait now arbitrary: answer evs n rule: token_loop.induct)
  case (1 vault_fast turns k try_fast wait now)
  obtain evs1 r where turn: "token_turn vault_fast (turns k) try_fast wait now = (evs1, r)" by fastforce
  show ?case
  proof (cases r)
    case (Inl ended)
    from token_loop_turns(1) [where turns = turns and k = k, OF turn [unfolded Inl]] 1(2)
    have eqs: "answer = ended" "evs = evs1" "n = Suc k" by simp_all
    obtain ws where ws:
      "evs1 = (if try_fast then [fast_event (tn_fast (turns k))] else []) @ ws" "wait_report ended ws"
      "case ended of TokenServed t \<Rightarrow> ws = [] \<longleftrightarrow> wait = None | _ \<Rightarrow> True"
      using turn [unfolded Inl] 1(3) by (rule token_turn_ends)
    have "filter is_wait evs1 = ws" "length (filter (\<lambda>e. \<not> is_wait e) evs1) \<le> 1"
      unfolding ws(1) by (rule ended_filters [OF ws(2)])+
    with ws(2,3) show ?thesis unfolding eqs by (cases ended) simp_all
  next
    case (Inr next_turn)
    obtain again w later where nt: "next_turn = (again, w, later)" by (cases next_turn)
    obtain answer' rest n' where rec: "token_loop vault_fast turns (Suc k) again (Some w) later = (answer', rest, n')"
      by (metis prod_cases3)
    from turn Inr nt have turn': "token_turn vault_fast (turns k) try_fast wait now = (evs1, Inr (again, w, later))"
      by simp
    from token_loop_turns(2) [where turns = turns and k = k, OF turn' rec] 1(2) have eqs: "answer = answer'" "evs = evs1 @ rest" "n = n'"
      by simp_all
    have ih: "Suc k < n' \<and> n' \<le> Suc (Suc k) + turns_left (wait_left (Some w) later)
        \<and> wait_report answer' (filter is_wait rest) \<and> length (filter (\<lambda>e. \<not> is_wait e) rest) \<le> n' - Suc k
        \<and> (case answer' of TokenServed t \<Rightarrow> filter is_wait rest = [] \<longleftrightarrow> Some w = None \<and> n' = Suc (Suc k) | _ \<Rightarrow> True)"
      by (rule 1(1) [OF turn [symmetric] Inr nt [symmetric] refl rec token_turn_wait_ok [OF turn' 1(3)]])
    have "length (filter (\<lambda>e. \<not> is_wait e) evs1) \<le> 1"
      using token_turn_decision [OF turn [unfolded Inr]] length_filter_le [of "\<lambda>e. \<not> is_wait e" evs1]
      by linarith
    moreover have "filter is_wait evs1 = []"
      using token_turn_decision [OF turn [unfolded Inr]] by simp
    ultimately have "filter is_wait (evs1 @ rest) = filter is_wait rest"
      and "length (filter (\<lambda>e. \<not> is_wait e) (evs1 @ rest)) \<le> Suc (length (filter (\<lambda>e. \<not> is_wait e) rest))"
      by simp_all
    moreover have "n' \<le> Suc k + turns_left (wait_left wait now)"
      using ih turns_left_waits [OF turn'] by linarith
    moreover have "k < n'" "Suc (n' - Suc k) = n' - k" "n' \<noteq> Suc k"
      using ih by linarith+
    moreover have "case answer' of TokenServed t \<Rightarrow> filter is_wait rest \<noteq> [] | _ \<Rightarrow> True"
      using ih by (cases answer') simp_all
    ultimately show ?thesis
      using ih unfolding eqs by (cases answer') simp_all
  qed
qed

text \<open>C13: a request that keeps losing the lease ends: after at most 601 tries and, in one
  wait, at most 35 polls, it is served or refused. It reports at most one outcome of its
  wait, and a true one: a time-out only after the full fifteen seconds and as
  \<open>refresh_in_progress\<close>, a commit or an acquisition only with a token; a token after a wait
  is always reported. Outside the attempt it makes at most one fast-path decision a try.\<close>
theorem lease_wait_ends:
  "(case token_loop vault_fast turns 0 fast_on None now of
      (answer, evs, n) \<Rightarrow> n \<le> 601 \<and> wait_report answer (filter is_wait evs)
        \<and> length (filter (\<lambda>e. \<not> is_wait e) evs) \<le> n
        \<and> (case answer of TokenServed t \<Rightarrow> filter is_wait evs = [] \<longleftrightarrow> n = 1 | _ \<Rightarrow> True))
   \<and> (case wait_for_holder polls revision (now + lease_wait) 0 now of (s, j, later) \<Rightarrow> j \<le> 35)"
proof -
  obtain answer evs n where l: "token_loop vault_fast turns 0 fast_on None now = (answer, evs, n)"
    by (metis prod_cases3)
  obtain s j later where w: "wait_for_holder polls revision (now + lease_wait) 0 now = (s, j, later)"
    by (metis prod_cases3)
  have "turns_left (wait_left None now) = 600"
    by (simp add: turns_left_def wait_left_def lease_wait_def nanos_def milli_def)
  then have "0 < n \<and> n \<le> 601 \<and> wait_report answer (filter is_wait evs)
      \<and> length (filter (\<lambda>e. \<not> is_wait e) evs) \<le> n
      \<and> (case answer of TokenServed t \<Rightarrow> filter is_wait evs = [] \<longleftrightarrow> n = 1 | _ \<Rightarrow> True)"
    using token_loop_ends [OF l] by (cases answer) (simp_all add: wait_ok_def)
  moreover have "j \<le> 35"
    using wait_for_holder_polls [OF w] by (simp add: polls_left_start)
  ultimately show ?thesis
    unfolding l w prod.case by blast
qed

end
