(* ===== verification/TokenDemo.thy ===== *)
theory TokenDemo
  imports TokenFacts LeaseWait
begin

text \<open>
  A concrete replica on which the fast path is exercised: one account whose credential a
  lease holder observed five seconds ago, and an hour of token life left.
\<close>

definition demo_auth :: json where
  "demo_auth = JObject [(''tokens'', JObject [(''access_token'', JString ''h.1.s''),
     (''refresh_token'', JString ''r''), (''account_id'', JString ''W'')])]"

definition demo_token_host :: token_host where
  "demo_token_host = \<lparr>h_base64 = Some, h_json = map_of [(''1'', JObject [(''exp'', JInt 1010000)])],
     h_auth = (\<lambda>_. None), h_meta = (\<lambda>_. None), h_print = (\<lambda>_. []),
     h_vault = (\<lambda>j. Some \<lparr>v_last_rotation_ms = None, v_alias = ''work'', v_tenant = ''t'', v_user = ''u'',
       v_auth = j, v_label = None, v_verified = True, v_import_rejected = False, v_revision = 7\<rparr>),
     h_to_vec = (\<lambda>_. Some ''bytes''), h_digest = (\<lambda>s. s)\<rparr>"

definition demo_lease :: lease where
  "demo_lease = \<lparr>l_account = ''u:work'', l_holder = ''pod1'', l_epoch = 3\<rparr>"

definition demo_db :: token_db where
  "demo_db = \<lparr>tb_custody = \<lparr>pc_accounts = [(''u:work'', \<lparr>pga_record = \<lparr>cr_account_id = ''u:work'',
        cr_user_id = Some ''u'', cr_alias = ''work'', cr_workspace = None, cr_login = None, cr_vault = ''v'',
        cr_revision = 7\<rparr>, pga_deleted = False\<rparr>)],
      pc_leases = [(''u:work'', \<lparr>pgl_holder = ''pod1'', pgl_epoch = 3, pgl_expires_at = 1000050000000,
        pgl_released = False, pgl_legacy_handoff = False\<rparr>)]\<rparr>,
     tb_evidence = []\<rparr>"

definition demo_observation :: observation where
  "demo_observation = \<lparr>ob_auth_revision = ''bytes'', ob_routing_age = 5 * nanos,
     ob_billing = Some \<lparr>fb_class = RateLimited, fb_plan_type = Some ''plus'', fb_usage = None,
       fb_peak = Some (Fin 40), fb_age = 4 * nanos\<rparr>\<rparr>"

definition demo_evidence :: token_db where
  "demo_evidence = evidence_run demo_db [Observe demo_lease ''u:work'' 7 demo_observation 1000000000000]"

definition demo_request :: token_request where
  "demo_request = \<lparr>tq_previous_revision = None, tq_account_id = Some ''W'', tq_billing = True,
     tq_alias = Some ''work'', tq_loan_id = None\<rparr>"

definition demo_answer :: "miss + (token_response \<times> string)" where
  "demo_answer = fast_token demo_token_host (Some (store_fast_token_read ModePostgres
     (pg_fast_token_read ''codexctl'' (\<lambda>v. Some demo_auth) False 1000030000000 ''u:work'' demo_evidence)))
     (Probe (Some (True, False))) ''u'' ''work'' demo_request Observed"

definition demo_response :: token_response where
  "demo_response = \<lparr>tr_user_id = None, tr_access_token = ''h.1.s'', tr_account_id = ''W'',
     tr_plan_type = Some ''plus'', tr_revision = ''bytes'', tr_billing_class = Some RateLimited,
     tr_routing_supported = True, tr_usage = None, tr_label = None\<rparr>"

lemma demo_row:
  "demo_evidence = demo_db\<lparr>tb_evidence := [(''u:work'', \<lparr>te_account_revision = 7, te_auth_revision = ''bytes'',
     te_routing_supported = True, te_routing_observed_at = 999995000000,
     te_billing = \<lparr>bc_class = Some ''rate_limited'', bc_plan = Some ''plus'', bc_usage = None,
       bc_peak = Some (Fin 40), bc_observed_at = Some 999996000000\<rparr>, te_deleted = False\<rparr>)]\<rparr>"
  by (simp add: demo_evidence_def evidence_run_def record_observation_def lease_live_def demo_db_def demo_lease_def
      pg_current_def demo_observation_def merged_columns_def observed_columns_def age_millis_def nanos_def
      i64_max_def Let_def)

lemma demo_login: "decode_jwt_payload demo_token_host ''h.1.s'' = Some (JObject [(''exp'', JInt 1010000)])"
  by (simp add: decode_jwt_payload_def demo_token_host_def)

lemma demo_fast_read: "pg_fast_token_read ''codexctl'' (\<lambda>v. Some demo_auth) False 1000030000000 ''u:work'' demo_evidence
  = Inr (Some \<lparr>fr_database = ''codexctl'', fr_user_id = Some ''u'', fr_alias = ''work'', fr_revision = 7,
      fr_vault = demo_auth, fr_fenced = False, fr_evidence = Some
        \<lparr>fe_auth_revision = ''bytes'', fe_account_revision = 7, fe_routing_supported = True,
         fe_routing_age = 35000000000, fe_billing = Some \<lparr>fb_class = RateLimited, fb_plan_type = Some ''plus'',
           fb_usage = None, fb_peak = Some (Fin 40), fb_age = 34000000000\<rparr>\<rparr>, fr_now = 1000030\<rparr>)"
  by (simp add: demo_row demo_db_def pg_fast_token_read_def read_evidence_def read_billing_def billing_class_of_def
      age_nanos_def epoch_seconds_def)

lemma demo_reading:
  "vault_token demo_auth = Inr ''h.1.s''" "vault_account demo_token_host demo_auth = Inr ''W''"
  "token_expiry demo_token_host ''h.1.s'' = Some 1010000" "auth_revision demo_token_host demo_auth = Some ''bytes''"
proof -
  show t: "vault_token demo_auth = Inr ''h.1.s''"
    by (simp add: vault_token_def credential_def demo_auth_def filled_def)
  have "extract_account_id demo_token_host ''h.1.s'' = None"
    by (simp add: extract_account_id_def token_identity_def demo_login string_claim_def auth_claim_def)
  moreover have "stated_account demo_auth = Some ''W''"
    by (simp add: stated_account_def demo_auth_def List.map_filter_def)
  ultimately show "vault_account demo_token_host demo_auth = Inr ''W''"
    by (simp add: vault_account_def t filled_def)
  show "token_expiry demo_token_host ''h.1.s'' = Some 1010000"
    by (simp add: token_expiry_def demo_login i64_min_def i64_max_def)
  show "auth_revision demo_token_host demo_auth = Some ''bytes''"
    by (simp add: auth_revision_def demo_token_host_def)
qed

lemma demo_decided: "decide demo_token_host \<lparr>ca_database = ''codexctl'', ca_auth = demo_auth, ca_account_revision = 7,
     ca_label = None, ca_now = 1000030, ca_evidence = Some
       \<lparr>fe_auth_revision = ''bytes'', fe_account_revision = 7, fe_routing_supported = True,
        fe_routing_age = 35000000000, fe_billing = Some \<lparr>fb_class = RateLimited, fb_plan_type = Some ''plus'',
           fb_usage = None, fb_peak = Some (Fin 40), fb_age = 34000000000\<rparr>\<rparr>\<rparr> demo_request Observed = Inr demo_response"
  by (simp add: decide_def demo_reading sat_add_def clamp_i64_def min_remaining_seconds_def i64_max_def i64_min_def
      demo_request_def observed_def plain_token_def policy_answer_def fast_evidence_max_age_def nanos_def
      below_ceiling_def usage_ceiling_percent_def demo_response_def Let_def)

lemma demo_served: "demo_answer = Inr (demo_response, ''work'')"
proof -
  have "eq_ignore_ascii_case (trim ''work'') ''work''" by code_simp
  moreover have "h_vault demo_token_host demo_auth = Some \<lparr>v_last_rotation_ms = None, v_alias = ''work'',
      v_tenant = ''t'', v_user = ''u'', v_auth = demo_auth, v_label = None, v_verified = True,
      v_import_rejected = False, v_revision = 7\<rparr>"
    by (simp add: demo_token_host_def)
  ultimately show ?thesis
    by (simp add: demo_answer_def demo_fast_read store_fast_token_read_def fast_token_def vault_agrees_def
        demo_reading demo_decided demo_request_def [THEN arg_cong [where f = tq_account_id]])
qed

lemma demo_custody:
  "tb_custody (evidence_run demo_db [Observe demo_lease ''u:work'' 7 demo_observation t]) = tb_custody demo_db"
  by (simp add: evidence_run_def record_observation_def Let_def)

lemma demo_routing: "tr_routing_supported demo_response = True"
  by (simp add: demo_response_def)

theorem served_token_is_backed_witness:
  "case demo_answer of Inl _ \<Rightarrow> False
   | Inr (t, al) \<Rightarrow> tr_routing_supported t \<and> al = ''work''
      \<and> (\<exists>ob seen. observed_in demo_db [Observe demo_lease ''u:work'' 7 demo_observation 1000000000000] ''u:work'' 7 ob seen
           \<and> ob_auth_revision ob = tr_revision t)"
proof -
  have "tb_evidence demo_db = []" by (simp add: demo_db_def)
  from served_token_is_backed [OF demo_served [unfolded demo_answer_def demo_evidence_def] this]
  obtain a ob seen where a: "bt_get (pc_accounts (tb_custody demo_db)) ''u:work'' = Some a"
    and "observed_in demo_db [Observe demo_lease ''u:work'' 7 demo_observation 1000000000000] ''u:work''
        (cr_revision (pga_record a)) ob seen" "ob_auth_revision ob = tr_revision demo_response"
    unfolding demo_custody demo_routing if_True by blast
  moreover from a have "cr_revision (pga_record a) = 7" by (auto simp: demo_db_def)
  ultimately show ?thesis
    unfolding demo_served sum.case prod.case using demo_routing by auto
qed

end
