(* ===== verification/OwnerLogFacts.thy ===== *)
theory OwnerLogFacts
  imports OwnerLog
begin

text \<open>
  What the log of an owner child promises: no forwarded line carries a token-shaped run, no
  line is lost silently, at most thirty lines a minute leave, the pump holds at most one
  capped line, and a series of the failure counters reads back to its account.
\<close>

section \<open>Redaction\<close>

definition token_run :: "string \<Rightarrow> nat" where "token_run s = length (takeWhile token_char s)"

lemma token_run_Nil [simp]: "token_run [] = 0"
  by (simp add: token_run_def)

lemma token_run_Cons [simp]: "token_run (c # s) = (if token_char c then Suc (token_run s) else 0)"
  by (simp add: token_run_def)

definition no_long_run :: "string \<Rightarrow> bool" where
  "no_long_run s = (\<forall>i. token_run (drop i s) < 40)"

lemma no_long_run_Nil [simp]: "no_long_run []"
  by (simp add: no_long_run_def)

lemma no_long_run_Cons [simp]: "no_long_run (c # s) \<longleftrightarrow> token_run (c # s) < 40 \<and> no_long_run s"
proof
  assume l: "no_long_run (c # s)"
  from l [unfolded no_long_run_def, rule_format, of 0] have "token_run (c # s) < 40" by simp
  moreover have "token_run (drop i s) < 40" for i
    using l [unfolded no_long_run_def, rule_format, of "Suc i"] by simp
  ultimately show "token_run (c # s) < 40 \<and> no_long_run s" by (simp add: no_long_run_def)
next
  assume r: "token_run (c # s) < 40 \<and> no_long_run s"
  show "no_long_run (c # s)"
    unfolding no_long_run_def
  proof
    fix i show "token_run (drop i (c # s)) < 40"
      using r by (cases i) (simp_all add: no_long_run_def)
  qed
qed

lemma secret_len_run: "secret_len wordy before s = None \<Longrightarrow> token_run s < 40"
  by (auto simp: secret_len_def long_len_def token_run_def Let_def split: option.splits if_splits)

lemma mark_run [simp]: "token_run (''[redacted]'' @ s) = 0"
  by (simp add: token_char_def ascii_alnum_def ascii_digit_def ascii_alpha_def)

lemma redact_all_run: "token_run (redact_all wordy before s) \<le> token_run s"
proof (induction wordy before s rule: redact_all.induct)
  case (2 wordy before c s)
  show ?case
  proof (cases "secret_len wordy before (c # s)")
    case None
    with 2(1) show ?thesis by simp
  next
    case (Some n)
    then have "token_run (redact_all wordy before (c # s)) = 0"
      using mark_run by simp
    then show ?thesis by simp
  qed
qed simp

lemma mark_no_long_run: "no_long_run s \<Longrightarrow> no_long_run (''[redacted]'' @ s)"
  by (simp add: token_char_def ascii_alnum_def ascii_digit_def ascii_alpha_def)

lemma redact_all_no_long_run: "no_long_run (redact_all wordy before s)"
proof (induction wordy before s rule: redact_all.induct)
  case (2 wordy before c s)
  show ?case
  proof (cases "secret_len wordy before (c # s)")
    case None
    have "token_run (redact_all wordy (before @ [c]) s) \<le> token_run s"
      by (rule redact_all_run)
    then have "token_run (c # redact_all wordy (before @ [c]) s) < 40"
      using secret_len_run [OF None] by (auto split: if_splits)
    with 2(1) [OF None] None show ?thesis by simp
  next
    case (Some n)
    with 2(2) [OF Some] show ?thesis
      using mark_no_long_run by simp
  qed
qed simp

lemma take_chars_append: "\<exists>t. s = take_chars n s @ t"
  by (induction n s rule: take_chars.induct) (auto split: nat.splits)

lemma no_long_run_prefix:
  assumes "no_long_run (s @ t)" "\<not> token_char c" "\<not> token_char d" "\<not> token_char e"
  shows "no_long_run s \<and> no_long_run (s @ [c, d, e])"
proof -
  have run: "token_run s \<le> token_run (s @ t) \<and> token_run (s @ [c, d, e]) = token_run s" for s
    using assms(2) by (induction s) simp_all
  show ?thesis
    using assms(1)
  proof (induction s)
    case Nil
    then show ?case using assms(2-4) by simp
  next
    case (Cons x s)
    then have "no_long_run s \<and> no_long_run (s @ [c, d, e])" "token_run (x # s @ t) < 40" by simp_all
    then show ?case using run [of s] by (auto split: if_splits)
  qed
qed

lemma length_take_chars: "length (filter char_start (take_chars n s)) = min n (length (filter char_start s))"
  by (induction n s rule: take_chars.induct) (auto split: nat.splits)

lemma ellipsis_chars:
  "\<not> token_char (char_of (226 :: nat))" "\<not> token_char (char_of (128 :: nat))" "\<not> token_char (char_of (166 :: nat))"
  by code_simp+

text \<open>C31: a forwarded line never carries a run of forty or more token characters, however the
  child wrote it, and is at most 300 characters and an ellipsis long.\<close>
theorem redacted_line_is_safe:
  "no_long_run (redact wordy line) \<and> length (filter char_start (redact wordy line)) \<le> 301"
proof -
  let ?all = "redact_all wordy [] (strip_ansi line)"
  let ?dots = "map char_of [226, 128, 166 :: nat]"
  obtain t where t: "?all = take_chars 300 ?all @ t" using take_chars_append by blast
  have "no_long_run (take_chars 300 ?all @ t)" using redact_all_no_long_run t by metis
  from no_long_run_prefix [OF this ellipsis_chars]
  have "no_long_run (take_chars 300 ?all)" "no_long_run (take_chars 300 ?all @ ?dots)" by simp_all
  moreover have "length (filter char_start ?dots) \<le> 1"
    by (simp add: char_start_def byte_def)
  ultimately show ?thesis
    by (auto simp: redact_def Let_def length_take_chars)
qed

section \<open>The pump as a fold over lines\<close>

text \<open>
  The reference: the stream cut at its newlines, each line with the time its newline was
  handled, then capped; the rest, unless it is empty, is the last line.
\<close>

fun timed_lines :: "nat \<Rightarrow> string \<Rightarrow> (char \<times> nat) list \<Rightarrow> (string \<times> nat) list" where
  "timed_lines ended acc [] = (if acc = [] then [] else [(take max_line_bytes acc, ended)])"
| "timed_lines ended acc ((b, t) # bytes) =
     (if b = newline then (take max_line_bytes acc, t) # timed_lines ended [] bytes
      else timed_lines ended (acc @ [b]) bytes)"

definition handle_all :: "(string \<Rightarrow> bool) \<Rightarrow> (string \<times> nat) list \<Rightarrow> log_pump \<Rightarrow> log_pump" where
  "handle_all wordy lines st = foldl (\<lambda>st (line, now). handle_line wordy now line st) st lines"

lemma handle_all_simps [simp]:
  "handle_all wordy [] st = st"
  "handle_all wordy ((line, now) # lines) st = handle_all wordy lines (handle_line wordy now line st)"
  "handle_all wordy (lines @ [(line, now)]) st = handle_line wordy now line (handle_all wordy lines st)"
  by (simp_all add: handle_all_def)

lemmas pump_defs = handle_line_def forward_line_def new_window_def note_failure_def Let_def

text \<open>Handling a line does not look at the buffer.\<close>

lemma pump_step_buffer:
  "note_failure line (st\<lparr>lp_line := l\<rparr>) = (note_failure line st)\<lparr>lp_line := l\<rparr>"
  "new_window now (st\<lparr>lp_line := l\<rparr>) = (new_window now st)\<lparr>lp_line := l\<rparr>"
  "forward_line wordy line (st\<lparr>lp_line := l\<rparr>) = (forward_line wordy line st)\<lparr>lp_line := l\<rparr>"
  "lp_line (note_failure line st) = lp_line st" "lp_line (new_window now st) = lp_line st"
  "lp_line (forward_line wordy line st) = lp_line st"
  by (cases st, simp add: note_failure_def split: option.split)
    (cases st, simp add: new_window_def, cases st, simp add: forward_line_def,
     simp_all add: note_failure_def new_window_def forward_line_def)

lemma handle_line_buffer [simp]:
  "handle_line wordy now line (st\<lparr>lp_line := l\<rparr>) = (handle_line wordy now line st)\<lparr>lp_line := l\<rparr>"
  "lp_line (handle_line wordy now line st) = lp_line st"
  by (simp_all add: handle_line_def Let_def pump_step_buffer)

lemma handle_all_buffer [simp]:
  "handle_all wordy lines (st\<lparr>lp_line := l\<rparr>) = (handle_all wordy lines st)\<lparr>lp_line := l\<rparr>"
  by (induction lines arbitrary: st) auto

lemma take_snoc_cap:
  "take n (acc @ [b]) = (if length (take n acc) < n then take n acc @ [b] else take n acc)"
  by auto

lemma pump_lines:
  assumes "lp_line st = take max_line_bytes acc"
  shows "finish_pump wordy ended (foldl (pump_byte wordy) st bytes)
    = (let fin = handle_all wordy (timed_lines ended acc bytes) st in
       fin\<lparr>lp_line := lp_line (foldl (pump_byte wordy) st bytes),
            lp_sink := lp_sink fin @ suppressed_note (lp_suppressed fin)\<rparr>)"
  using assms
proof (induction bytes arbitrary: st acc)
  case Nil
  then show ?case
    by (auto simp: finish_pump_def Let_def max_line_bytes_def)
next
  case (Cons bt bytes)
  obtain b t where bt: "bt = (b, t)" by fastforce
  show ?case
  proof (cases "b = newline")
    case True
    let ?st = "(handle_line wordy t (lp_line st) st)\<lparr>lp_line := []\<rparr>"
    have "lp_line ?st = take max_line_bytes []" by simp
    note ih = Cons.IH [OF this]
    have "pump_byte wordy st (b, t) = ?st" by (simp add: pump_byte_def True)
    then show ?thesis
      using ih by (simp add: bt True Let_def Cons.prems)
  next
    case False
    let ?st = "pump_byte wordy st (b, t)"
    have "lp_line ?st = take max_line_bytes (acc @ [b])" and eq: "?st = st\<lparr>lp_line := lp_line ?st\<rparr>"
      using False Cons.prems by (simp_all add: pump_byte_def take_snoc_cap)
    note ih = Cons.IH [OF this(1)]
    have "handle_all wordy lines ?st = (handle_all wordy lines st)\<lparr>lp_line := lp_line ?st\<rparr>" for lines
      by (subst eq) simp
    with ih False show ?thesis by (simp add: bt Let_def)
  qed
qed

section \<open>Nothing is lost, and the rate is bounded\<close>

fun suppressed_in :: "log_note list \<Rightarrow> nat" where
  "suppressed_in [] = 0"
| "suppressed_in (SuppressedNote n # notes) = n + suppressed_in notes"
| "suppressed_in (_ # notes) = suppressed_in notes"

fun is_line_note :: "log_note \<Rightarrow> bool" where
  "is_line_note (SuppressedNote n) = False"
| "is_line_note _ = True"

definition lines_out :: "log_note list \<Rightarrow> nat" where "lines_out notes = length (filter is_line_note notes)"

lemma suppressed_in_append [simp]: "suppressed_in (xs @ ys) = suppressed_in xs + suppressed_in ys"
  by (induction xs rule: suppressed_in.induct) simp_all

lemma lines_out_simps [simp]:
  "lines_out [] = 0" "lines_out (xs @ ys) = lines_out xs + lines_out ys"
  "lines_out (suppressed_note n) = 0" "lines_out [line_note wordy line] = 1"
  "suppressed_in (suppressed_note n) = n" "suppressed_in [line_note wordy line] = 0"
  by (auto simp: lines_out_def suppressed_note_def line_note_def Let_def)

definition accounted :: "nat \<Rightarrow> nat \<Rightarrow> log_pump \<Rightarrow> bool" where
  "accounted t0 k st =
     (lines_out (lp_sink st) + suppressed_in (lp_sink st) + lp_suppressed st = k
      \<and> lp_forwarded st \<le> 30 \<and> t0 \<le> lp_window_start st
      \<and> lines_out (lp_sink st) \<le> 30 * ((lp_window_start st - t0) div log_window) + lp_forwarded st)"

lemma accounted_start: "accounted t0 0 (start_pump t0 reason status)"
  by (simp add: accounted_def start_pump_def)

lemma accounted_failure [simp]: "accounted t0 k (note_failure line st) = accounted t0 k st"
  by (simp add: accounted_def note_failure_def)

lemma accounted_window: "accounted t0 k st \<Longrightarrow> accounted t0 k (new_window now st)"
proof -
  assume a: "accounted t0 k st"
  show "accounted t0 k (new_window now st)"
  proof (cases "log_window \<le> now - lp_window_start st")
    case True
    have "t0 \<le> lp_window_start st" using a by (simp add: accounted_def)
    with True have "(lp_window_start st - t0) + log_window \<le> now - t0"
      using log_window_def by linarith
    then have "((lp_window_start st - t0) + log_window) div log_window \<le> (now - t0) div log_window"
      by (rule div_le_mono)
    then have "Suc ((lp_window_start st - t0) div log_window) \<le> (now - t0) div log_window"
      by (simp add: log_window_def)
    with a True show ?thesis
      by (simp add: accounted_def new_window_def log_window_def)
  qed (use a in \<open>simp add: new_window_def\<close>)
qed

lemma accounted_forward:
  assumes "accounted t0 k st" "k < 2 ^ 64 - 1"
  shows "accounted t0 (Suc k) (forward_line wordy line st)"
proof (cases "lp_forwarded st < max_lines_per_window")
  case True
  with assms(1) show ?thesis
    by (simp add: accounted_def forward_line_def max_lines_per_window_def)
next
  case False
  have "lp_suppressed st + 1 < 2 ^ 64" using assms by (simp add: accounted_def)
  then have "(lp_suppressed st + 1) mod 2 ^ 64 = lp_suppressed st + 1" by (rule mod_less)
  with False assms(1) show ?thesis
    unfolding accounted_def forward_line_def by simp
qed

lemma accounted_lines:
  "accounted t0 k st \<Longrightarrow> k + length lines < 2 ^ 64 \<Longrightarrow> accounted t0 (k + length lines) (handle_all wordy lines st)"
proof (induction lines arbitrary: st k)
  case (Cons l lines)
  obtain line now where l: "l = (line, now)" by fastforce
  have "k < 2 ^ 64 - 1" using Cons.prems by simp
  with Cons.prems(1) have "accounted t0 (Suc k) (handle_line wordy now line st)"
    by (simp add: handle_line_def Let_def accounted_forward accounted_window)
  from Cons.IH [OF this] Cons.prems(2) show ?case by (simp add: l)
qed simp

text \<open>What the note of a line says: the line itself, redacted, unless it reports a failed refresh with a
  known status or without a known reason; then the reason and the status.\<close>

fun notes_line :: "(string \<Rightarrow> bool) \<Rightarrow> string \<Rightarrow> log_note \<Rightarrow> bool" where
  "notes_line wordy line (LineNote text) = (text = redact wordy line
     \<and> (contains refresh_failed line \<longrightarrow> classify line \<noteq> None \<and> upstream_status line = None))"
| "notes_line wordy line (RefreshNote reason status) = (contains refresh_failed line \<and> status = upstream_status line
     \<and> (if classify line = None then reason = ''native_refresh_failure'' else status \<noteq> None \<and> classify line = Some reason))"
| "notes_line wordy line (SuppressedNote n) = False"

text \<open>\<open>logging wordy lines notes pending\<close>: in their order, each of the lines has its note, or is one of the
  lines counted in the next suppression note, of which \<open>pending\<close> are not yet in one.\<close>

inductive logging :: "(string \<Rightarrow> bool) \<Rightarrow> string list \<Rightarrow> log_note list \<Rightarrow> nat \<Rightarrow> bool" for wordy where
  nothing: "logging wordy [] [] 0"
| noted: "logging wordy lines notes pending \<Longrightarrow> notes_line wordy line note \<Longrightarrow>
     logging wordy (lines @ [line]) (notes @ suppressed_note pending @ [note]) 0"
| passed: "logging wordy lines notes pending \<Longrightarrow> logging wordy (lines @ [line]) notes (Suc pending)"

lemma line_note_notes: "notes_line wordy line (line_note wordy line)"
  by (auto simp: line_note_def Let_def split: option.splits)

definition pump_logs :: "(string \<Rightarrow> bool) \<Rightarrow> string list \<Rightarrow> log_pump \<Rightarrow> bool" where
  "pump_logs wordy lines st = (logging wordy lines (lp_sink st) (lp_suppressed st)
     \<and> (0 < lp_suppressed st \<longrightarrow> max_lines_per_window \<le> lp_forwarded st))"

lemma logging_pending: "logging wordy lines notes pending \<Longrightarrow> pending \<le> length lines"
  by (induction rule: logging.induct) auto

lemma handle_line_logs:
  assumes "pump_logs wordy lines st" "length lines < 2 ^ 64 - 1"
  shows "pump_logs wordy (lines @ [from_utf8_lossy line]) (handle_line wordy now line st)"
proof -
  let ?line = "from_utf8_lossy line"
  have log: "logging wordy lines (lp_sink st) (lp_suppressed st)" using assms(1) by (simp add: pump_logs_def)
  have wrap: "(lp_suppressed st + 1) mod 2 ^ 64 = Suc (lp_suppressed st)"
    using logging_pending [OF log] assms(2) by simp
  have st: "lp_sink (note_failure ?line st) = lp_sink st" "lp_suppressed (note_failure ?line st) = lp_suppressed st"
    "lp_forwarded (note_failure ?line st) = lp_forwarded st"
    "lp_window_start (note_failure ?line st) = lp_window_start st" by (simp_all add: note_failure_def)
  note steps = logging.noted [OF log line_note_notes, of ?line] logging.passed [OF log, of ?line]
  show ?thesis
  proof (cases "log_window \<le> now - lp_window_start st")
    case True
    with steps(1) st show ?thesis
      by (simp add: pump_logs_def handle_line_def Let_def new_window_def forward_line_def max_lines_per_window_def)
  next
    case False
    show ?thesis
    proof (cases "lp_forwarded st < max_lines_per_window")
      case room: True
      then have "lp_suppressed st = 0" using assms(1) by (simp add: pump_logs_def)
      with steps(1) st False room show ?thesis
        by (simp add: pump_logs_def handle_line_def Let_def new_window_def forward_line_def suppressed_note_def)
    next
      case spent: False
      with steps(2) st False spent wrap show ?thesis
        by (simp add: pump_logs_def handle_line_def Let_def new_window_def forward_line_def)
    qed
  qed
qed

lemma handle_all_logs:
  "pump_logs wordy earlier st \<Longrightarrow> length earlier + length lines < 2 ^ 64 \<Longrightarrow>
     pump_logs wordy (earlier @ map (\<lambda>(line, now). from_utf8_lossy line) lines) (handle_all wordy lines st)"
proof (induction lines arbitrary: earlier st)
  case (Cons l lines)
  obtain line now where l: "l = (line, now)" by fastforce
  have "length earlier < 2 ^ 64 - 1" using Cons.prems(2) by simp
  note one = handle_line_logs [OF Cons.prems(1) this, of line now]
  from Cons.IH [OF one] Cons.prems(2) show ?case by (simp add: l)
qed simp

text \<open>The window starts when a line was handled, or the pump did.\<close>

lemma handle_line_window: "lp_window_start (handle_line wordy now line st) \<le> max (lp_window_start st) now"
  by (simp add: pump_defs)

lemma handle_all_window:
  "list_all (\<lambda>(line, now). now \<le> limit) lines \<Longrightarrow> lp_window_start st \<le> limit
    \<Longrightarrow> lp_window_start (handle_all wordy lines st) \<le> limit"
proof (induction lines arbitrary: st)
  case (Cons l lines)
  obtain line now where l: "l = (line, now)" by fastforce
  have "lp_window_start (handle_line wordy now line st) \<le> limit"
    using Cons.prems handle_line_window [of wordy now line st] by (simp add: l max_def split: if_splits)
  with Cons show ?case by (simp add: l)
qed simp

text \<open>The slot keeps the latest reason, whether or not its line was forwarded.\<close>

fun latest :: "('a \<Rightarrow> 'b option) \<Rightarrow> 'b option \<Rightarrow> 'a list \<Rightarrow> 'b option" where
  "latest f v [] = v"
| "latest f v (x # xs) = latest f (case f x of None \<Rightarrow> v | Some y \<Rightarrow> Some y) xs"

lemma handle_line_slot:
  "lp_reason (handle_line wordy now line st)
     = (case classify (from_utf8_lossy line) of None \<Rightarrow> lp_reason st | Some r \<Rightarrow> Some r)"
  "lp_status (handle_line wordy now line st)
     = (case upstream_status (from_utf8_lossy line) of None \<Rightarrow> lp_status st | Some c \<Rightarrow> Some c)"
  by (simp_all add: pump_defs split: option.split)

lemma handle_all_slot:
  "lp_reason (handle_all wordy lines st) = latest (\<lambda>(line, now). classify (from_utf8_lossy line)) (lp_reason st) lines"
  "lp_status (handle_all wordy lines st)
     = latest (\<lambda>(line, now). upstream_status (from_utf8_lossy line)) (lp_status st) lines"
  by (induction lines arbitrary: st) (auto simp: handle_line_slot)

lemma pump_holds_one_line:
  "length (lp_line st) \<le> max_line_bytes \<Longrightarrow> length (lp_line (foldl (pump_byte wordy) st bytes)) \<le> max_line_bytes"
proof (induction bytes arbitrary: st)
  case (Cons bt bytes)
  obtain b t where bt: "bt = (b, t)" by fastforce
  have "length (lp_line (pump_byte wordy st bt)) \<le> max_line_bytes"
    using Cons.prems by (simp add: bt pump_byte_def)
  then show ?case by (simp add: Cons.IH)
qed simp

text \<open>C30: the log of an owner child is complete and bounded. The lines are those of the stream, each cut
  at 8 KiB. The log consists, in their order, of the notes of the lines, each with the line's redacted
  text or its refresh failure, except for those lines that the suppression note before the next of
  them, or at the end, counts. At most thirty lines leave for each started minute; the latest
  rejection and status are kept even of suppressed lines; and the pump never holds more than
  one capped line.\<close>
theorem child_log_complete_and_bounded:
  assumes "length (timed_lines ended [] bytes) < 2 ^ 64"
    and "list_all (\<lambda>(line, now). now \<le> t0 + spent) (timed_lines ended [] bytes)"
  shows "(let lines = timed_lines ended [] bytes; fin = forward wordy (start_pump t0 reason status) bytes ended in
      (\<exists>notes pending. logging wordy (map (\<lambda>(line, now). from_utf8_lossy line) lines) notes pending
         \<and> lp_sink fin = notes @ suppressed_note pending)
      \<and> lines_out (lp_sink fin) + suppressed_in (lp_sink fin) = length lines
      \<and> lines_out (lp_sink fin) \<le> 30 * (spent div log_window + 1)
      \<and> lp_reason fin = latest (\<lambda>(line, now). classify (from_utf8_lossy line)) reason lines
      \<and> lp_status fin = latest (\<lambda>(line, now). upstream_status (from_utf8_lossy line)) status lines)
    \<and> length (lp_line (foldl (pump_byte wordy) (start_pump t0 reason status) (take n bytes))) \<le> max_line_bytes"
proof -
  let ?lines = "timed_lines ended [] bytes"
  let ?st = "start_pump t0 reason status"
  define fin where "fin = handle_all wordy ?lines ?st"
  have start: "lp_line ?st = take max_line_bytes []" "lp_reason ?st = reason" "lp_status ?st = status"
    "lp_window_start ?st = t0" by (simp_all add: start_pump_def)
  have f: "forward wordy ?st bytes ended = fin\<lparr>lp_line := lp_line (foldl (pump_byte wordy) ?st bytes),
            lp_sink := lp_sink fin @ suppressed_note (lp_suppressed fin)\<rparr>"
    using pump_lines [OF start(1), of wordy ended bytes] by (simp add: forward_def fin_def Let_def)
  have acc: "accounted t0 (length ?lines) fin"
    using accounted_lines [OF accounted_start, of ?lines] assms(1) by (simp add: fin_def)
  have "lp_window_start fin \<le> t0 + spent"
    unfolding fin_def by (rule handle_all_window [OF assms(2)]) (simp add: start)
  then have "(lp_window_start fin - t0) div log_window \<le> spent div log_window"
    by (intro div_le_mono) simp
  with acc have "lines_out (lp_sink fin) \<le> 30 * (spent div log_window + 1)"
    by (simp add: accounted_def)
  moreover have "length (lp_line (foldl (pump_byte wordy) ?st (take n bytes))) \<le> max_line_bytes"
    by (rule pump_holds_one_line) (simp add: start)
  moreover have "pump_logs wordy (map (\<lambda>(line, now). from_utf8_lossy line) ?lines) fin"
    using handle_all_logs [of wordy "[]" ?st ?lines] assms(1) logging.nothing
    by (simp add: fin_def pump_logs_def start_pump_def)
  ultimately show ?thesis
    using acc by (auto simp: f accounted_def Let_def fin_def handle_all_slot start pump_logs_def)
qed

theorem child_log_complete_and_bounded_witness:
  "let fin = forward (\<lambda>_. False) (start_pump 5 None None) [(CHR ''x'', 7), (newline, 9), (CHR ''y'', 9)] 11 in
   lines_out (lp_sink fin) + suppressed_in (lp_sink fin) = 2"
proof -
  have "timed_lines 11 [] [(CHR ''x'', 7), (newline, 9), (CHR ''y'', 9)] = [(''x'', 9), (''y'', 11)]"
    by (simp add: newline_def max_line_bytes_def)
  with child_log_complete_and_bounded [of 11 "[(CHR ''x'', 7), (newline, 9), (CHR ''y'', 9)]" 5 6 "\<lambda>_. False" None None 0]
  show ?thesis by (simp add: Let_def)
qed

section \<open>The failure counters\<close>

text \<open>A reader of a label value: up to the first quote that is not escaped.\<close>

fun read_label :: "string \<Rightarrow> (string \<times> string) option" where
  "read_label [] = None"
| "read_label (c # s) =
     (if c = CHR 0x22 then Some ([], s)
      else if c = CHR 0x5C then
        (case s of
           [] \<Rightarrow> None
         | d # t \<Rightarrow> map_option (\<lambda>(a, r). ((if d = CHR ''n'' then newline else d) # a, r)) (read_label t))
      else if c = newline then None
      else map_option (\<lambda>(a, r). (c # a, r)) (read_label s))"

definition escape_char :: "char \<Rightarrow> string" where
  "escape_char c =
     (if c = CHR 0x5C then [CHR 0x5C, CHR 0x5C] else if c = CHR 0x22 then [CHR 0x5C, CHR 0x22]
      else if c = newline then [CHR 0x5C, CHR ''n''] else [c])"

lemma escape_label_Cons [simp]: "escape_label [] = []" "escape_label (c # s) = escape_char c @ escape_label s"
  by (simp_all add: escape_label_def replace_char_def escape_char_def newline_def)

lemma read_escaped: "read_label (escape_label account @ CHR 0x22 # rest) = Some (account, rest)"
  by (induction account) (simp_all add: escape_char_def newline_def)

text \<open>a failure counter holds the number of failures recorded for its account, account key
  and reason, and its series reads back to that very account whatever the name contains, so
  no alias can forge or split a series.\<close>
theorem failure_metrics_faithful:
  "bt_get (foldl (\<lambda>counts (account, user, reason). record_failure digest account user reason counts) [] rs) key
     = (case length (filter (\<lambda>(account, user, reason). failure_key digest account user reason = key) rs) of
          0 \<Rightarrow> None | Suc n \<Rightarrow> Some (Suc n))
   \<and> map_option (\<lambda>(_, rest). read_label rest)
       (split_once (CHR 0x22) (failure_series ''codexctl_central_owner_refresh_failed_total'' ((account, k, reason), n)))
     = Some (Some (account, '',account_key='' @ quoted k @ '',reason='' @ quoted reason @ ''} '' @ dec_nat n @ [newline]))"
proof (intro conjI)
  show "bt_get (foldl (\<lambda>counts (account, user, reason). record_failure digest account user reason counts) [] rs) key
     = (case length (filter (\<lambda>(account, user, reason). failure_key digest account user reason = key) rs) of
          0 \<Rightarrow> None | Suc n \<Rightarrow> Some (Suc n))"
    by (induction rs rule: rev_induct)
      (auto simp: record_failure_def Let_def split: nat.splits option.splits)
  show "map_option (\<lambda>(_, rest). read_label rest)
       (split_once (CHR 0x22) (failure_series ''codexctl_central_owner_refresh_failed_total'' ((account, k, reason), n)))
     = Some (Some (account, '',account_key='' @ quoted k @ '',reason='' @ quoted reason @ ''} '' @ dec_nat n @ [newline]))"
    using read_escaped [of account "'',account_key='' @ quoted k @ '',reason='' @ quoted reason @ ''} '' @ dec_nat n @ [newline]"]
    by (simp add: failure_series_def quoted_def)
qed

end
