(* ===== verification/Select.thy ===== *)
theory Select
  imports Usage Loans
begin

text \<open>
  Automatic account selection: the picks of \<open>src/central/remote.rs\<close> (\<open>select\<close>,
  \<open>select_for_codex\<close>, \<open>select_for_activation\<close>) and the borrower backoff of
  \<open>src/central/loans.rs\<close>. The inventory of banked resets is the argument \<open>inventory\<close>
  and the RFC 3339 parser of the \<open>chrono\<close> crate is \<open>parse\<close>.
\<close>

section \<open>Borrowed accounts\<close>

definition borrower_backoff_percent :: f64 where "borrower_backoff_percent = Fin 95"

definition flatten :: "'a option list \<Rightarrow> 'a list" where
  "flatten xs = concat (map (\<lambda>x. case x of None \<Rightarrow> [] | Some y \<Rightarrow> [y]) xs)"

lemma set_flatten [simp]: "x \<in> set (flatten xs) \<longleftrightarrow> Some x \<in> set xs"
  by (induction xs) (auto simp: flatten_def split: option.splits)

definition roomy :: "f64 \<Rightarrow> bool" where
  "roomy used = (is_finite used \<and> f64_lt used borrower_backoff_percent)"

definition below_borrower_backoff :: "account \<Rightarrow> bool" where
  "below_borrower_backoff a =
     list_all roomy (flatten [ac_primary_used a, ac_secondary_used a,
       Option.bind (ac_statusline_usage a) sl_max_used])"

definition borrowed_auto_eligible :: "account \<Rightarrow> bool" where
  "borrowed_auto_eligible a =
     ((case ac_statusline_usage a of None \<Rightarrow> False | Some u \<Rightarrow> sl_max_used u \<noteq> None)
      \<and> ac_available a \<and> \<not> ac_usage_stale a \<and> ac_billing a = RateLimited
      \<and> (ac_primary_used a \<noteq> None \<or> ac_secondary_used a \<noteq> None)
      \<and> below_borrower_backoff a)"

definition token_below_borrower_backoff :: "sl_usage option \<Rightarrow> bool" where
  "token_below_borrower_backoff usage =
     (case usage of
        None \<Rightarrow> False
      | Some u \<Rightarrow>
          if sl_max_used u = None then False
          else
            let used = flatten [sl_five_hour_used u, sl_weekly_used u, sl_max_used u]
            in used \<noteq> [] \<and> list_all roomy used)"

definition owned_then_borrowed :: "account list \<Rightarrow> (account list \<Rightarrow> 'e + 'a) \<Rightarrow> 'e + 'a" where
  "owned_then_borrowed accounts pick =
     (if list_all (\<lambda>a. ac_loan a = None) accounts then pick accounts
      else
        let owned = filter (\<lambda>a. ac_loan a = None) accounts;
            borrowed = filter (\<lambda>a. ac_loan a \<noteq> None) accounts
        in case pick owned of
             Inr x \<Rightarrow> Inr x
           | Inl e \<Rightarrow>
               (case pick (filter borrowed_auto_eligible borrowed) of
                  Inr x \<Rightarrow> Inr x
                | Inl _ \<Rightarrow> Inl e))"

definition fallback_refused :: "string \<Rightarrow> bool" where
  "fallback_refused name = (case parse_ref name of Inl _ \<Rightarrow> False | Inr r \<Rightarrow> is_borrowed r)"

section \<open>Picks\<close>

datatype select_error = NoIncludedUsage | NoHeadroom | NoResetAvailable | ServerDisconnected

definition switch_threshold :: f64 where "switch_threshold = Fin 95"

definition at_switch_threshold :: "account \<Rightarrow> bool" where
  "at_switch_threshold a =
     list_ex (\<lambda>used. is_finite used \<and> f64_le switch_threshold used)
       (flatten [ac_primary_used a, ac_secondary_used a])"

text \<open>\<open>CODEXCTL_SELECT\<close> asks for the most available account rather than the soonest reset.\<close>

definition prefers_headroom :: "string option \<Rightarrow> bool" where
  "prefers_headroom env =
     (case env of
        None \<Rightarrow> False
      | Some v \<Rightarrow> ascii_lower v \<in> set [''most-available'', ''most_available'', ''headroom'', ''legacy'',
                                      ''off'', ''false''])"

definition score_of :: "account \<Rightarrow> f64" where
  "score_of a = (case ac_usage_score a of None \<Rightarrow> f64_MAX | Some s \<Rightarrow> s)"

definition included :: "account \<Rightarrow> bool" where
  "included a = (ac_available a \<and> \<not> ac_usage_stale a \<and> ac_billing a = RateLimited
     \<and> (ac_primary_used a \<noteq> None \<or> ac_secondary_used a \<noteq> None))"

definition included_cmp :: "bool \<Rightarrow> account \<Rightarrow> account \<Rightarrow> ordering" where
  "included_cmp most a b =
     (let by_score = cmp (score_of a) (score_of b);
          exhausted_a = f64_le (Fin 500) (score_of a);
          exhausted_b = f64_le (Fin 500) (score_of b);
          reset = (\<lambda>x. case ac_resets_at x of None \<Rightarrow> i64_max | Some t \<Rightarrow> t)
      in then_with (cmp exhausted_a exhausted_b)
           (if most \<or> exhausted_a then by_score else then_with (cmp (reset a) (reset b)) by_score))"

definition select_included :: "string option \<Rightarrow> account list \<Rightarrow> select_error + string" where
  "select_included env accounts =
     (let eligible = filter included accounts;
          has_below = list_ex (\<lambda>a. \<not> at_switch_threshold a) eligible
      in case min_by (included_cmp (prefers_headroom env))
                (filter (\<lambda>a. \<not> has_below \<or> \<not> at_switch_threshold a) eligible) of
           None \<Rightarrow> Inl NoIncludedUsage
         | Some a \<Rightarrow> Inr (ac_alias a))"

definition select :: "string option \<Rightarrow> account list \<Rightarrow> select_error + string" where
  "select env accounts = owned_then_borrowed accounts (select_included env)"

definition has_launch_headroom :: "account \<Rightarrow> bool" where
  "has_launch_headroom a =
     (let used = flatten [ac_primary_used a, ac_secondary_used a]
      in used \<noteq> [] \<and> list_all (\<lambda>u. is_finite u \<and> f64_lt u (Fin 100)) used)"

definition launchable :: "string list \<Rightarrow> account \<Rightarrow> bool" where
  "launchable excluded a =
     (\<not> list_ex (\<lambda>alias. eq_ignore_ascii_case alias (ac_alias a)) excluded
      \<and> ac_available a \<and> ac_live_sessions a \<noteq> None \<and> \<not> ac_usage_stale a
      \<and> ac_billing a = RateLimited \<and> has_launch_headroom a)"

text \<open>Rust orders \<open>None\<close> before \<open>Some\<close>; a missing rate or score counts as \<open>f64::MAX\<close>.\<close>

definition option_cmp :: "'a :: linorder option \<Rightarrow> 'a option \<Rightarrow> ordering" where
  "option_cmp x y =
     (case (x, y) of
        (None, None) \<Rightarrow> Equal | (None, Some _) \<Rightarrow> Less | (Some _, None) \<Rightarrow> Greater
      | (Some a, Some b) \<Rightarrow> cmp a b)"

definition or_max :: "f64 option \<Rightarrow> f64" where
  "or_max x = (case x of None \<Rightarrow> f64_MAX | Some s \<Rightarrow> s)"

definition load_cmp :: "account \<Rightarrow> account \<Rightarrow> ordering" where
  "load_cmp l r =
     then_with (then_with (then_with
       (option_cmp (ac_live_sessions l) (ac_live_sessions r))
       (cmp (or_max (ac_recent_429_rate l)) (or_max (ac_recent_429_rate r))))
       (cmp (or_max (ac_usage_score l)) (or_max (ac_usage_score r))))
       (cmp (ac_alias l) (ac_alias r))"

definition select_least_loaded :: "account list \<Rightarrow> string list \<Rightarrow> select_error + string" where
  "select_least_loaded accounts excluded =
     (case min_by load_cmp (filter (launchable excluded) accounts) of
        None \<Rightarrow> Inl NoHeadroom
      | Some a \<Rightarrow> Inr (ac_alias a))"

definition select_for_codex_excluding :: "account list \<Rightarrow> string list \<Rightarrow> select_error + string" where
  "select_for_codex_excluding accounts excluded =
     owned_then_borrowed accounts (\<lambda>xs. select_least_loaded xs excluded)"

definition select_for_codex :: "account list \<Rightarrow> select_error + string" where
  "select_for_codex accounts = select_for_codex_excluding accounts []"

subsection \<open>Activation with banked resets\<close>

record reset_credit =
  rc_id :: string
  rc_status :: string
  rc_expires_at :: "string option"

datatype reset_outcome = ReadResets int int "reset_credit list" | ResetReadFailed string

definition credit_available :: "reset_credit \<Rightarrow> bool" where
  "credit_available c = (rc_status c = ''available'')"

definition credit_expiry :: "(string \<Rightarrow> int option) \<Rightarrow> reset_credit \<Rightarrow> int option" where
  "credit_expiry parse c = Option.bind (rc_expires_at c) parse"

definition full_percent :: "f64 \<Rightarrow> bool" where
  "full_percent used = (is_finite used \<and> f64_le (Fin 100) used)"

definition resettable :: "account \<Rightarrow> bool" where
  "resettable a =
     (ac_loan a = None \<and> ac_available a \<and> \<not> ac_usage_stale a \<and> ac_billing a \<noteq> UsageBased
      \<and> (case ac_plan a of None \<Rightarrow> False | Some p \<Rightarrow> is_known_rate_limited_plan p)
      \<and> list_ex full_percent (flatten [ac_primary_used a, ac_secondary_used a]))"

definition reset_candidate ::
    "(string \<Rightarrow> int option) \<Rightarrow> int \<Rightarrow> (string \<times> reset_outcome) list \<Rightarrow> account \<Rightarrow> (int \<times> string) option" where
  "reset_candidate parse now inventory a =
     (if \<not> resettable a then None
      else (case find (\<lambda>r. fst r = ac_alias a) inventory of
          Some (_, ReadResets _ applicable credits) \<Rightarrow>
            if 0 < applicable then
              (let expiries = map (\<lambda>c. case credit_expiry parse c of None \<Rightarrow> i64_max | Some t \<Rightarrow> t)
                     (filter (\<lambda>c. case credit_expiry parse c of None \<Rightarrow> True | Some t \<Rightarrow> now < t)
                       (filter credit_available credits))
               in if expiries = [] then None else Some (Min (set expiries), ac_alias a))
            else None
        | _ \<Rightarrow> None))"

definition ready_now :: "account \<Rightarrow> bool" where
  "ready_now a =
     list_all (\<lambda>u. is_finite u \<and> f64_le (Fin 0) u \<and> f64_lt u (Fin 100))
       (flatten [ac_primary_used a, ac_secondary_used a])"

definition select_for_activation ::
    "string option \<Rightarrow> (string \<Rightarrow> int option) \<Rightarrow> int \<Rightarrow> (string \<times> reset_outcome) list option
      \<Rightarrow> account list \<Rightarrow> bool \<Rightarrow> select_error + string \<times> bool" where
  "select_for_activation env parse now inventory accounts allow_resets =
     (case select env (filter ready_now accounts) of
        Inr alias \<Rightarrow> Inr (alias, False)
      | Inl _ \<Rightarrow>
          if \<not> allow_resets then
            (case select env accounts of Inl e \<Rightarrow> Inl e | Inr alias \<Rightarrow> Inr (alias, False))
          else
            (case inventory of
               None \<Rightarrow> Inl ServerDisconnected
             | Some resets \<Rightarrow>
                 (case sort (List.map_filter (reset_candidate parse now resets) accounts) of
                    [] \<Rightarrow> Inl NoResetAvailable
                  | (_, alias) # _ \<Rightarrow> Inr (alias, True))))"

section \<open>What a pick guarantees\<close>

text \<open>
  The contract between \<open>owned_then_borrowed\<close> and the picks it is given: a pick answers
  with the alias of an acceptable account no acceptable one is better than, and fails
  exactly when there is none.
\<close>

text \<open>The accounts a pick may answer with: the acceptable owned ones or, when there is none,
  the acceptable borrowed ones with room.\<close>

definition candidate_pool :: "(account \<Rightarrow> bool) \<Rightarrow> account list \<Rightarrow> account list" where
  "candidate_pool ok accounts =
     (let owned = filter (\<lambda>a. ok a \<and> ac_loan a = None) accounts
      in if owned \<noteq> [] then owned else filter (\<lambda>a. ok a \<and> borrowed_auto_eligible a) accounts)"

lemma candidate_pool_Nil:
  "candidate_pool ok xs = [] \<longleftrightarrow> (\<forall>a \<in> set xs. ok a \<longrightarrow> ac_loan a \<noteq> None \<and> \<not> borrowed_auto_eligible a)"
  by (auto simp: candidate_pool_def Let_def filter_empty_conv)

locale account_pick =
  fixes pick :: "account list \<Rightarrow> select_error + string"
    and ok :: "account \<Rightarrow> bool"
    and better :: "account \<Rightarrow> account \<Rightarrow> bool"
  assumes picks: "pick xs = Inr chosen \<Longrightarrow>
      \<exists>a \<in> set xs. ok a \<and> ac_alias a = chosen \<and> (\<forall>b \<in> set xs. ok b \<longrightarrow> better a b)"
    and fails: "pick xs = Inl e \<Longrightarrow> \<forall>a \<in> set xs. \<not> ok a"
begin

lemma picked_owned_first:
  assumes "owned_then_borrowed xs pick = Inr chosen"
  shows "\<exists>a \<in> set xs. ok a \<and> ac_alias a = chosen
     \<and> (ac_loan a = None \<or> borrowed_auto_eligible a \<and> (\<forall>b \<in> set xs. \<not> (ok b \<and> ac_loan b = None)))
     \<and> (\<forall>b \<in> set xs. ok b \<and> (ac_loan b = None \<or> ac_loan a \<noteq> None \<and> borrowed_auto_eligible b) \<longrightarrow> better a b)"
proof (cases "list_all (\<lambda>a. ac_loan a = None) xs")
  case True
  with assms picks [of xs chosen] show ?thesis by (auto simp: owned_then_borrowed_def list_all_iff)
next
  case False
  let ?owned = "filter (\<lambda>a. ac_loan a = None) xs"
  let ?roomy = "filter borrowed_auto_eligible (filter (\<lambda>a. ac_loan a \<noteq> None) xs)"
  show ?thesis
  proof (cases "pick ?owned")
    case (Inl e)
    with assms False have "pick ?roomy = Inr chosen"
      by (cases "pick ?roomy") (simp_all add: owned_then_borrowed_def Let_def)
    from picks [OF this] obtain a where "a \<in> set ?roomy" "ok a" "ac_alias a = chosen"
      "\<forall>b \<in> set ?roomy. ok b \<longrightarrow> better a b" by blast
    with fails [OF Inl] show ?thesis by (intro bexI [of _ a] conjI ballI impI) force+
  next
    case (Inr x)
    with assms False have "pick ?owned = Inr chosen" by (simp add: owned_then_borrowed_def Let_def)
    from picks [OF this] obtain a where "a \<in> set ?owned" "ok a" "ac_alias a = chosen"
      "\<forall>b \<in> set ?owned. ok b \<longrightarrow> better a b" by blast
    then show ?thesis by (intro bexI [of _ a]) auto
  qed
qed

lemma fails_exactly:
  "(\<exists>e. owned_then_borrowed xs pick = Inl e) \<longleftrightarrow>
     (\<forall>a \<in> set xs. ok a \<longrightarrow> ac_loan a \<noteq> None \<and> \<not> borrowed_auto_eligible a)"
proof
  assume "\<exists>e. owned_then_borrowed xs pick = Inl e"
  then obtain e where e: "owned_then_borrowed xs pick = Inl e" ..
  show "\<forall>a \<in> set xs. ok a \<longrightarrow> ac_loan a \<noteq> None \<and> \<not> borrowed_auto_eligible a"
  proof (cases "list_all (\<lambda>a. ac_loan a = None) xs")
    case True
    with e have "pick xs = Inl e" by (simp add: owned_then_borrowed_def)
    from fails [OF this] show ?thesis by blast
  next
    case False
    let ?owned = "filter (\<lambda>a. ac_loan a = None) xs"
    let ?roomy = "filter borrowed_auto_eligible (filter (\<lambda>a. ac_loan a \<noteq> None) xs)"
    obtain e1 where one: "pick ?owned = Inl e1"
      using e False by (cases "pick ?owned") (simp_all add: owned_then_borrowed_def Let_def)
    obtain e2 where two: "pick ?roomy = Inl e2"
      using e False one by (cases "pick ?roomy") (simp_all add: owned_then_borrowed_def Let_def)
    show ?thesis
    proof (intro ballI impI)
      fix a
      assume "a \<in> set xs" and "ok a"
      with fails [OF one] fails [OF two] show "ac_loan a \<noteq> None \<and> \<not> borrowed_auto_eligible a" by force
    qed
  qed
next
  assume none: "\<forall>a \<in> set xs. ok a \<longrightarrow> ac_loan a \<noteq> None \<and> \<not> borrowed_auto_eligible a"
  show "\<exists>e. owned_then_borrowed xs pick = Inl e"
  proof (cases "owned_then_borrowed xs pick")
    case (Inr chosen)
    with picked_owned_first none show ?thesis by fastforce
  qed simp
qed

lemma picks_from_pool:
  "case owned_then_borrowed xs pick of
     Inr chosen \<Rightarrow> \<exists>a \<in> set (candidate_pool ok xs).
       ac_alias a = chosen \<and> list_all (better a) (candidate_pool ok xs)
   | Inl _ \<Rightarrow> candidate_pool ok xs = []"
proof (cases "owned_then_borrowed xs pick")
  case (Inl e)
  then show ?thesis using fails_exactly [of xs] by (simp add: candidate_pool_Nil)
next
  case (Inr chosen)
  from picked_owned_first [OF Inr] obtain a where a: "a \<in> set xs" "ok a" "ac_alias a = chosen"
    "ac_loan a = None \<or> borrowed_auto_eligible a \<and> (\<forall>b \<in> set xs. \<not> (ok b \<and> ac_loan b = None))"
    "\<forall>b \<in> set xs. ok b \<and> (ac_loan b = None \<or> ac_loan a \<noteq> None \<and> borrowed_auto_eligible b) \<longrightarrow> better a b"
    by blast
  have "a \<in> set (candidate_pool ok xs) \<and> (\<forall>b \<in> set (candidate_pool ok xs). better a b)"
  proof (cases "ac_loan a = None")
    case True
    with a have "candidate_pool ok xs = filter (\<lambda>a. ok a \<and> ac_loan a = None) xs"
      by (auto simp: candidate_pool_def Let_def filter_empty_conv)
    with a True show ?thesis by auto
  next
    case False
    with a have "candidate_pool ok xs = filter (\<lambda>a. ok a \<and> borrowed_auto_eligible a) xs"
      by (auto simp: candidate_pool_def Let_def filter_empty_conv)
    with a False show ?thesis by auto
  qed
  with Inr a(3) show ?thesis by (auto simp: list_all_iff)
qed

end

definition included_key :: "bool \<Rightarrow> account \<Rightarrow> bool \<times> int \<times> f64" where
  "included_key most a =
     (f64_le (Fin 500) (score_of a),
      (if most \<or> f64_le (Fin 500) (score_of a) then 0
       else (case ac_resets_at a of None \<Rightarrow> i64_max | Some t \<Rightarrow> t)), score_of a)"

lemma included_key: "by_key (included_key most) (included_cmp most)"
  by (auto simp: by_key_def included_key_def included_cmp_def Let_def cmp_def)

definition load_key :: "account \<Rightarrow> (bool \<times> nat) \<times> f64 \<times> f64 \<times> string" where
  "load_key a = ((ac_live_sessions a \<noteq> None, case ac_live_sessions a of None \<Rightarrow> 0 | Some n \<Rightarrow> n),
     or_max (ac_recent_429_rate a), or_max (ac_usage_score a), ac_alias a)"

lemma option_cmp_key:
  "option_cmp x y = cmp (x \<noteq> None, case x of None \<Rightarrow> 0 | Some n \<Rightarrow> n) (y \<noteq> None, case y of None \<Rightarrow> 0 | Some (n :: nat) \<Rightarrow> n)"
  by (auto simp: option_cmp_def cmp_def split: option.split)

lemma load_key: "by_key load_key load_cmp"
  by (auto simp: by_key_def load_cmp_def load_key_def option_cmp_key cmp_def)

definition prefers :: "bool \<Rightarrow> account \<Rightarrow> account \<Rightarrow> bool" where
  "prefers most a b =
     (\<not> at_switch_threshold a \<and> at_switch_threshold b
      \<or> at_switch_threshold a = at_switch_threshold b \<and> included_key most a \<le> included_key most b)"

interpretation included_pick: account_pick "select_included env" included "prefers (prefers_headroom env)"
proof (unfold_locales, goal_cases)
  case (1 xs chosen)
  let ?below = "list_ex (\<lambda>a. \<not> at_switch_threshold a) (filter included xs)"
  let ?rest = "filter (\<lambda>a. \<not> ?below \<or> \<not> at_switch_threshold a) (filter included xs)"
  obtain a where a: "min_by (included_cmp (prefers_headroom env)) ?rest = Some a" "ac_alias a = chosen"
    using 1 by (auto simp: select_included_def Let_def split: option.splits)
  have in_rest: "a \<in> set ?rest" by (rule min_by_in [OF a(1)])
  have least: "included_key (prefers_headroom env) a \<le> included_key (prefers_headroom env) b"
    if "b \<in> set ?rest" for b
    by (rule min_by_least [OF included_key a(1) that])
  have "prefers (prefers_headroom env) a b" if "b \<in> set xs" "included b" for b
  proof (cases ?below)
    case True
    with in_rest have "\<not> at_switch_threshold a" by auto
    moreover have "at_switch_threshold b \<or> b \<in> set ?rest" using that by auto
    ultimately show ?thesis using least [of b] by (auto simp: prefers_def)
  next
    case False
    then have "b \<in> set ?rest" using that by auto
    moreover have "at_switch_threshold a" "at_switch_threshold b"
      using False in_rest that by (auto simp: list_ex_iff)
    ultimately show ?thesis using least [of b] by (simp add: prefers_def)
  qed
  with in_rest a(2) show ?case by auto
next
  case (2 xs e)
  then show ?case
    by (auto simp: select_included_def Let_def filter_empty_conv list_ex_iff split: option.splits)
qed

interpretation launch_pick: account_pick "\<lambda>xs. select_least_loaded xs excluded" "launchable excluded"
    "\<lambda>a b. load_key a \<le> load_key b"
proof (unfold_locales, goal_cases)
  case (1 xs chosen)
  then obtain a where a: "min_by load_cmp (filter (launchable excluded) xs) = Some a" "ac_alias a = chosen"
    by (auto simp: select_least_loaded_def split: option.splits)
  with min_by_in [OF a(1)] min_by_least [OF load_key a(1)] show ?case by auto
next
  case (2 xs e)
  then show ?case
    by (auto simp: select_least_loaded_def filter_empty_conv split: option.splits)
qed

section \<open>Properties\<close>

text \<open>C35: a launch goes to an account that is not excluded in any letter case, is available
  and fresh, is included usage and has headroom in every window it reports; an owned account
  whenever one qualifies, otherwise a borrowed one with room for the borrower; and among
  those of its kind, to a least loaded one. It fails exactly when no account qualifies.\<close>

theorem launch_selection:
  "let pool = candidate_pool (\<lambda>a.
            \<not> list_ex (\<lambda>alias. eq_ignore_ascii_case alias (ac_alias a)) excluded
            \<and> ac_available a \<and> ac_live_sessions a \<noteq> None \<and> \<not> ac_usage_stale a \<and> ac_billing a = RateLimited
            \<and> (ac_primary_used a, ac_secondary_used a) \<noteq> (None, None)
            \<and> list_all (\<lambda>u. is_finite u \<and> f64_lt u (Fin 100)) (flatten [ac_primary_used a, ac_secondary_used a])) accounts
   in case select_for_codex_excluding accounts excluded of
        Inr chosen \<Rightarrow>
          (\<exists>a \<in> set pool. ac_alias a = chosen
             \<and> list_all (\<lambda>b.
                  (case (ac_live_sessions a, ac_live_sessions b) of
                     (Some m, Some n) \<Rightarrow>
                       m < n \<or> m = n \<and> (or_max (ac_recent_429_rate a), or_max (ac_usage_score a), ac_alias a)
                                     \<le> (or_max (ac_recent_429_rate b), or_max (ac_usage_score b), ac_alias b)
                   | _ \<Rightarrow> False)) pool)
      | Inl _ \<Rightarrow> pool = []"
proof -
  have pool: "(\<lambda>a.
            \<not> list_ex (\<lambda>alias. eq_ignore_ascii_case alias (ac_alias a)) excluded
            \<and> ac_available a \<and> ac_live_sessions a \<noteq> None \<and> \<not> ac_usage_stale a \<and> ac_billing a = RateLimited
            \<and> (ac_primary_used a, ac_secondary_used a) \<noteq> (None, None)
            \<and> list_all (\<lambda>u. is_finite u \<and> f64_lt u (Fin 100)) (flatten [ac_primary_used a, ac_secondary_used a])) = launchable excluded"
    by (auto simp: launchable_def has_launch_headroom_def flatten_def fun_eq_iff split: option.splits)
  have "(case (ac_live_sessions a, ac_live_sessions b) of
      (Some m, Some n) \<Rightarrow>
        m < n \<or> m = n \<and> (or_max (ac_recent_429_rate a), or_max (ac_usage_score a), ac_alias a)
                      \<le> (or_max (ac_recent_429_rate b), or_max (ac_usage_score b), ac_alias b)
    | _ \<Rightarrow> False)"
    if "load_key a \<le> load_key b" "launchable excluded a" "launchable excluded b" for a b
    using that by (auto simp: load_key_def launchable_def less_eq_prod_def split: option.splits)
  moreover have "launchable excluded a" if "a \<in> set (candidate_pool (launchable excluded) accounts)" for a
    using that by (auto simp: candidate_pool_def Let_def split: if_splits)
  ultimately show ?thesis
    using launch_pick.picks_from_pool [of excluded accounts]
    unfolding pool Let_def select_for_codex_excluding_def
    by (auto simp: list_all_iff split: sum.splits)
qed

text \<open>activation without resets picks an included account; it takes one at 95 percent or
  more only when every included account of the same kind is there, and among the rest one
  that sorts first by exhaustion, weekly reset and score. It fails exactly when there is no
  included account it may use.\<close>

theorem included_selection:
  "case select env accounts of
     Inr chosen \<Rightarrow>
       (\<exists>a \<in> set (candidate_pool included accounts). ac_alias a = chosen
          \<and> list_all (prefers (prefers_headroom env) a) (candidate_pool included accounts))
   | Inl _ \<Rightarrow> candidate_pool included accounts = []"
  unfolding select_def by (rule included_pick.picks_from_pool)

lemma select_Inl: "select env xs = Inl e \<Longrightarrow> a \<in> set xs \<Longrightarrow>
    \<not> (included a \<and> (ac_loan a = None \<or> borrowed_auto_eligible a))"
  using included_pick.fails_exactly [of xs env] by (auto simp: select_def)

lemma select_Inr: "select env xs = Inr chosen \<Longrightarrow> \<exists>a \<in> set xs. ac_alias a = chosen \<and> included a"
  using included_pick.picked_owned_first [of xs env chosen] by (auto simp: select_def)

lemma reset_candidate_Some:
  assumes "reset_candidate parse now resets a = Some (t, chosen)"
  shows "ac_alias a = chosen \<and> resettable a
     \<and> (\<exists>available applicable credits c. (chosen, ReadResets available applicable credits) \<in> set resets
          \<and> 0 < applicable \<and> c \<in> set credits \<and> credit_available c
          \<and> (case credit_expiry parse c of None \<Rightarrow> True | Some t \<Rightarrow> now < t))"
proof -
  let ?live = "\<lambda>credits. filter (\<lambda>c. case credit_expiry parse c of None \<Rightarrow> True | Some t \<Rightarrow> now < t)
      (filter credit_available credits)"
  have ok: "resettable a" using assms by (simp add: reset_candidate_def split: if_splits)
  obtain name out where find: "find (\<lambda>r. fst r = ac_alias a) resets = Some (name, out)"
    using assms ok by (cases "find (\<lambda>r. fst r = ac_alias a) resets") (auto simp: reset_candidate_def)
  obtain available applicable credits where out: "out = ReadResets available applicable credits"
    using assms ok find by (cases out) (auto simp: reset_candidate_def)
  have "0 < applicable" and some: "?live credits \<noteq> []" and "chosen = ac_alias a"
    using assms ok find out by (auto simp: reset_candidate_def Let_def split: if_splits)
  moreover have "(ac_alias a, out) \<in> set resets"
    using find by (auto simp: find_Some_iff) (metis fst_conv nth_mem)
  moreover obtain c where "c \<in> set credits" "credit_available c"
    "case credit_expiry parse c of None \<Rightarrow> True | Some t \<Rightarrow> now < t"
    using some by (auto simp: filter_empty_conv)
  ultimately show ?thesis using ok out by blast
qed

text \<open>a banked reset is planned only when no account with headroom can be selected, and
  then for an owned, available subscription account with an exhausted window and a credit
  that is redeemable and not expired.\<close>

theorem reset_only_when_exhausted:
  "case select_for_activation env parse now inventory accounts allow_resets of
     Inr (chosen, True) \<Rightarrow>
       allow_resets
       \<and> candidate_pool (\<lambda>a. ready_now a \<and> included a) accounts = []
       \<and> (\<exists>a \<in> set accounts. ac_alias a = chosen \<and> resettable a
            \<and> (\<exists>available applicable credits c. inventory \<noteq> None
                 \<and> (chosen, ReadResets available applicable credits) \<in> set (the inventory)
                 \<and> 0 < applicable \<and> c \<in> set credits \<and> credit_available c
                 \<and> (case credit_expiry parse c of None \<Rightarrow> True | Some t \<Rightarrow> now < t)))
   | Inr (chosen, False) \<Rightarrow> (\<exists>a \<in> set accounts. ac_alias a = chosen \<and> included a)
   | Inl _ \<Rightarrow>
       candidate_pool (\<lambda>a. ready_now a \<and> included a) accounts = []"
proof (cases "select env (filter ready_now accounts)")
  case (Inr chosen)
  with select_Inr [OF Inr] show ?thesis by (auto simp: select_for_activation_def)
next
  case (Inl e)
  have none: "candidate_pool (\<lambda>a. ready_now a \<and> included a) accounts = []"
    using select_Inl [OF Inl] by (auto simp: candidate_pool_Nil)
  show ?thesis
  proof (cases allow_resets)
    case False
    show ?thesis
    proof (cases "select env accounts")
      case (Inr chosen)
      with select_Inr [OF Inr] Inl False show ?thesis by (simp add: select_for_activation_def)
    qed (use Inl False none in \<open>simp add: select_for_activation_def\<close>)
  next
    case True
    show ?thesis
    proof (cases inventory)
      case None
      with Inl True none show ?thesis by (simp add: select_for_activation_def)
    next
      case (Some resets)
      let ?cands = "sort (List.map_filter (reset_candidate parse now resets) accounts)"
      show ?thesis
      proof (cases ?cands)
        case Nil
        with Inl True Some none show ?thesis by (simp add: select_for_activation_def)
      next
        case (Cons x rest)
        obtain t chosen where x: "x = (t, chosen)" by (cases x)
        have "(t, chosen) \<in> set ?cands" unfolding Cons x by simp
        then have "(t, chosen) \<in> set (List.map_filter (reset_candidate parse now resets) accounts)"
          by (simp only: set_sort)
        then obtain a where "a \<in> set accounts" "reset_candidate parse now resets a = Some (t, chosen)"
          by (auto simp: List.map_filter_def)
        with reset_candidate_Some have "\<exists>a \<in> set accounts. ac_alias a = chosen \<and> resettable a
            \<and> (\<exists>available applicable credits c. (chosen, ReadResets available applicable credits) \<in> set resets
               \<and> 0 < applicable \<and> c \<in> set credits \<and> credit_available c
               \<and> (case credit_expiry parse c of None \<Rightarrow> True | Some t \<Rightarrow> now < t))" by blast
        moreover have "select_for_activation env parse now inventory accounts allow_resets = Inr (chosen, True)"
          using Inl True Some Cons x by (simp add: select_for_activation_def)
        ultimately show ?thesis using none True Some by simp
      qed
    qed
  qed
qed

text \<open>A freshly issued borrowed token counts as having room only when its source reports
  every window, it reports at least one, and all of them are below the backoff.\<close>

theorem borrowed_token_room:
  "if token_below_borrower_backoff (Some (sl_from_usage now u))
   then \<not> rr_windows_partial u \<and> all_windows u \<noteq> []
     \<and> list_all (\<lambda>w. is_nan (w_used w) \<or> f64_lt (w_used w) (Fin 95)) (all_windows u)
   else \<not> (sl_max_used (sl_from_usage now u) \<noteq> None
     \<and> list_all roomy (flatten [sl_five_hour_used (sl_from_usage now u),
           sl_weekly_used (sl_from_usage now u), sl_max_used (sl_from_usage now u)]))"
proof (cases "token_below_borrower_backoff (Some (sl_from_usage now u))")
  case False
  then show ?thesis by (auto simp: token_below_borrower_backoff_def Let_def flatten_def split: if_splits)
next
  case True
  then obtain m where m: "sl_max_used (sl_from_usage now u) = Some m" "roomy m"
    by (auto simp: token_below_borrower_backoff_def Let_def list_all_iff split: if_splits)
  have "is_nan (w_used w) \<or> f64_lt (w_used w) (Fin 95)" if "is_nan (w_used w) \<or> f64_le (w_used w) m" for w
    using that m(2) by (cases "w_used w"; cases m) (auto simp: roomy_def borrower_backoff_percent_def f64_le.simps f64_lt.simps)
  moreover have "list_all (\<lambda>w. is_nan (w_used w) \<or> f64_le (w_used w) m) (all_windows u)"
    using max_covers [of u now] m(1) by simp
  moreover have "\<not> rr_windows_partial u" "all_windows u \<noteq> []"
    using m(1) by (auto simp: sl_from_usage_def Let_def reduce_max_def split: if_splits)
  ultimately show ?thesis using True by (auto simp: list_all_iff)
qed

end
