(* ===== verification/Capacity.thy ===== *)
theory Capacity
  imports Select BTree "HOL-Library.Multiset"
begin

text \<open>
  Account and model capacity evidence and same-session recovery
  (\<open>src/central/capacity.rs\<close>): bounded histories of overload failures per login and
  model, cooling, and the move budget of a session. SHA-256 is outside \<open>src/\<close>:
  \<open>key_of model identity\<close> stands for the digest of a new history's key and \<open>event_of\<close>
  for the 32-digit digest of an event id. An operation that fails returns before the store
  writes anything, so it returns no state.
\<close>

section \<open>Requests and evidence\<close>

definition cap_window :: int where "cap_window = 120"
definition cap_cooldown :: int where "cap_cooldown = 300"
definition cap_retention :: int where "cap_retention = 3600"
definition max_entries :: nat where "max_entries = 128"
definition max_events :: nat where "max_events = 256"
definition max_terminals :: nat where "max_terminals = 16"
definition max_sessions :: nat where "max_sessions = 128"

datatype outcome = Overloaded | Completed | Terminal

record evidence =
  ev_alias :: string
  ev_model :: string
  ev_id :: string
  ev_outcome :: outcome
  ev_session :: "string option"
  ev_observed_at :: "int option"
  ev_identity :: "subject option"

record capacity_account =
  ca_account :: account
  ca_identity :: subject

record plan_request =
  pr_model :: string
  pr_session :: "string option"
  pr_failed_alias :: "string option"
  pr_tried :: "string list"
  pr_rates :: "(string, f64) btree"

datatype plan_answer = Selected string | Stop string

datatype capacity_error =
  InvalidEvidence | InvalidPlan | ExpiredObservation | MissingIdentity | UnprovenIdentity
| HistoryLimit | TerminalLimit | EvidenceLimit | SessionLimit | MissingFailedAccount
| MissingSelectedIdentity | ScopeAbsent

text \<open>\<open>RELAY_KNOWN_MODELS\<close> of \<open>src/lib.rs\<close>.\<close>

definition known_models :: "string list" where
  "known_models =
     [''gpt-5'', ''gpt-5.1'', ''gpt-5.2'', ''gpt-5.3'', ''gpt-5.4'', ''gpt-5.5'', ''gpt-6'', ''gpt-6.1'',
      ''gpt-6.1-sol'', ''gpt-6-astra'', ''gpt-6-luna'', ''gpt-6-sol'']"

definition known_model :: "string \<Rightarrow> bool" where
  "known_model m = (m \<in> set known_models)"

definition valid_event_id :: "string \<Rightarrow> bool" where
  "valid_event_id v = (v \<noteq> [] \<and> length v \<le> 96 \<and> list_all (\<lambda>c. ascii_alnum c \<or> c \<in> set ''-_.:'') v)"

definition parses :: "string \<Rightarrow> bool" where
  "parses a = (case parse_ref a of Inl _ \<Rightarrow> False | Inr _ \<Rightarrow> True)"

definition evidence_valid :: "evidence \<Rightarrow> bool" where
  "evidence_valid e =
     (parses (ev_alias e) \<and> known_model (ev_model e) \<and> valid_event_id (ev_id e)
      \<and> (case ev_session e of None \<Rightarrow> True | Some s \<Rightarrow> uuid_shape s)
      \<and> \<not> (ev_outcome e = Terminal \<and> ev_session e = None))"

definition rate_valid :: "f64 \<Rightarrow> bool" where
  "rate_valid v = (is_finite v \<and> f64_le (Fin 0) v \<and> f64_le v (Fin 1))"

definition plan_valid :: "plan_request \<Rightarrow> bool" where
  "plan_valid r =
     (\<not> (max_entries < length (pr_rates r)
         \<or> list_ex (\<lambda>v. \<not> rate_valid v) (bt_values (pr_rates r))
         \<or> \<not> known_model (pr_model r)
         \<or> 64 < length (pr_tried r)
         \<or> list_ex (\<lambda>a. \<not> parses a) (pr_tried r)
         \<or> (case pr_session r of None \<Rightarrow> False | Some s \<Rightarrow> \<not> uuid_shape s)
         \<or> (pr_session r \<noteq> None) \<noteq> (pr_failed_alias r \<noteq> None)
         \<or> (case pr_failed_alias r of None \<Rightarrow> False | Some a \<Rightarrow> \<not> parses a)
         \<or> (pr_session r = None \<and> pr_tried r \<noteq> [])))"

section \<open>State\<close>

record history =
  h_identity :: subject
  h_model :: string
  h_anchor_until :: int
  h_completed_at :: "int option"
  h_completed_ids :: "(string, int) btree"
  h_seen :: "(string, int) btree"
  h_failures :: "int list"
  h_cooling_until :: int
  h_terminal :: "(string, string \<times> int) btree"

record cap_state =
  cs_histories :: "(string, history) btree"
  cs_sessions :: "(string, (int \<times> string \<times> string \<times> string) list) btree"

definition empty_cap :: cap_state where
  "empty_cap = \<lparr>cs_histories = [], cs_sessions = []\<rparr>"

definition new_history :: "subject \<Rightarrow> string \<Rightarrow> history" where
  "new_history identity model =
     \<lparr>h_identity = identity, h_model = model, h_anchor_until = 0, h_completed_at = None,
      h_completed_ids = [], h_seen = [], h_failures = [], h_cooling_until = 0, h_terminal = []\<rparr>"

definition identity_key :: "(string \<Rightarrow> subject \<Rightarrow> string) \<Rightarrow> cap_state \<Rightarrow> subject \<Rightarrow> string \<Rightarrow> string" where
  "identity_key key_of st identity model =
     (case find (\<lambda>(_, h). h_model h = model \<and> same_login (h_identity h) identity) (cs_histories st) of
        Some (k, _) \<Rightarrow> k
      | None \<Rightarrow> key_of model identity)"

definition recent :: "int \<Rightarrow> int \<Rightarrow> bool" where
  "recent now t = (sat_sub now t \<le> cap_window)"

definition prune_history :: "int \<Rightarrow> history \<Rightarrow> history" where
  "prune_history now h =
     h\<lparr>h_seen := bt_retain id (recent now) (h_seen h),
       h_failures := filter (recent now) (h_failures h),
       h_completed_ids := bt_retain id (recent now) (h_completed_ids h),
       h_terminal := bt_retain id (\<lambda>(_, t). sat_sub now t < cap_cooldown) (h_terminal h)\<rparr>"

definition history_live :: "int \<Rightarrow> history \<Rightarrow> bool" where
  "history_live now h =
     (h_seen h \<noteq> [] \<or> now < h_cooling_until h \<or> h_terminal h \<noteq> [] \<or> now < h_anchor_until h
      \<or> (case h_completed_at h of None \<Rightarrow> False | Some t \<Rightarrow> recent now t))"

definition prune :: "int \<Rightarrow> cap_state \<Rightarrow> cap_state" where
  "prune now st =
     \<lparr>cs_histories = bt_retain (prune_history now) (history_live now) (cs_histories st),
      cs_sessions = bt_retain (filter (\<lambda>(t, _). sat_sub now t < cap_retention)) (\<lambda>moves. moves \<noteq> [])
        (cs_sessions st)\<rparr>"

text \<open>A login claim the history does not know yet is learned.\<close>

definition learn :: "subject \<Rightarrow> history \<Rightarrow> history" where
  "learn identity h =
     h\<lparr>h_identity := (h_identity h)\<lparr>subj_claims :=
        \<lparr>login_uid = opt_or (login_uid (subj_claims (h_identity h))) (login_uid (subj_claims identity)),
         login_sub = opt_or (login_sub (subj_claims (h_identity h))) (login_sub (subj_claims identity))\<rparr>\<rparr>\<rparr>"

section \<open>Observing\<close>

definition observe_completed :: "string \<Rightarrow> int \<Rightarrow> history \<Rightarrow> history" where
  "observe_completed event observed h =
     (if (case h_completed_at h of None \<Rightarrow> False | Some t \<Rightarrow> observed < t) \<or> bt_has (h_completed_ids h) event
      then h
      else
        let ids = bt_retain id (\<lambda>t. observed \<le> t) (h_completed_ids h);
            ids = (if max_events \<le> length ids then tl ids else ids);
            failures = filter (\<lambda>t. observed < t) (h_failures h)
        in h\<lparr>h_completed_at := Some observed,
             h_completed_ids := bt_put event observed ids,
             h_failures := failures,
             h_cooling_until := (if length failures < 3 then 0 else h_cooling_until h),
             h_terminal := bt_retain id (\<lambda>(_, t). observed < t) (h_terminal h)\<rparr>)"

definition observe_terminal :: "string \<Rightarrow> string \<Rightarrow> int \<Rightarrow> history \<Rightarrow> capacity_error + history" where
  "observe_terminal session event_id observed h =
     (if (case bt_get (h_terminal h) session of None \<Rightarrow> False | Some (i, _) \<Rightarrow> i = event_id) then Inr h
      else if \<not> bt_has (h_terminal h) session \<and> max_terminals \<le> length (h_terminal h) then Inl TerminalLimit
      else Inr (h\<lparr>h_terminal := bt_put session (event_id, observed) (h_terminal h)\<rparr>))"

definition observe_overloaded :: "string \<Rightarrow> int \<Rightarrow> int \<Rightarrow> history \<Rightarrow> capacity_error + history" where
  "observe_overloaded event observed now h =
     (if bt_has (h_seen h) event then Inr h
      else if max_events \<le> length (h_seen h) then Inl EvidenceLimit
      else
        let failures = h_failures h @ [observed] in
        Inr (h\<lparr>h_seen := bt_put event observed (h_seen h), h_failures := failures,
               h_cooling_until := (if 3 \<le> length failures \<and> h_cooling_until h \<le> now
                                   then now + cap_cooldown else h_cooling_until h)\<rparr>))"

definition observe_history ::
    "(string \<Rightarrow> string) \<Rightarrow> evidence \<Rightarrow> int \<Rightarrow> int \<Rightarrow> history \<Rightarrow> capacity_error + history" where
  "observe_history event_of e observed now h =
     (if ev_outcome e = Completed then Inr (observe_completed (event_of (ev_id e)) observed h)
      else if (case h_completed_at h of None \<Rightarrow> False | Some t \<Rightarrow> observed < t) then Inr h
      else if ev_outcome e = Terminal then
        (case ev_session e of
           None \<Rightarrow> Inl InvalidEvidence
         | Some session \<Rightarrow> observe_terminal session (ev_id e) observed h)
      else observe_overloaded (event_of (ev_id e)) observed now h)"

definition observe ::
    "(string \<Rightarrow> subject \<Rightarrow> string) \<Rightarrow> (string \<Rightarrow> string) \<Rightarrow> evidence \<Rightarrow> int \<Rightarrow> cap_state
      \<Rightarrow> capacity_error + cap_state" where
  "observe key_of event_of e now st =
     (if \<not> evidence_valid e then Inl InvalidEvidence
      else
        let observed = (case ev_observed_at e of None \<Rightarrow> now | Some t \<Rightarrow> t) in
        if now + 30 < observed \<or> cap_window < sat_sub now observed then Inl ExpiredObservation
        else
          let st = prune now st in
          (case ev_identity e of
             None \<Rightarrow> Inl MissingIdentity
           | Some identity \<Rightarrow>
               if subj_workspace identity = [] \<or> logins_empty (subj_claims identity) then Inl UnprovenIdentity
               else
                 let key = identity_key key_of st identity (ev_model e) in
                 if \<not> bt_has (cs_histories st) key \<and> max_entries \<le> length (cs_histories st) then Inl HistoryLimit
                 else
                   let h = learn identity (case bt_get (cs_histories st) key of
                             Some h \<Rightarrow> h | None \<Rightarrow> new_history identity (ev_model e))
                   in (case observe_history event_of e observed now h of
                         Inl err \<Rightarrow> Inl err
                       | Inr h' \<Rightarrow> Inr (st\<lparr>cs_histories := bt_put key h' (cs_histories st)\<rparr>))))"

section \<open>Planning\<close>

definition learn_account ::
    "(string \<Rightarrow> subject \<Rightarrow> string) \<Rightarrow> string \<Rightarrow> capacity_account \<Rightarrow> cap_state \<Rightarrow> cap_state" where
  "learn_account key_of model a st =
     (let key = identity_key key_of st (ca_identity a) model in
      case bt_get (cs_histories st) key of
        None \<Rightarrow> st
      | Some h \<Rightarrow> st\<lparr>cs_histories := bt_put key (learn (ca_identity a) h) (cs_histories st)\<rparr>)"

definition account_key ::
    "(string \<Rightarrow> subject \<Rightarrow> string) \<Rightarrow> string \<Rightarrow> capacity_account list \<Rightarrow> cap_state \<Rightarrow> string \<Rightarrow> string option" where
  "account_key key_of model accounts st alias =
     map_option (\<lambda>a. identity_key key_of st (ca_identity a) model)
       (find (\<lambda>a. eq_ignore_ascii_case (ac_alias (ca_account a)) alias) accounts)"

definition cooling :: "int \<Rightarrow> cap_state \<Rightarrow> string \<Rightarrow> bool" where
  "cooling now st key = (case bt_get (cs_histories st) key of None \<Rightarrow> False | Some h \<Rightarrow> now < h_cooling_until h)"

text \<open>The accounts a plan may choose, with the rates of the request.\<close>

definition plan_candidates ::
    "(string \<Rightarrow> subject \<Rightarrow> string) \<Rightarrow> plan_request \<Rightarrow> capacity_account list \<Rightarrow> int \<Rightarrow> string list \<Rightarrow> cap_state
      \<Rightarrow> account list" where
  "plan_candidates key_of r accounts now excluded st =
     map (\<lambda>a. (ca_account a)\<lparr>ac_recent_429_rate := bt_get (pr_rates r) (ac_alias (ca_account a))\<rparr>)
       (filter (\<lambda>a.
          let key = identity_key key_of st (ca_identity a) (pr_model r) in
          subj_workspace (ca_identity a) \<noteq> [] \<and> \<not> logins_empty (subj_claims (ca_identity a))
          \<and> key \<notin> set excluded
          \<and> (case bt_get (cs_histories st) key of
               None \<Rightarrow> True
             | Some h \<Rightarrow> h_cooling_until h \<le> now \<and> (pr_session r = None \<or> h_terminal h = [])))
        accounts)"

text \<open>A move charged before is answered again, without a second charge.\<close>

definition replay_move ::
    "(string \<Rightarrow> subject \<Rightarrow> string) \<Rightarrow> plan_request \<Rightarrow> capacity_account list \<Rightarrow> int \<Rightarrow> string \<Rightarrow> cap_state \<Rightarrow> plan_answer" where
  "replay_move key_of r accounts now selected st =
     (let candidates = map ca_account (filter (\<lambda>a.
            \<not> list_ex (\<lambda>alias. eq_ignore_ascii_case alias (ac_alias (ca_account a))) (pr_tried r)
            \<and> identity_key key_of st (ca_identity a) (pr_model r) = selected) accounts)
      in if cooling now st selected then Stop ''alternate_unavailable''
         else (case select_for_codex candidates of
                 Inr alias \<Rightarrow> Selected alias
               | Inl _ \<Rightarrow> Stop ''alternate_unavailable''))"

text \<open>
  The recovery part of a plan: either an answer, or the move to charge (session key,
  failed login, event) with the logins already tried in this session.
\<close>

datatype recovery = Answer plan_answer | Charge string string string "string list"

definition recovery_step ::
    "(string \<Rightarrow> subject \<Rightarrow> string) \<Rightarrow> plan_request \<Rightarrow> capacity_account list \<Rightarrow> int \<Rightarrow> string \<Rightarrow> string \<Rightarrow> string
      \<Rightarrow> cap_state \<Rightarrow> recovery" where
  "recovery_step key_of r accounts now user session failed_alias st =
     (case account_key key_of (pr_model r) accounts st failed_alias of
        None \<Rightarrow> Answer (Stop ''evidence_pending'')
      | Some failed \<Rightarrow>
          (case bt_get (cs_histories st) failed of
             None \<Rightarrow> Answer (Stop ''evidence_pending'')
           | Some h \<Rightarrow>
               (case bt_get (h_terminal h) session of
                  None \<Rightarrow> Answer (Stop ''evidence_pending'')
                | Some (i, _) \<Rightarrow>
                    let session_key = user @ '':'' @ session;
                        event = failed @ '':'' @ i;
                        moves = (case bt_get (cs_sessions st) session_key of None \<Rightarrow> [] | Some m \<Rightarrow> m)
                    in (case find (\<lambda>(_, _, _, e). e = event) moves of
                          Some (_, _, selected, _) \<Rightarrow> Answer (replay_move key_of r accounts now selected st)
                        | None \<Rightarrow>
                            if 3 \<le> length moves then Answer (Stop ''recovery_budget'')
                            else if h_cooling_until h \<le> now then Answer (Stop ''below_threshold'')
                            else Charge session_key failed event
                                   (concat (map (\<lambda>(_, from_key, to_key, _). [from_key, to_key]) moves)
                                    @ [failed])))))"

text \<open>Charging a move: the chosen login is anchored and the session's move recorded.\<close>

definition charge_move ::
    "plan_request \<Rightarrow> capacity_account list \<Rightarrow> int \<Rightarrow> string \<Rightarrow> string \<Rightarrow> string \<Rightarrow> string \<Rightarrow> string \<Rightarrow> cap_state
      \<Rightarrow> capacity_error + cap_state" where
  "charge_move r accounts now alias selected session failed event st =
     (case (case bt_get (cs_histories st) selected of
              Some h \<Rightarrow> Inr (bt_put selected (h\<lparr>h_anchor_until := now + cap_retention\<rparr>) (cs_histories st))
            | None \<Rightarrow>
                if max_entries \<le> length (cs_histories st) then Inl HistoryLimit
                else (case find (\<lambda>a. eq_ignore_ascii_case (ac_alias (ca_account a)) alias) accounts of
                        None \<Rightarrow> Inl MissingSelectedIdentity
                      | Some a \<Rightarrow> Inr (bt_put selected
                            ((new_history (ca_identity a) (pr_model r))\<lparr>h_anchor_until := now + cap_retention\<rparr>)
                            (cs_histories st)))) of
        Inl e \<Rightarrow> Inl e
      | Inr histories \<Rightarrow>
          if \<not> bt_has (cs_sessions st) session \<and> max_sessions \<le> length (cs_sessions st) then Inl SessionLimit
          else
            let moves = (case bt_get (cs_sessions st) session of None \<Rightarrow> [] | Some m \<Rightarrow> m)
            in Inr \<lparr>cs_histories = histories,
                    cs_sessions = bt_put session (moves @ [(now, failed, selected, event)]) (cs_sessions st)\<rparr>)"

definition plan ::
    "(string \<Rightarrow> subject \<Rightarrow> string) \<Rightarrow> plan_request \<Rightarrow> capacity_account list \<Rightarrow> int \<Rightarrow> string \<Rightarrow> cap_state
      \<Rightarrow> capacity_error + plan_answer \<times> cap_state" where
  "plan key_of r accounts now user st =
     (if \<not> plan_valid r then Inl InvalidPlan
      else
        let st = fold (learn_account key_of (pr_model r)) accounts (prune now st);
            tried = List.map_filter (account_key key_of (pr_model r) accounts st) (pr_tried r);
            recovery = (case pr_session r of
                None \<Rightarrow> Inr (Charge [] [] [] [])
              | Some session \<Rightarrow>
                  (case pr_failed_alias r of
                     None \<Rightarrow> Inl MissingFailedAccount
                   | Some failed \<Rightarrow> Inr (recovery_step key_of r accounts now user session failed st)))
        in (case recovery of
              Inl e \<Rightarrow> Inl e
            | Inr (Answer p) \<Rightarrow> Inr (p, st)
            | Inr (Charge session failed event used) \<Rightarrow>
                (case select_for_codex (plan_candidates key_of r accounts now (tried @ used) st) of
                   Inl _ \<Rightarrow> Inr (Stop ''no_included_alternate'', st)
                 | Inr alias \<Rightarrow>
                     (case account_key key_of (pr_model r) accounts st alias of
                        None \<Rightarrow> Inl MissingSelectedIdentity
                      | Some selected \<Rightarrow>
                          if pr_session r = None then Inr (Selected alias, st)
                          else
                            (case charge_move r accounts now alias selected session failed event st of
                               Inl e \<Rightarrow> Inl e
                             | Inr st' \<Rightarrow> Inr (Selected alias, st'))))))"

section \<open>Bounds\<close>

text \<open>
  The bounds the tables of \<open>src/central/storage/capacity.rs\<close> check again: every map in key
  order and within its limit, each failure time backed by a remembered event, and at most
  three moves of a session, for three different events.
\<close>

definition history_ok :: "history \<Rightarrow> bool" where
  "history_ok h =
     (bt_ok (h_completed_ids h) \<and> length (h_completed_ids h) \<le> max_events
      \<and> bt_ok (h_seen h) \<and> length (h_seen h) \<le> max_events
      \<and> mset (h_failures h) \<subseteq># mset (bt_values (h_seen h))
      \<and> bt_ok (h_terminal h) \<and> length (h_terminal h) \<le> max_terminals)"

definition moves_ok :: "(int \<times> string \<times> string \<times> string) list \<Rightarrow> bool" where
  "moves_ok moves = (length moves \<le> 3 \<and> distinct (map (\<lambda>(_, _, _, e). e) moves))"

definition cap_inv :: "cap_state \<Rightarrow> bool" where
  "cap_inv st =
     (bt_ok (cs_histories st) \<and> length (cs_histories st) \<le> max_entries
      \<and> (\<forall>k h. bt_get (cs_histories st) k = Some h \<longrightarrow> history_ok h)
      \<and> bt_ok (cs_sessions st) \<and> length (cs_sessions st) \<le> max_sessions
      \<and> (\<forall>k m. bt_get (cs_sessions st) k = Some m \<longrightarrow> moves_ok m))"

lemma cap_invD:
  assumes "cap_inv st"
  shows "bt_ok (cs_histories st)" "length (cs_histories st) \<le> max_entries"
    "bt_get (cs_histories st) k = Some h \<Longrightarrow> history_ok h"
    "bt_ok (cs_sessions st)" "length (cs_sessions st) \<le> max_sessions"
    "bt_get (cs_sessions st) k = Some m \<Longrightarrow> moves_ok m"
  using assms by (simp_all add: cap_inv_def)

lemma bt_values_retain: "bt_values (bt_retain id P m) = filter P (bt_values m)"
  by (induction m) (auto simp: bt_retain_def bt_map_def bt_values_def)

lemma bt_values_put_new:
  "\<not> bt_has m k \<Longrightarrow> mset (bt_values (bt_put k v m)) = add_mset v (mset (bt_values m))"
  by (induction k v m rule: bt_put.induct) (auto simp: bt_values_def bt_has_def split: if_splits)

lemma bt_ok_tl [simp]: "bt_ok m \<Longrightarrow> bt_ok (tl m)"
  by (cases m) auto

lemma history_ok_new: "history_ok (new_history identity model)"
  by (simp add: history_ok_def new_history_def)

lemma history_ok_learn [simp]: "history_ok (learn identity h) = history_ok h"
  by (simp add: history_ok_def learn_def)

lemma history_ok_anchor [simp]: "history_ok (h\<lparr>h_anchor_until := t\<rparr>) = history_ok h"
  by (simp add: history_ok_def)

lemma mset_filter_sub: "mset xs \<subseteq># mset ys \<Longrightarrow> mset (filter P xs) \<subseteq># mset (filter P ys)"
  by (simp add: multiset_filter_mono)

lemma history_ok_prune: "history_ok h \<Longrightarrow> history_ok (prune_history now h)"
  by (auto simp: history_ok_def prune_history_def bt_values_retain mset_filter_sub
      intro: le_trans [OF length_bt_retain_le] simp del: mset_filter)

lemma moves_ok_prune: "moves_ok m \<Longrightarrow> moves_ok (filter P m)"
  by (auto simp: moves_ok_def distinct_map_filter intro: le_trans [OF length_filter_le])

lemma prune_inv: "cap_inv st \<Longrightarrow> cap_inv (prune now st)"
  by (auto simp: cap_inv_def prune_def bt_get_retain history_ok_prune moves_ok_prune
      intro: le_trans [OF length_bt_retain_le] split: option.splits if_splits)

lemma put_history_inv:
  assumes "cap_inv st" and "history_ok h" and "bt_has (cs_histories st) k \<or> length (cs_histories st) < max_entries"
  shows "cap_inv (st\<lparr>cs_histories := bt_put k h (cs_histories st)\<rparr>)"
  using assms cap_invD(1,2) [OF assms(1)] by (auto simp: cap_inv_def length_bt_put)

lemma observe_completed_ok: "history_ok h \<Longrightarrow> history_ok (observe_completed event observed h)"
proof -
  assume ok: "history_ok h"
  let ?ids = "bt_retain id (\<lambda>t. observed \<le> t) (h_completed_ids h)"
  let ?cut = "if max_events \<le> length ?ids then tl ?ids else ?ids"
  have len: "length ?ids \<le> max_events"
    using ok length_bt_retain_le [of id "\<lambda>t. observed \<le> t" "h_completed_ids h"] by (simp add: history_ok_def)
  then have "bt_ok ?cut" "length ?cut < max_events"
    using ok by (auto simp: history_ok_def max_events_def)
  then have "length (bt_put event observed ?cut) \<le> max_events" "bt_ok (bt_put event observed ?cut)"
    by (auto simp: length_bt_put split: if_splits)
  moreover have "mset (filter (\<lambda>t. observed < t) (h_failures h)) \<subseteq># mset (bt_values (h_seen h))"
    using ok by (auto simp: history_ok_def intro: subset_mset.trans [OF multiset_filter_subset])
  moreover have "length (bt_retain id (\<lambda>(_, t). observed < t) (h_terminal h)) \<le> max_terminals"
    using ok by (auto simp: history_ok_def intro: le_trans [OF length_bt_retain_le])
  ultimately show ?thesis
    using ok unfolding observe_completed_def Let_def by (simp add: history_ok_def)
qed

lemma observe_history_ok:
  assumes "history_ok h" and "observe_history event_of e observed now h = Inr h'"
  shows "history_ok h'"
proof -
  have "history_ok h'" if "observe_terminal s i observed h = Inr h'" for s i
    using that assms(1) by (auto simp: observe_terminal_def history_ok_def length_bt_put split: if_splits)
  moreover have "history_ok h'" if "observe_overloaded i observed now h = Inr h'" for i
    using that assms(1)
    by (auto simp: observe_overloaded_def Let_def history_ok_def length_bt_put bt_values_put_new split: if_splits)
  ultimately show ?thesis
    using assms observe_completed_ok
    by (auto simp: observe_history_def split: if_splits option.splits)
qed

lemma observe_inv:
  assumes "cap_inv st" and "observe key_of event_of e now st = Inr st'"
  shows "cap_inv st'"
proof -
  let ?st = "prune now st"
  let ?observed = "case ev_observed_at e of None \<Rightarrow> now | Some t \<Rightarrow> t"
  obtain identity where identity: "ev_identity e = Some identity"
    using assms(2) by (cases "ev_identity e") (auto simp: observe_def Let_def split: if_splits)
  let ?key = "identity_key key_of ?st identity (ev_model e)"
  let ?h = "learn identity (case bt_get (cs_histories ?st) ?key of
              Some h \<Rightarrow> h | None \<Rightarrow> new_history identity (ev_model e))"
  have room: "bt_has (cs_histories ?st) ?key \<or> length (cs_histories ?st) < max_entries"
    using assms(2) identity by (auto simp: observe_def Let_def split: if_splits)
  obtain h' where h': "observe_history event_of e ?observed now ?h = Inr h'"
    using assms(2) identity
    by (cases "observe_history event_of e ?observed now ?h") (simp_all add: observe_def Let_def split: if_splits)
  then have st': "st' = ?st\<lparr>cs_histories := bt_put ?key h' (cs_histories ?st)\<rparr>"
    using assms(2) identity by (simp add: observe_def Let_def split: if_splits)
  have "history_ok ?h"
    using cap_invD(3) [OF prune_inv [OF assms(1)]] by (auto simp: history_ok_new split: option.split)
  then have "history_ok h'" using h' by (rule observe_history_ok)
  then show ?thesis
    unfolding st' by (rule put_history_inv [OF prune_inv [OF assms(1)] _ room])
qed

lemma learn_account_inv: "cap_inv st \<Longrightarrow> cap_inv (learn_account key_of model a st)"
  using put_history_inv cap_invD(3) by (auto simp: learn_account_def Let_def bt_has_def split: option.split)

lemma learn_accounts_inv: "cap_inv st \<Longrightarrow> cap_inv (fold (learn_account key_of model) accounts st)"
  by (induction accounts arbitrary: st) (simp_all add: learn_account_inv)

lemma recovery_step_charge:
  assumes "recovery_step key_of r accounts now user session failed_alias st = Charge key failed event used"
  shows "length (case bt_get (cs_sessions st) key of None \<Rightarrow> [] | Some m \<Rightarrow> m) < 3"
    and "event \<notin> set (map (\<lambda>(_, _, _, e). e) (case bt_get (cs_sessions st) key of None \<Rightarrow> [] | Some m \<Rightarrow> m))"
    and "failed \<in> set used"
  using assms
  by (auto simp: recovery_step_def Let_def find_None_iff split: option.splits prod.splits if_splits)

lemma charge_move_inv:
  assumes "cap_inv st" and "charge_move r accounts now alias selected session failed event st = Inr st'"
    and "length (case bt_get (cs_sessions st) session of None \<Rightarrow> [] | Some m \<Rightarrow> m) < 3"
    and "event \<notin> set (map (\<lambda>(_, _, _, e). e) (case bt_get (cs_sessions st) session of None \<Rightarrow> [] | Some m \<Rightarrow> m))"
  shows "cap_inv st'"
proof -
  let ?moves = "case bt_get (cs_sessions st) session of None \<Rightarrow> [] | Some m \<Rightarrow> m"
  note I = cap_invD [OF assms(1)]
  obtain histories where hs: "st' = \<lparr>cs_histories = histories,
      cs_sessions = bt_put session (?moves @ [(now, failed, selected, event)]) (cs_sessions st)\<rparr>"
    and room: "bt_has (cs_sessions st) session \<or> length (cs_sessions st) < max_sessions"
    and hist: "\<exists>h. histories = bt_put selected h (cs_histories st) \<and> history_ok h
      \<and> (bt_has (cs_histories st) selected \<or> length (cs_histories st) < max_entries)"
    using assms(2) I(3) history_ok_new
    by (fastforce simp: charge_move_def Let_def bt_has_def split: option.splits if_splits sum.splits)
  have "moves_ok ?moves"
    using I(6) by (auto simp: moves_ok_def split: option.split)
  then have "moves_ok (?moves @ [(now, failed, selected, event)])"
    using assms(3,4) unfolding moves_ok_def by simp
  moreover have "length (bt_put session (?moves @ [(now, failed, selected, event)]) (cs_sessions st)) \<le> max_sessions"
    using I(4,5) room by (auto simp: length_bt_put)
  moreover obtain h where h: "histories = bt_put selected h (cs_histories st)" "history_ok h"
    "bt_has (cs_histories st) selected \<or> length (cs_histories st) < max_entries" using hist by blast
  moreover have "length (bt_put selected h (cs_histories st)) \<le> max_entries"
    using I(1,2) h(3) by (auto simp: length_bt_put)
  ultimately show ?thesis
    using I unfolding hs cap_inv_def by auto
qed

text \<open>The state a plan decides on: pruned, with the accounts' login claims learned.\<close>

definition learned ::
    "(string \<Rightarrow> subject \<Rightarrow> string) \<Rightarrow> plan_request \<Rightarrow> capacity_account list \<Rightarrow> int \<Rightarrow> cap_state \<Rightarrow> cap_state" where
  "learned key_of r accounts now st = fold (learn_account key_of (pr_model r)) accounts (prune now st)"

lemma learned_inv: "cap_inv st \<Longrightarrow> cap_inv (learned key_of r accounts now st)"
  by (simp add: learned_def learn_accounts_inv prune_inv)

text \<open>The ways a plan can succeed.\<close>

lemma plan_cases:
  assumes "plan key_of r accounts now user st = Inr (p, st')"
  obtains (stop) reason where "p = Stop reason" "st' = learned key_of r accounts now st"
  | (replay) session failed_alias selected where
      "p = replay_move key_of r accounts now selected (learned key_of r accounts now st)"
      "st' = learned key_of r accounts now st" "pr_session r = Some session" "pr_failed_alias r = Some failed_alias"
      "recovery_step key_of r accounts now user session failed_alias (learned key_of r accounts now st) = Answer p"
  | (launch) chosen excluded where "p = Selected chosen" "pr_session r = None"
      "st' = learned key_of r accounts now st"
      "select_for_codex (plan_candidates key_of r accounts now excluded (learned key_of r accounts now st)) = Inr chosen"
  | (moved) chosen excluded session failed_alias key failed event used selected where "p = Selected chosen"
      "pr_session r = Some session" "pr_failed_alias r = Some failed_alias"
      "recovery_step key_of r accounts now user session failed_alias (learned key_of r accounts now st)
         = Charge key failed event used"
      "set used \<subseteq> set excluded"
      "select_for_codex (plan_candidates key_of r accounts now excluded (learned key_of r accounts now st)) = Inr chosen"
      "account_key key_of (pr_model r) accounts (learned key_of r accounts now st) chosen = Some selected"
      "charge_move r accounts now chosen selected key failed event (learned key_of r accounts now st) = Inr st'"
proof -
  let ?S = "learned key_of r accounts now st"
  let ?tried = "List.map_filter (account_key key_of (pr_model r) accounts ?S) (pr_tried r)"
  have valid: "plan_valid r" using assms by (simp add: plan_def split: if_splits)
  show thesis
  proof (cases "pr_session r")
    case None
    let ?pick = "select_for_codex (plan_candidates key_of r accounts now ?tried ?S)"
    show thesis
    proof (cases ?pick)
      case (Inl e)
      with assms valid None show thesis by (intro stop) (auto simp: plan_def Let_def learned_def)
    next
      case (Inr chosen)
      with assms valid None show thesis
        by (intro launch [of chosen ?tried]) (auto simp: plan_def Let_def learned_def split: option.splits)
    qed
  next
    case (Some session)
    then obtain failed_alias where fa: "pr_failed_alias r = Some failed_alias"
      using valid by (auto simp: plan_valid_def)
    show thesis
    proof (cases "recovery_step key_of r accounts now user session failed_alias ?S")
      case (Answer q)
      with assms valid Some fa have "p = q" "st' = ?S" by (auto simp: plan_def Let_def learned_def)
      moreover have "(\<exists>reason. q = Stop reason) \<or> (\<exists>selected. q = replay_move key_of r accounts now selected ?S)"
        using Answer by (auto simp: recovery_step_def Let_def split: option.splits prod.splits if_splits)
      ultimately show thesis using stop replay [OF _ _ Some fa] Answer by blast
    next
      case (Charge key failed event used)
      let ?pick = "select_for_codex (plan_candidates key_of r accounts now (?tried @ used) ?S)"
      show thesis
      proof (cases ?pick)
        case (Inl e)
        with assms valid Some fa Charge show thesis by (intro stop) (auto simp: plan_def Let_def learned_def)
      next
        case (Inr chosen)
        then obtain selected where sel: "account_key key_of (pr_model r) accounts ?S chosen = Some selected"
          using assms valid Some fa Charge
          by (cases "account_key key_of (pr_model r) accounts ?S chosen") (simp_all add: plan_def Let_def learned_def)
        obtain st2 where st2: "charge_move r accounts now chosen selected key failed event ?S = Inr st2"
          using assms valid Some fa Charge Inr sel
          by (cases "charge_move r accounts now chosen selected key failed event ?S")
            (simp_all add: plan_def Let_def learned_def)
        then have "p = Selected chosen" "st' = st2"
          using assms valid Some fa Charge Inr sel by (simp_all add: plan_def Let_def learned_def)
        with Some fa Charge Inr sel st2 show thesis
          by (intro moved [of chosen session failed_alias key failed event used "?tried @ used" selected]) auto
      qed
    qed
  qed
qed

lemma plan_inv:
  assumes "cap_inv st" and "plan key_of r accounts now user st = Inr (p, st')"
  shows "cap_inv st'"
  using assms(2)
proof (cases rule: plan_cases)
  case moved
  with charge_move_inv [OF learned_inv [OF assms(1)]] recovery_step_charge(1,2) [OF moved(4)]
  show ?thesis by blast
qed (simp_all add: learned_inv [OF assms(1)])

section \<open>Runs\<close>

datatype capacity_op =
  Observe evidence int
| Plan plan_request "capacity_account list" int string

fun cap_step ::
    "(string \<Rightarrow> subject \<Rightarrow> string) \<Rightarrow> (string \<Rightarrow> string) \<Rightarrow> cap_state \<Rightarrow> capacity_op \<Rightarrow> cap_state" where
  "cap_step key_of event_of st (Observe e now) =
     (case observe key_of event_of e now st of Inl _ \<Rightarrow> st | Inr st' \<Rightarrow> st')"
| "cap_step key_of event_of st (Plan r accounts now user) =
     (case plan key_of r accounts now user st of Inl _ \<Rightarrow> st | Inr (_, st') \<Rightarrow> st')"

interpretation capacity: guarded_system "cap_step key_of event_of" cap_inv
proof
  fix s e
  assume s: "cap_inv s"
  show "cap_inv (cap_step key_of event_of s e)"
  proof (cases e)
    case (Observe ev now)
    with s observe_inv [OF s, of key_of event_of ev now] show ?thesis
      by (cases "observe key_of event_of ev now s") simp_all
  next
    case (Plan r accounts now user)
    with s plan_inv [OF s, of key_of r accounts now user] show ?thesis
      by (cases "plan key_of r accounts now user s"; cases "projr (plan key_of r accounts now user s)") simp_all
  qed
qed

lemma empty_cap_inv: "cap_inv empty_cap"
  by (simp add: cap_inv_def empty_cap_def)

section \<open>Moves in time\<close>

text \<open>Calls on a clock that does not go back, each some seconds after the one before. The ghost list
  notes every move a plan makes: what it appends to the pruned moves of its session.\<close>

datatype capacity_call = See evidence | Ask plan_request "capacity_account list" string

type_synonym made_move = "string \<times> int \<times> string"

definition moves_of :: "cap_state \<Rightarrow> string \<Rightarrow> (int \<times> string \<times> string \<times> string) list" where
  "moves_of st key = (case bt_get (cs_sessions st) key of None \<Rightarrow> [] | Some m \<Rightarrow> m)"

definition new_moves :: "int \<Rightarrow> cap_state \<Rightarrow> cap_state \<Rightarrow> string \<Rightarrow> made_move list" where
  "new_moves now st st' key =
     map (\<lambda>(t, _, _, e). (key, t, e)) (drop (length (moves_of (prune now st) key)) (moves_of st' key))"

definition capacity_call ::
    "(string \<Rightarrow> subject \<Rightarrow> string) \<Rightarrow> (string \<Rightarrow> string) \<Rightarrow> int \<times> cap_state \<times> made_move list \<Rightarrow> nat \<times> capacity_call
      \<Rightarrow> int \<times> cap_state \<times> made_move list" where
  "capacity_call key_of event_of = (\<lambda>(clock, st, made) (dt, call).
     let now = clock + int dt in
     (case call of
        See e \<Rightarrow> (now, (case observe key_of event_of e now st of Inl _ \<Rightarrow> st | Inr st' \<Rightarrow> st'), made)
      | Ask r accounts user \<Rightarrow>
          (case plan key_of r accounts now user st of
             Inl _ \<Rightarrow> (now, st, made)
           | Inr (_, st') \<Rightarrow>
               (now, st', made @ (case pr_session r of
                  None \<Rightarrow> []
                | Some session \<Rightarrow> new_moves now st st' (user @ '':'' @ session))))))"

definition kept_at :: "int \<Rightarrow> int \<Rightarrow> bool" where
  "kept_at now t = (now - t < cap_retention)"

lemma kept_at_sat: "sat_sub now t < cap_retention \<longleftrightarrow> kept_at now t"
proof -
  have "clamp_i64 x < 3600 \<longleftrightarrow> x < 3600" for x
    unfolding clamp_i64_def i64_max_def i64_min_def by (simp split: if_split)
  then show ?thesis by (simp add: sat_sub_def kept_at_def cap_retention_def)
qed

lemma kept_at_mono: "now \<le> now' \<Longrightarrow> kept_at now' t \<Longrightarrow> kept_at now t"
  by (simp add: kept_at_def)

lemma moves_of_prune:
  assumes "bt_ok (cs_sessions st)"
  shows "moves_of (prune now st) key = filter (\<lambda>(t, _). kept_at now t) (moves_of st key)"
  using assms by (auto simp: moves_of_def prune_def bt_get_retain kept_at_sat split: option.split)

text \<open>The moves of a session that a window of the retention's length, ending at some time, contains.\<close>

definition moves_within :: "int \<Rightarrow> string \<Rightarrow> made_move list \<Rightarrow> made_move list" where
  "moves_within t key made = filter (\<lambda>(k, at0, e). k = key \<and> t - cap_retention < at0 \<and> at0 \<le> t) made"

definition move_event :: "made_move \<Rightarrow> string" where "move_event = (\<lambda>(k, t, e). e)"

definition budget_ok :: "made_move list \<Rightarrow> bool" where
  "budget_ok made = (\<forall>t key. length (moves_within t key made) \<le> 3
     \<and> distinct (map move_event (moves_within t key made)))"

definition moves_kept :: "int \<Rightarrow> made_move list \<Rightarrow> cap_state \<Rightarrow> bool" where
  "moves_kept now made st = (\<forall>key.
     filter (\<lambda>(k, t, e). k = key \<and> kept_at now t) made
     = map (\<lambda>(t, _, _, e). (key, t, e)) (filter (\<lambda>(t, _). kept_at now t) (moves_of st key)))"

definition moves_inv :: "int \<times> cap_state \<times> made_move list \<Rightarrow> bool" where
  "moves_inv = (\<lambda>(now, st, made). cap_inv st \<and> budget_ok made \<and> moves_kept now made st
     \<and> (\<forall>(k, t, e) \<in> set made. t \<le> now))"

lemma moves_kept_later:
  assumes "moves_kept now made st" "now \<le> now'"
  shows "moves_kept now' made st"
  unfolding moves_kept_def
proof
  fix key
  let ?put = "\<lambda>(t, _, _, e). (key, t, e)" and ?ms = "moves_of st key"
  have later: "kept_at now' t \<longleftrightarrow> kept_at now t \<and> kept_at now' t" for t using kept_at_mono [OF assms(2)] by blast
  have "filter (\<lambda>(k, t, e). k = key \<and> kept_at now' t) made
      = filter (\<lambda>(k, t, e). kept_at now' t) (filter (\<lambda>(k, t, e). k = key \<and> kept_at now t) made)"
    unfolding filter_filter by (rule filter_cong [OF refl]) (use later in \<open>auto simp: split_beta\<close>)
  also have "\<dots> = filter (\<lambda>(k, t, e). kept_at now' t) (map ?put (filter (\<lambda>(t, _). kept_at now t) ?ms))"
    using assms(1) unfolding moves_kept_def by simp
  also have "\<dots> = map ?put (filter (\<lambda>(t, _). kept_at now' t) (filter (\<lambda>(t, _). kept_at now t) ?ms))"
    unfolding filter_map by (rule arg_cong [where f = "map ?put"], rule filter_cong [OF refl]) (simp add: split_beta)
  also have "\<dots> = map ?put (filter (\<lambda>(t, _). kept_at now' t) ?ms)"
    unfolding filter_filter by (rule arg_cong [where f = "map ?put"], rule filter_cong [OF refl]) (use later in \<open>auto simp: split_beta\<close>)
  finally show "filter (\<lambda>(k, t, e). k = key \<and> kept_at now' t) made
      = map ?put (filter (\<lambda>(t, _). kept_at now' t) ?ms)" .
qed

lemma observe_sessions:
  "observe key_of event_of e now st = Inr st' \<Longrightarrow> cs_sessions st' = cs_sessions (prune now st)"
  by (auto simp: observe_def Let_def split: if_splits option.splits sum.splits)

lemma learned_sessions: "cs_sessions (learned key_of r accounts now st) = cs_sessions (prune now st)"
proof -
  have one: "cs_sessions (learn_account key_of m a s) = cs_sessions s" for m a s
    by (auto simp: learn_account_def Let_def split: option.split)
  have "cs_sessions (fold (learn_account key_of m) as s) = cs_sessions s" for m as s
    by (induction as arbitrary: s) (simp_all add: one)
  then show ?thesis by (simp add: learned_def)
qed

lemma moves_kept_sessions: "cs_sessions st' = cs_sessions st \<Longrightarrow> moves_kept now made st' = moves_kept now made st"
  by (simp add: moves_kept_def moves_of_def)

lemma moves_kept_prune: "bt_ok (cs_sessions st) \<Longrightarrow> moves_kept now made (prune now st) = moves_kept now made st"
  by (simp add: moves_kept_def moves_of_prune)

lemma charge_move_sessions:
  assumes "charge_move r accounts now alias selected key failed event st = Inr st'"
  shows "cs_sessions st' = bt_put key (moves_of st key @ [(now, failed, selected, event)]) (cs_sessions st)"
  using assms by (auto simp: charge_move_def moves_of_def Let_def split: option.splits if_splits sum.splits)

lemma recovery_step_key:
  "recovery_step key_of r accounts now user session failed_alias st = Charge key failed event used \<Longrightarrow>
     key = user @ '':'' @ session"
  by (auto simp: recovery_step_def Let_def split: option.splits prod.splits if_splits)

text \<open>What a plan does to the moves of sessions: nothing, or it appends one, made now.\<close>

lemma plan_moves:
  assumes "plan key_of r accounts now user st = Inr (p, st')"
  obtains (none) "cs_sessions st' = cs_sessions (prune now st)"
  | (one) session failed selected event where "pr_session r = Some session"
      "cs_sessions st' = bt_put (user @ '':'' @ session)
         (moves_of (prune now st) (user @ '':'' @ session) @ [(now, failed, selected, event)]) (cs_sessions (prune now st))"
      "length (moves_of (prune now st) (user @ '':'' @ session)) < 3"
      "event \<notin> set (map (\<lambda>(_, _, _, e). e) (moves_of (prune now st) (user @ '':'' @ session)))"
  using assms
proof (cases rule: plan_cases)
  case (moved chosen excluded session failed_alias key failed event used selected)
  have same: "moves_of (learned key_of r accounts now st) k = moves_of (prune now st) k" for k
    by (simp add: moves_of_def learned_sessions)
  show thesis
    using one [OF moved(2)] charge_move_sessions [OF moved(8)] recovery_step_charge(1,2) [OF moved(4)]
    unfolding recovery_step_key [OF moved(4)] moves_of_def [symmetric] same learned_sessions by blast
qed (use none learned_sessions in simp_all)

lemma budget_ok_add:
  assumes "budget_ok made" "\<forall>(k, t, e) \<in> set made. t \<le> now"
    and "length (filter (\<lambda>(k, t, e). k = key \<and> kept_at now t) made) < 3"
    and "distinct (map move_event (filter (\<lambda>(k, t, e). k = key \<and> kept_at now t) made))"
    and "event \<notin> set (map move_event (filter (\<lambda>(k, t, e). k = key \<and> kept_at now t) made))"
  shows "budget_ok (made @ [(key, now, event)])"
  unfolding budget_ok_def
proof (intro allI)
  fix t k
  let ?kept = "filter (\<lambda>(k, t, e). k = key \<and> kept_at now t) made"
  show "length (moves_within t k (made @ [(key, now, event)])) \<le> 3
     \<and> distinct (map move_event (moves_within t k (made @ [(key, now, event)])))"
  proof (cases "k = key \<and> t - cap_retention < now \<and> now \<le> t")
    case True
    have eq: "moves_within t k made = filter (\<lambda>(k, at0, e). t - cap_retention < at0) ?kept"
      using True assms(2) by (auto simp: moves_within_def kept_at_def intro!: filter_cong)
    have "length (moves_within t k made) \<le> length ?kept" unfolding eq by (rule length_filter_le)
    moreover have "set (moves_within t k made) \<subseteq> set ?kept" unfolding eq by (rule filter_is_subset)
    moreover have "distinct (map move_event (moves_within t k made))"
      unfolding eq by (rule distinct_map_filter [OF assms(4)])
    moreover have "moves_within t k (made @ [(key, now, event)]) = moves_within t k made @ [(key, now, event)]"
      using True by (simp add: moves_within_def)
    moreover have "move_event (key, now, event) = event" by (simp add: move_event_def)
    ultimately show ?thesis using assms(3,5) by auto
  next
    case False
    then have "moves_within t k (made @ [(key, now, event)]) = moves_within t k made"
      by (auto simp: moves_within_def)
    with assms(1) show ?thesis by (simp add: budget_ok_def)
  qed
qed

lemma capacity_call_inv:
  assumes "moves_inv s"
  shows "moves_inv (capacity_call key_of event_of s call)"
proof -
  obtain clock st made where s: "s = (clock, st, made)" by (cases s) auto
  obtain dt c where call: "call = (dt, c)" by fastforce
  define now where "now = clock + int dt"
  have inv: "cap_inv st" "budget_ok made" "moves_kept now made st" "\<forall>(k, t, e) \<in> set made. t \<le> now"
    using assms moves_kept_later [of clock made st now] by (fastforce simp: s moves_inv_def now_def)+
  note sorted = cap_invD(4) [OF inv(1)]
  show ?thesis
  proof (cases c)
    case (See e)
    show ?thesis
    proof (cases "observe key_of event_of e now st")
      case (Inr st')
      have "moves_kept now made st'"
        using inv(3) moves_kept_sessions [OF observe_sessions [OF Inr]] moves_kept_prune [OF sorted] by simp
      with inv observe_inv [OF inv(1) Inr] Inr show ?thesis
        by (simp add: s call See capacity_call_def now_def [symmetric] moves_inv_def Let_def)
    qed (use inv in \<open>simp add: s call See capacity_call_def now_def [symmetric] moves_inv_def Let_def\<close>)
  next
    case (Ask r accounts user)
    show ?thesis
    proof (cases "plan key_of r accounts now user st")
      case (Inr x)
      obtain p st' where run: "plan key_of r accounts now user st = Inr (p, st')" using Inr by (cases x) auto
      have inv': "cap_inv st'" by (rule plan_inv [OF inv(1) run])
      from run show ?thesis
      proof (cases rule: plan_moves)
        case none
        then have "moves_kept now made st'"
          using inv(3) moves_kept_sessions [OF none] moves_kept_prune [OF sorted] by simp
        moreover have "new_moves now st st' k = []" for k using none by (simp add: new_moves_def moves_of_def)
        ultimately show ?thesis using inv inv' run
          by (simp add: s call Ask capacity_call_def now_def [symmetric] moves_inv_def Let_def split: option.split)
      next
        case (one session failed selected event)
        let ?key = "user @ '':'' @ session"
        have after: "moves_of st' k = (if k = ?key then moves_of (prune now st) ?key @ [(now, failed, selected, event)]
            else moves_of (prune now st) k)" for k
          using one(2) by (auto simp: moves_of_def)
        have made: "new_moves now st st' ?key = [(?key, now, event)]"
          by (simp add: new_moves_def after)
        have kept: "filter (\<lambda>(k, t, e). k = ?key \<and> kept_at now t) made
            = map (\<lambda>(t, _, _, e). (?key, t, e)) (moves_of (prune now st) ?key)"
          using inv(3) unfolding moves_kept_def moves_of_prune [OF sorted] by blast
        have events: "map move_event (filter (\<lambda>(k, t, e). k = ?key \<and> kept_at now t) made)
            = map (\<lambda>(_, _, _, e). e) (moves_of (prune now st) ?key)"
          unfolding kept by (simp add: comp_def split_beta move_event_def)
        have "moves_ok (moves_of (prune now st) ?key)"
          using cap_invD(6) [OF prune_inv [OF inv(1)]] by (auto simp: moves_of_def moves_ok_def split: option.split)
        then have "distinct (map (\<lambda>(_, _, _, e). e) (moves_of (prune now st) ?key))" by (simp add: moves_ok_def)
        moreover have "length (filter (\<lambda>(k, t, e). k = ?key \<and> kept_at now t) made) < 3"
          unfolding kept length_map by (rule one(3))
        ultimately have "budget_ok (made @ [(?key, now, event)])"
          using one(4) by (intro budget_ok_add [OF inv(2,4)]) (simp_all only: events not_False_eq_True)
        moreover have "moves_kept now (made @ [(?key, now, event)]) st'"
          unfolding moves_kept_def
        proof
          fix k
          have "kept_at now now" by (simp add: kept_at_def cap_retention_def)
          moreover have "filter (\<lambda>(k', t, e). k' = k \<and> kept_at now t) made
              = map (\<lambda>(t, _, _, e). (k, t, e)) (filter (\<lambda>(t, _). kept_at now t) (moves_of (prune now st) k))"
            using inv(3) unfolding moves_kept_def moves_of_prune [OF sorted] by simp
          ultimately show "filter (\<lambda>(k', t, e). k' = k \<and> kept_at now t) (made @ [(?key, now, event)])
              = map (\<lambda>(t, _, _, e). (k, t, e)) (filter (\<lambda>(t, _). kept_at now t) (moves_of st' k))"
            by (simp add: after)
        qed
        ultimately show ?thesis using inv inv' run one(1) made
          by (simp add: s call Ask capacity_call_def now_def [symmetric] moves_inv_def Let_def ball_Un)
      qed
    qed (use inv in \<open>simp add: s call Ask capacity_call_def now_def [symmetric] moves_inv_def Let_def\<close>)
  qed
qed

interpretation capacity_calls: guarded_system "capacity_call key_of event_of" moves_inv
  by unfold_locales (rule capacity_call_inv)

text \<open>C5: whatever evidence and plans arrive, on whatever clocks, the state stays inside the bounds its
  tables check: at most 128 histories of at most 256 events, 256 failures, 256 completions and 16
  terminal sessions each, and at most 128 sessions. And on a clock that does not go back, no
  session is moved more than three times within any hour, the retention, each of these times for a
  different terminal event.\<close>

theorem capacity_bounded:
  "cap_inv (foldl (cap_step key_of event_of) empty_cap ops)
   \<and> (case foldl (capacity_call key_of event_of) (start, empty_cap, []) calls of
        (now, st, made) \<Rightarrow>
          length (moves_within t session made) \<le> 3
          \<and> distinct (map move_event (moves_within t session made)))"
proof -
  have "moves_inv (start, empty_cap, [])"
    using empty_cap_inv
    by (simp add: moves_inv_def budget_ok_def moves_within_def moves_kept_def moves_of_def empty_cap_def)
  from capacity_calls.run_inv [OF this, of key_of event_of calls]
  have "case foldl (capacity_call key_of event_of) (start, empty_cap, []) calls of
        (now, st, made) \<Rightarrow> budget_ok made"
    unfolding moves_inv_def by (auto split: prod.splits)
  then show ?thesis
    using capacity.run_inv [OF empty_cap_inv] unfolding budget_ok_def by (simp split: prod.splits)
qed

section \<open>Plans avoid cooling accounts\<close>

lemma select_for_codex_in:
  assumes "select_for_codex accounts = Inr chosen"
  shows "\<exists>a \<in> set accounts. ac_alias a = chosen \<and> launchable [] a"
  using launch_pick.picked_owned_first [of accounts "[]" chosen] assms
  by (auto simp: select_for_codex_def select_for_codex_excluding_def)

lemma candidate_in:
  assumes "select_for_codex (plan_candidates key_of r accounts now excluded st) = Inr chosen"
  shows "\<exists>a \<in> set accounts. ac_alias (ca_account a) = chosen
     \<and> identity_key key_of st (ca_identity a) (pr_model r) \<notin> set excluded
     \<and> \<not> cooling now st (identity_key key_of st (ca_identity a) (pr_model r))
     \<and> \<not> logins_empty (subj_claims (ca_identity a))"
  using select_for_codex_in [OF assms]
  by (auto simp: plan_candidates_def cooling_def Let_def split: option.splits)

lemma replayed_in:
  assumes "replay_move key_of r accounts now selected st = Selected chosen"
  shows "\<exists>a \<in> set accounts. ac_alias (ca_account a) = chosen
     \<and> \<not> cooling now st (identity_key key_of st (ca_identity a) (pr_model r))"
proof -
  have "\<not> cooling now st selected"
    using assms by (auto simp: replay_move_def Let_def split: if_splits sum.splits)
  moreover have "\<exists>a \<in> set accounts. ac_alias (ca_account a) = chosen
      \<and> identity_key key_of st (ca_identity a) (pr_model r) = selected"
    using assms by (auto simp: replay_move_def Let_def split: if_splits sum.splits dest!: select_for_codex_in)
  ultimately show ?thesis by auto
qed

text \<open>The terminal event a recovery is asked for: the login of the failed account, its history, and the
  event of the session there.\<close>

definition terminal_event ::
    "(string \<Rightarrow> subject \<Rightarrow> string) \<Rightarrow> plan_request \<Rightarrow> capacity_account list \<Rightarrow> string \<Rightarrow> cap_state
      \<Rightarrow> (string \<times> history \<times> string) option" where
  "terminal_event key_of r accounts session st =
     Option.bind (pr_failed_alias r) (\<lambda>alias.
     Option.bind (account_key key_of (pr_model r) accounts st alias) (\<lambda>failed.
     Option.bind (bt_get (cs_histories st) failed) (\<lambda>h.
       map_option (\<lambda>(i, t). (failed, h, failed @ '':'' @ i)) (bt_get (h_terminal h) session))))"

lemma recovery_step_event:
  assumes "recovery_step key_of r accounts now user session failed_alias st = Charge key failed event used"
    and "pr_failed_alias r = Some failed_alias"
  shows "\<exists>h. terminal_event key_of r accounts session st = Some (failed, h, event) \<and> now < h_cooling_until h"
  using assms by (auto simp: recovery_step_def terminal_event_def Let_def split: option.splits prod.splits if_splits)

lemma find_in: "find P xs = Some x \<Longrightarrow> x \<in> set xs \<and> P x"
  by (auto simp: find_Some_iff)

lemma recovery_step_answer:
  assumes "recovery_step key_of r accounts now user session failed_alias st = Answer (Selected chosen)"
    and "pr_failed_alias r = Some failed_alias"
  shows "\<exists>failed h event t from_key selected. terminal_event key_of r accounts session st = Some (failed, h, event)
     \<and> (t, from_key, selected, event) \<in> set (moves_of st (user @ '':'' @ session))
     \<and> replay_move key_of r accounts now selected st = Selected chosen"
  using assms
  by (fastforce simp: recovery_step_def terminal_event_def moves_of_def Let_def
      split: option.splits prod.splits if_splits dest!: find_in)

lemma replayed_login:
  assumes "replay_move key_of r accounts now selected st = Selected chosen"
  shows "\<exists>a \<in> set accounts. ac_alias (ca_account a) = chosen
     \<and> identity_key key_of st (ca_identity a) (pr_model r) = selected"
  using assms by (auto simp: replay_move_def Let_def split: if_splits sum.splits dest!: select_for_codex_in)

text \<open>C19: a plan never selects an account whose login is cooling for the model. It charges exactly one
  move, exactly when it moves a session: a plan that stops, or is not asked to recover a session,
  leaves the budgets as pruned. One that selects for a session has the terminal event of the failed
  account. If that event was charged before, it answers an account of the login chosen then and
  charges nothing. If not, fewer than three moves are kept, the failed login is cooling, and the
  move is appended, from the failed login to that of the selected account.\<close>

theorem plan_respects_cooling:
  "case plan key_of r accounts now user st of
     Inl _ \<Rightarrow> True
   | Inr (p, st') \<Rightarrow>
       let decided = learned key_of r accounts now st; login = (\<lambda>a. identity_key key_of decided (ca_identity a) (pr_model r))
       in (case p of
          Stop _ \<Rightarrow> cs_sessions st' = cs_sessions (prune now st)
        | Selected chosen \<Rightarrow>
            (\<exists>a \<in> set accounts. ac_alias (ca_account a) = chosen \<and> \<not> cooling now decided (login a))
            \<and> (case pr_session r of
                 None \<Rightarrow> cs_sessions st' = cs_sessions (prune now st)
               | Some session \<Rightarrow>
                   (\<exists>failed h event. terminal_event key_of r accounts session decided = Some (failed, h, event)
                      \<and> (let key = user @ '':'' @ session; moves = moves_of (prune now st) key in
                         if event \<in> set (map (\<lambda>(_, _, _, e). e) moves)
                         then cs_sessions st' = cs_sessions (prune now st)
                           \<and> (\<exists>t from_key selected. (t, from_key, selected, event) \<in> set moves
                               \<and> (\<exists>a \<in> set accounts. ac_alias (ca_account a) = chosen \<and> login a = selected))
                         else length moves < 3 \<and> now < h_cooling_until h
                           \<and> (\<exists>a \<in> set accounts. ac_alias (ca_account a) = chosen \<and> login a \<noteq> failed)
                           \<and> (\<exists>selected. account_key key_of (pr_model r) accounts decided chosen = Some selected
                               \<and> cs_sessions st' = bt_put key (moves @ [(now, failed, selected, event)])
                                    (cs_sessions (prune now st)))))))"
proof (cases "plan key_of r accounts now user st")
  case (Inr x)
  obtain p st' where run: "plan key_of r accounts now user st = Inr (p, st')"
    using Inr by (cases x) auto
  let ?S = "learned key_of r accounts now st"
  have same: "moves_of ?S k = moves_of (prune now st) k" for k by (simp add: moves_of_def learned_sessions)
  from run show ?thesis
  proof (cases rule: plan_cases)
    case stop
    with run show ?thesis by (simp add: learned_sessions)
  next
    case (replay session failed_alias selected)
    show ?thesis
    proof (cases p)
      case (Stop reason)
      show ?thesis unfolding run sum.case prod.case Let_def Stop plan_answer.case
        using replay(2) by (simp add: learned_sessions)
    next
      case (Selected chosen)
      obtain failed h event t from_key sel where e: "terminal_event key_of r accounts session ?S = Some (failed, h, event)"
        "(t, from_key, sel, event) \<in> set (moves_of (prune now st) (user @ '':'' @ session))"
        "replay_move key_of r accounts now sel ?S = Selected chosen"
        using recovery_step_answer [of key_of r accounts now user session failed_alias ?S chosen] replay Selected same
        by auto
      then have "event \<in> set (map (\<lambda>(_, _, _, e). e) (moves_of (prune now st) (user @ '':'' @ session)))" by force
      with e run Selected replay replayed_in [OF e(3)] replayed_login [OF e(3)] show ?thesis
        by (simp add: learned_sessions Let_def) blast
    qed
  next
    case launch
    with run candidate_in [OF launch(4)] show ?thesis by (auto simp: learned_sessions Let_def)
  next
    case (moved chosen excluded session failed_alias key failed event used selected)
    obtain a where a: "a \<in> set accounts" "ac_alias (ca_account a) = chosen"
      "identity_key key_of ?S (ca_identity a) (pr_model r) \<notin> set excluded"
      "\<not> cooling now ?S (identity_key key_of ?S (ca_identity a) (pr_model r))"
      using candidate_in [OF moved(6)] by blast
    have "failed \<in> set excluded" using recovery_step_charge(3) [OF moved(4)] moved(5) by blast
    with a(3) have other: "identity_key key_of ?S (ca_identity a) (pr_model r) \<noteq> failed" by auto
    obtain h where h: "terminal_event key_of r accounts session ?S = Some (failed, h, event)" "now < h_cooling_until h"
      using recovery_step_event [OF moved(4,3)] by blast
    have "length (moves_of (prune now st) key) < 3"
      "event \<notin> set (map (\<lambda>(_, _, _, e). e) (moves_of (prune now st) key))"
      using recovery_step_charge(1,2) [OF moved(4)] unfolding moves_of_def [symmetric] same by blast+
    moreover have "cs_sessions st' = bt_put key (moves_of (prune now st) key @ [(now, failed, selected, event)])
        (cs_sessions (prune now st))"
      using charge_move_sessions [OF moved(8)] unfolding same learned_sessions .
    moreover have "key = user @ '':'' @ session" by (rule recovery_step_key [OF moved(4)])
    ultimately show ?thesis
      using a other h moved(7) unfolding run moved(1,2) Let_def sum.case prod.case plan_answer.case option.case
      by (simp del: set_map) blast
  qed
qed simp

section \<open>Scopes on disk\<close>

text \<open>
  \<open>CapacityRecovery\<close> over the file store of \<open>src/central/storage/capacity.rs\<close>: one file
  per model and one per user's session budgets. \<open>user_scope\<close> stands for the digest of the
  user id. A plan returns its writes in the order they reach the disk, so a crash leaves a
  prefix of them. The 4 MiB bound on a document is not modelled.
\<close>

type_synonym scope_files = "(string, cap_state) btree"

definition scope_state :: "scope_files \<Rightarrow> string \<Rightarrow> cap_state" where
  "scope_state files scope = (case bt_get files scope of None \<Rightarrow> empty_cap | Some st \<Rightarrow> st)"

definition changed_writes :: "scope_files \<Rightarrow> (string \<times> cap_state) list \<Rightarrow> (string \<times> cap_state) list" where
  "changed_writes files states = filter (\<lambda>(scope, st). st \<noteq> scope_state files scope) states"

definition recovery_observe ::
    "(string \<Rightarrow> subject \<Rightarrow> string) \<Rightarrow> (string \<Rightarrow> string) \<Rightarrow> evidence \<Rightarrow> int \<Rightarrow> scope_files
      \<Rightarrow> capacity_error + (string \<times> cap_state) list" where
  "recovery_observe key_of event_of e now files =
     (let scope = ''model:'' @ ev_model e in
      case observe key_of event_of e now (scope_state files scope) of
        Inl err \<Rightarrow> Inl err
      | Inr st \<Rightarrow> Inr (changed_writes files [(scope, st)]))"

definition recovery_plan ::
    "(string \<Rightarrow> subject \<Rightarrow> string) \<Rightarrow> (string \<Rightarrow> string) \<Rightarrow> plan_request \<Rightarrow> capacity_account list \<Rightarrow> int \<Rightarrow> string
      \<Rightarrow> scope_files \<Rightarrow> capacity_error + plan_answer \<times> (string \<times> cap_state) list" where
  "recovery_plan key_of user_scope r accounts now user files =
     (let model_scope = ''model:'' @ pr_model r;
          session_scope = ''sessions:'' @ user_scope user;
          model = scope_state files model_scope;
          budget = scope_state files session_scope
      in if pr_session r = None then
           (case plan key_of r accounts now user model of
              Inl e \<Rightarrow> Inl e
            | Inr (p, model') \<Rightarrow> Inr (p, changed_writes files [(model_scope, model')]))
         else
           (case plan key_of r accounts now user (model\<lparr>cs_sessions := cs_sessions budget\<rparr>) of
              Inl e \<Rightarrow> Inl e
            | Inr (p, model') \<Rightarrow>
                Inr (p, changed_writes files
                   [(session_scope, budget\<lparr>cs_sessions := cs_sessions model'\<rparr>),
                    (model_scope, model'\<lparr>cs_sessions := []\<rparr>)])))"

definition on_disk :: "scope_files \<Rightarrow> (string \<times> cap_state) list \<Rightarrow> scope_files" where
  "on_disk files writes = fold (\<lambda>(scope, st). bt_put scope st) writes files"

lemma budget_first:
  assumes "s \<noteq> m"
  shows "bt_get (on_disk files (take n (changed_writes files [(s, b), (m, st)]))) m = bt_get files m
    \<or> scope_state (on_disk files (take n (changed_writes files [(s, b), (m, st)]))) s
        = scope_state (on_disk files (changed_writes files [(s, b), (m, st)])) s"
proof (cases "st \<noteq> scope_state files m")
  case True
  show ?thesis
  proof (cases "b \<noteq> scope_state files s")
    case True
    then show ?thesis
      using assms \<open>st \<noteq> scope_state files m\<close>
      by (cases n; cases "n - 1") (simp_all add: changed_writes_def on_disk_def scope_state_def)
  next
    case False
    with True assms show ?thesis
      by (cases n) (simp_all add: changed_writes_def on_disk_def scope_state_def)
  qed
next
  case False
  then show ?thesis
    using assms by (cases n) (simp_all add: changed_writes_def on_disk_def scope_state_def)
qed

text \<open>a crash cannot erase a charged move. Whatever prefix of a recovery plan's writes
  reached the disk, the model file is the one from before the plan or the user's budget
  already holds the sessions the completed plan stores.\<close>

theorem crash_keeps_budget:
  "case recovery_plan key_of user_scope r accounts now user files of
     Inl _ \<Rightarrow> True
   | Inr (_, writes) \<Rightarrow>
       pr_session r = None
       \<or> bt_get (on_disk files (take n writes)) (''model:'' @ pr_model r) = bt_get files (''model:'' @ pr_model r)
       \<or> scope_state (on_disk files (take n writes)) (''sessions:'' @ user_scope user)
           = scope_state (on_disk files writes) (''sessions:'' @ user_scope user)"
proof (cases "pr_session r = None")
  case True
  then show ?thesis by (simp split: sum.split)
next
  case False
  let ?m = "''model:'' @ pr_model r" and ?s = "''sessions:'' @ user_scope user"
  let ?res = "plan key_of r accounts now user
      ((scope_state files ?m)\<lparr>cs_sessions := cs_sessions (scope_state files ?s)\<rparr>)"
  show ?thesis
  proof (cases ?res)
    case (Inl e)
    show ?thesis
      by (simp only: recovery_plan_def Let_def if_not_P [OF False] Inl sum.case)
  next
    case (Inr x)
    obtain p st where x: "x = (p, st)" by (cases x)
    define b where "b = (scope_state files ?s)\<lparr>cs_sessions := cs_sessions st\<rparr>"
    define m where "m = st\<lparr>cs_sessions := []\<rparr>"
    have w: "recovery_plan key_of user_scope r accounts now user files
        = Inr (p, changed_writes files [(?s, b), (?m, m)])"
      by (simp only: recovery_plan_def Let_def if_not_P [OF False] Inr x b_def m_def sum.case prod.case)
    show ?thesis
      unfolding w sum.case prod.case using budget_first [of ?s ?m files n b m] by simp
  qed
qed

end
