(* ===== verification/Streaks.thy ===== *)
theory Streaks
  imports BTree Json
begin

text \<open>
  Retry advice of the relay (\<open>src/relay/policy.rs\<close>): which upstream failures may be
  retried, and how long a thread's failure streak keeps advising. An \<open>Instant\<close> and a
  \<open>Duration\<close> are whole nanoseconds; the table of streaks is a hash map whose order nobody
  reads, kept here in key order. The random hasher behind the jitter is the function
  \<open>hash\<close> of the draw number. A panic of \<open>finish_request\<close> is the value \<open>None\<close>.
\<close>

section \<open>Classification\<close>

definition terminal_codes :: "string list" where
  "terminal_codes =
     [''usage_limit_reached'', ''usage_not_included'', ''insufficient_quota'', ''credit_balance_exhausted'',
      ''organization_spend_limit_exceeded'', ''project_spend_limit_exceeded'',
      ''organization_usage_limit_exceeded'', ''flex_unavailable'']"

datatype http_429 = Rate | TerminalStop

text \<open>\<open>body\<close> is the parsed response body, \<open>None\<close> when it is not JSON.\<close>

definition classify_429 :: "json option \<Rightarrow> http_429" where
  "classify_429 body =
     (let error = Option.bind body (json_get ''error'');
          named = (\<lambda>field. case Option.bind (Option.bind error (json_get field)) json_str of
                     None \<Rightarrow> False | Some v \<Rightarrow> v \<in> set terminal_codes)
      in if named ''type'' \<or> named ''code'' then TerminalStop else Rate)"

definition is_overloaded_failure :: "json \<Rightarrow> bool" where
  "is_overloaded_failure event =
     (json_str_at [''type''] event = Some ''response.failed''
      \<and> json_str_at [''response'', ''error'', ''code''] event = Some ''server_is_overloaded'')"

section \<open>Streaks\<close>

definition nanos :: nat where "nanos = 1000000000"
definition duration_max :: nat where "duration_max = (2 ^ 64 - 1) * nanos + 999999999"
definition instant_max :: nat where "instant_max = (2 ^ 63 - 1) * nanos + 999999999"
definition streak_idle :: nat where "streak_idle = 120 * nanos"
definition streak_evict :: nat where "streak_evict = 3600 * nanos"
definition prune_interval :: nat where "prune_interval = 60 * nanos"

datatype kind = Rate429 | OverloadedKind

fun kind_label :: "kind \<Rightarrow> string" where
  "kind_label Rate429 = ''rate_429''"
| "kind_label OverloadedKind = ''overloaded''"

record streak =
  sk_kind :: kind
  sk_started :: nat
  sk_budget :: nat
  sk_last_activity :: nat
  sk_retry_at :: nat
  sk_attempts :: nat
  sk_exhausted :: bool

record streaks =
  ss_rate_budget :: nat
  ss_overloaded_budget :: nat
  ss_by_thread :: "(string, streak) btree"
  ss_in_flight :: "(string, nat) btree"
  ss_last_pruned :: "nat option"
  ss_draws :: nat

definition streaks_new :: "nat \<Rightarrow> nat \<Rightarrow> streaks" where
  "streaks_new rate overloaded =
     \<lparr>ss_rate_budget = rate, ss_overloaded_budget = overloaded, ss_by_thread = [], ss_in_flight = [],
      ss_last_pruned = None, ss_draws = 0\<rparr>"

definition new_streak :: "kind \<Rightarrow> nat \<Rightarrow> nat \<Rightarrow> streak" where
  "new_streak kind now budget =
     \<lparr>sk_kind = kind, sk_started = now, sk_budget = budget, sk_last_activity = now, sk_retry_at = now,
      sk_attempts = 0, sk_exhausted = False\<rparr>"

text \<open>\<open>saturating_duration_since\<close> is truncated subtraction.\<close>

definition keep_streak :: "streaks \<Rightarrow> nat \<Rightarrow> string \<Rightarrow> streak \<Rightarrow> bool" where
  "keep_streak s now thread k =
     (bt_has (ss_in_flight s) thread
      \<or> now - sk_started k < sk_budget k
      \<or> now - max (sk_last_activity k) (sk_retry_at k) \<le> streak_evict)"

definition prune_streaks :: "nat \<Rightarrow> streaks \<Rightarrow> streaks" where
  "prune_streaks now s =
     (if (case ss_last_pruned s of None \<Rightarrow> False | Some prev \<Rightarrow> now - prev < prune_interval) then s
      else s\<lparr>ss_last_pruned := Some now,
             ss_by_thread := filter (\<lambda>(thread, k). keep_streak s now thread k) (ss_by_thread s)\<rparr>)"

definition end_streak :: "string \<Rightarrow> streaks \<Rightarrow> streaks" where
  "end_streak thread s = s\<lparr>ss_by_thread := bt_del thread (ss_by_thread s)\<rparr>"

definition touch :: "string \<Rightarrow> nat \<Rightarrow> streaks \<Rightarrow> streaks" where
  "touch thread now s =
     (case bt_get (ss_by_thread s) thread of
        None \<Rightarrow> s
      | Some k \<Rightarrow> s\<lparr>ss_by_thread := bt_put thread
                     (k\<lparr>sk_last_activity := max (sk_last_activity k) now\<rparr>) (ss_by_thread s)\<rparr>)"

definition in_flight :: "streaks \<Rightarrow> string \<Rightarrow> nat" where
  "in_flight s thread = (case bt_get (ss_in_flight s) thread of None \<Rightarrow> 0 | Some n \<Rightarrow> n)"

definition request :: "string \<Rightarrow> nat \<Rightarrow> streaks \<Rightarrow> streaks" where
  "request thread now s =
     (let s1 = prune_streaks now s;
          idle = (case bt_get (ss_by_thread s1) thread of
                    None \<Rightarrow> False | Some k \<Rightarrow> streak_idle < now - sk_retry_at k);
          s2 = (if \<not> bt_has (ss_in_flight s1) thread \<and> idle then end_streak thread s1 else s1);
          s3 = touch thread now s2
      in s3\<lparr>ss_in_flight := bt_put thread (in_flight s3 thread + 1) (ss_in_flight s3)\<rparr>)"

definition finish_request :: "string \<Rightarrow> nat \<Rightarrow> streaks \<Rightarrow> streaks option" where
  "finish_request thread now s =
     (case bt_get (ss_in_flight s) thread of
        None \<Rightarrow> None
      | Some count \<Rightarrow>
          if count = 0 then None
          else if count - 1 = 0
          then Some (touch thread now (s\<lparr>ss_in_flight := bt_del thread (ss_in_flight s)\<rparr>))
          else Some (s\<lparr>ss_in_flight := bt_put thread (count - 1) (ss_in_flight s)\<rparr>))"

datatype advice = RetryAfter nat nat | Exhausted nat

definition base_delay_secs :: nat where "base_delay_secs = 2"
definition max_delay_secs :: nat where "max_delay_secs = 60"

text \<open>An attempt is a 32-bit number, which wraps around in a release build.\<close>

definition next_attempt :: "nat \<Rightarrow> nat" where
  "next_attempt n = (n + 1) mod 2 ^ 32"

definition delay_cap :: "nat \<Rightarrow> nat" where
  "delay_cap attempt =
     min (sat_mul_u64 base_delay_secs (2 ^ min ((attempt + 2 ^ 32 - 1) mod 2 ^ 32) 16)) max_delay_secs"

definition jittered :: "(nat \<Rightarrow> nat) \<Rightarrow> nat \<Rightarrow> nat \<Rightarrow> nat" where
  "jittered hash draws cap =
     (let low = max ((cap + 1) div 2) 1 in low + hash draws mod (cap - low + 1))"

definition kind_budget :: "streaks \<Rightarrow> kind \<Rightarrow> nat" where
  "kind_budget s kind = (case kind of Rate429 \<Rightarrow> ss_rate_budget s | OverloadedKind \<Rightarrow> ss_overloaded_budget s)"

text \<open>The streak a failure counts into: the thread's own unless its kind changed or it was
  exhausted, in which case Codex stopped and a new streak begins.\<close>

definition current_streak :: "string \<Rightarrow> kind \<Rightarrow> nat \<Rightarrow> streaks \<Rightarrow> streak" where
  "current_streak thread kind now s =
     (case bt_get (ss_by_thread s) thread of
        Some k \<Rightarrow> if sk_kind k \<noteq> kind \<or> sk_exhausted k then new_streak kind now (kind_budget s kind) else k
      | None \<Rightarrow> new_streak kind now (kind_budget s kind))"

definition failure ::
    "(nat \<Rightarrow> nat) \<Rightarrow> string \<Rightarrow> kind \<Rightarrow> nat \<Rightarrow> nat option \<Rightarrow> streaks \<Rightarrow> advice \<times> streaks" where
  "failure hash thread kind now upstream s =
     (let budget = kind_budget s kind;
          k0 = current_streak thread kind now s;
          attempt = next_attempt (sk_attempts k0);
          k1 = k0\<lparr>sk_last_activity := max (sk_last_activity k0) now, sk_attempts := attempt\<rparr>;
          draws = (case upstream of None \<Rightarrow> ss_draws s + 1 | Some _ \<Rightarrow> ss_draws s);
          secs = (case upstream of None \<Rightarrow> jittered hash draws (delay_cap attempt) | Some u \<Rightarrow> u);
          delay = secs * nanos;
          put = (\<lambda>k. s\<lparr>ss_by_thread := bt_put thread k (ss_by_thread s), ss_draws := draws\<rparr>)
      in if budget < min (now - sk_started k1 + delay) duration_max
         then (Exhausted attempt, put (k1\<lparr>sk_exhausted := True\<rparr>))
         else (RetryAfter secs attempt,
               put (if now + delay \<le> instant_max then k1\<lparr>sk_retry_at := now + delay\<rparr> else k1)))"

definition success :: "string \<Rightarrow> streaks \<Rightarrow> (kind \<times> nat) option \<times> streaks" where
  "success thread s =
     (case bt_get (ss_by_thread s) thread of
        None \<Rightarrow> (None, s)
      | Some k \<Rightarrow> (if sk_exhausted k then None else Some (sk_kind k, sk_attempts k), end_streak thread s))"

section \<open>Runs\<close>

datatype relay_op =
  ReqStart string nat
| ReqDone string nat
| Failed string kind nat "nat option"
| Succeeded string
| Stopped string

fun relay_step :: "(nat \<Rightarrow> nat) \<Rightarrow> streaks \<Rightarrow> relay_op \<Rightarrow> streaks option" where
  "relay_step hash s (ReqStart t now) = Some (request t now s)"
| "relay_step hash s (ReqDone t now) = finish_request t now s"
| "relay_step hash s (Failed t k now up) = Some (snd (failure hash t k now up s))"
| "relay_step hash s (Succeeded t) = Some (snd (success t s))"
| "relay_step hash s (Stopped t) = Some (end_streak t s)"

fun relay_run :: "(nat \<Rightarrow> nat) \<Rightarrow> streaks \<Rightarrow> relay_op list \<Rightarrow> streaks option" where
  "relay_run hash s [] = Some s"
| "relay_run hash s (op # ops) = Option.bind (relay_step hash s op) (\<lambda>s'. relay_run hash s' ops)"

section \<open>The invariant\<close>

text \<open>The advised retry time of a streak never passes the end of its budget; a request
  guard that is open is counted.\<close>

definition streak_ok :: "streaks \<Rightarrow> streak \<Rightarrow> bool" where
  "streak_ok s k = (sk_budget k = kind_budget s (sk_kind k) \<and> sk_retry_at k \<le> sk_started k + sk_budget k)"

definition streaks_inv :: "streaks \<Rightarrow> bool" where
  "streaks_inv s =
     (bt_ok (ss_by_thread s) \<and> (\<forall>t k. bt_get (ss_by_thread s) t = Some k \<longrightarrow> streak_ok s k)
      \<and> bt_ok (ss_in_flight s) \<and> (\<forall>t n. bt_get (ss_in_flight s) t = Some n \<longrightarrow> 0 < n))"

lemma instant_max_le_duration: "instant_max \<le> duration_max"
  by (simp add: instant_max_def duration_max_def nanos_def)

lemma streaks_inv_new [simp]: "streaks_inv (streaks_new r ov)"
  by (simp add: streaks_inv_def streaks_new_def)

lemma streak_ok_cong:
  "ss_rate_budget s' = ss_rate_budget s \<Longrightarrow> ss_overloaded_budget s' = ss_overloaded_budget s \<Longrightarrow>
   streak_ok s' k = streak_ok s k"
  by (cases "sk_kind k") (simp_all add: streak_ok_def kind_budget_def)

lemma kind_budget_cong:
  "ss_rate_budget s' = ss_rate_budget s \<Longrightarrow> ss_overloaded_budget s' = ss_overloaded_budget s \<Longrightarrow>
   kind_budget s' k = kind_budget s k"
  by (cases k) (simp_all add: kind_budget_def)

text \<open>How an operation may change the table: budgets stay, and each streak it leaves is an
  old one or one that keeps to its budget.\<close>

definition refreshed :: "streaks \<Rightarrow> streaks \<Rightarrow> bool" where
  "refreshed s s' =
     (ss_rate_budget s' = ss_rate_budget s \<and> ss_overloaded_budget s' = ss_overloaded_budget s
      \<and> bt_ok (ss_by_thread s')
      \<and> (\<forall>t k. bt_get (ss_by_thread s') t = Some k \<longrightarrow> streak_ok s k))"

lemma refreshed_inv:
  assumes "streaks_inv s" and "refreshed s s'" and "bt_ok (ss_in_flight s')"
    and "\<forall>t n. bt_get (ss_in_flight s') t = Some n \<longrightarrow> 0 < n"
  shows "streaks_inv s'"
  using assms streak_ok_cong [of s' s] by (auto simp: streaks_inv_def refreshed_def)

lemma refreshed_trans: "refreshed s s' \<Longrightarrow> refreshed s' s'' \<Longrightarrow> refreshed s s''"
  using streak_ok_cong [of s' s] by (auto simp: refreshed_def)

lemma refreshed_refl: "streaks_inv s \<Longrightarrow> refreshed s s"
  by (simp add: refreshed_def streaks_inv_def)

lemma prune_streaks_fields [simp]:
  "ss_in_flight (prune_streaks now s) = ss_in_flight s"
  "ss_rate_budget (prune_streaks now s) = ss_rate_budget s"
  "ss_overloaded_budget (prune_streaks now s) = ss_overloaded_budget s"
  by (simp_all add: prune_streaks_def)

lemma end_streak_fields [simp]:
  "ss_in_flight (end_streak t s) = ss_in_flight s"
  "ss_rate_budget (end_streak t s) = ss_rate_budget s"
  "ss_overloaded_budget (end_streak t s) = ss_overloaded_budget s"
  "bt_get (ss_by_thread (end_streak t s)) = (bt_get (ss_by_thread s))(t := None)"
  by (simp_all add: end_streak_def)

lemma touch_fields [simp]:
  "ss_in_flight (touch t now s) = ss_in_flight s"
  "ss_rate_budget (touch t now s) = ss_rate_budget s"
  "ss_overloaded_budget (touch t now s) = ss_overloaded_budget s"
  by (simp_all add: touch_def split: option.splits)

lemma touch_get:
  "bt_get (ss_by_thread (touch t now s)) a =
     (if a = t
      then map_option (\<lambda>k. k\<lparr>sk_last_activity := max (sk_last_activity k) now\<rparr>) (bt_get (ss_by_thread s) t)
      else bt_get (ss_by_thread s) a)"
  by (simp add: touch_def split: option.splits)

lemma prune_get:
  "bt_ok (ss_by_thread s) \<Longrightarrow> bt_get (ss_by_thread (prune_streaks now s)) t = Some k \<Longrightarrow>
   bt_get (ss_by_thread s) t = Some k"
  by (simp add: prune_streaks_def bt_get_filter split: if_splits option.splits)

lemma prune_keeps:
  "bt_ok (ss_by_thread s) \<Longrightarrow> bt_get (ss_by_thread s) t = Some k \<Longrightarrow> keep_streak s now t k \<Longrightarrow>
   bt_get (ss_by_thread (prune_streaks now s)) t = Some k"
  by (simp add: prune_streaks_def bt_get_filter)

lemma bt_ok_threads [simp]:
  "bt_ok (ss_by_thread s) \<Longrightarrow> bt_ok (ss_by_thread (prune_streaks now s))"
  "bt_ok (ss_by_thread s) \<Longrightarrow> bt_ok (ss_by_thread (end_streak t s))"
  "bt_ok (ss_by_thread s) \<Longrightarrow> bt_ok (ss_by_thread (touch t now s))"
  by (simp_all add: prune_streaks_def end_streak_def touch_def split: option.splits)

lemma streak_ok_touch [simp]: "streak_ok s (k\<lparr>sk_last_activity := n\<rparr>) = streak_ok s k"
  by (simp add: streak_ok_def)

lemma prune_refreshed: "streaks_inv s \<Longrightarrow> refreshed s (prune_streaks now s)"
  by (auto simp: refreshed_def streaks_inv_def dest: prune_get)

lemma end_refreshed: "streaks_inv s \<Longrightarrow> refreshed s (end_streak t s)"
  by (auto simp: refreshed_def streaks_inv_def)

lemma touch_refreshed: "streaks_inv s \<Longrightarrow> refreshed s (touch t now s)"
  by (auto simp: refreshed_def streaks_inv_def touch_get split: if_splits)

lemma inv_of_refreshed:
  "streaks_inv s \<Longrightarrow> refreshed s s' \<Longrightarrow> ss_in_flight s' = ss_in_flight s \<Longrightarrow> streaks_inv s'"
  by (rule refreshed_inv) (simp_all add: streaks_inv_def)

lemmas table_inv [simp] =
  inv_of_refreshed [OF _ prune_refreshed] inv_of_refreshed [OF _ end_refreshed]
  inv_of_refreshed [OF _ touch_refreshed]

text \<open>The state a request leaves before it is counted.\<close>

definition admitted :: "string \<Rightarrow> nat \<Rightarrow> streaks \<Rightarrow> streaks" where
  "admitted thread now s =
     (let s1 = prune_streaks now s;
          idle = (case bt_get (ss_by_thread s1) thread of
                    None \<Rightarrow> False | Some k \<Rightarrow> streak_idle < now - sk_retry_at k)
      in if \<not> bt_has (ss_in_flight s1) thread \<and> idle then end_streak thread s1 else s1)"

lemma request_unfold:
  "request thread now s =
     (let s3 = touch thread now (admitted thread now s)
      in s3\<lparr>ss_in_flight := bt_put thread (in_flight s3 thread + 1) (ss_in_flight s3)\<rparr>)"
  by (simp add: request_def admitted_def Let_def)

lemma admitted_inv [simp]: "streaks_inv s \<Longrightarrow> streaks_inv (admitted t now s)"
  by (simp add: admitted_def Let_def)

lemma in_flight_admitted [simp]: "ss_in_flight (admitted t now s) = ss_in_flight s"
  by (simp add: admitted_def Let_def)

lemma streaks_inv_in_flight:
  "streaks_inv s \<Longrightarrow> bt_ok f \<Longrightarrow> (\<forall>t n. bt_get f t = Some n \<longrightarrow> 0 < n) \<Longrightarrow>
   streaks_inv (s\<lparr>ss_in_flight := f\<rparr>)"
  by (rule refreshed_inv [of s]) (simp_all add: refreshed_def streaks_inv_def)

lemma request_inv [simp]: "streaks_inv s \<Longrightarrow> streaks_inv (request t now s)"
proof -
  assume s: "streaks_inv s"
  then have "bt_ok (ss_in_flight s) \<and> (\<forall>t n. bt_get (ss_in_flight s) t = Some n \<longrightarrow> 0 < n)"
    by (simp add: streaks_inv_def)
  with s show ?thesis
    unfolding request_unfold Let_def by (intro streaks_inv_in_flight) auto
qed

lemma finish_request_inv: "streaks_inv s \<Longrightarrow> finish_request t now s = Some s' \<Longrightarrow> streaks_inv s'"
proof -
  assume s: "streaks_inv s" and f: "finish_request t now s = Some s'"
  have "streaks_inv (s\<lparr>ss_in_flight := bt_del t (ss_in_flight s)\<rparr>)"
    using s by (intro streaks_inv_in_flight) (auto simp: streaks_inv_def split: if_splits)
  moreover have "streaks_inv (s\<lparr>ss_in_flight := bt_put t n (ss_in_flight s)\<rparr>)" if "0 < n" for n
    using s that by (intro streaks_inv_in_flight) (auto simp: streaks_inv_def)
  ultimately show ?thesis
    using f by (auto simp: finish_request_def split: option.splits if_splits)
qed

lemma current_streak_ok: "streaks_inv s \<Longrightarrow> streak_ok s (current_streak t kind now s)"
proof -
  assume "streaks_inv s"
  then have "bt_get (ss_by_thread s) t = Some k \<Longrightarrow> streak_ok s k" for k
    by (simp add: streaks_inv_def)
  moreover have "streak_ok s (new_streak kind now (kind_budget s kind))"
    by (simp add: streak_ok_def new_streak_def)
  ultimately show ?thesis
    by (simp add: current_streak_def split: option.splits)
qed

lemma current_streak_kind [simp]: "sk_kind (current_streak t kind now s) = kind"
  by (auto simp: current_streak_def new_streak_def split: option.splits)

lemma current_streak_live [simp]: "\<not> sk_exhausted (current_streak t kind now s)"
  by (auto simp: current_streak_def new_streak_def split: option.splits)

text \<open>The delay of a failure, and the streak it leaves.\<close>

definition failure_secs :: "(nat \<Rightarrow> nat) \<Rightarrow> nat \<Rightarrow> nat option \<Rightarrow> streaks \<Rightarrow> nat" where
  "failure_secs hash attempt upstream s =
     (case upstream of Some u \<Rightarrow> u | None \<Rightarrow> jittered hash (ss_draws s + 1) (delay_cap attempt))"

definition counted :: "nat \<Rightarrow> streak \<Rightarrow> streak" where
  "counted now k = k\<lparr>sk_last_activity := max (sk_last_activity k) now, sk_attempts := next_attempt (sk_attempts k)\<rparr>"

definition over_budget :: "nat \<Rightarrow> nat \<Rightarrow> streak \<Rightarrow> bool" where
  "over_budget now delay k = (sk_budget k < min (now - sk_started k + delay) duration_max)"

definition advised :: "nat \<Rightarrow> nat \<Rightarrow> streak \<Rightarrow> streak" where
  "advised now delay k =
     (if over_budget now delay k then k\<lparr>sk_exhausted := True\<rparr>
      else if now + delay \<le> instant_max then k\<lparr>sk_retry_at := now + delay\<rparr> else k)"

lemma counted_fields [simp]:
  "sk_budget (counted now k) = sk_budget k" "sk_started (counted now k) = sk_started k"
  "sk_kind (counted now k) = sk_kind k" "sk_attempts (counted now k) = next_attempt (sk_attempts k)"
  "sk_exhausted (counted now k) = sk_exhausted k" "sk_retry_at (counted now k) = sk_retry_at k"
  by (simp_all add: counted_def)

lemma advised_fields [simp]:
  "sk_budget (advised now d k) = sk_budget k" "sk_started (advised now d k) = sk_started k"
  "sk_kind (advised now d k) = sk_kind k" "sk_attempts (advised now d k) = sk_attempts k"
  "sk_exhausted (advised now d k) \<longleftrightarrow> over_budget now d k \<or> sk_exhausted k"
  by (simp_all add: advised_def)

lemma failure_unfold:
  assumes "streaks_inv s"
  shows "failure hash t kind now upstream s =
     (let k = counted now (current_streak t kind now s);
          secs = failure_secs hash (sk_attempts k) upstream s
      in (if over_budget now (secs * nanos) k then Exhausted (sk_attempts k)
          else RetryAfter secs (sk_attempts k),
          s\<lparr>ss_by_thread := bt_put t (advised now (secs * nanos) k) (ss_by_thread s),
            ss_draws := (case upstream of None \<Rightarrow> ss_draws s + 1 | Some _ \<Rightarrow> ss_draws s)\<rparr>))"
proof -
  have "sk_budget (current_streak t kind now s) = kind_budget s kind"
    using current_streak_ok [OF assms, of t kind now] by (simp add: streak_ok_def)
  then show ?thesis
    by (cases upstream)
      (simp_all add: failure_def Let_def counted_def advised_def over_budget_def failure_secs_def)
qed

lemma advised_ok:
  assumes "streak_ok s k" shows "streak_ok s (advised now delay k)"
proof (cases "over_budget now delay k")
  case False
  have "now + delay \<le> sk_started k + sk_budget k" if "now + delay \<le> instant_max"
    using False that instant_max_le_duration by (auto simp: over_budget_def min_def split: if_splits)
  with assms False show ?thesis
    by (auto simp: advised_def streak_ok_def)
qed (use assms in \<open>simp add: advised_def streak_ok_def\<close>)

lemma counted_ok [simp]: "streak_ok s (counted now k) = streak_ok s k"
  by (simp add: streak_ok_def)

lemma failure_inv [simp]: "streaks_inv s \<Longrightarrow> streaks_inv (snd (failure hash t kind now upstream s))"
proof (rule inv_of_refreshed)
  assume s: "streaks_inv s"
  show "refreshed s (snd (failure hash t kind now upstream s))"
    using s current_streak_ok [OF s, of t kind now]
    by (auto simp: failure_unfold [OF s] Let_def refreshed_def streaks_inv_def intro: advised_ok)
qed (simp_all add: failure_unfold Let_def)

lemma success_inv [simp]: "streaks_inv s \<Longrightarrow> streaks_inv (snd (success t s))"
  by (simp add: success_def split: option.splits)

lemma relay_step_inv: "streaks_inv s \<Longrightarrow> relay_step hash s op = Some s' \<Longrightarrow> streaks_inv s'"
  by (cases op) (auto dest: finish_request_inv)

lemma relay_run_inv: "streaks_inv s \<Longrightarrow> relay_run hash s ops = Some s' \<Longrightarrow> streaks_inv s'"
  by (induction ops arbitrary: s) (auto simp: Option.bind_eq_Some_conv intro: relay_step_inv)

lemma relay_run_reachable:
  "relay_run hash (streaks_new r ov) ops = Some s \<Longrightarrow> streaks_inv s"
  by (rule relay_run_inv [OF streaks_inv_new])

text \<open>Budgets never change.\<close>

lemma relay_step_budgets:
  "relay_step hash s op = Some s' \<Longrightarrow> kind_budget s' k = kind_budget s k"
proof (cases op)
  case (ReqStart t now)
  moreover assume "relay_step hash s op = Some s'"
  ultimately show ?thesis
    by (cases k) (auto simp: kind_budget_def request_unfold admitted_def Let_def)
qed (cases k; auto simp: kind_budget_def finish_request_def failure_def success_def Let_def
      split: option.splits if_splits)+

lemma relay_run_budgets: "relay_run hash s ops = Some s' \<Longrightarrow> kind_budget s' k = kind_budget s k"
  by (induction ops arbitrary: s) (auto simp: Option.bind_eq_Some_conv relay_step_budgets)

section \<open>Jitter\<close>

lemma jittered_bounds:
  assumes "0 < cap"
  shows "max ((cap + 1) div 2) 1 \<le> jittered hash n cap" and "jittered hash n cap \<le> cap"
proof -
  let ?low = "max ((cap + 1) div 2) 1"
  have "hash n mod (cap - ?low + 1) \<le> cap - ?low"
    using mod_less_divisor [of "cap - ?low + 1" "hash n"] by linarith
  moreover have "?low \<le> cap" using assms by (auto simp: max_def)
  ultimately have "?low + hash n mod (cap - ?low + 1) \<le> cap" by linarith
  then show "jittered hash n cap \<le> cap" by (simp only: jittered_def Let_def)
qed (simp add: jittered_def Let_def)

lemma delay_cap_pow:
  assumes "n < 2 ^ 32" shows "delay_cap n = (if n = 0 then 60 else min (2 ^ n) 60)"
proof (cases "n = 0")
  case True
  then show ?thesis
    by (simp add: delay_cap_def sat_mul_u64_def base_delay_secs_def max_delay_secs_def u64_max_def)
next
  case pos: False
  have "n + 2 ^ 32 - 1 = n - 1 + 2 ^ 32" using pos by simp
  then have exponent: "(n + 2 ^ 32 - 1) mod 2 ^ 32 = n - 1" using assms by (simp only: mod_add_self2) simp
  show ?thesis
  proof (cases "n \<le> 17")
    case True
    then have "(2 :: nat) * 2 ^ (n - 1) = 2 ^ n"
      using pos by (simp flip: power_Suc)
    moreover have "(2 :: nat) ^ n \<le> 2 ^ 17" using True by (rule power_increasing) simp
    ultimately show ?thesis
      using True pos unfolding delay_cap_def exponent
      by (simp add: sat_mul_u64_def base_delay_secs_def max_delay_secs_def u64_max_def)
  next
    case False
    then have "(2 :: nat) ^ 17 \<le> 2 ^ n" by (intro power_increasing) auto
    with False show ?thesis
      unfolding delay_cap_def exponent
      by (simp add: sat_mul_u64_def base_delay_secs_def max_delay_secs_def u64_max_def)
  qed
qed

lemma delay_cap_pos [simp]: "0 < delay_cap n"
  by (simp add: delay_cap_def sat_mul_u64_def base_delay_secs_def max_delay_secs_def u64_max_def)

section \<open>Open requests\<close>

text \<open>Every request ends at most once and after it began.\<close>

fun bracketed :: "(string \<Rightarrow> nat) \<Rightarrow> relay_op list \<Rightarrow> bool" where
  "bracketed opened [] = True"
| "bracketed opened (ReqStart t now # ops) = bracketed (opened(t := opened t + 1)) ops"
| "bracketed opened (ReqDone t now # ops) = (0 < opened t \<and> bracketed (opened(t := opened t - 1)) ops)"
| "bracketed opened (op # ops) = bracketed opened ops"

fun starts :: "string \<Rightarrow> relay_op \<Rightarrow> bool" where
  "starts t (ReqStart a now) = (a = t)"
| "starts t _ = False"

fun finishes :: "string \<Rightarrow> relay_op \<Rightarrow> bool" where
  "finishes t (ReqDone a now) = (a = t)"
| "finishes t _ = False"

lemma in_flight_request: "in_flight (request t now s) = (in_flight s)(t := in_flight s t + 1)"
  by (simp add: request_unfold Let_def in_flight_def fun_eq_iff)

lemma finish_request_cases:
  assumes "streaks_inv s"
  shows "case finish_request t now s of
           None \<Rightarrow> in_flight s t = 0
         | Some s' \<Rightarrow> 0 < in_flight s t \<and> in_flight s' = (in_flight s)(t := in_flight s t - 1)"
  using assms by (auto simp: finish_request_def in_flight_def streaks_inv_def fun_eq_iff split: option.splits)

lemma in_flight_table [simp]:
  "in_flight (end_streak t s) = in_flight s"
  "in_flight (snd (success t s)) = in_flight s"
  by (simp_all add: in_flight_def success_def fun_eq_iff split: option.splits)

lemma in_flight_failure: "in_flight (snd (failure hash t k now up s)) = in_flight s"
  by (simp add: failure_def Let_def in_flight_def fun_eq_iff)

lemma relay_run_brackets:
  "streaks_inv s \<Longrightarrow>
   (case relay_run hash s ops of
      None \<Rightarrow> \<not> bracketed (in_flight s) ops
    | Some s' \<Rightarrow> bracketed (in_flight s) ops
        \<and> (\<forall>t. in_flight s' t + length (filter (finishes t) ops)
               = in_flight s t + length (filter (starts t) ops)))"
proof (induction ops arbitrary: s)
  case (Cons op ops)
  show ?case
  proof (cases op)
    case (ReqStart t now)
    with Cons.IH [of "request t now s"] Cons.prems show ?thesis
      by (auto simp: in_flight_request split: option.splits)
  next
    case (ReqDone t now)
    show ?thesis
    proof (cases "finish_request t now s")
      case None
      with finish_request_cases [OF Cons.prems, of t now] ReqDone show ?thesis by simp
    next
      case (Some s')
      with finish_request_cases [OF Cons.prems, of t now] Cons.IH [of s']
        finish_request_inv [OF Cons.prems Some] ReqDone
      show ?thesis by (auto split: option.splits if_splits)
    qed
  next
    case (Failed t k now up)
    with Cons.IH [of "snd (failure hash t k now up s)"] Cons.prems show ?thesis
      by (cases "relay_run hash (snd (failure hash t k now up s)) ops")
        (simp_all add: in_flight_failure)
  next
    case (Succeeded t)
    with Cons.IH [of "snd (success t s)"] Cons.prems show ?thesis
      by (cases "relay_run hash (snd (success t s)) ops") simp_all
  next
    case (Stopped t)
    with Cons.IH [of "end_streak t s"] Cons.prems show ?thesis
      by (cases "relay_run hash (end_streak t s) ops") simp_all
  qed
qed simp

section \<open>Properties\<close>

text \<open>C37: whatever came before, the advice for a failure is decided by the streak's budget:
  the thread's streak (a new one when it had none, changed kind or was exhausted) counts one
  more attempt; advice is given exactly when the time since the streak began plus the delay
  fits the budget of its kind, the retry time then ends inside the budget, and otherwise
  the streak is marked exhausted. The other threads' streaks are untouched.\<close>

theorem advice_within_budget:
  "case relay_run hash (streaks_new rate ov) ops of
     None \<Rightarrow> True
   | Some s \<Rightarrow>
       (let (advice, s') = failure hash t kind now upstream s;
            k = current_streak t kind now s;
            budget = (case kind of Rate429 \<Rightarrow> rate | OverloadedKind \<Rightarrow> ov)
        in (\<forall>a. a = t \<or> bt_get (ss_by_thread s') a = bt_get (ss_by_thread s) a)
           \<and> (case bt_get (ss_by_thread s') t of
                None \<Rightarrow> False
              | Some k' \<Rightarrow>
                  sk_started k' = sk_started k \<and> sk_kind k' = kind
                  \<and> sk_attempts k' = (sk_attempts k + 1) mod 2 ^ 32
                  \<and> sk_retry_at k' \<le> sk_started k' + budget
                  \<and> (case advice of
                        RetryAfter secs n \<Rightarrow>
                          n = sk_attempts k' \<and> \<not> sk_exhausted k'
                          \<and> min (now - sk_started k + secs * nanos) duration_max \<le> budget
                      | Exhausted n \<Rightarrow>
                          n = sk_attempts k' \<and> sk_exhausted k'
                          \<and> budget < min (now - sk_started k + failure_secs hash n upstream s * nanos) duration_max)))"
proof (cases "relay_run hash (streaks_new rate ov) ops")
  case (Some s)
  have s: "streaks_inv s" by (rule relay_run_reachable [OF Some])
  let ?k = "counted now (current_streak t kind now s)"
  have "streak_ok s (advised now d ?k)" for d
    using current_streak_ok [OF s] by (simp add: advised_ok)
  moreover have "kind_budget s kind = (case kind of Rate429 \<Rightarrow> rate | OverloadedKind \<Rightarrow> ov)"
    using relay_run_budgets [OF Some, of kind] by (cases kind) (simp_all add: kind_budget_def streaks_new_def)
  moreover have "sk_budget (current_streak t kind now s) = kind_budget s kind"
    using current_streak_ok [OF s, of t kind now] by (simp add: streak_ok_def)
  ultimately show ?thesis
    using Some by (auto simp: failure_unfold [OF s] Let_def streak_ok_def over_budget_def next_attempt_def)
qed simp

text \<open>Without a delay of the server's own the relay backs off: the \<open>n\<close>th failure of
  a streak is advised a delay between half of \<open>min (2 ^ n) 60\<close> seconds, rounded up, and all
  of it, never less than one second; with one, exactly that delay is advised. Where the number
  of the attempt wrapped to 0 the delay is between 30 and 60 seconds.\<close>

theorem delays_double_with_jitter:
  "case relay_run hash (streaks_new rate ov) ops of
     None \<Rightarrow> True
   | Some s \<Rightarrow>
       (case fst (failure hash t kind now upstream s) of
          Exhausted n \<Rightarrow> n < 2 ^ 32
        | RetryAfter secs n \<Rightarrow>
            (case upstream of
               Some u \<Rightarrow> secs = u
             | None \<Rightarrow>
                 (let cap = (if n = 0 then 60 else min (2 ^ n) 60)
                  in 1 \<le> secs \<and> (cap + 1) div 2 \<le> secs \<and> secs \<le> cap)))"
proof (cases "relay_run hash (streaks_new rate ov) ops")
  case (Some s)
  have s: "streaks_inv s" by (rule relay_run_reachable [OF Some])
  let ?n = "next_attempt (sk_attempts (current_streak t kind now s))"
  have small: "?n < 2 ^ 32" by (simp add: next_attempt_def)
  have "1 \<le> jittered hash m (delay_cap ?n) \<and> (delay_cap ?n + 1) div 2 \<le> jittered hash m (delay_cap ?n)
    \<and> jittered hash m (delay_cap ?n) \<le> delay_cap ?n" for m
    using jittered_bounds [OF delay_cap_pos [of ?n], of hash m] by linarith
  then show ?thesis
    using Some small by (cases upstream) (simp_all add: failure_unfold [OF s] Let_def failure_secs_def flip: delay_cap_pow [OF small])
qed simp

text \<open>the request guards are balanced: a run of the relay never panics in
  \<open>finish_request\<close> exactly when every request ends after it began and once, and the number
  kept for a thread is then the number of its requests still open.\<close>

theorem request_guards_balanced:
  "case relay_run hash (streaks_new rate ov) ops of
     None \<Rightarrow> \<not> bracketed (\<lambda>_. 0) ops
   | Some s \<Rightarrow>
       bracketed (\<lambda>_. 0) ops
       \<and> (\<forall>t. in_flight s t + length (filter (finishes t) ops) = length (filter (starts t) ops)
              \<and> bt_has (ss_in_flight s) t = (length (filter (finishes t) ops) < length (filter (starts t) ops)))"
proof -
  have z: "in_flight (streaks_new rate ov) = (\<lambda>_. 0)"
    by (simp add: in_flight_def streaks_new_def fun_eq_iff)
  have has: "bt_has (ss_in_flight s) t = (0 < in_flight s t)" if "streaks_inv s" for s t
    using that by (auto simp: bt_has_def in_flight_def streaks_inv_def split: option.splits)
  show ?thesis
  proof (cases "relay_run hash (streaks_new rate ov) ops")
    case (Some s)
    have "in_flight s t + length (filter (finishes t) ops) = length (filter (starts t) ops)" for t
      using relay_run_brackets [OF streaks_inv_new [of rate ov], where hash = hash and ops = ops] Some by (simp add: z)
    moreover from this have "(0 < in_flight s t) = (length (filter (finishes t) ops) < length (filter (starts t) ops))" for t
      by (metis add_less_same_cancel2 less_add_same_cancel2)
    ultimately show ?thesis
      using relay_run_brackets [OF streaks_inv_new [of rate ov], where hash = hash and ops = ops] Some
        has [OF relay_run_reachable [OF Some]] by (simp add: z)
  qed (use relay_run_brackets [OF streaks_inv_new [of rate ov], where hash = hash and ops = ops] in \<open>simp add: z\<close>)
qed

text \<open>A recovery is reported for exactly the streaks that advised and were not exhausted,
  with the attempts they counted, and only once: a success removes the streak. A failure
  after exhaustion, or of another kind, is attempt 1 of a new streak begun at that failure.\<close>

theorem recovery_reported_once:
  "fst (success t s) =
     (case bt_get (ss_by_thread s) t of
        Some k \<Rightarrow> if sk_exhausted k then None else Some (sk_kind k, sk_attempts k)
      | None \<Rightarrow> None)
   \<and> fst (success t (snd (success t s))) = None
   \<and> (let (advice, s') = failure hash t kind now upstream s in
       (case advice of
          Exhausted n \<Rightarrow> fst (success t s') = None
        | RetryAfter secs n \<Rightarrow> fst (success t s') = Some (kind, n))
       \<and> (case bt_get (ss_by_thread s) t of
            Some k \<Rightarrow>
              if sk_kind k = kind \<and> \<not> sk_exhausted k
              then (let n = next_attempt (sk_attempts k) in advice \<in> {Exhausted n, RetryAfter (failure_secs hash n upstream s) n})
              else advice \<in> {Exhausted 1, RetryAfter (failure_secs hash 1 upstream s) 1}
          | None \<Rightarrow> advice \<in> {Exhausted 1, RetryAfter (failure_secs hash 1 upstream s) 1}))"
  by (cases "bt_get (ss_by_thread s) t"; cases upstream)
    (auto simp: success_def failure_def Let_def current_streak_def new_streak_def failure_secs_def next_attempt_def)

text \<open>a request may drop streaks, but never one in use: it keeps every streak of a
  thread with a request open, and every other thread's streak inside its budget or active
  within the hour; the requesting thread starts afresh only when it comes more than two
  minutes after its advised retry time. A streak it keeps only has its activity time moved, for the requesting thread.\<close>

theorem pruning_spares_live_streaks:
  "case relay_run hash (streaks_new rate ov) ops of
     None \<Rightarrow> True
   | Some s \<Rightarrow>
       (\<forall>a. case bt_get (ss_by_thread s) a of
              None \<Rightarrow> bt_get (ss_by_thread (request t now s)) a = None
            | Some k \<Rightarrow>
                (case bt_get (ss_by_thread (request t now s)) a of
                   None \<Rightarrow>
                     \<not> bt_has (ss_in_flight s) a
                     \<and> (a = t \<and> 120 * nanos < now - sk_retry_at k
                        \<or> sk_budget k \<le> now - sk_started k
                           \<and> 3600 * nanos < now - max (sk_last_activity k) (sk_retry_at k))
                 | Some k' \<Rightarrow>
                     k' = (if a = t then k\<lparr>sk_last_activity := max (sk_last_activity k) now\<rparr> else k)))"
proof (cases "relay_run hash (streaks_new rate ov) ops")
  case (Some s)
  have ok: "bt_ok (ss_by_thread s)"
    using relay_run_reachable [OF Some] by (simp add: streaks_inv_def)
  have keep: "bt_get (ss_by_thread (prune_streaks now s)) a =
      (case bt_get (ss_by_thread s) a of
         None \<Rightarrow> None
       | Some k \<Rightarrow> if (case ss_last_pruned s of None \<Rightarrow> False | Some prev \<Rightarrow> now - prev < prune_interval)
                     \<or> keep_streak s now a k then Some k else None)" for a
    using ok by (simp add: prune_streaks_def bt_get_filter split: option.split)
  have "bt_get (ss_by_thread (request t now s)) a =
      (case bt_get (ss_by_thread (prune_streaks now s)) a of
         None \<Rightarrow> None
       | Some k \<Rightarrow>
           if a \<noteq> t then Some k
           else if \<not> bt_has (ss_in_flight s) t \<and> streak_idle < now - sk_retry_at k then None
           else Some (k\<lparr>sk_last_activity := max (sk_last_activity k) now\<rparr>))" for a
    by (simp add: request_unfold Let_def admitted_def touch_get split: option.split)
  then have "(case bt_get (ss_by_thread s) a of
      None \<Rightarrow> bt_get (ss_by_thread (request t now s)) a = None
    | Some k \<Rightarrow>
        (case bt_get (ss_by_thread (request t now s)) a of
           None \<Rightarrow>
             \<not> bt_has (ss_in_flight s) a
             \<and> (a = t \<and> 120 * nanos < now - sk_retry_at k
                \<or> sk_budget k \<le> now - sk_started k
                   \<and> 3600 * nanos < now - max (sk_last_activity k) (sk_retry_at k))
         | Some k' \<Rightarrow>
             k' = (if a = t then k\<lparr>sk_last_activity := max (sk_last_activity k) now\<rparr> else k)))" for a
    by (cases "bt_get (ss_by_thread s) a")
      (simp_all add: keep keep_streak_def streak_idle_def streak_evict_def not_less not_le
        del: max_less_iff_conj max.bounded_iff)
  with Some show ?thesis by simp
qed simp

text \<open>A terminal stop is never given advice: a 429 whose error names one of the eight
  usage, billing or plan stops as its \<open>type\<close> or its \<open>code\<close> is final, every other body, one
  that is not JSON included, is a rate limit; an overload is recognised by the type of the
  event and the code of its error together.\<close>

theorem terminal_stops_pass_unchanged:
  "classify_429 None = Rate
   \<and> (classify_429 (Some body) = TerminalStop) =
       (\<exists>field \<in> {''type'', ''code''}. \<exists>name \<in> set terminal_codes.
          json_str_at [''error'', field] body = Some name)
   \<and> (is_overloaded_failure body = (json_str_at [''type''] body = Some ''response.failed''
        \<and> json_str_at [''response'', ''error'', ''code''] body = Some ''server_is_overloaded''))"
proof -
  have "(case Option.bind (Option.bind (json_get ''error'' body) (json_get f)) json_str of
      None \<Rightarrow> False | Some v \<Rightarrow> v \<in> set terminal_codes)
    = (\<exists>name \<in> set terminal_codes. json_str_at [''error'', f] body = Some name)" for f
    by (cases "json_get ''error'' body"; simp split: option.split)
      (auto simp: json_str_at_def Option.bind_eq_Some_conv split: option.splits)
  then show ?thesis
    by (auto simp: classify_429_def Let_def is_overloaded_failure_def simp del: json_str_at_Cons)
qed

end
