(* ===== verification/ResetJournal.thy ===== *)
theory ResetJournal
  imports BTree Select
begin

text \<open>
  The journal of banked-reset redemptions (\<open>src/central/resets.rs\<close>): the pending intent
  with the requests joined to it, the receipts of settled requests with their retention,
  and \<open>Reader::redeem\<close>, the redemption of file mode. The provider and the refresh owner
  are the record \<open>io\<close>: what each call of one request answers. The digest of the intent is
  the parameter \<open>key_of\<close>. A crash or a lost answer after a write is an erring answer: the
  journal on disk is what the writes before it left. The write of a joined or prepared intent
  always succeeds here; in the code its failure ends the request before the provider is asked.
\<close>

datatype consume_code = ResetDone | NothingToReset | NoCredit | AlreadyRedeemed | UnknownCode

record consume_response =
  cs_code :: consume_code
  cs_windows :: int

record pending =
  pd_request :: string
  pd_credit :: string
  pd_upstream :: string
  pd_actor :: "string option"
  pd_joined :: "string list"

record journal =
  jn_pending :: "pending option"
  jn_completed :: "(string, consume_response) btree"
  jn_order :: "string list"

definition empty_journal :: journal where
  "empty_journal = \<lparr>jn_pending = None, jn_completed = [], jn_order = []\<rparr>"

definition receipt_limit :: nat where "receipt_limit = 256"

datatype refusal = ResetBusy | NothingApplicable | NoResetCredit

text \<open>A \<open>BTreeSet\<close> of strings is its elements in order.\<close>

definition set_insert :: "string \<Rightarrow> string list \<Rightarrow> string list" where
  "set_insert x xs = (if x \<in> set xs then xs else insort x xs)"

definition pending_join :: "string \<Rightarrow> pending \<Rightarrow> refusal + bool \<times> pending" where
  "pending_join request p =
     (if request = pd_request p \<or> request \<in> set (pd_joined p) then Inr (False, p)
      else if receipt_limit - 1 \<le> length (pd_joined p) then Inl ResetBusy
      else Inr (True, p\<lparr>pd_joined := set_insert request (pd_joined p)\<rparr>))"

section \<open>Settlement\<close>

definition add_receipt ::
    "consume_response \<Rightarrow> string \<Rightarrow> (string, consume_response) btree \<times> string list
      \<Rightarrow> (string, consume_response) btree \<times> string list" where
  "add_receipt response request = (\<lambda>(completed, order).
     (bt_put request response completed, if bt_has completed request then order else order @ [request]))"

fun evict ::
    "nat \<Rightarrow> string list \<Rightarrow> (string, consume_response) btree \<Rightarrow> (string, consume_response) btree \<times> string list" where
  "evict limit [] completed = (completed, [])"
| "evict limit (oldest # order) completed =
     (if limit < length (oldest # order) then evict limit order (bt_del oldest completed)
      else (completed, oldest # order))"

definition complete :: "string list \<Rightarrow> consume_response \<Rightarrow> journal \<Rightarrow> journal" where
  "complete requests response j =
     (let batch = fold set_insert requests [];
          limit = max receipt_limit (length batch);
          (completed, order) = fold (add_receipt response) batch (jn_completed j, jn_order j);
          completed = (if limit < length completed \<and> limit \<le> length order
                       then filter (\<lambda>(request, _). request \<in> set order) completed else completed);
          (completed, order) = evict limit order completed
      in j\<lparr>jn_completed := completed, jn_order := order\<rparr>)"

text \<open>What a recorded receipt answers.\<close>

datatype redeem_error = Refused refusal | Rejected | TokenFailed | RoutingUnsupported | ReadFailed | AuthExpired | LostAnswer

definition receipt :: "bool \<Rightarrow> consume_response \<Rightarrow> redeem_error + consume_response" where
  "receipt replay r =
     (if cs_code r = UnknownCode then Inl Rejected
      else if replay \<and> cs_code r \<in> {ResetDone, AlreadyRedeemed} then Inr (r\<lparr>cs_code := AlreadyRedeemed\<rparr>)
      else Inr r)"

section \<open>Redemption in file mode\<close>

text \<open>What the provider answers to one consumption, and what one attempt reads before it.\<close>

datatype provider_answer = Answered consume_response | ProviderRejected | TokenExpired | NoAnswer

record attempt_io =
  io_token :: bool
  io_routing :: bool
  io_usage :: "redeem_error + int"
  io_details :: "redeem_error + reset_credit list"
  io_now :: int
  io_consume :: provider_answer
  io_persisted :: bool

definition unknown_response :: consume_response where
  "unknown_response = \<lparr>cs_code = UnknownCode, cs_windows = 0\<rparr>"

definition redeemable :: "(string \<Rightarrow> int option) \<Rightarrow> int \<Rightarrow> reset_credit list \<Rightarrow> reset_credit list" where
  "redeemable parse now credits =
     filter (\<lambda>c. case credit_expiry parse c of None \<Rightarrow> True | Some t \<Rightarrow> now < t) (filter credit_available credits)"

definition expiry_cmp :: "(string \<Rightarrow> int option) \<Rightarrow> reset_credit \<Rightarrow> reset_credit \<Rightarrow> ordering" where
  "expiry_cmp parse a b =
     (let at' = (\<lambda>c. case credit_expiry parse c of None \<Rightarrow> i64_max | Some t \<Rightarrow> t) in cmp (at' a) (at' b))"

text \<open>The intent a request starts, before anything is spent.\<close>

definition prepare ::
    "(string \<Rightarrow> int option) \<Rightarrow> (string \<Rightarrow> string) \<Rightarrow> string \<Rightarrow> attempt_io \<Rightarrow> redeem_error + pending" where
  "prepare parse key_of request io =
     (case io_usage io of
        Inl e \<Rightarrow> Inl e
      | Inr applicable \<Rightarrow>
          if applicable \<le> 0 then Inl (Refused NothingApplicable)
          else
            (case io_details io of
               Inl e \<Rightarrow> Inl e
             | Inr credits \<Rightarrow>
                 (case min_by (expiry_cmp parse) (redeemable parse (io_now io) credits) of
                    None \<Rightarrow> Inl (Refused NoResetCredit)
                  | Some c \<Rightarrow>
                      Inr \<lparr>pd_request = request, pd_credit = rc_id c, pd_upstream = key_of request,
                           pd_actor = None, pd_joined = []\<rparr>)))"

text \<open>The answer that settles the intent, or the error that leaves it pending; the second
  attempt settles an expired token too.\<close>

fun settled_answer :: "nat \<Rightarrow> provider_answer \<Rightarrow> redeem_error + consume_response \<times> bool" where
  "settled_answer n (Answered r) = Inr (r, cs_code r = UnknownCode)"
| "settled_answer n ProviderRejected = Inr (unknown_response, True)"
| "settled_answer n TokenExpired = (if n = 1 then Inr (unknown_response, True) else Inl AuthExpired)"
| "settled_answer n NoAnswer = Inl LostAnswer"

definition settle :: "string \<Rightarrow> pending \<Rightarrow> consume_response \<Rightarrow> journal \<Rightarrow> journal" where
  "settle request p response j =
     complete (pd_joined p @ [pd_request p, request]) response (j\<lparr>jn_pending := None\<rparr>)"

text \<open>One attempt: the result, the journal on disk, and the provider call it made.\<close>

datatype redeem_event = Spend string string | Settled

definition redeem_attempt ::
    "(string \<Rightarrow> int option) \<Rightarrow> (string \<Rightarrow> string) \<Rightarrow> string \<Rightarrow> nat \<Rightarrow> attempt_io \<Rightarrow> journal
      \<Rightarrow> (redeem_error + consume_response) \<times> journal \<times> redeem_event list" where
  "redeem_attempt parse key_of request n io j =
     (case (case jn_pending j of Some p \<Rightarrow> Inr p | None \<Rightarrow> prepare parse key_of request io) of
        Inl e \<Rightarrow> (Inl e, j, [])
      | Inr p \<Rightarrow>
          let j1 = j\<lparr>jn_pending := Some p\<rparr>; spent = Spend (pd_upstream p) (pd_credit p) in
          (case settled_answer n (io_consume io) of
             Inl e \<Rightarrow> (Inl e, j1, [spent])
           | Inr (response, rejection) \<Rightarrow>
               if \<not> io_persisted io then (Inl LostAnswer, j1, [spent])
               else (if rejection then Inl Rejected else Inr response, settle request p response j1, [spent, Settled])))"

definition attempt_ready :: "attempt_io \<Rightarrow> redeem_error option" where
  "attempt_ready io =
     (if \<not> io_token io then Some TokenFailed else if \<not> io_routing io then Some RoutingUnsupported else None)"

text \<open>The second attempt runs only when the first one's token had expired.\<close>

definition redeem ::
    "(string \<Rightarrow> int option) \<Rightarrow> (string \<Rightarrow> string) \<Rightarrow> string \<Rightarrow> attempt_io \<times> attempt_io \<Rightarrow> journal
      \<Rightarrow> (redeem_error + consume_response) \<times> journal \<times> redeem_event list" where
  "redeem parse key_of request io j =
     (case bt_get (jn_completed j) request of
        Some r \<Rightarrow> (receipt True r, j, [])
      | None \<Rightarrow>
          (case (case jn_pending j of
                   None \<Rightarrow> Inr j
                 | Some p \<Rightarrow> (case pending_join request p of
                       Inl e \<Rightarrow> Inl e | Inr (_, p') \<Rightarrow> Inr (j\<lparr>jn_pending := Some p'\<rparr>))) of
             Inl e \<Rightarrow> (Inl (Refused e), j, [])
           | Inr j0 \<Rightarrow>
               (case attempt_ready (fst io) of
                  Some e \<Rightarrow> (Inl e, j0, [])
                | None \<Rightarrow>
                    (case redeem_attempt parse key_of request 0 (fst io) j0 of
                       (Inl AuthExpired, j1, ev1) \<Rightarrow>
                         (case attempt_ready (snd io) of
                            Some e \<Rightarrow> (Inl e, j1, ev1)
                          | None \<Rightarrow>
                              (case redeem_attempt parse key_of request 1 (snd io) j1 of
                                 (res, j2, ev2) \<Rightarrow> (res, j2, ev1 @ ev2)))
                     | (res, j1, ev1) \<Rightarrow> (res, j1, ev1)))))"

section \<open>The journal's invariant\<close>

text \<open>Every receipt is ordered, at most 256 are kept, and the requests of the pending intent
  have none yet.\<close>

definition intent_requests :: "pending \<Rightarrow> string list" where
  "intent_requests p = pd_request p # pd_joined p"

definition journal_inv :: "journal \<Rightarrow> bool" where
  "journal_inv j =
     (bt_ok (jn_completed j) \<and> distinct (jn_order j) \<and> set (jn_order j) = fst ` set (jn_completed j)
      \<and> length (jn_order j) \<le> receipt_limit
      \<and> (case jn_pending j of
            None \<Rightarrow> True
          | Some p \<Rightarrow> distinct (intent_requests p) \<and> length (intent_requests p) \<le> receipt_limit
              \<and> list_all (\<lambda>r. \<not> bt_has (jn_completed j) r) (intent_requests p)))"

lemma set_set_insert [simp]: "set (set_insert x xs) = insert x (set xs)"
  by (auto simp: set_insert_def set_insort_key)

lemma distinct_set_insert [simp]: "distinct (set_insert x xs) = distinct xs"
  by (simp add: set_insert_def distinct_insort)

lemma set_fold_set_insert: "set (fold set_insert xs ys) = set xs \<union> set ys"
  by (induction xs arbitrary: ys) auto

lemma distinct_fold_set_insert: "distinct ys \<Longrightarrow> distinct (fold set_insert xs ys)"
  by (induction xs arbitrary: ys) auto

lemma length_batch: "length (fold set_insert xs []) = card (set xs)"
  using distinct_card [OF distinct_fold_set_insert [of "[]" xs]] by (simp add: set_fold_set_insert)

lemma fold_add_receipt:
  assumes "bt_ok c" and "distinct batch" and "\<forall>r \<in> set batch. \<not> bt_has c r"
  shows "\<exists>c'. fold (add_receipt response) batch (c, order) = (c', order @ batch) \<and> bt_ok c'
    \<and> bt_get c' = (\<lambda>k. if k \<in> set batch then Some response else bt_get c k)"
  using assms
proof (induction batch arbitrary: c order)
  case (Cons r batch)
  from Cons.IH [of "bt_put r response c" "order @ [r]"] Cons.prems obtain c' where
    "fold (add_receipt response) batch (bt_put r response c, order @ [r]) = (c', (order @ [r]) @ batch)"
    "bt_ok c'" "bt_get c' = (\<lambda>k. if k \<in> set batch then Some response else bt_get (bt_put r response c) k)"
    by auto
  moreover have "add_receipt response r (c, order) = (bt_put r response c, order @ [r])"
    using Cons.prems by (simp add: add_receipt_def)
  ultimately show ?case
    using Cons.prems by (intro exI [of _ c']) (auto simp: fun_eq_iff)
qed simp

lemma bt_del_filter: "filter (\<lambda>(k, _). k \<notin> A) (bt_del a c) = filter (\<lambda>(k, _). k \<notin> insert a A) c"
  by (induction c) (auto simp: bt_del_def)

lemma evict_spec:
  "evict limit order c =
     (filter (\<lambda>(k, _). k \<notin> set (take (length order - limit) order)) c, drop (length order - limit) order)"
proof (induction limit order c rule: evict.induct)
  case (2 limit oldest order c)
  show ?case
  proof (cases "limit < length (oldest # order)")
    case True
    then have n: "length (oldest # order) - limit = Suc (length order - limit)" by simp
    show ?thesis
      using 2 [OF True] True unfolding n by (simp add: bt_del_filter)
  qed simp
qed (simp add: case_prod_beta)

text \<open>A settlement keeps every receipt of its own batch.\<close>

lemma complete_spec:
  assumes ok: "bt_ok (jn_completed j)" "distinct (jn_order j)" "set (jn_order j) = fst ` set (jn_completed j)"
    and new: "\<forall>r \<in> set requests. \<not> bt_has (jn_completed j) r"
    and size: "card (set requests) \<le> receipt_limit"
  defines "batch \<equiv> fold set_insert requests []"
    and "gone \<equiv> length (jn_order j) + card (set requests) - receipt_limit"
  shows "jn_order (complete requests response j) = drop gone (jn_order j) @ batch"
    and "bt_ok (jn_completed (complete requests response j))"
    and "bt_get (jn_completed (complete requests response j)) =
      (\<lambda>k. if k \<in> set requests then Some response
           else if k \<in> set (take gone (jn_order j)) then None else bt_get (jn_completed j) k)"
    and "jn_pending (complete requests response j) = jn_pending j"
proof -
  have b: "set batch = set requests" "distinct batch" "length batch = card (set requests)"
    by (simp_all add: batch_def set_fold_set_insert distinct_fold_set_insert length_batch)
  obtain c where c: "fold (add_receipt response) batch (jn_completed j, jn_order j) = (c, jn_order j @ batch)"
    "bt_ok c" "bt_get c = (\<lambda>k. if k \<in> set batch then Some response else bt_get (jn_completed j) k)"
    using fold_add_receipt [OF ok(1) b(2), of response "jn_order j"] new b(1) by auto
  have limit: "max receipt_limit (length batch) = receipt_limit" using b(3) size by simp
  have keys: "fst ` set c = set (jn_order j @ batch)"
  proof -
    have "bt_has c k \<longleftrightarrow> k \<in> set (jn_order j @ batch)" for k
      using ok(3) by (auto simp: c(3) bt_has_def simp flip: bt_has_iff)
    then show ?thesis by (auto simp: bt_has_iff)
  qed
  have full: "filter (\<lambda>(request, _). request \<in> set (jn_order j @ batch)) c = c"
  proof -
    have "a \<in> set (jn_order j @ batch)" if "(a, b) \<in> set c" for a b
      using that unfolding keys [symmetric] by force
    then show ?thesis by (auto simp: filter_id_conv simp del: set_append)
  qed
  have gone: "length (jn_order j @ batch) - receipt_limit = gone" "gone \<le> length (jn_order j)"
    using b(3) size by (simp_all add: gone_def)
  have all: "complete requests response j = j\<lparr>
      jn_completed := filter (\<lambda>(k, _). k \<notin> set (take gone (jn_order j))) c,
      jn_order := drop gone (jn_order j) @ batch\<rparr>"
    unfolding complete_def Let_def batch_def [symmetric] c(1) prod.case limit full
    by (simp add: evict_spec gone(1) del: length_append)
      (use gone(2) in \<open>simp\<close>)
  show "jn_order (complete requests response j) = drop gone (jn_order j) @ batch"
    and "bt_ok (jn_completed (complete requests response j))"
    and "jn_pending (complete requests response j) = jn_pending j"
    using c(2) by (simp_all add: all)
  have "k \<notin> set requests" if "k \<in> set (take gone (jn_order j))" for k
    using in_set_takeD [OF that] new ok(3) by (auto simp: bt_has_iff)
  then show "bt_get (jn_completed (complete requests response j)) =
      (\<lambda>k. if k \<in> set requests then Some response
           else if k \<in> set (take gone (jn_order j)) then None else bt_get (jn_completed j) k)"
    using c(2) b(1) by (auto simp: all fun_eq_iff bt_get_filter c(3) split: option.splits)
qed

section \<open>Every attempt keeps the journal\<close>

lemma journal_inv_pendingD:
  assumes "journal_inv j" and "jn_pending j = Some p"
  shows "distinct (intent_requests p)" and "length (intent_requests p) \<le> receipt_limit"
    and "\<forall>r \<in> set (intent_requests p). \<not> bt_has (jn_completed j) r"
  using assms by (simp_all add: journal_inv_def list_all_iff)

lemma in_set_drop_distinct:
  assumes "distinct xs" shows "k \<in> set (drop n xs) \<longleftrightarrow> k \<in> set xs \<and> k \<notin> set (take n xs)"
proof -
  have "set (take n xs) \<inter> set (drop n xs) = {}"
    using assms by (rule set_take_disj_set_drop_if_distinct) simp
  moreover have "set xs = set (take n xs) \<union> set (drop n xs)"
    by (simp flip: set_append)
  ultimately show ?thesis by auto
qed

lemma keys_iff: "A = fst ` set c \<longleftrightarrow> (\<forall>k. k \<in> A \<longleftrightarrow> bt_has c k)"
  by (auto simp: bt_has_iff)

lemma settle_keeps:
  assumes j: "journal_inv j" and p: "jn_pending j = Some p" and r: "request \<in> set (intent_requests p)"
  shows "journal_inv (settle request p response j)"
    and "jn_pending (settle request p response j) = None"
    and "\<forall>a \<in> set (intent_requests p). bt_get (jn_completed (settle request p response j)) a = Some response"
proof -
  let ?j = "j\<lparr>jn_pending := None\<rparr>" and ?rs = "pd_joined p @ [pd_request p, request]"
  have rs: "set ?rs = set (intent_requests p)" using r by (auto simp: intent_requests_def)
  have card: "card (set ?rs) \<le> receipt_limit"
    unfolding rs using journal_inv_pendingD(1,2) [OF j p] by (simp add: distinct_card)
  have ok: "bt_ok (jn_completed ?j)" "distinct (jn_order ?j)" "set (jn_order ?j) = fst ` set (jn_completed ?j)"
    using j by (simp_all add: journal_inv_def)
  have new: "\<forall>a \<in> set ?rs. \<not> bt_has (jn_completed ?j) a"
    unfolding rs using journal_inv_pendingD(3) [OF j p] by simp
  let ?gone = "length (jn_order j) + card (set ?rs) - receipt_limit"
  let ?s = "settle request p response j"
  have order: "jn_order ?s = drop ?gone (jn_order j) @ fold set_insert ?rs []"
    and okc: "bt_ok (jn_completed ?s)"
    and get: "bt_get (jn_completed ?s) = (\<lambda>k. if k \<in> set ?rs then Some response
           else if k \<in> set (take ?gone (jn_order j)) then None else bt_get (jn_completed j) k)"
    and pend: "jn_pending ?s = None"
  proof -
    have same: "jn_order ?j = jn_order j" "jn_completed ?j = jn_completed j" "jn_pending ?j = None" by simp_all
    note spec = complete_spec [OF ok new card, unfolded same, of response, folded settle_def]
    show "jn_order ?s = drop ?gone (jn_order j) @ fold set_insert ?rs []" by (rule spec(1))
    show "bt_ok (jn_completed ?s)" by (rule spec(2))
    show "bt_get (jn_completed ?s) = (\<lambda>k. if k \<in> set ?rs then Some response
           else if k \<in> set (take ?gone (jn_order j)) then None else bt_get (jn_completed j) k)" by (rule spec(3))
    show "jn_pending ?s = None" by (rule spec(4))
  qed
  show "jn_pending ?s = None" by (rule pend)
  show "\<forall>a \<in> set (intent_requests p). bt_get (jn_completed ?s) a = Some response"
    unfolding get rs by simp
  have b: "set (fold set_insert ?rs []) = set ?rs" "distinct (fold set_insert ?rs [])"
    "length (fold set_insert ?rs []) = card (set ?rs)"
    by (simp_all only: set_fold_set_insert distinct_fold_set_insert length_batch distinct.simps set_simps Un_empty_right)
  have disj: "set (jn_order j) \<inter> set ?rs = {}"
    using new ok(3) by (auto simp: bt_has_iff)
  have "set (drop ?gone (jn_order j)) \<inter> set ?rs = {}"
    using disj set_drop_subset [of ?gone "jn_order j"] by blast
  then have "distinct (jn_order ?s)"
    unfolding order distinct_append b(1) using ok(2) b(2) by simp
  moreover have "set (jn_order ?s) = fst ` set (jn_completed ?s)"
    unfolding keys_iff
  proof
    fix k
    have dist: "distinct (jn_order j)" using ok(2) by simp
    have "k \<in> set (jn_order j) \<longleftrightarrow> bt_get (jn_completed j) k \<noteq> None"
      using ok(3) unfolding keys_iff by (simp add: bt_has_def)
    then show "k \<in> set (jn_order ?s) \<longleftrightarrow> bt_has (jn_completed ?s) k"
      unfolding order set_append b(1) Un_iff in_set_drop_distinct [OF dist] bt_has_def get by auto
  qed
  moreover have "length (jn_order ?s) \<le> receipt_limit"
    unfolding order length_append b(3) length_drop using card by linarith
  ultimately show "journal_inv ?s"
    using okc pend by (simp add: journal_inv_def)
qed

definition admitted_request :: "string \<Rightarrow> journal \<Rightarrow> bool" where
  "admitted_request request j =
     (\<not> bt_has (jn_completed j) request
      \<and> (case jn_pending j of None \<Rightarrow> True | Some p \<Rightarrow> request \<in> set (intent_requests p)))"

lemma journal_inv_intent:
  "journal_inv j \<Longrightarrow> distinct (intent_requests p) \<Longrightarrow> length (intent_requests p) \<le> receipt_limit \<Longrightarrow>
   \<forall>r \<in> set (intent_requests p). \<not> bt_has (jn_completed j) r \<Longrightarrow> journal_inv (j\<lparr>jn_pending := Some p\<rparr>)"
  by (simp add: journal_inv_def list_all_iff)

lemma prepare_fields:
  "prepare parse key_of request io = Inr p \<Longrightarrow> intent_requests p = [request] \<and> pd_upstream p = key_of request"
  by (auto simp: prepare_def intent_requests_def split: sum.splits if_splits option.splits)

text \<open>What an attempt leaves: the intent it worked on, settled or not.\<close>

lemma redeem_attempt_cases:
  assumes "journal_inv j" and "admitted_request request j"
    and "redeem_attempt parse key_of request n io j = (res, j', ev)"
  obtains (untouched) e where "j' = j" "ev = []" "res = Inl e"
  | (intent) p e where "jn_pending j' = Some p" "case jn_pending j of None \<Rightarrow> intent_requests p = [request] | Some q \<Rightarrow> q = p"
      "ev = [Spend (pd_upstream p) (pd_credit p)]" "journal_inv j'" "admitted_request request j'" "res = Inl e"
  | (settled) p response where "jn_pending j' = None" "case jn_pending j of None \<Rightarrow> intent_requests p = [request] | Some q \<Rightarrow> q = p"
      "ev = [Spend (pd_upstream p) (pd_credit p), Settled]" "journal_inv j'"
      "res = receipt False response"
      "\<forall>a \<in> insert request (set (intent_requests p)). bt_get (jn_completed j') a = Some response"
proof (cases "case jn_pending j of Some p \<Rightarrow> Inr p | None \<Rightarrow> prepare parse key_of request io")
  case (Inl e)
  with assms(3) show ?thesis by (intro untouched [of e]) (simp_all add: redeem_attempt_def)
next
  case (Inr p)
  let ?j = "j\<lparr>jn_pending := Some p\<rparr>"
  have mem: "request \<in> set (intent_requests p)"
    and inv: "journal_inv ?j"
    and was: "case jn_pending j of None \<Rightarrow> intent_requests p = [request] | Some q \<Rightarrow> q = p"
  proof -
    show "request \<in> set (intent_requests p)"
      using Inr assms(2) by (auto simp: admitted_request_def dest: prepare_fields split: option.splits)
    show "case jn_pending j of None \<Rightarrow> intent_requests p = [request] | Some q \<Rightarrow> q = p"
      using Inr by (auto dest: prepare_fields split: option.splits)
    show "journal_inv ?j"
    proof (cases "jn_pending j")
      case None
      with Inr have "intent_requests p = [request]" by (auto dest: prepare_fields)
      with assms(1,2) show ?thesis
        by (intro journal_inv_intent) (simp_all add: admitted_request_def receipt_limit_def)
    next
      case (Some q)
      with Inr have "?j = j" by (cases j) simp
      with assms(1) show ?thesis by simp
    qed
  qed
  have adm: "admitted_request request ?j"
    using assms(2) mem by (simp add: admitted_request_def)
  show ?thesis
  proof (cases "settled_answer n (io_consume io)")
    case (Inl e)
    have "(res, j', ev) = (Inl e, ?j, [Spend (pd_upstream p) (pd_credit p)])"
      using assms(3) Inr Inl by (simp add: redeem_attempt_def Let_def)
    then show ?thesis using was inv adm by (intro intent [of p e]) (auto split: option.splits)
  next
    case (Inr sr)
    obtain response rejection where sr: "sr = (response, rejection)" by (cases sr)
    have rej: "rejection = (cs_code response = UnknownCode)"
      using Inr unfolding sr by (cases "io_consume io") (auto simp: unknown_response_def split: if_splits)
    show ?thesis
    proof (cases "io_persisted io")
      case False
      then have "(res, j', ev) = (Inl LostAnswer, ?j, [Spend (pd_upstream p) (pd_credit p)])"
        using assms(3) \<open>(case jn_pending j of Some p \<Rightarrow> Inr p | None \<Rightarrow> prepare parse key_of request io) = Inr p\<close> Inr
        by (simp add: redeem_attempt_def Let_def sr)
      then show ?thesis using was inv adm by (intro intent [of p LostAnswer]) (auto split: option.splits)
    next
      case True
      then have eq: "(res, j', ev) = (receipt False response, settle request p response ?j,
          [Spend (pd_upstream p) (pd_credit p), Settled])"
        using assms(3) \<open>(case jn_pending j of Some p \<Rightarrow> Inr p | None \<Rightarrow> prepare parse key_of request io) = Inr p\<close> Inr
        by (auto simp: redeem_attempt_def Let_def sr rej receipt_def)
      have "jn_pending ?j = Some p" by simp
      note kept = settle_keeps [OF inv this mem, of response]
      show ?thesis
        using eq kept was mem by (intro settled [of p response]) auto
    qed
  qed
qed

section \<open>Runs of redemptions\<close>

text \<open>\<open>spends k events\<close>: the provider calls of a run keep to one key and one credit until a
  settlement; \<open>k\<close> is the key still open.\<close>

fun spends :: "(string \<times> string) option \<Rightarrow> redeem_event list \<Rightarrow> bool" where
  "spends k [] = True"
| "spends None (Spend u c # events) = spends (Some (u, c)) events"
| "spends (Some k) (Spend u c # events) = (k = (u, c) \<and> spends (Some k) events)"
| "spends (Some k) (Settled # events) = spends None events"
| "spends None (Settled # events) = False"

fun open_key :: "(string \<times> string) option \<Rightarrow> redeem_event list \<Rightarrow> (string \<times> string) option" where
  "open_key k [] = k"
| "open_key k (Spend u c # events) = open_key (Some (u, c)) events"
| "open_key k (Settled # events) = open_key None events"

lemma spends_append: "spends k (xs @ ys) \<longleftrightarrow> spends k xs \<and> spends (open_key k xs) ys"
  by (induction k xs rule: spends.induct) auto

lemma open_key_append: "open_key k (xs @ ys) = open_key (open_key k xs) ys"
  by (induction k xs rule: open_key.induct) auto

definition key_open :: "(string \<times> string) option \<Rightarrow> journal \<Rightarrow> bool" where
  "key_open k j =
     (case k of None \<Rightarrow> True
      | Some k \<Rightarrow> (case jn_pending j of None \<Rightarrow> False | Some p \<Rightarrow> k = (pd_upstream p, pd_credit p)))"

fun redeem_run ::
    "(string \<Rightarrow> int option) \<Rightarrow> (string \<Rightarrow> string) \<Rightarrow> (string \<times> attempt_io \<times> attempt_io) list \<Rightarrow> journal
      \<Rightarrow> journal \<times> redeem_event list" where
  "redeem_run parse key_of [] j = (j, [])"
| "redeem_run parse key_of ((request, io) # calls) j =
     (case redeem parse key_of request io j of
        (_, j1, ev) \<Rightarrow> (case redeem_run parse key_of calls j1 of (j2, evs) \<Rightarrow> (j2, ev @ evs)))"

lemma attempt_spends:
  assumes "journal_inv j" and "admitted_request request j" and "key_open k j"
    and "redeem_attempt parse key_of request n io j = (res, j', ev)"
  shows "journal_inv j' \<and> spends k ev \<and> key_open (open_key k ev) j'
    \<and> (\<forall>e. res = Inl AuthExpired \<longrightarrow> admitted_request request j')"
  using assms(1,2,4)
proof (cases rule: redeem_attempt_cases)
  case (untouched e)
  with assms show ?thesis by simp
next
  case (intent p e)
  with assms show ?thesis by (cases k) (auto simp: key_open_def split: option.splits)
next
  case (settled p response)
  with assms show ?thesis by (cases k) (auto simp: key_open_def receipt_def split: option.splits if_splits)
qed

lemma redeem_joined:
  assumes "journal_inv j" and "\<not> bt_has (jn_completed j) request"
  shows "case (case jn_pending j of
             None \<Rightarrow> Inr j
           | Some p \<Rightarrow> (case pending_join request p of Inl e \<Rightarrow> Inl e | Inr (_, p') \<Rightarrow> Inr (j\<lparr>jn_pending := Some p'\<rparr>))) of
           Inl e \<Rightarrow> True
         | Inr j0 \<Rightarrow> journal_inv j0 \<and> admitted_request request j0 \<and> jn_completed j0 = jn_completed j
             \<and> (\<forall>k. key_open k j \<longrightarrow> key_open k j0)
             \<and> (case jn_pending j of None \<Rightarrow> jn_pending j0 = None
                | Some p \<Rightarrow> (case jn_pending j0 of None \<Rightarrow> False
                    | Some p' \<Rightarrow> set (intent_requests p') = insert request (set (intent_requests p))))"
proof (cases "jn_pending j")
  case None
  with assms show ?thesis by (simp add: admitted_request_def)
next
  case (Some p)
  show ?thesis
  proof (cases "pending_join request p")
    case (Inr r)
    obtain b p' where r: "r = (b, p')" by (cases r)
    have p': "set (intent_requests p') = insert request (set (intent_requests p))"
      "distinct (intent_requests p')" "length (intent_requests p') \<le> receipt_limit"
      "pd_upstream p' = pd_upstream p" "pd_credit p' = pd_credit p"
      using Inr journal_inv_pendingD(1,2) [OF assms(1) Some] unfolding r
      by (auto simp: pending_join_def intent_requests_def set_insert_def receipt_limit_def distinct_insort
          set_insort_key split: if_splits)
    have "journal_inv (j\<lparr>jn_pending := Some p'\<rparr>)"
      using assms journal_inv_pendingD(3) [OF assms(1) Some] p'
      by (intro journal_inv_intent) simp_all
    then show ?thesis
      using Some Inr assms(2) p' unfolding r
      by (auto simp: admitted_request_def key_open_def split: option.splits)
  qed (simp add: Some)
qed

definition participants :: "string \<Rightarrow> journal \<Rightarrow> string set" where
  "participants request j =
     insert request (case jn_pending j of None \<Rightarrow> {} | Some p \<Rightarrow> set (intent_requests p))"

text \<open>\<open>settles A j' res ev\<close>: a settlement answered every request in \<open>A\<close>.\<close>

definition settles ::
    "string set \<Rightarrow> journal \<Rightarrow> redeem_error + consume_response \<Rightarrow> redeem_event list \<Rightarrow> bool" where
  "settles A j' res ev =
     (Settled \<in> set ev \<longrightarrow> jn_pending j' = None
        \<and> (\<exists>response. res = receipt False response \<and> (\<forall>a \<in> A. bt_get (jn_completed j') a = Some response)))"

lemma attempt_settles:
  assumes "journal_inv j" and "admitted_request request j"
    and "redeem_attempt parse key_of request n io j = (res, j', ev)"
  shows "settles (participants request j) j' res ev"
    and "res = Inl AuthExpired \<longrightarrow> Settled \<notin> set ev \<and> participants request j' = participants request j"
    and "Settled \<notin> set ev \<longrightarrow> (\<exists>e. res = Inl e)"
  using assms
  by (cases rule: redeem_attempt_cases;
      force simp: settles_def participants_def receipt_def split: option.splits if_splits)+

text \<open>One request: it keeps the invariant and the key discipline, and a settlement answers
  every request of the intent.\<close>

lemma redeem_step:
  assumes j: "journal_inv j" and k: "key_open k j"
    and r: "redeem parse key_of request io j = (res, j', ev)"
  shows "journal_inv j' \<and> spends k ev \<and> key_open (open_key k ev) j'
    \<and> settles (participants request j) j' res ev
    \<and> (\<forall>x. res = Inr x \<and> Settled \<notin> set ev \<longrightarrow>
          (case bt_get (jn_completed j) request of None \<Rightarrow> False | Some r \<Rightarrow> res = receipt True r \<and> j' = j))"
proof (cases "bt_get (jn_completed j) request")
  case (Some x)
  with r j k show ?thesis by (simp add: redeem_def settles_def)
next
  case None
  then have new: "\<not> bt_has (jn_completed j) request" by (simp add: bt_has_def)
  let ?joined = "case jn_pending j of
             None \<Rightarrow> Inr j
           | Some p \<Rightarrow> (case pending_join request p of Inl e \<Rightarrow> Inl e | Inr (_, p') \<Rightarrow> Inr (j\<lparr>jn_pending := Some p'\<rparr>))"
  show ?thesis
  proof (cases ?joined)
    case (Inl e)
    have "redeem parse key_of request io j = (Inl (Refused e), j, [])"
      unfolding redeem_def None option.case Inl sum.case ..
    with r j k show ?thesis by (auto simp: settles_def)
  next
    case (Inr j0)
    note joined = redeem_joined [OF j new, unfolded Inr sum.case]
    have inv0: "journal_inv j0" and adm0: "admitted_request request j0" and k0: "key_open k j0"
      using joined k by simp_all
    have ids: "participants request j0 = participants request j"
      using joined by (auto simp: participants_def split: option.splits)
    have red: "redeem parse key_of request io j =
       (case attempt_ready (fst io) of
          Some e \<Rightarrow> (Inl e, j0, [])
        | None \<Rightarrow>
            (case redeem_attempt parse key_of request 0 (fst io) j0 of
               (Inl AuthExpired, j1, ev1) \<Rightarrow>
                 (case attempt_ready (snd io) of
                    Some e \<Rightarrow> (Inl e, j1, ev1)
                  | None \<Rightarrow>
                      (case redeem_attempt parse key_of request 1 (snd io) j1 of
                         (res, j2, ev2) \<Rightarrow> (res, j2, ev1 @ ev2)))
             | (res, j1, ev1) \<Rightarrow> (res, j1, ev1)))"
      unfolding redeem_def None option.case Inr sum.case ..
    show ?thesis
    proof (cases "attempt_ready (fst io)")
      case (Some e)
      with red r inv0 k0 show ?thesis by (auto simp: settles_def)
    next
      case ready: None
      obtain res1 j1 ev1 where one: "redeem_attempt parse key_of request 0 (fst io) j0 = (res1, j1, ev1)"
        by (cases "redeem_attempt parse key_of request 0 (fst io) j0") auto
      note a1 = attempt_spends [OF inv0 adm0 k0 one]
      note s1 = attempt_settles [OF inv0 adm0 one]
      show ?thesis
      proof (cases "res1 = Inl AuthExpired")
        case False
        then have "(res, j', ev) = (res1, j1, ev1)"
          using red r ready one by (auto split: sum.splits redeem_error.splits)
        with a1 s1(1,3) ids None show ?thesis by auto
      next
        case True
        with s1(2) a1 have quiet: "Settled \<notin> set ev1" and same: "participants request j1 = participants request j0"
          and adm1: "admitted_request request j1" by simp_all
        show ?thesis
        proof (cases "attempt_ready (snd io)")
          case (Some e)
          with red r ready one True have "(res, j', ev) = (Inl e, j1, ev1)" by simp
          with a1 quiet show ?thesis by (auto simp: settles_def)
        next
          case again: None
          obtain res2 j2 ev2 where two: "redeem_attempt parse key_of request 1 (snd io) j1 = (res2, j2, ev2)"
            by (cases "redeem_attempt parse key_of request 1 (snd io) j1") auto
          have eq: "(res, j', ev) = (res2, j2, ev1 @ ev2)"
            using red r ready one True again two by simp
          have "journal_inv j2 \<and> spends (open_key k ev1) ev2 \<and> key_open (open_key (open_key k ev1) ev2) j2"
            using attempt_spends [OF _ adm1 _ two] a1 by blast
          moreover have "settles (participants request j1) j2 res2 ev2" "Settled \<notin> set ev2 \<longrightarrow> (\<exists>e. res2 = Inl e)"
            using attempt_settles(1,3) [OF _ adm1 two] a1 by blast+
          ultimately show ?thesis
            using eq a1 quiet same ids by (auto simp: settles_def spends_append open_key_append)
        qed
      qed
    qed
  qed
qed

lemma redeem_run_ok:
  assumes "journal_inv j" and "key_open k j"
  shows "case redeem_run parse key_of calls j of
     (j', events) \<Rightarrow> journal_inv j' \<and> spends k events \<and> key_open (open_key k events) j'"
  using assms
proof (induction calls arbitrary: j k)
  case (Cons call calls)
  obtain request io where call: "call = (request, io)" by (cases call)
  obtain res j1 ev where one: "redeem parse key_of request io j = (res, j1, ev)"
    by (cases "redeem parse key_of request io j") auto
  note step = redeem_step [OF Cons.prems one]
  obtain j2 evs where "redeem_run parse key_of calls j1 = (j2, evs)"
    by (cases "redeem_run parse key_of calls j1") auto
  with Cons.IH [of j1 "open_key k ev"] step one show ?case
    by (simp add: call spends_append open_key_append)
qed simp

lemma journal_inv_empty [simp]: "journal_inv empty_journal"
  by (simp add: journal_inv_def empty_journal_def)

lemma redeem_replay:
  "bt_get (jn_completed j) request = Some r \<Longrightarrow>
   redeem parse key_of request io j = (receipt True r, j, [])"
  by (simp add: redeem_def)

section \<open>Properties\<close>

text \<open>C12: a banked reset is spent once. Whatever requests arrive, time out, expire or crash
  between the writes, the provider is asked again only with the key and the credit of the
  intent on disk until that intent is settled; and the journal keeps an order of its
  receipts, at most 256 of them, and at most 256 requests on one intent.\<close>

theorem one_credit_per_intent:
  "case redeem_run parse key_of calls empty_journal of
     (j, events) \<Rightarrow>
       spends None events
       \<and> (case open_key None events of
            None \<Rightarrow> True
          | Some k \<Rightarrow> map_option (\<lambda>p. (pd_upstream p, pd_credit p)) (jn_pending j) = Some k)
       \<and> length (jn_completed j) \<le> 256 \<and> distinct (jn_order j)
       \<and> set (jn_order j) = set (map fst (jn_completed j))
       \<and> (case jn_pending j of None \<Rightarrow> True | Some p \<Rightarrow> Suc (length (pd_joined p)) \<le> 256)"
proof -
  obtain j events where run: "redeem_run parse key_of calls empty_journal = (j, events)"
    by (cases "redeem_run parse key_of calls empty_journal") auto
  have "journal_inv j" "spends None events" "key_open (open_key None events) j"
    using redeem_run_ok [OF journal_inv_empty, of None parse key_of calls] run
    by (simp_all add: key_open_def)
  moreover have "length (jn_completed j) = length (jn_order j)"
  proof -
    have "length (jn_completed j) = card (fst ` set (jn_completed j))"
      using \<open>journal_inv j\<close> distinct_card [of "map fst (jn_completed j)"]
      by (simp add: journal_inv_def bt_ok_distinct)
    also have "\<dots> = length (jn_order j)"
      using \<open>journal_inv j\<close> distinct_card [of "jn_order j"] by (simp add: journal_inv_def)
    finally show ?thesis .
  qed
  ultimately show ?thesis
    by (auto simp: run journal_inv_def key_open_def receipt_limit_def intent_requests_def split: option.splits)
qed

text \<open>a settlement answers everyone. The call that settles an intent leaves a receipt with
  the same answer for its own request and every request of the intent, and each of them is
  answered from it from then on, a spent reset as already redeemed, without asking the
  provider; a settled intent is gone. A call that settles nothing succeeds only by replaying
  its receipt.\<close>

theorem settlement_answers_all:
  "let (j, events) = redeem_run parse key_of calls empty_journal;
       (res, j', ev) = redeem parse key_of request io j
   in if Settled \<in> set ev
      then jn_pending j' = None
        \<and> (\<exists>response. res = receipt False response
             \<and> list_all (\<lambda>a. redeem parse key_of a io' j' = (receipt True response, j', []))
                 (request # (case jn_pending j of None \<Rightarrow> [] | Some p \<Rightarrow> intent_requests p)))
      else (case res of
              Inl _ \<Rightarrow> True
            | Inr _ \<Rightarrow> (case bt_get (jn_completed j) request of
                None \<Rightarrow> False | Some r \<Rightarrow> res = receipt True r \<and> j' = j))"
proof -
  obtain j events where run: "redeem_run parse key_of calls empty_journal = (j, events)"
    by (cases "redeem_run parse key_of calls empty_journal") auto
  obtain res j' ev where one: "redeem parse key_of request io j = (res, j', ev)"
    by (cases "redeem parse key_of request io j") auto
  have "journal_inv j" "key_open (open_key None events) j"
    using redeem_run_ok [OF journal_inv_empty, of None parse key_of calls] run
    by (simp_all add: key_open_def)
  note step = redeem_step [OF this one]
  show ?thesis
  proof (cases "Settled \<in> set ev")
    case True
    with step obtain response where "jn_pending j' = None" "res = receipt False response"
      "\<forall>a \<in> participants request j. bt_get (jn_completed j') a = Some response"
      by (auto simp: settles_def)
    moreover from this have "list_all (\<lambda>a. redeem parse key_of a io' j' = (receipt True response, j', []))
        (request # (case jn_pending j of None \<Rightarrow> [] | Some p \<Rightarrow> intent_requests p))"
    proof -
      have "set (request # (case jn_pending j of None \<Rightarrow> [] | Some p \<Rightarrow> intent_requests p)) = participants request j"
        by (simp add: participants_def split: option.split)
      with \<open>\<forall>a \<in> participants request j. _\<close> show ?thesis
        by (simp only: list_all_iff) (simp add: redeem_replay)
    qed
    ultimately show ?thesis using True by (auto simp: run one)
  next
    case False
    with step show ?thesis by (auto simp: run one split: sum.split)
  qed
qed

end
