(* ===== verification/LoginState.thy ===== *)
theory LoginState
  imports Leases ResetJournal LoanBackends
begin

text \<open>
  The tables of the shared login journal (\<open>LOGIN_SCHEMA\<close> of
  \<open>src/central/storage/login.rs\<close>), beside the accounts and refresh leases of \<open>Leases\<close>,
  with the SQL functions over them: identity agreement, the fence a journal row puts on
  an account, live authority, and the audit insert. A column that SQL leaves NULL is
  \<open>None\<close>, and every comparison with it is written out as false. One statement reads the
  clock once. Payloads and vaults are kept in the clear: the cipher is outside this model.
\<close>

section \<open>Rows\<close>

datatype login_kind = Renewal | Add

fun login_kind_str :: "login_kind \<Rightarrow> string" where
  "login_kind_str Renewal = ''renewal''"
| "login_kind_str Add = ''add''"

datatype login_phase =
  Starting | Pending | Candidate | Verifying | PCompleted | Failed | Canceled | Unresolved | Rejected | ReplicaLost

fun login_phase_str :: "login_phase \<Rightarrow> string" where
  "login_phase_str Starting = ''starting''"
| "login_phase_str Pending = ''pending''"
| "login_phase_str Candidate = ''candidate''"
| "login_phase_str Verifying = ''verifying''"
| "login_phase_str PCompleted = ''completed''"
| "login_phase_str Failed = ''failed''"
| "login_phase_str Canceled = ''canceled''"
| "login_phase_str Unresolved = ''unresolved''"
| "login_phase_str Rejected = ''rejected''"
| "login_phase_str ReplicaLost = ''replica_lost''"

record login_payload =
  lp_actor :: "string option"
  lp_code :: "string option"
  lp_label :: "string option"
  lp_landed :: "string option"
  lp_candidate :: "string option"
  lp_error :: "string option"

definition empty_payload :: login_payload where
  "empty_payload = \<lparr>lp_actor = None, lp_code = None, lp_label = None, lp_landed = None,
     lp_candidate = None, lp_error = None\<rparr>"

datatype authority = Machine string | Browser string

fun authority_parts :: "authority \<Rightarrow> string \<times> string option" where
  "authority_parts (Machine i) = (i, None)"
| "authority_parts (Browser digest) = ([], Some digest)"

text \<open>A row of \<open>central_login_operations\<close>.\<close>

record login_row =
  lr_user :: string
  lr_id :: string
  lr_account :: "string option"
  lr_alias :: string
  lr_device :: string
  lr_browser :: "string option"
  lr_kind :: login_kind
  lr_phase :: login_phase
  lr_sequence :: int
  lr_holder :: string
  lr_epoch :: int
  lr_expires_at :: nat
  lr_deadline :: nat
  lr_cancel :: bool
  lr_payload :: login_payload
  lr_reserved :: bool
  lr_evidence :: "(string \<times> string \<times> int) list"
  lr_completed_revision :: "int option"
  lr_landed_alias :: "string option"
  lr_workspace :: "string option"
  lr_login :: "string option"
  lr_uid :: "string option"
  lr_sub :: "string option"
  lr_polling_clear :: bool
  lr_failure_reported :: bool

text \<open>The worker's copy of a row.\<close>

record login_operation =
  lo_kind :: login_kind
  lo_user :: string
  lo_id :: string
  lo_account :: "string option"
  lo_alias :: string
  lo_authority :: authority
  lo_phase :: login_phase
  lo_sequence :: int
  lo_holder :: string
  lo_epoch :: int
  lo_payload :: login_payload
  lo_polling_clear :: bool
  lo_lease_expired :: bool
  lo_failure_reported :: bool

record holder_row =
  hr_expires_at :: nat
  hr_bound :: bool
  hr_deleted :: bool

record device_row =
  dv_user :: string
  dv_tenant :: string
  dv_revoked :: bool
  dv_deleted :: bool

record session_row =
  sn_user :: string
  sn_signed_in :: nat
  sn_expires_at :: nat
  sn_verified :: bool

text \<open>Who may act: devices, users (enabled, deleted) and browser sessions.\<close>

record auth_tables =
  at_devices :: "(string, device_row) btree"
  at_users :: "(string, bool \<times> bool) btree"
  at_sessions :: "(string, session_row) btree"

text \<open>\<open>account_reset_journals\<close> and \<open>central_token_evidence\<close>.\<close>

record reset_row =
  rr_revision :: int
  rr_journal :: journal
  rr_deleted :: bool

record evidence_row =
  er_account_revision :: int
  er_auth_revision :: string
  er_routing :: bool
  er_observed_at :: nat
  er_deleted :: bool

type_synonym claim_key = "string \<times> string \<times> string"

record login_db =
  ld_ops :: "(string \<times> string, login_row) btree"
  ld_holders :: "(string, holder_row) btree"
  ld_custody :: pg_custody
  ld_claims :: "(claim_key, string \<times> bool) btree"
  ld_legacy_claims :: "(claim_key, string \<times> bool) btree"
  ld_reservations :: "(claim_key, (string \<times> string) \<times> bool) btree"
  ld_history :: "(claim_key \<times> string \<times> string, bool) btree"
  ld_audit :: "(string, string \<times> string \<times> string \<times> string) btree"
  ld_auth :: auth_tables
  ld_tombstones :: "(string \<times> string, string \<times> bool) btree"
  ld_resets :: "(string, reset_row) btree"
  ld_reset_custody :: "string list"
  ld_reset_audit :: "(string, string \<times> string \<times> string \<times> string) btree"
  ld_evidence :: "(string, evidence_row) btree"
  ld_live :: "(string \<times> string, nat \<times> bool) btree"

datatype login_error =
  HolderRegistered | AuthorityEnded | ResetInProgress | LoginAccountRemoved | AccountMissing | AuditActorMissing
| LoginFenced | LeaseLost | TerminalImmutable | RevisionMismatch | NoAccountReserved | CandidateInvalid
| UniqueViolation | ClaimConflict | ClaimOwned | ClaimReserved | ClaimUnknown | ClearanceNeedsAbsence
| CandidateMissing | IdentityMismatch | AmbiguousIdentity | StorageFailed

section \<open>Predicates of the schema\<close>

definition lower_eq :: "string \<Rightarrow> string \<Rightarrow> bool" where
  "lower_eq a b = (ascii_lower a = ascii_lower b)"

text \<open>The rows the two partial unique indexes cover.\<close>

definition open_phase :: "login_phase \<Rightarrow> bool" where
  "open_phase p = (p \<notin> {PCompleted, Failed, Canceled, Rejected, ReplicaLost})"

definition index_clash :: "login_row \<Rightarrow> login_row \<Rightarrow> bool" where
  "index_clash r s =
     (open_phase (lr_phase r) \<and> open_phase (lr_phase s)
      \<and> (lr_account r \<noteq> None \<and> lr_account r = lr_account s
         \<or> lr_user r = lr_user s \<and> lower_eq (lr_alias r) (lr_alias s)))"

definition row_key :: "login_row \<Rightarrow> string \<times> string" where
  "row_key r = (lr_user r, lr_id r)"

definition clashes :: "login_row \<Rightarrow> login_db \<Rightarrow> bool" where
  "clashes r db = list_ex (\<lambda>(k, s). k \<noteq> row_key r \<and> index_clash r s) (ld_ops db)"

text \<open>\<open>UPDATE .. WHERE user_id=$1 AND id=$2 AND ..\<close>: the new row when one changed, an error
  when the change would break a unique index.\<close>

definition update_row ::
    "string \<times> string \<Rightarrow> (login_row \<Rightarrow> bool) \<Rightarrow> (login_row \<Rightarrow> login_row) \<Rightarrow> login_db
      \<Rightarrow> login_error + (login_row \<times> login_db) option" where
  "update_row k cond f db =
     (case bt_get (ld_ops db) k of
        None \<Rightarrow> Inr None
      | Some r \<Rightarrow>
          if \<not> cond r then Inr None
          else if clashes (f r) db then Inl UniqueViolation
          else Inr (Some (f r, db\<lparr>ld_ops := bt_put k (f r) (ld_ops db)\<rparr>)))"

definition holder_live :: "nat \<Rightarrow> login_db \<Rightarrow> string \<Rightarrow> bool" where
  "holder_live now db h =
     (case bt_get (ld_holders db) h of None \<Rightarrow> False | Some r \<Rightarrow> \<not> hr_deleted r \<and> now < hr_expires_at r)"

definition same_incarnation :: "login_operation \<Rightarrow> login_row \<Rightarrow> bool" where
  "same_incarnation op r = (lr_holder r = lo_holder op \<and> lr_epoch r = lo_epoch op)"

definition same_version :: "login_operation \<Rightarrow> login_row \<Rightarrow> bool" where
  "same_version op r = (same_incarnation op r \<and> lr_sequence r = lo_sequence op)"

definition op_key :: "login_operation \<Rightarrow> string \<times> string" where
  "op_key op = (lo_user op, lo_id op)"

text \<open>\<open>login_row\<close>: the copy a statement returns.\<close>

definition read_row :: "nat \<Rightarrow> login_row \<Rightarrow> login_operation" where
  "read_row now r =
     \<lparr>lo_kind = lr_kind r, lo_user = lr_user r, lo_id = lr_id r, lo_account = lr_account r,
      lo_alias = lr_alias r,
      lo_authority = (case lr_browser r of Some digest \<Rightarrow> Browser digest | None \<Rightarrow> Machine (lr_device r)),
      lo_phase = lr_phase r, lo_sequence = lr_sequence r, lo_holder = lr_holder r, lo_epoch = lr_epoch r,
      lo_payload = (lr_payload r)\<lparr>lp_landed := lr_landed_alias r\<rparr>, lo_polling_clear = lr_polling_clear r,
      lo_lease_expired = (lr_expires_at r \<le> now), lo_failure_reported = lr_failure_reported r\<rparr>"

section \<open>Authority and audit\<close>

definition user_live :: "login_db \<Rightarrow> string \<Rightarrow> bool" where
  "user_live db user =
     (case bt_get (at_users (ld_auth db)) user of
        None \<Rightarrow> False | Some (enabled, deleted) \<Rightarrow> enabled \<and> \<not> deleted)"

fun authority_live :: "nat \<Rightarrow> login_db \<Rightarrow> string \<Rightarrow> authority \<Rightarrow> bool" where
  "authority_live now db user (Machine i) =
     ((case bt_get (at_devices (ld_auth db)) i of
         None \<Rightarrow> False
       | Some d \<Rightarrow> dv_user d = user \<and> dv_tenant d = ''sawmills'' \<and> \<not> dv_revoked d \<and> \<not> dv_deleted d)
      \<and> user_live db user)"
| "authority_live now db user (Browser digest) =
     ((case bt_get (at_sessions (ld_auth db)) digest of
         None \<Rightarrow> False | Some s \<Rightarrow> sn_user s = user \<and> now < sn_expires_at s)
      \<and> user_live db user)"

fun terminal_result :: "login_phase \<Rightarrow> string option" where
  "terminal_result PCompleted = Some ''ok:completed''"
| "terminal_result Canceled = Some ''ok:canceled''"
| "terminal_result Failed = Some ''failed:login_failed''"
| "terminal_result Rejected = Some ''failed:rejected''"
| "terminal_result Unresolved = Some ''failed:unresolved''"
| "terminal_result ReplicaLost = Some ''failed:expired''"
| "terminal_result _ = None"

definition audit_key :: "login_operation \<Rightarrow> string \<Rightarrow> string" where
  "audit_key op stage = ''login:'' @ lo_user op @ '':'' @ lo_id op @ '':'' @ stage"

definition audit_login ::
    "login_operation \<Rightarrow> string \<Rightarrow> string \<Rightarrow> login_db \<Rightarrow> login_error + bool \<times> login_db" where
  "audit_login op stage result db =
     (case lo_authority op of
        Machine _ \<Rightarrow> Inr (False, db)
      | Browser _ \<Rightarrow>
          (case lp_actor (lo_payload op) of
             None \<Rightarrow> Inl AuditActorMissing
           | Some actor \<Rightarrow>
               if bt_has (ld_audit db) (audit_key op stage) then Inr (False, db)
               else Inr (True, db\<lparr>ld_audit := bt_put (audit_key op stage)
                      (actor, (case lo_kind op of Add \<Rightarrow> ''account_add'' | Renewal \<Rightarrow> ''account_renew''),
                       lo_alias op, result) (ld_audit db)\<rparr>)))"

text \<open>\<open>reset_mutation_guard!\<close>: the account's reset custody is free. The custody is a
  session-level advisory lock, held here as the list of its accounts.\<close>

definition reset_free :: "login_db \<Rightarrow> string \<Rightarrow> bool" where
  "reset_free db account = (account \<notin> set (ld_reset_custody db))"

section \<open>Identity\<close>

definition account_row :: "login_db \<Rightarrow> string \<Rightarrow> pg_account option" where
  "account_row db i = bt_get (pc_accounts (ld_custody db)) i"

definition account_live :: "login_db \<Rightarrow> string \<Rightarrow> bool" where
  "account_live db i = pg_active (ld_custody db) i"

text \<open>The claims an account is known by in one workspace: its rows and the login column.\<close>

definition owned_claims :: "login_db \<Rightarrow> string \<Rightarrow> string \<Rightarrow> string \<Rightarrow> string list" where
  "owned_claims db account workspace ns =
     map (\<lambda>((_, _, claim), _). claim)
       (filter (\<lambda>((w, n, _), (owner, deleted)). w = workspace \<and> n = ns \<and> owner = account \<and> \<not> deleted)
         (ld_claims db))"

definition known_logins :: "login_db \<Rightarrow> string \<Rightarrow> credential_record \<Rightarrow> string \<Rightarrow> string list" where
  "known_logins db account r ns =
     (case cr_workspace r of None \<Rightarrow> [] | Some w \<Rightarrow> owned_claims db account w ns)
     @ (if ns = ''sub'' then (case cr_login r of None \<Rightarrow> [] | Some l \<Rightarrow> [l]) else [])"

definition claim_in :: "string option \<Rightarrow> string list \<Rightarrow> bool" where
  "claim_in claim known = (case claim of None \<Rightarrow> False | Some c \<Rightarrow> c \<in> set known)"

text \<open>\<open>central_login_identity_agrees\<close> and \<open>central_login_identity_matches\<close>.\<close>

definition identity_agrees ::
    "login_db \<Rightarrow> string option \<Rightarrow> string option \<Rightarrow> string option \<Rightarrow> string \<Rightarrow> bool" where
  "identity_agrees db workspace uid sub account =
     (case account_row db account of
        None \<Rightarrow> False
      | Some a \<Rightarrow>
          \<not> pga_deleted a \<and> workspace \<noteq> None \<and> cr_workspace (pga_record a) = workspace
          \<and> (if uid \<noteq> None \<and> known_logins db account (pga_record a) ''uid'' \<noteq> []
             then claim_in uid (known_logins db account (pga_record a) ''uid'')
             else claim_in sub (known_logins db account (pga_record a) ''sub'')))"

definition identity_matches ::
    "login_db \<Rightarrow> string option \<Rightarrow> string option \<Rightarrow> string option \<Rightarrow> string \<Rightarrow> bool" where
  "identity_matches db workspace uid sub account =
     (case account_row db account of
        None \<Rightarrow> False
      | Some a \<Rightarrow>
          \<not> pga_deleted a \<and> workspace \<noteq> None \<and> cr_workspace (pga_record a) = workspace
          \<and> (claim_in uid (known_logins db account (pga_record a) ''uid'')
             \<or> claim_in sub (known_logins db account (pga_record a) ''sub'')
             \<or> \<not> (uid \<noteq> None \<and> known_logins db account (pga_record a) ''uid'' \<noteq> []
                  \<or> sub \<noteq> None \<and> known_logins db account (pga_record a) ''sub'' \<noteq> [])))"

text \<open>\<open>login_fence!\<close>: a journal row that keeps the account's refresh away.\<close>

definition fence_phase :: "login_row \<Rightarrow> bool" where
  "fence_phase o' =
     (lr_phase o' \<in> {Candidate, Verifying, Unresolved, Rejected}
      \<or> lr_phase o' = ReplicaLost \<and> \<not> lr_polling_clear o')"

definition account_user :: "login_db \<Rightarrow> string \<Rightarrow> string option" where
  "account_user db account = Option.bind (account_row db account) (\<lambda>a. cr_user_id (pga_record a))"

definition fences :: "login_db \<Rightarrow> string \<Rightarrow> login_row \<Rightarrow> bool" where
  "fences db account o' =
     (((lr_phase o' = Unresolved \<or> lr_phase o' = ReplicaLost \<and> \<not> lr_polling_clear o')
         \<and> lr_workspace o' = None \<and> account_user db account = Some (lr_user o')
       \<or> lr_account o' = Some account \<and> lr_reserved o'
       \<or> (lr_kind o' \<noteq> Add \<or> lr_account o' \<noteq> None \<or> account_user db account = Some (lr_user o'))
         \<and> identity_matches db (lr_workspace o') (lr_uid o') (lr_sub o') account)
      \<and> fence_phase o')"

definition login_fenced :: "login_db \<Rightarrow> string \<Rightarrow> bool" where
  "login_fenced db account = list_ex (fences db account) (bt_values (ld_ops db))"

section \<open>Claims of a credential\<close>

record claims =
  cl_workspace :: string
  cl_logins :: logins

text \<open>\<open>Claims::keys\<close>: an empty claim is no claim.\<close>

definition claim_keys :: "claims \<Rightarrow> (string \<times> string) list" where
  "claim_keys c =
     (case login_uid (cl_logins c) of None \<Rightarrow> [] | Some u \<Rightarrow> if u = [] then [] else [(''uid'', u)])
     @ (case login_sub (cl_logins c) of None \<Rightarrow> [] | Some u \<Rightarrow> if u = [] then [] else [(''sub'', u)])"

datatype identity_decision = SameIdentity | DifferentIdentity | UnknownIdentity | ConflictingIdentity

text \<open>\<open>KnownClaims::compare\<close>.\<close>

definition compare_claims :: "string list \<Rightarrow> string list \<Rightarrow> logins \<Rightarrow> identity_decision" where
  "compare_claims uids subs arriving =
     (case (if uids = [] then None else login_uid arriving) of
        Some uid \<Rightarrow>
          if uid \<in> set uids then SameIdentity
          else if claim_in (login_sub arriving) subs then ConflictingIdentity else DifferentIdentity
      | None \<Rightarrow>
          (case (if subs = [] then None else login_sub arriving) of
             Some sub \<Rightarrow> if sub \<in> set subs then SameIdentity else DifferentIdentity
           | None \<Rightarrow> UnknownIdentity))"

definition claims_conflict :: "login_db \<Rightarrow> string \<Rightarrow> claims \<Rightarrow> bool" where
  "claims_conflict db account c =
     (let uids = owned_claims db account (cl_workspace c) ''uid'';
          subs = owned_claims db account (cl_workspace c) ''sub''
      in (uids \<noteq> [] \<or> subs \<noteq> []) \<and> compare_claims uids subs (cl_logins c) \<noteq> SameIdentity)"

text \<open>\<open>INSERT .. ON CONFLICT DO UPDATE .. WHERE account_id=EXCLUDED.account_id AND deleted_at IS NULL\<close>,
  on the claims and on the projection older readers use.\<close>

definition claim_insert ::
    "claim_key \<Rightarrow> string \<Rightarrow> (claim_key, string \<times> bool) btree \<Rightarrow> (claim_key, string \<times> bool) btree option" where
  "claim_insert key account t =
     (case bt_get t key of
        None \<Rightarrow> Some (bt_put key (account, False) t)
      | Some (owner, deleted) \<Rightarrow> if owner = account \<and> \<not> deleted then Some t else None)"

definition record_claim :: "string \<Rightarrow> string \<Rightarrow> string \<times> string \<Rightarrow> login_db \<Rightarrow> login_error + login_db" where
  "record_claim account workspace key db =
     (case claim_insert (workspace, key) account (ld_claims db) of
        None \<Rightarrow> Inl ClaimOwned
      | Some claims \<Rightarrow>
          (case claim_insert (workspace, key) account (ld_legacy_claims db) of
             None \<Rightarrow> Inl ClaimOwned
           | Some legacy \<Rightarrow> Inr (db\<lparr>ld_claims := claims, ld_legacy_claims := legacy\<rparr>)))"

definition record_claims :: "string \<Rightarrow> claims \<Rightarrow> login_db \<Rightarrow> login_error + login_db" where
  "record_claims account c db =
     (if claims_conflict db account c then Inl ClaimConflict
      else fold (\<lambda>key res. case res of Inl e \<Rightarrow> Inl e | Inr db \<Rightarrow> record_claim account (cl_workspace c) key db)
             (claim_keys c) (Inr db))"

text \<open>\<open>Claims::from_record\<close>; \<open>auth_of\<close> reads the \<open>auth\<close> member of a stored vault and
  \<open>claims_of\<close> decodes a credential (\<open>Claims::from_auth\<close>).\<close>

definition claims_from_record ::
    "(string \<Rightarrow> string option) \<Rightarrow> (string \<Rightarrow> claims option) \<Rightarrow> credential_record \<Rightarrow> login_error + claims option" where
  "claims_from_record auth_of claims_of r =
     (case auth_of (cr_vault r) of
        Some auth \<Rightarrow> (case claims_of auth of None \<Rightarrow> Inl CandidateInvalid | Some c \<Rightarrow> Inr (Some c))
      | None \<Rightarrow> Inr (map_option (\<lambda>w. \<lparr>cl_workspace = w,
                   cl_logins = \<lparr>login_uid = None, login_sub = cr_login r\<rparr>\<rparr>) (cr_workspace r)))"

end
