(* ===== verification/LoginJournal.thy ===== *)
theory LoginJournal
  imports LoginState
begin

text \<open>
  The operations of the shared login journal (\<open>src/central/storage/login.rs\<close> and the
  login claim of \<open>src/central/storage.rs\<close>): holders and their liveness, admission,
  heartbeat, saves, recovery after a lost replica, takeover, settlement, verification and
  completion. Each operation is one transaction that reads the clock \<open>now\<close>; an error
  leaves the tables as they were. \<open>op\<close> is the worker's copy of the row.
\<close>

section \<open>Holders\<close>

definition holder_ttl :: nat where "holder_ttl = 30"

definition login_register_holder ::
    "bool \<Rightarrow> string \<Rightarrow> nat \<Rightarrow> login_db \<Rightarrow> (login_error + unit) \<times> login_db" where
  "login_register_holder linux holder now db =
     (if bt_has (ld_holders db) holder then (Inl HolderRegistered, db)
      else (Inr (), db\<lparr>ld_holders := bt_put holder
              \<lparr>hr_expires_at = now + holder_ttl, hr_bound = linux, hr_deleted = False\<rparr> (ld_holders db)\<rparr>))"

definition login_renew_holder :: "string \<Rightarrow> nat \<Rightarrow> login_db \<Rightarrow> bool \<times> login_db" where
  "login_renew_holder holder now db =
     (case bt_get (ld_holders db) holder of
        None \<Rightarrow> (False, db)
      | Some h \<Rightarrow>
          if \<not> hr_deleted h \<and> now < hr_expires_at h
          then (True, db\<lparr>ld_holders := bt_put holder (h\<lparr>hr_expires_at := now + holder_ttl\<rparr>) (ld_holders db)\<rparr>)
          else (False, db))"

definition login_release_holder :: "string \<Rightarrow> nat \<Rightarrow> login_db \<Rightarrow> login_db" where
  "login_release_holder holder now db =
     (case bt_get (ld_holders db) holder of
        None \<Rightarrow> db
      | Some h \<Rightarrow>
          if hr_deleted h then db
          else db\<lparr>ld_holders := bt_put holder (h\<lparr>hr_expires_at := now\<rparr>) (ld_holders db)\<rparr>)"

section \<open>Reading the journal\<close>

text \<open>Only device polling expires into a terminal receipt.\<close>

definition expires_polling :: "nat \<Rightarrow> string \<Rightarrow> string option \<Rightarrow> string option \<Rightarrow> login_row \<Rightarrow> bool" where
  "expires_polling now user i alias r =
     (lr_user r = user \<and> (i = Some (lr_id r) \<or> (case alias of None \<Rightarrow> False | Some a \<Rightarrow> lower_eq (lr_alias r) a))
      \<and> lr_phase r \<in> {Starting, Pending} \<and> lr_expires_at r \<le> now)"

definition lost :: "login_row \<Rightarrow> login_row" where
  "lost r = r\<lparr>lr_phase := ReplicaLost, lr_sequence := lr_sequence r + 1\<rparr>"

definition expire_polling_login :: "nat \<Rightarrow> string \<Rightarrow> string option \<Rightarrow> string option \<Rightarrow> login_db \<Rightarrow> login_db" where
  "expire_polling_login now user i alias db =
     db\<lparr>ld_ops := bt_map (\<lambda>r. if expires_polling now user i alias r then lost r else r) (ld_ops db)\<rparr>"

definition login_get :: "nat \<Rightarrow> string \<Rightarrow> string \<Rightarrow> login_db \<Rightarrow> login_operation option \<times> login_db" where
  "login_get now user i db =
     (let db' = expire_polling_login now user (Some i) None db
      in (map_option (read_row now) (bt_get (ld_ops db') (user, i)), db'))"

definition names_alias :: "string \<Rightarrow> string \<Rightarrow> login_row \<Rightarrow> bool" where
  "names_alias user alias r =
     (lr_user r = user \<and> lower_eq (lr_alias r) alias
      \<and> (open_phase (lr_phase r) \<or> lr_phase r = ReplicaLost \<and> lr_reserved r))"

text \<open>\<open>ORDER BY (phase='replica_lost'), id LIMIT 1\<close>; the rows of one user are kept by id.\<close>

definition alias_owner :: "nat \<Rightarrow> string \<Rightarrow> string \<Rightarrow> login_db \<Rightarrow> login_operation option" where
  "alias_owner now user alias db =
     (let rows = filter (names_alias user alias) (bt_values (ld_ops db));
          opened = filter (\<lambda>r. lr_phase r \<noteq> ReplicaLost) rows
      in case opened @ rows of [] \<Rightarrow> None | r # _ \<Rightarrow> Some (read_row now r))"

definition login_active_alias :: "nat \<Rightarrow> string \<Rightarrow> string \<Rightarrow> login_db \<Rightarrow> login_operation option \<times> login_db" where
  "login_active_alias now user alias db =
     (let db' = expire_polling_login now user None (Some alias) db in (alias_owner now user alias db', db'))"

datatype start_lookup = LookupId string | LookupAlias string

fun login_start_lookup :: "nat \<Rightarrow> string \<Rightarrow> start_lookup \<Rightarrow> login_db \<Rightarrow> login_operation option" where
  "login_start_lookup now user (LookupId i) db = map_option (read_row now) (bt_get (ld_ops db) (user, i))"
| "login_start_lookup now user (LookupAlias alias) db = alias_owner now user alias db"

definition login_active_account :: "nat \<Rightarrow> string \<Rightarrow> login_db \<Rightarrow> login_operation option" where
  "login_active_account now account db =
     map_option (read_row now)
       (find (\<lambda>r. lr_account r = Some account \<and> open_phase (lr_phase r)) (bt_values (ld_ops db)))"

definition login_completed_after :: "string \<Rightarrow> int \<Rightarrow> int \<Rightarrow> login_db \<Rightarrow> bool" where
  "login_completed_after account previous current db =
     list_ex (\<lambda>r. lr_account r = Some account \<and> lr_phase r = PCompleted
         \<and> (case lr_completed_revision r of None \<Rightarrow> False | Some n \<Rightarrow> previous < n \<and> n \<le> current))
       (bt_values (ld_ops db))"

definition login_browser_get :: "nat \<Rightarrow> string \<Rightarrow> string \<Rightarrow> string \<Rightarrow> login_db \<Rightarrow> login_operation option" where
  "login_browser_get now user session i db =
     (case bt_get (ld_ops db) (user, i) of
        None \<Rightarrow> None
      | Some r \<Rightarrow>
          if lr_browser r = Some session \<and> authority_live now db user (Browser session)
          then Some ((read_row now r)\<lparr>lo_lease_expired := lr_expires_at r \<le> now
                 \<or> lr_phase r \<in> {Starting, Pending} \<and> lr_deadline r \<le> now\<rparr>)
          else None)"

section \<open>Admission\<close>

definition op_ttl :: nat where "op_ttl = 30"
definition polling_deadline :: nat where "polling_deadline = 900"

definition new_row :: "login_operation \<Rightarrow> nat \<Rightarrow> login_row" where
  "new_row op now =
     \<lparr>lr_user = lo_user op, lr_id = lo_id op, lr_account = lo_account op, lr_alias = lo_alias op,
      lr_device = fst (authority_parts (lo_authority op)), lr_browser = snd (authority_parts (lo_authority op)),
      lr_kind = lo_kind op, lr_phase = Starting, lr_sequence = 0, lr_holder = lo_holder op, lr_epoch = 1,
      lr_expires_at = now + op_ttl, lr_deadline = now + polling_deadline, lr_cancel = False,
      lr_payload = lo_payload op, lr_reserved = True, lr_evidence = [], lr_completed_revision = None,
      lr_landed_alias = None, lr_workspace = None, lr_login = None, lr_uid = None, lr_sub = None,
      lr_polling_clear = False, lr_failure_reported = False\<rparr>"

definition renewal_refused :: "login_operation \<Rightarrow> login_db \<Rightarrow> login_error option" where
  "renewal_refused op db =
     (case lo_account op of
        None \<Rightarrow> None
      | Some account \<Rightarrow>
          if \<not> reset_free db account then Some ResetInProgress
          else (case account_row db account of
                  None \<Rightarrow> Some AccountMissing
                | Some a \<Rightarrow>
                    if cr_user_id (pga_record a) \<noteq> Some (lo_user op) then Some AccountMissing
                    else if pga_deleted a then Some LoginAccountRemoved else None))"

definition login_create ::
    "login_operation \<Rightarrow> nat \<Rightarrow> login_db \<Rightarrow> (login_error + bool) \<times> login_db" where
  "login_create op now db =
     (if \<not> authority_live now db (lo_user op) (lo_authority op) then (Inl AuthorityEnded, db)
      else
        (case renewal_refused op db of
           Some e \<Rightarrow> (Inl e, db)
         | None \<Rightarrow>
             if \<not> holder_live now db (lo_holder op) \<or> bt_has (ld_ops db) (op_key op) \<or> clashes (new_row op now) db
             then (Inr False, db)
             else
               (case audit_login op ''start'' ''ok:started''
                       (db\<lparr>ld_ops := bt_put (op_key op) (new_row op now) (ld_ops db)\<rparr>) of
                  Inl e \<Rightarrow> (Inl e, db)
                | Inr (_, db') \<Rightarrow> (Inr True, db'))))"

section \<open>Working on a row\<close>

definition working :: "login_phase \<Rightarrow> bool" where
  "working p = (p \<in> {Starting, Pending, Candidate, Verifying})"

definition update_or_keep ::
    "login_error + (login_row \<times> login_db) option \<Rightarrow> login_db \<Rightarrow> (login_error + bool) \<times> login_db" where
  "update_or_keep res db =
     (case res of
        Inl e \<Rightarrow> (Inl e, db)
      | Inr None \<Rightarrow> (Inr False, db)
      | Inr (Some (_, db')) \<Rightarrow> (Inr True, db'))"

definition login_cancel :: "login_operation \<Rightarrow> login_db \<Rightarrow> login_db" where
  "login_cancel op db =
     snd (update_or_keep (update_row (op_key op)
       (\<lambda>r. (lr_device r, lr_browser r) = authority_parts (lo_authority op) \<and> working (lr_phase r))
       (\<lambda>r. r\<lparr>lr_cancel := True\<rparr>) db) db)"

definition op_account_live :: "login_row \<Rightarrow> login_db \<Rightarrow> bool" where
  "op_account_live r db =
     (case lr_account r of
        None \<Rightarrow> True
      | Some account \<Rightarrow>
          account_live db account \<and> account_user db account = Some (lr_user r))"

text \<open>True: stop, the attempt was canceled or its browser session ended.\<close>

definition login_heartbeat :: "login_operation \<Rightarrow> nat \<Rightarrow> login_db \<Rightarrow> (login_error + bool) \<times> login_db" where
  "login_heartbeat op now db =
     (case update_row (op_key op)
         (\<lambda>r. same_incarnation op r \<and> working (lr_phase r) \<and> now < lr_expires_at r
            \<and> (now < lr_deadline r \<or> lr_phase r \<in> {Candidate, Verifying})
            \<and> holder_live now db (lo_holder op) \<and> op_account_live r db)
         (\<lambda>r. r\<lparr>lr_expires_at := now + op_ttl\<rparr>) db of
        Inl e \<Rightarrow> (Inl e, db)
      | Inr (Some (r, db')) \<Rightarrow>
          (Inr (lr_cancel r
             \<or> (case lo_authority op of Machine _ \<Rightarrow> False
                | Browser _ \<Rightarrow> \<not> authority_live now db' (lo_user op) (lo_authority op))), db')
      | Inr None \<Rightarrow>
          (case lo_account op of
             None \<Rightarrow> (Inl LeaseLost, db)
           | Some account \<Rightarrow>
               (case account_row db account of
                  None \<Rightarrow> (Inl LeaseLost, db)
                | Some a \<Rightarrow>
                    if cr_user_id (pga_record a) = Some (lo_user op) \<and> pga_deleted a
                    then (Inl LoginAccountRemoved, db) else (Inl LeaseLost, db))))"

text \<open>The identity columns of a saved candidate; \<open>claims_of\<close> decodes a credential
  (workspace and login claims), \<open>subject_of\<close> reads the subject of its access token.\<close>

definition candidate_columns ::
    "(string \<Rightarrow> claims option) \<Rightarrow> (string \<Rightarrow> string option) \<Rightarrow> string option
      \<Rightarrow> (string option \<times> string option \<times> string option \<times> string option) option" where
  "candidate_columns claims_of subject_of candidate =
     (case candidate of
        None \<Rightarrow> Some (None, None, None, None)
      | Some auth \<Rightarrow>
          (case claims_of auth of
             None \<Rightarrow> None
           | Some c \<Rightarrow> Some (Some (cl_workspace c), subject_of auth, login_uid (cl_logins c), login_sub (cl_logins c))))"

definition closed_phase :: "login_phase \<Rightarrow> bool" where
  "closed_phase p = (\<not> open_phase p)"

text \<open>The worker's copy is returned too: it keeps an unresolved intent even when the save fails.\<close>

definition login_save ::
    "(string \<Rightarrow> claims option) \<Rightarrow> (string \<Rightarrow> string option) \<Rightarrow> login_operation \<Rightarrow> login_phase \<Rightarrow> nat \<Rightarrow> login_db
      \<Rightarrow> (login_error + unit) \<times> login_operation \<times> login_db" where
  "login_save claims_of subject_of op phase now db =
     (if closed_phase (lo_phase op) then (Inl TerminalImmutable, op, db)
      else
        let op1 = (if phase = Unresolved then op\<lparr>lo_phase := phase\<rparr> else op) in
        (case candidate_columns claims_of subject_of (lp_candidate (lo_payload op1)) of
           None \<Rightarrow> (Inl CandidateInvalid, op1, db)
         | Some (workspace, login, uid, sub) \<Rightarrow>
             (case update_row (op_key op1)
                 (\<lambda>r. same_version op1 r \<and> open_phase (lr_phase r) \<and> now < lr_expires_at r
                    \<and> holder_live now db (lo_holder op1))
                 (\<lambda>r. r\<lparr>lr_phase := phase, lr_payload := lo_payload op1, lr_sequence := lr_sequence r + 1,
                        lr_workspace := workspace, lr_login := login, lr_uid := uid, lr_sub := sub\<rparr>) db of
                Inl e \<Rightarrow> (Inl e, op1, db)
              | Inr None \<Rightarrow> (Inl LoginFenced, op1, db)
              | Inr (Some (_, db')) \<Rightarrow>
                  (case (case terminal_result phase of
                           None \<Rightarrow> Inr db'
                         | Some result \<Rightarrow>
                             (case audit_login op1 ''terminal'' result db' of
                                Inl e \<Rightarrow> Inl e | Inr (_, db'') \<Rightarrow> Inr db'')) of
                     Inl e \<Rightarrow> (Inl e, op1, db)
                   | Inr db'' \<Rightarrow> (Inr (), op1\<lparr>lo_sequence := lo_sequence op1 + 1, lo_phase := phase\<rparr>, db'')))))"

text \<open>A committed terminal phase is audited again when the worker settles it late.\<close>

definition login_audit_terminal :: "login_operation \<Rightarrow> login_db \<Rightarrow> (login_error + unit) \<times> login_db" where
  "login_audit_terminal op db =
     (case terminal_result (lo_phase op) of
        None \<Rightarrow> (Inr (), db)
      | Some result \<Rightarrow>
          (case audit_login op ''terminal'' result db of
             Inl e \<Rightarrow> (Inl e, db) | Inr (_, db') \<Rightarrow> (Inr (), db')))"

end
