(* ===== verification/LoginRecovery.thy ===== *)
theory LoginRecovery
  imports LoginJournal
begin

text \<open>
  Recovery and completion of a shared login: what a second replica, a supervisor or a late
  worker may settle, the account lease a login takes, verification, and the transaction
  that publishes the verified credential with its receipt
  (\<open>src/central/storage/login.rs\<close>, \<open>PostgresStore::acquire_login_lease\<close>).
\<close>

section \<open>Lost polling\<close>

text \<open>A settled attempt gives up its identity reservations.\<close>

definition release_reservations :: "(string \<times> string) list \<Rightarrow> login_db \<Rightarrow> login_db" where
  "release_reservations keys db =
     db\<lparr>ld_reservations := bt_map (\<lambda>(owner, deleted). (owner, deleted \<or> owner \<in> set keys)) (ld_reservations db),
        ld_history := map (\<lambda>((c, owner), deleted). ((c, owner), deleted \<or> owner \<in> set keys)) (ld_history db)\<rparr>"

definition polling_phase :: "login_phase \<Rightarrow> bool" where
  "polling_phase p = (p \<in> {Starting, Pending, ReplicaLost})"

definition dead_bound_holder :: "nat \<Rightarrow> login_db \<Rightarrow> string \<Rightarrow> bool" where
  "dead_bound_holder now db h =
     (case bt_get (ld_holders db) h of
        None \<Rightarrow> False | Some r \<Rightarrow> \<not> hr_deleted r \<and> hr_bound r \<and> hr_expires_at r \<le> now)"

definition login_recover_polling ::
    "login_operation \<Rightarrow> string \<Rightarrow> nat \<Rightarrow> login_db \<Rightarrow> (login_error + bool) \<times> login_operation \<times> login_db" where
  "login_recover_polling op holder now db =
     (if lo_phase op \<noteq> ReplicaLost then (Inr False, op, db)
      else
        (case update_row (op_key op)
            (\<lambda>r. same_version op r \<and> lr_phase r = ReplicaLost \<and> lr_polling_clear r \<and> lr_reserved r
               \<and> lr_workspace r = None \<and> lr_expires_at r \<le> now
               \<and> dead_bound_holder now db (lr_holder r) \<and> holder_live now db holder)
            (\<lambda>r. r\<lparr>lr_polling_clear := True, lr_reserved := False, lr_holder := holder,
                   lr_epoch := lr_epoch r + 1, lr_sequence := lr_sequence r + 1\<rparr>) db of
           Inl e \<Rightarrow> (Inl e, op, db)
         | Inr None \<Rightarrow> (Inr False, op, db)
         | Inr (Some (r, db')) \<Rightarrow> (Inr True, read_row now r, release_reservations [op_key op] db')))"

section \<open>Takeover\<close>

text \<open>The login's own account lease, not yet released.\<close>

definition login_lease_holder :: "string \<Rightarrow> string \<Rightarrow> string" where
  "login_lease_holder holder i = holder @ '':'' @ i"

definition login_lease_held :: "login_row \<Rightarrow> login_db \<Rightarrow> bool" where
  "login_lease_held r db =
     (case lr_account r of
        None \<Rightarrow> False
      | Some account \<Rightarrow>
          (case bt_get (pc_leases (ld_custody db)) account of
             None \<Rightarrow> False
           | Some l \<Rightarrow> pgl_holder l = login_lease_holder (lr_holder r) (lr_id r) \<and> \<not> pgl_released l))"

definition holder_row_is :: "(holder_row \<Rightarrow> bool) \<Rightarrow> login_db \<Rightarrow> string \<Rightarrow> bool" where
  "holder_row_is P db h = (case bt_get (ld_holders db) h of None \<Rightarrow> False | Some r \<Rightarrow> \<not> hr_deleted r \<and> P r)"

definition login_takeover_candidate ::
    "login_operation \<Rightarrow> string \<Rightarrow> nat \<Rightarrow> login_db \<Rightarrow> (login_error + bool) \<times> login_operation \<times> login_db" where
  "login_takeover_candidate op holder now db =
     (if lo_phase op \<noteq> Candidate then (Inr False, op, db)
      else
        (case update_row (op_key op)
            (\<lambda>r. same_version op r \<and> lr_phase r = Candidate
               \<and> holder_row_is (\<lambda>h. hr_bound h
                    \<and> (lr_holder r = holder \<and> now < hr_expires_at h
                       \<or> lr_expires_at r \<le> now \<and> hr_expires_at h \<le> now)) db (lr_holder r)
               \<and> \<not> login_lease_held r db \<and> holder_live now db holder)
            (\<lambda>r. r\<lparr>lr_holder := holder, lr_epoch := lr_epoch r + 1, lr_sequence := lr_sequence r + 1,
                   lr_expires_at := now + op_ttl\<rparr>) db of
           Inl e \<Rightarrow> (Inl e, op, db)
         | Inr None \<Rightarrow> (Inr False, op, db)
         | Inr (Some (r, db')) \<Rightarrow> (Inr True, read_row now r, db')))"

definition login_recover_unresolved ::
    "login_operation \<Rightarrow> string \<Rightarrow> nat \<Rightarrow> login_db \<Rightarrow> (login_error + bool) \<times> login_operation \<times> login_db" where
  "login_recover_unresolved op holder now db =
     (if lo_phase op \<notin> {Candidate, Verifying} then (Inr False, op, db)
      else
        let payload = (lo_payload op)\<lparr>lp_error := Some (if lo_phase op = Verifying
              then ''relogin_verification_unresolved'' else ''relogin_settlement_unresolved'')\<rparr>
        in (case update_row (op_key op)
            (\<lambda>r. same_version op r \<and> lr_phase r = lo_phase op \<and> lr_expires_at r \<le> now
               \<and> (lr_phase r = Verifying \<or> lr_phase r = Candidate \<and> login_lease_held r db)
               \<and> holder_row_is (\<lambda>h. hr_expires_at h \<le> now \<or> lr_holder r = holder) db (lr_holder r)
               \<and> holder_live now db holder)
            (\<lambda>r. r\<lparr>lr_phase := Unresolved, lr_payload := payload, lr_holder := holder,
                   lr_epoch := lr_epoch r + 1, lr_sequence := lr_sequence r + 1\<rparr>) db of
           Inl e \<Rightarrow> (Inl e, op, db)
         | Inr None \<Rightarrow> (Inr False, op, db)
         | Inr (Some (r, db')) \<Rightarrow>
             (case audit_login op ''terminal'' ''failed:unresolved'' db' of
                Inl e \<Rightarrow> (Inl e, op, db)
              | Inr (_, db'') \<Rightarrow> (Inr True, read_row now r, db''))))"

section \<open>Settlement\<close>

definition login_record_polling_absence ::
    "login_operation \<Rightarrow> bool \<Rightarrow> nat \<Rightarrow> login_db \<Rightarrow> (login_error + unit) \<times> login_operation \<times> login_db" where
  "login_record_polling_absence op canceled now db =
     (case lo_authority op of
        Browser session \<Rightarrow>
          let phase = (if canceled then Canceled else Failed);
              payload = (lo_payload op)\<lparr>lp_code := None\<rparr>;
              payload = (if canceled then payload else payload\<lparr>lp_error := Some ''relogin_interrupted_retry''\<rparr>)
          in (case update_row (op_key op)
                 (\<lambda>r. same_incarnation op r \<and> lr_browser r = Some session \<and> polling_phase (lr_phase r)
                    \<and> lr_workspace r = None)
                 (\<lambda>r. r\<lparr>lr_phase := phase, lr_polling_clear := True, lr_sequence := lr_sequence r + 1,
                        lr_payload := payload,
                        lr_reserved := (if lr_kind r = Add \<and> lr_account r = None then False else lr_reserved r)\<rparr>) db of
                Inl e \<Rightarrow> (Inl e, op, db)
              | Inr None \<Rightarrow> (Inl LoginFenced, op, db)
              | Inr (Some (r, db')) \<Rightarrow>
                  (case audit_login (read_row now r) ''terminal'' (the (terminal_result phase)) db' of
                     Inl e \<Rightarrow> (Inl e, op, db)
                   | Inr (_, db'') \<Rightarrow> (Inr (), read_row now r, db'')))
      | Machine _ \<Rightarrow>
          (case update_row (op_key op)
              (\<lambda>r. same_incarnation op r \<and> polling_phase (lr_phase r) \<and> lr_workspace r = None)
              (\<lambda>r. r\<lparr>lr_polling_clear := True\<rparr>) db of
             Inl e \<Rightarrow> (Inl e, op, db)
           | Inr None \<Rightarrow> (Inl LoginFenced, op, db)
           | Inr (Some (_, db')) \<Rightarrow> (Inr (), op, db')))"

definition login_record_unpublished_grant ::
    "login_operation \<Rightarrow> login_db \<Rightarrow> (login_error + unit) \<times> login_db" where
  "login_record_unpublished_grant op db =
     (case update_row (op_key op)
         (\<lambda>r. same_version op r \<and> polling_phase (lr_phase r) \<and> lr_workspace r = None)
         (\<lambda>r. r\<lparr>lr_phase := Unresolved, lr_sequence := lr_sequence r + 1,
                lr_payload := (lo_payload op)\<lparr>lp_code := None, lp_error := Some ''relogin_grant_unpublished''\<rparr>\<rparr>) db of
        Inl e \<Rightarrow> (Inl e, db)
      | Inr None \<Rightarrow> (Inl LoginFenced, db)
      | Inr (Some (_, db')) \<Rightarrow>
          (case audit_login op ''terminal'' ''failed:unresolved'' db' of
             Inl e \<Rightarrow> (Inl e, db) | Inr (_, db'') \<Rightarrow> (Inr (), db'')))"

definition login_polling_clear :: "login_operation \<Rightarrow> login_db \<Rightarrow> (login_error + unit) \<times> login_db" where
  "login_polling_clear op db =
     (if lp_candidate (lo_payload op) \<noteq> None \<or> lo_phase op \<notin> {Starting, Pending}
      then (Inl ClearanceNeedsAbsence, db)
      else
        (case update_row (op_key op)
            (\<lambda>r. same_incarnation op r
               \<and> (lr_sequence r = lo_sequence op \<or> lr_sequence r = lo_sequence op + 1 \<and> lr_phase r = ReplicaLost)
               \<and> polling_phase (lr_phase r) \<and> lr_workspace r = None)
            (\<lambda>r. r\<lparr>lr_polling_clear := True\<rparr>) db of
           Inl e \<Rightarrow> (Inl e, db)
         | Inr None \<Rightarrow> (Inl LoginFenced, db)
         | Inr (Some (_, db')) \<Rightarrow> (Inr (), db')))"

text \<open>One replica reports each failure; \<open>grantless\<close> asks for proof that no grant can follow.\<close>

definition failure_claimable :: "login_operation \<Rightarrow> string \<Rightarrow> bool \<Rightarrow> nat \<Rightarrow> login_db \<Rightarrow> login_row \<Rightarrow> bool" where
  "failure_claimable op reporter grantless now db r =
     (same_incarnation op r \<and> lr_phase r \<notin> {PCompleted, Canceled} \<and> \<not> lr_failure_reported r
      \<and> (lr_holder r = reporter
         \<or> bt_has (ld_holders db) (lo_holder op) \<and> \<not> holder_live now db (lo_holder op))
      \<and> (\<not> grantless \<or> lr_phase r \<notin> {Candidate, Verifying} \<and> (\<not> polling_phase (lr_phase r) \<or> lr_polling_clear r)))"

definition login_take_failure ::
    "login_operation \<Rightarrow> string \<Rightarrow> bool \<Rightarrow> nat \<Rightarrow> login_db \<Rightarrow> (login_error + bool) \<times> login_operation \<times> login_db" where
  "login_take_failure op reporter grantless now db =
     (case update_or_keep (update_row (op_key op) (failure_claimable op reporter grantless now db)
             (\<lambda>r. r\<lparr>lr_failure_reported := True\<rparr>) db) db of
        (Inr True, db') \<Rightarrow> (Inr True, op\<lparr>lo_failure_reported := True\<rparr>, db')
      | (res, db') \<Rightarrow> (res, op, db'))"

text \<open>What a polling supervisor reads: cancellation, and whether it may go on.\<close>

definition login_polling_authority :: "login_operation \<Rightarrow> nat \<Rightarrow> login_db \<Rightarrow> login_error + bool \<times> bool" where
  "login_polling_authority op now db =
     (case bt_get (ld_ops db) (op_key op) of
        None \<Rightarrow> Inl LoginFenced
      | Some r \<Rightarrow>
          if \<not> same_incarnation op r then Inl LoginFenced
          else Inr (lr_cancel r, lr_phase r \<in> {Starting, Pending} \<and> now < lr_expires_at r \<and> now < lr_deadline r
                 \<and> holder_live now db (lo_holder op)))"

text \<open>The one-time handoff of leases taken before the journal existed.\<close>

definition confirm_legacy_owners_settled :: "nat \<Rightarrow> login_db \<Rightarrow> nat \<times> login_db" where
  "confirm_legacy_owners_settled now db =
     (let legacy = (\<lambda>l. pgl_legacy_handoff l \<and> \<not> pgl_released l)
      in (length (filter legacy (bt_values (pc_leases (ld_custody db)))),
          db\<lparr>ld_custody := (ld_custody db)\<lparr>pc_leases := bt_map (\<lambda>l. if legacy l
              then l\<lparr>pgl_released := True, pgl_legacy_handoff := False, pgl_expires_at := now\<rparr> else l)
              (pc_leases (ld_custody db))\<rparr>\<rparr>))"

section \<open>The account lease of a login\<close>

definition login_may_claim :: "login_operation \<Rightarrow> string \<Rightarrow> nat \<Rightarrow> login_db \<Rightarrow> bool" where
  "login_may_claim op account now db =
     list_ex (\<lambda>r. lr_id r = lo_id op \<and> lr_account r = Some account \<and> lr_holder r = lo_holder op
         \<and> lr_epoch r = lo_epoch op \<and> lr_phase r = Candidate \<and> now < lr_expires_at r
         \<and> holder_live now db (lr_holder r)) (bt_values (ld_ops db))"

definition fenced_by_others :: "login_operation \<Rightarrow> string \<Rightarrow> login_db \<Rightarrow> bool" where
  "fenced_by_others op account db =
     list_ex (\<lambda>r. fences db account r \<and> lr_phase r \<noteq> Rejected
         \<and> (lr_id r \<noteq> lo_id op \<or> (case lr_account r of None \<Rightarrow> False | Some a \<Rightarrow> a \<noteq> account)))
       (bt_values (ld_ops db))"

definition lease_ttl :: nat where "lease_ttl = 120"

definition login_account_lease ::
    "login_operation \<Rightarrow> string \<Rightarrow> nat \<Rightarrow> login_db
      \<Rightarrow> (login_error + lease option) \<times> login_db" where
  "login_account_lease op refresh_holder now db =
     (case lo_account op of
        None \<Rightarrow> (Inl NoAccountReserved, db)
      | Some account \<Rightarrow>
          let holder = login_lease_holder (lo_holder op) (lo_id op);
              custody = ld_custody db;
              claimable = (reset_free db account \<and> account_live db account \<and> login_may_claim op account now db
                 \<and> \<not> fenced_by_others op account db);
              epoch = (if \<not> claimable then None
                 else (case bt_get (pc_leases custody) account of
                         None \<Rightarrow> Some 1
                       | Some l \<Rightarrow>
                           if (pgl_expires_at l \<le> now \<or> pgl_holder l = holder)
                              \<and> (pgl_released l \<or> pgl_holder l = refresh_holder \<or> pgl_holder l = holder)
                           then Some (pgl_epoch l + 1) else None))
          in (case epoch of
                Some e \<Rightarrow>
                  (Inr (Some \<lparr>l_account = account, l_holder = holder, l_epoch = e\<rparr>),
                   db\<lparr>ld_custody := custody\<lparr>pc_leases := bt_put account
                        \<lparr>pgl_holder = holder, pgl_epoch = e, pgl_expires_at = now + lease_ttl,
                         pgl_released = False, pgl_legacy_handoff = False\<rparr> (pc_leases custody)\<rparr>\<rparr>)
              | None \<Rightarrow>
                  (case account_row db account of
                     Some a \<Rightarrow> if pga_deleted a then (Inl LoginAccountRemoved, db) else (Inr None, db)
                   | None \<Rightarrow> (Inr None, db))))"

text \<open>An ordinary refresh claim against the same tables.\<close>

definition refresh_lease ::
    "string \<Rightarrow> string \<Rightarrow> nat \<Rightarrow> nat \<Rightarrow> login_db \<Rightarrow> (store_error + lease) \<times> login_db" where
  "refresh_lease account holder ttl now db =
     (let (res, custody) = pg_acquire_lease (reset_free db account) (login_fenced db account) account holder ttl now (ld_custody db)
      in (res, db\<lparr>ld_custody := custody\<rparr>))"

section \<open>Verification and completion\<close>

definition lease_current :: "lease \<Rightarrow> nat \<Rightarrow> login_db \<Rightarrow> bool" where
  "lease_current l now db =
     (case bt_get (pc_leases (ld_custody db)) (l_account l) of
        None \<Rightarrow> False | Some row \<Rightarrow> pg_current l row \<and> now < pgl_expires_at row)"

text \<open>The rejected attempts a verification may repair, as it finds them.\<close>

definition repairable :: "login_db \<Rightarrow> string \<Rightarrow> login_row \<Rightarrow> bool" where
  "repairable db account r =
     (lr_phase r = Rejected
      \<and> (lr_account r = Some account \<or> identity_agrees db (lr_workspace r) (lr_uid r) (lr_sub r) account))"

definition rejected_evidence :: "string \<Rightarrow> login_db \<Rightarrow> (string \<times> string \<times> int) list" where
  "rejected_evidence account db =
     (if account_row db account = None then []
      else map (\<lambda>r. (lr_user r, lr_id r, lr_sequence r)) (filter (repairable db account) (bt_values (ld_ops db))))"

definition login_begin_verification ::
    "login_operation \<Rightarrow> lease \<Rightarrow> nat \<Rightarrow> login_db \<Rightarrow> (login_error + unit) \<times> login_operation \<times> login_db" where
  "login_begin_verification op l now db =
     (case update_row (op_key op)
         (\<lambda>r. lease_current l now db \<and> same_version op r \<and> lr_phase r = Candidate \<and> \<not> lr_cancel r
            \<and> now < lr_expires_at r \<and> holder_live now db (lo_holder op) \<and> lr_account r = Some (l_account l))
         (\<lambda>r. r\<lparr>lr_phase := Verifying, lr_sequence := lr_sequence r + 1,
                lr_evidence := rejected_evidence (l_account l) db\<rparr>) db of
        Inl e \<Rightarrow> (Inl e, op, db)
      | Inr None \<Rightarrow> (Inl LoginFenced, op, db)
      | Inr (Some (_, db')) \<Rightarrow>
          (Inr (), op\<lparr>lo_phase := Verifying, lo_sequence := lo_sequence op + 1\<rparr>, db'))"

definition completes :: "login_operation \<Rightarrow> lease \<Rightarrow> int \<Rightarrow> nat \<Rightarrow> login_db \<Rightarrow> login_row \<Rightarrow> bool" where
  "completes op l previous now db r =
     (account_live db (l_account l) \<and> lease_current l now db
      \<and> same_version op r \<and> lr_phase r = Verifying \<and> \<not> lr_cancel r \<and> now < lr_expires_at r
      \<and> holder_live now db (lo_holder op) \<and> lr_account r = Some (l_account l)
      \<and> (case account_row db (l_account l) of None \<Rightarrow> False | Some a \<Rightarrow> cr_revision (pga_record a) = previous))"

text \<open>A rejected attempt this completion repairs, judged before anything is written.\<close>

definition repaired :: "login_db \<Rightarrow> string \<Rightarrow> login_row \<Rightarrow> login_row \<Rightarrow> bool" where
  "repaired db account done r =
     (repairable db account r \<and> (lr_user r, lr_id r, lr_sequence r) \<in> set (lr_evidence done))"

definition repair_row :: "login_db \<Rightarrow> string \<Rightarrow> login_row \<Rightarrow> login_row" where
  "repair_row db account r =
     (let r1 = r\<lparr>lr_reserved := (if lr_account r = Some account then False else lr_reserved r)\<rparr>
      in if identity_agrees db (lr_workspace r) (lr_uid r) (lr_sub r) account
         then r1\<lparr>lr_workspace := None, lr_login := None, lr_uid := None, lr_sub := None\<rparr> else r1)"

definition publish_credential :: "credential_record \<Rightarrow> pg_account \<Rightarrow> pg_account" where
  "publish_credential c a =
     a\<lparr>pga_record := (pga_record a)\<lparr>cr_vault := cr_vault c, cr_revision := cr_revision c,
         cr_workspace := cr_workspace c, cr_login := cr_login c\<rparr>\<rparr>"

definition complete_statement ::
    "login_operation \<Rightarrow> lease \<Rightarrow> credential_record \<Rightarrow> int \<Rightarrow> nat \<Rightarrow> login_db \<Rightarrow> login_db option" where
  "complete_statement op l c previous now db =
     (case bt_get (ld_ops db) (op_key op) of
        None \<Rightarrow> None
      | Some r \<Rightarrow>
          if \<not> completes op l previous now db r then None
          else
            let account = l_account l;
                receipt = r\<lparr>lr_phase := PCompleted, lr_sequence := lr_sequence r + 1,
                   lr_completed_revision := Some (cr_revision c),
                   lr_payload := empty_payload\<lparr>lp_actor := lp_actor (lo_payload op)\<rparr>\<rparr>;
                repairs = map fst (filter (\<lambda>(_, s). repaired db account r s) (ld_ops db));
                ops = bt_map (\<lambda>s. if repaired db account r s then repair_row db account s else s) (ld_ops db);
                custody = ld_custody db
            in Some (release_reservations (op_key op # repairs)
                 (db\<lparr>ld_ops := bt_put (op_key op) receipt ops,
                     ld_custody := custody\<lparr>pc_accounts :=
                       (case bt_get (pc_accounts custody) account of
                          None \<Rightarrow> pc_accounts custody
                        | Some a \<Rightarrow> bt_put account (publish_credential c a) (pc_accounts custody))\<rparr>\<rparr>)))"

text \<open>\<open>later\<close> is the clock when the claims are stored, after waiting for the database.\<close>

definition login_complete ::
    "(string \<Rightarrow> string option) \<Rightarrow> (string \<Rightarrow> claims option) \<Rightarrow> login_operation \<Rightarrow> lease \<Rightarrow> credential_record \<Rightarrow> int
      \<Rightarrow> nat \<Rightarrow> nat \<Rightarrow> login_db \<Rightarrow> (login_error + unit) \<times> login_operation \<times> login_db" where
  "login_complete auth_of claims_of op l c previous now later db =
     (case lo_account op of
        None \<Rightarrow> (Inl NoAccountReserved, op, db)
      | Some account \<Rightarrow>
          if cr_account_id c \<noteq> account \<or> l_account l \<noteq> account \<or> cr_revision c \<le> previous
          then (Inl RevisionMismatch, op, db)
          else
            (case claims_from_record auth_of claims_of c of
               Inl e \<Rightarrow> (Inl e, op, db)
             | Inr claims \<Rightarrow>
                 if \<not> authority_live now db (lo_user op) (lo_authority op) then (Inl AuthorityEnded, op, db)
                 else
                   (case complete_statement op l c previous now db of
                      None \<Rightarrow> (Inl LoginFenced, op, db)
                    | Some db1 \<Rightarrow>
                        (case audit_login op ''terminal'' ''ok:completed'' db1 of
                           Inl e \<Rightarrow> (Inl e, op, db)
                         | Inr (_, db2) \<Rightarrow>
                             (case (case claims of None \<Rightarrow> Inr db2 | Some cl \<Rightarrow> record_claims account cl db2) of
                                Inl e \<Rightarrow> (Inl e, op, db)
                              | Inr db3 \<Rightarrow>
                                  if (case lo_authority op of Machine _ \<Rightarrow> False
                                      | Browser _ \<Rightarrow> \<not> authority_live later db3 (lo_user op) (lo_authority op))
                                  then (Inl AuthorityEnded, op, db)
                                  else
                                    (Inr (),
                                     op\<lparr>lo_phase := PCompleted, lo_sequence := lo_sequence op + 1,
                                        lo_payload := empty_payload\<lparr>lp_actor := lp_actor (lo_payload op),
                                          lp_landed := lp_landed (lo_payload op)\<rparr>\<rparr>,
                                     db3))))))"

end
