(* ===== verification/LoginIdentity.thy ===== *)
theory LoginIdentity
  imports LoginRecovery
begin

text \<open>
  Identity claims and admission (\<open>src/central/storage/identity.rs\<close>): which account a
  candidate credential belongs to, the reservation of its claims, the admission of an added
  account, and the check of an imported or renewed one. Decoding a credential is the
  parameter \<open>claims_of\<close>, the account key \<open>key_of\<close> and the sealed vault \<open>seal\<close>. Rows that
  SQL returns in no order are taken by key.
\<close>

section \<open>Reservations\<close>

type_synonym reservation = "claim_key \<times> (string \<times> string) \<times> bool"

text \<open>The live reservations of some claim of a credential, with their journal rows.\<close>

definition reserved_rows :: "login_db \<Rightarrow> string \<Rightarrow> (string \<times> string) list \<Rightarrow> ((string \<times> string) \<times> login_row) list" where
  "reserved_rows db workspace keys =
     List.map_filter (\<lambda>((w, key), owner, deleted).
         if w = workspace \<and> key \<in> set keys \<and> \<not> deleted
         then map_option (\<lambda>r. (owner, r)) (bt_get (ld_ops db) owner) else None)
       (ld_reservations db)"

definition claimed_elsewhere :: "login_db \<Rightarrow> string \<Rightarrow> claims \<Rightarrow> bool" where
  "claimed_elsewhere db account c =
     list_ex (\<lambda>((w, key), owner, deleted).
         w = cl_workspace c \<and> key \<in> set (claim_keys c) \<and> \<not> deleted \<and> owner \<noteq> account) (ld_claims db)"

text \<open>An account of the workspace with no claim the arriving logins could be compared with.\<close>

definition incomparable :: "login_db \<Rightarrow> claims \<Rightarrow> string \<Rightarrow> bool" where
  "incomparable db c i =
     (\<not> (login_uid (cl_logins c) \<noteq> None \<and> owned_claims db i (cl_workspace c) ''uid'' \<noteq> []
         \<or> login_sub (cl_logins c) \<noteq> None \<and> owned_claims db i (cl_workspace c) ''sub'' \<noteq> []))"

definition workspace_accounts :: "login_db \<Rightarrow> string \<Rightarrow> (string \<times> pg_account) list" where
  "workspace_accounts db workspace =
     filter (\<lambda>(_, a). \<not> pga_deleted a \<and> cr_workspace (pga_record a) = Some workspace)
       (pc_accounts (ld_custody db))"

definition check_claims :: "string \<Rightarrow> claims \<Rightarrow> login_db \<Rightarrow> login_error option" where
  "check_claims account c db =
     (if list_ex (\<lambda>(_, r). lr_account r \<noteq> Some account) (reserved_rows db (cl_workspace c) (claim_keys c))
      then Some ClaimReserved
      else if claimed_elsewhere db account c then Some ClaimOwned
      else if list_ex (\<lambda>(i, _). i \<noteq> account \<and> incomparable db c i) (workspace_accounts db (cl_workspace c))
      then Some ClaimUnknown
      else if claims_conflict db account c then Some ClaimConflict else None)"

definition reserve_claim ::
    "string \<times> string \<Rightarrow> string \<Rightarrow> string \<Rightarrow> string \<times> string \<Rightarrow> login_db \<Rightarrow> login_db option" where
  "reserve_claim own account workspace key db =
     (let k = (workspace, key);
          note_history = (\<lambda>db. if bt_has (ld_history db) (k, own) then db
             else db\<lparr>ld_history := bt_put (k, own) False (ld_history db)\<rparr>);
          reserve = Some (note_history (db\<lparr>ld_reservations := bt_put k (own, False) (ld_reservations db)\<rparr>))
      in case bt_get (ld_reservations db) k of
           None \<Rightarrow> reserve
         | Some (owner, deleted) \<Rightarrow>
             if deleted then reserve
             else (case bt_get (ld_ops db) owner of
                     None \<Rightarrow> None
                   | Some r \<Rightarrow>
                       if owner = own \<or> lr_phase r = Rejected
                          \<and> identity_agrees db (lr_workspace r) (lr_uid r) (lr_sub r) account
                       then Some (note_history db) else None))"

definition reserve_claims :: "login_operation \<Rightarrow> string \<Rightarrow> claims \<Rightarrow> login_db \<Rightarrow> login_db option" where
  "reserve_claims op account c db =
     fold (\<lambda>key res. Option.bind res (reserve_claim (op_key op) account (cl_workspace c) key))
       (claim_keys c) (Some db)"

section \<open>Admitting an added account\<close>

datatype admission = Ready | RefusedAdd string

text \<open>The accounts that own a claim of the candidate; at most two are read.\<close>

definition claim_owners :: "login_db \<Rightarrow> claims \<Rightarrow> (string \<times> pg_account) list" where
  "claim_owners db c =
     take 2 (filter (\<lambda>(i, _).
         claim_in (login_uid (cl_logins c)) (owned_claims db i (cl_workspace c) ''uid'')
         \<or> claim_in (login_sub (cl_logins c)) (owned_claims db i (cl_workspace c) ''sub''))
       (workspace_accounts db (cl_workspace c)))"

datatype landing = Landed string string | NewAccount | LandingRefused string | LandingAmbiguous

fun land :: "login_db \<Rightarrow> string \<Rightarrow> claims \<Rightarrow> (string \<times> pg_account) list \<Rightarrow> landing \<Rightarrow> landing" where
  "land db user c [] selected = selected"
| "land db user c ((i, a) # owners) selected =
     (if \<not> identity_agrees db (Some (cl_workspace c)) (login_uid (cl_logins c)) (login_sub (cl_logins c)) i
      then LandingRefused ''alias_identity_conflict''
      else if cr_user_id (pga_record a) \<noteq> Some user then LandingRefused ''account_already_owned''
      else if selected \<noteq> NewAccount then LandingAmbiguous
      else land db user c owners (Landed i (cr_alias (pga_record a))))"

definition landing_of :: "login_db \<Rightarrow> string \<Rightarrow> claims \<Rightarrow> landing" where
  "landing_of db user c =
     (if list_ex (\<lambda>(i, _). incomparable db c i) (workspace_accounts db (cl_workspace c))
      then LandingRefused ''account_identity_unresolved''
      else land db user c (claim_owners db c) NewAccount)"

definition admissible :: "login_operation \<Rightarrow> nat \<Rightarrow> login_db \<Rightarrow> login_row \<Rightarrow> bool" where
  "admissible op now db r =
     (same_version op r \<and> lr_phase r = Candidate \<and> \<not> lr_cancel r \<and> now < lr_expires_at r
      \<and> holder_live now db (lo_holder op))"

text \<open>Another login's reservation that the selected account does not let this one repair.\<close>

definition blocked_by_reservation :: "login_operation \<Rightarrow> claims \<Rightarrow> string option \<Rightarrow> login_db \<Rightarrow> bool" where
  "blocked_by_reservation op c selected db =
     list_ex (\<lambda>(owner, r). owner \<noteq> op_key op
         \<and> \<not> (lr_phase r = Rejected
              \<and> (case selected of None \<Rightarrow> False
                 | Some i \<Rightarrow> identity_agrees db (lr_workspace r) (lr_uid r) (lr_sub r) i)))
       (reserved_rows db (cl_workspace c) (claim_keys c))"

definition new_account :: "string \<Rightarrow> login_operation \<Rightarrow> string \<Rightarrow> claims \<Rightarrow> credential_record" where
  "new_account sealed op account c =
     \<lparr>cr_account_id = account, cr_user_id = Some (lo_user op), cr_alias = lo_alias op,
      cr_workspace = Some (cl_workspace c), cr_login = login_sub (cl_logins c), cr_vault = sealed, cr_revision = 1\<rparr>"

definition insert_account :: "credential_record \<Rightarrow> login_db \<Rightarrow> login_db" where
  "insert_account r db =
     db\<lparr>ld_custody := (ld_custody db)\<lparr>pc_accounts := bt_put (cr_account_id r)
        \<lparr>pga_record = r, pga_deleted = False\<rparr> (pc_accounts (ld_custody db))\<rparr>\<rparr>"

text \<open>The account a candidate lands on: an existing one of its own, or a new one.\<close>

definition place_candidate ::
    "string \<Rightarrow> string \<Rightarrow> login_operation \<Rightarrow> claims \<Rightarrow> login_db
      \<Rightarrow> login_error + string + (string \<times> string option) \<times> login_db" where
  "place_candidate proposed sealed op c db =
     (case landing_of db (lo_user op) c of
        LandingAmbiguous \<Rightarrow> Inl AmbiguousIdentity
      | LandingRefused reason \<Rightarrow> Inr (Inl reason)
      | Landed i alias \<Rightarrow>
          if blocked_by_reservation op c (Some i) db then Inr (Inl ''relogin_reserved'')
          else if list_ex (\<lambda>r. lr_account r = Some i \<and> open_phase (lr_phase r)) (bt_values (ld_ops db))
          then Inr (Inl ''relogin_reserved'')
          else Inr (Inr ((i, Some alias), db))
      | NewAccount \<Rightarrow>
          if blocked_by_reservation op c None db then Inr (Inl ''relogin_reserved'')
          else if account_row db proposed \<noteq> None then Inr (Inl ''alias_exists'')
          else Inr (Inr ((proposed, None), insert_account (new_account sealed op proposed c) db)))"

text \<open>The admission transaction: an error or a refusal rolls everything back.\<close>

definition admit_add ::
    "string \<Rightarrow> string \<Rightarrow> login_operation \<Rightarrow> claims \<Rightarrow> nat \<Rightarrow> nat \<Rightarrow> login_db
      \<Rightarrow> login_error + string + (string \<times> string option) \<times> login_db" where
  "admit_add proposed sealed op c now later db =
     (if \<not> authority_live now db (lo_user op) (lo_authority op) then Inr (Inl ''login_canceled'')
      else
        (case bt_get (ld_ops db) (op_key op) of
           None \<Rightarrow> Inl LoginFenced
         | Some r \<Rightarrow>
             if \<not> (admissible op now db r \<and> lr_kind r = Add \<and> lr_account r = None) then Inl LoginFenced
             else if (case bt_get (ld_tombstones db) (lo_user op, ascii_lower (lo_alias op)) of
                        None \<Rightarrow> False | Some (_, deleted) \<Rightarrow> \<not> deleted)
             then Inr (Inl ''alias_renamed'')
             else if list_ex (\<lambda>(owner, s). owner \<noteq> op_key op \<and> lr_phase s \<noteq> Rejected)
                       (reserved_rows db (cl_workspace c) (claim_keys c))
             then Inr (Inl ''relogin_reserved'')
             else
               (case place_candidate proposed sealed op c db of
                  Inl e \<Rightarrow> Inl e
                | Inr (Inl reason) \<Rightarrow> Inr (Inl reason)
                | Inr (Inr ((account, landed), db1)) \<Rightarrow>
                    (case record_claims account c db1 of
                       Inl e \<Rightarrow> Inl e
                     | Inr db2 \<Rightarrow>
                         (case reserve_claims op account c db2 of
                            None \<Rightarrow> Inr (Inl ''relogin_reserved'')
                          | Some db3 \<Rightarrow>
                              (case update_row (op_key op) (admissible op now db3)
                                  (\<lambda>r. r\<lparr>lr_account := Some account, lr_landed_alias := landed,
                                         lr_sequence := lr_sequence r + 1\<rparr>) db3 of
                                 Inl e \<Rightarrow> Inl e
                               | Inr None \<Rightarrow> Inl LoginFenced
                               | Inr (Some (_, db4)) \<Rightarrow>
                                   if (case lo_authority op of Machine _ \<Rightarrow> False
                                       | Browser _ \<Rightarrow> \<not> authority_live later db4 (lo_user op) (lo_authority op))
                                   then Inl AuthorityEnded
                                   else Inr (Inr ((account, landed), db4))))))))"

text \<open>What the journal row of the login says after a transaction that failed: it was admitted at
  the next sequence, by that transaction or by an earlier one of the same copy.\<close>

definition admitted_row :: "login_operation \<Rightarrow> nat \<Rightarrow> login_db \<Rightarrow> (string \<times> string option) option" where
  "admitted_row op later db =
     (case bt_get (ld_ops db) (op_key op) of
        None \<Rightarrow> None
      | Some r \<Rightarrow>
          if same_incarnation op r \<and> lr_sequence r = lo_sequence op + 1
             \<and> lr_phase r = Candidate \<and> lr_kind r = Add \<and> later < lr_expires_at r
          then map_option (\<lambda>account. (account, lr_landed_alias r)) (lr_account r) else None)"

text \<open>\<open>acknowledged\<close>: the answers of the transaction arrived. When they did not, the transaction
  was settled nevertheless (\<open>committed\<close>) or rolled back. After any error the journal row is
  read again, which can fail too (\<open>reread\<close>).\<close>

definition login_admit_add ::
    "(string \<Rightarrow> claims option) \<Rightarrow> (string \<Rightarrow> string \<Rightarrow> string) \<Rightarrow> (login_operation \<Rightarrow> string)
      \<Rightarrow> bool \<Rightarrow> bool \<Rightarrow> bool \<Rightarrow> login_operation \<Rightarrow> nat \<Rightarrow> nat \<Rightarrow> login_db
      \<Rightarrow> (login_error + admission) \<times> login_operation \<times> login_db" where
  "login_admit_add claims_of key_of seal acknowledged committed reread op now later db =
     (case lp_candidate (lo_payload op) of
        None \<Rightarrow> (Inl CandidateMissing, op, db)
      | Some auth \<Rightarrow>
          (case claims_of auth of
             None \<Rightarrow> (Inl CandidateInvalid, op, db)
           | Some c \<Rightarrow>
               if claim_keys c = [] then (Inr (RefusedAdd ''account_identity_unresolved''), op, db)
               else
                 let tx = admit_add (key_of (lo_user op) (lo_alias op)) (seal op) op c now later db;
                     db1 = (case tx of Inr (Inr (_, db')) \<Rightarrow> if acknowledged \<or> committed then db' else db | _ \<Rightarrow> db);
                     ready = (\<lambda>account landed. op\<lparr>lo_account := Some account,
                       lo_payload := (lo_payload op)\<lparr>lp_landed := landed\<rparr>, lo_sequence := lo_sequence op + 1\<rparr>);
                     failed = (\<lambda>e. if \<not> reread then (Inl StorageFailed, op, db1)
                       else (case admitted_row op later db1 of
                               Some (account, landed) \<Rightarrow> (Inr Ready, ready account landed, db1)
                             | None \<Rightarrow>
                                 (if e = UniqueViolation then Inr (RefusedAdd ''relogin_reserved'') else Inl e, op, db1)))
                 in if \<not> acknowledged then failed StorageFailed
                    else (case tx of
                            Inl e \<Rightarrow> failed e
                          | Inr (Inl reason) \<Rightarrow> (Inr (RefusedAdd reason), op, db1)
                          | Inr (Inr ((account, landed), _)) \<Rightarrow> (Inr Ready, ready account landed, db1))))"

section \<open>Renewals and imports\<close>

definition known_with :: "login_db \<Rightarrow> string \<Rightarrow> claims \<Rightarrow> string \<Rightarrow> string list" where
  "known_with db account current ns =
     map snd (filter (\<lambda>(n, _). n = ns) (claim_keys current)) @ owned_claims db account (cl_workspace current) ns"

definition validate_login_candidate ::
    "(string \<Rightarrow> string option) \<Rightarrow> (string \<Rightarrow> claims option) \<Rightarrow> login_operation \<Rightarrow> login_db \<Rightarrow> login_error + unit" where
  "validate_login_candidate auth_of claims_of op db =
     (case Option.bind (lp_candidate (lo_payload op)) claims_of of
        None \<Rightarrow> Inl CandidateInvalid
      | Some candidate \<Rightarrow>
          (case lo_account op of
             None \<Rightarrow> Inl NoAccountReserved
           | Some account \<Rightarrow>
               (case account_row db account of
                  None \<Rightarrow> Inl AccountMissing
                | Some a \<Rightarrow>
                    if pga_deleted a \<or> cr_user_id (pga_record a) \<noteq> Some (lo_user op) then Inl AccountMissing
                    else
                      (case Option.bind (auth_of (cr_vault (pga_record a))) claims_of of
                         None \<Rightarrow> Inl CandidateInvalid
                       | Some current \<Rightarrow>
                           if cl_workspace current \<noteq> cl_workspace candidate
                              \<or> compare_claims (known_with db account current ''uid'')
                                   (known_with db account current ''sub'') (cl_logins candidate) \<noteq> SameIdentity
                           then Inl IdentityMismatch else Inr ()))))"

definition login_reserve_renewal ::
    "(string \<Rightarrow> claims option) \<Rightarrow> login_operation \<Rightarrow> nat \<Rightarrow> nat \<Rightarrow> login_db \<Rightarrow> (login_error + bool) \<times> login_db" where
  "login_reserve_renewal claims_of op now later db =
     (case Option.bind (lp_candidate (lo_payload op)) claims_of of
        None \<Rightarrow> (Inl CandidateInvalid, db)
      | Some c \<Rightarrow>
          (case lo_account op of
             None \<Rightarrow> (Inl NoAccountReserved, db)
           | Some account \<Rightarrow>
               (case bt_get (ld_ops db) (op_key op) of
                  None \<Rightarrow> (Inl LoginFenced, db)
                | Some r \<Rightarrow>
                    if \<not> (admissible op now db r \<and> lr_kind r = Renewal \<and> lr_account r = Some account)
                    then (Inl LoginFenced, db)
                    else if claimed_elsewhere db account c then (Inr False, db)
                    else
                      (case reserve_claims op account c db of
                         None \<Rightarrow> (Inr False, db)
                       | Some db' \<Rightarrow>
                           if admissible op later db' r then (Inr True, db') else (Inl LoginFenced, db)))))"

definition renamed_alias :: "login_db \<Rightarrow> string \<Rightarrow> string \<Rightarrow> string option" where
  "renamed_alias db user alias =
     (case bt_get (ld_tombstones db) (user, ascii_lower alias) of
        None \<Rightarrow> None | Some (target, deleted) \<Rightarrow> if deleted then None else Some target)"

section \<open>Retained identities\<close>

text \<open>The facts retained about a committed account, beside evidence found on a machine.\<close>

record retained =
  rt_workspace :: string
  rt_uids :: "string list"
  rt_subs :: "string list"

definition opt_list :: "'a option \<Rightarrow> 'a list" where
  "opt_list x = (case x of None \<Rightarrow> [] | Some a \<Rightarrow> [a])"

definition retained_from :: "claims \<Rightarrow> retained" where
  "retained_from c = \<lparr>rt_workspace = cl_workspace c, rt_uids = opt_list (login_uid (cl_logins c)),
     rt_subs = opt_list (login_sub (cl_logins c))\<rparr>"

definition with_auth :: "retained \<Rightarrow> claims \<Rightarrow> (string list \<times> string list) option" where
  "with_auth t current =
     (if cl_workspace current \<noteq> rt_workspace t then None
      else if (rt_uids t \<noteq> [] \<or> rt_subs t \<noteq> [])
              \<and> compare_claims (rt_uids t) (rt_subs t) (cl_logins current) \<noteq> SameIdentity then None
      else Some (opt_list (login_uid (cl_logins current)) @ rt_uids t,
                 opt_list (login_sub (cl_logins current)) @ rt_subs t))"

definition disjoint_lists :: "'a list \<Rightarrow> 'a list \<Rightarrow> bool" where
  "disjoint_lists xs ys = list_all (\<lambda>x. x \<notin> set ys) xs"

text \<open>\<open>None\<close>: the sources contradict each other.\<close>

definition overlaps :: "retained \<Rightarrow> claims \<Rightarrow> retained \<Rightarrow> claims \<Rightarrow> bool option" where
  "overlaps t auth other arriving =
     (if rt_workspace t \<noteq> rt_workspace other \<and> rt_workspace t \<noteq> cl_workspace arriving
         \<and> cl_workspace auth \<noteq> rt_workspace other \<and> cl_workspace auth \<noteq> cl_workspace arriving
      then Some False
      else
        (case (with_auth t auth, with_auth other arriving) of
           (Some (lu, ls), Some (ru, rs)) \<Rightarrow>
             if rt_workspace t \<noteq> rt_workspace other then Some False
             else Some (\<not> disjoint_lists lu ru \<or> \<not> disjoint_lists ls rs
                        \<or> (lu = [] \<or> ru = []) \<and> (ls = [] \<or> rs = []))
         | _ \<Rightarrow> None))"

end
