(* ===== verification/SharedReset.thy ===== *)
theory SharedReset
  imports LoginIdentity
begin

text \<open>
  Redemption of a banked reset shared between replicas (\<open>src/central/storage/resets.rs\<close>,
  \<open>src/central/resets/shared.rs\<close>) and the removal of an account
  (\<open>src/central/storage/removal.rs\<close>): the custody lock, the journal row and its
  compare-and-swap writes, the loops that reserve and settle an intent while other replicas
  write between a read and its write, and the removal transaction with the checks that
  read the journal of logins, the loans, the leases and the custody.
\<close>

record caller =
  ca_user :: string
  ca_authority :: authority
  ca_actor :: "string option"

datatype reset_refusal =
  RefAuthorityEnded | RefFreshSignIn | RefAccountNotFound | RefAccountChanged | RefLoginPending
| RefRefreshInProgress | RefRoutingUnverified | RefInProgress | RefBusy | RefNothing | RefNoCredit
| RefIntentChanged | RefRead | RefNoAnswer | RefRejected

section \<open>Authority, custody and the journal row\<close>

definition fresh_sign_in :: "nat \<Rightarrow> session_row \<Rightarrow> bool" where
  "fresh_sign_in now s = (sn_verified s \<and> now \<le> sn_signed_in s + 630 \<and> sn_signed_in s \<le> now + 30)"

definition reset_authorize :: "caller \<Rightarrow> nat \<Rightarrow> login_db \<Rightarrow> reset_refusal option" where
  "reset_authorize c now db =
     (if \<not> authority_live now db (ca_user c) (ca_authority c) then Some RefAuthorityEnded
      else
        (case ca_authority c of
           Machine _ \<Rightarrow> None
         | Browser session \<Rightarrow>
             (case bt_get (at_sessions (ld_auth db)) session of
                None \<Rightarrow> Some RefFreshSignIn
              | Some s \<Rightarrow>
                  if sn_user s = ca_user c \<and> now < sn_expires_at s \<and> fresh_sign_in now s
                  then None else Some RefFreshSignIn)))"

definition reset_custody :: "string \<Rightarrow> login_db \<Rightarrow> (reset_refusal + unit) \<times> login_db" where
  "reset_custody account db =
     (if reset_free db account then (Inr (), db\<lparr>ld_reset_custody := account # ld_reset_custody db\<rparr>)
      else (Inl RefInProgress, db))"

text \<open>Dropping the custody closes its session.\<close>

definition drop_custody :: "string \<Rightarrow> login_db \<Rightarrow> login_db" where
  "drop_custody account db = db\<lparr>ld_reset_custody := remove1 account (ld_reset_custody db)\<rparr>"

definition owned_account :: "login_db \<Rightarrow> string \<Rightarrow> string \<Rightarrow> pg_account option" where
  "owned_account db user account =
     (case account_row db account of
        None \<Rightarrow> None
      | Some a \<Rightarrow> if cr_user_id (pga_record a) = Some user \<and> \<not> pga_deleted a then Some a else None)"

definition reset_journal :: "string \<Rightarrow> string \<Rightarrow> login_db \<Rightarrow> reset_refusal + int \<times> journal" where
  "reset_journal user account db =
     (if owned_account db user account = None then Inl RefAccountNotFound
      else
        (case bt_get (ld_resets db) account of
           None \<Rightarrow> Inr (0, empty_journal)
         | Some r \<Rightarrow> if rr_deleted r then Inl RefAccountNotFound else Inr (rr_revision r, rr_journal r)))"

section \<open>Writing the journal\<close>

definition login_pending :: "login_db \<Rightarrow> string \<Rightarrow> string \<Rightarrow> bool" where
  "login_pending db account user =
     list_ex (\<lambda>r. fences db account r
         \<or> lr_account r = Some account \<and> lr_phase r \<in> {Starting, Pending}
         \<or> lr_user r = user \<and> lr_phase r \<in> {Starting, Pending} \<and> lr_kind r = Add) (bt_values (ld_ops db))"

definition foreign_lease :: "login_db \<Rightarrow> string \<Rightarrow> string \<Rightarrow> bool" where
  "foreign_lease db account holder =
     (case bt_get (pc_leases (ld_custody db)) account of
        None \<Rightarrow> False | Some l \<Rightarrow> \<not> pgl_released l \<and> pgl_holder l \<noteq> holder)"

definition evidence_max_age :: nat where "evidence_max_age = 60"

definition routed :: "nat \<Rightarrow> login_db \<Rightarrow> string \<Rightarrow> int \<Rightarrow> string \<Rightarrow> bool" where
  "routed now db account account_revision auth_revision =
     (case bt_get (ld_evidence db) account of
        None \<Rightarrow> False
      | Some e \<Rightarrow> er_account_revision e = account_revision \<and> er_auth_revision e = auth_revision
          \<and> er_routing e \<and> \<not> er_deleted e \<and> now < er_observed_at e + evidence_max_age)"

datatype reset_write =
  Reserve caller int string string
| Settle "(string \<times> string) option" consume_code

definition reserve_refused :: "caller \<Rightarrow> int \<Rightarrow> string \<Rightarrow> string \<Rightarrow> string \<Rightarrow> string \<Rightarrow> nat \<Rightarrow> login_db \<Rightarrow> reset_refusal option" where
  "reserve_refused c account_revision auth_revision holder user account now db =
     (if ca_user c \<noteq> user then Some RefAccountNotFound
      else
        (case reset_authorize c now db of
           Some e \<Rightarrow> Some e
         | None \<Rightarrow>
             (case owned_account db user account of
                None \<Rightarrow> Some RefAccountNotFound
              | Some a \<Rightarrow>
                  if cr_revision (pga_record a) \<noteq> account_revision then Some RefAccountChanged
                  else if login_pending db account (ca_user c) then Some RefLoginPending
                  else if foreign_lease db account holder then Some RefRefreshInProgress
                  else if \<not> routed now db account account_revision auth_revision then Some RefRoutingUnverified
                  else None)))"

definition swap_journal :: "string \<Rightarrow> int \<Rightarrow> journal \<Rightarrow> login_db \<Rightarrow> login_db option" where
  "swap_journal account expected j db =
     (case bt_get (ld_resets db) account of
        None \<Rightarrow>
          if expected = 0
          then Some (db\<lparr>ld_resets := bt_put account \<lparr>rr_revision = 1, rr_journal = j, rr_deleted = False\<rparr> (ld_resets db)\<rparr>)
          else None
      | Some r \<Rightarrow>
          if expected \<noteq> 0 \<and> rr_revision r = expected \<and> \<not> rr_deleted r
          then Some (db\<lparr>ld_resets := bt_put account (r\<lparr>rr_revision := rr_revision r + 1, rr_journal := j\<rparr>) (ld_resets db)\<rparr>)
          else None)"

fun reset_result :: "consume_code \<Rightarrow> string" where
  "reset_result ResetDone = ''ok:reset''"
| "reset_result AlreadyRedeemed = ''ok:already_redeemed''"
| "reset_result NothingToReset = ''refused:nothing_to_reset''"
| "reset_result NoCredit = ''refused:no_credit''"
| "reset_result UnknownCode = ''failed:reset_rejected''"

text \<open>A reset that may have changed the windows retires the account's usage evidence.\<close>

definition settle_effects :: "string \<Rightarrow> (string \<times> string) option \<Rightarrow> consume_code \<Rightarrow> login_db \<Rightarrow> login_db" where
  "settle_effects account audit code db =
     (let db1 = (if code \<in> {ResetDone, AlreadyRedeemed, UnknownCode}
            then (case bt_get (ld_evidence db) account of
                    None \<Rightarrow> db
                  | Some e \<Rightarrow> db\<lparr>ld_evidence := bt_put account (e\<lparr>er_deleted := True\<rparr>) (ld_evidence db)\<rparr>)
            else db)
      in case audit of
           None \<Rightarrow> db1
         | Some (actor, attempt) \<Rightarrow>
             if bt_has (ld_reset_audit db1) attempt then db1
             else db1\<lparr>ld_reset_audit := bt_put attempt
                    (actor, ''account_reset'', account, reset_result code) (ld_reset_audit db1)\<rparr>)"

definition write_reset_journal ::
    "string \<Rightarrow> string \<Rightarrow> int \<Rightarrow> journal \<Rightarrow> reset_write \<Rightarrow> nat \<Rightarrow> nat \<Rightarrow> login_db
      \<Rightarrow> (reset_refusal + bool) \<times> login_db" where
  "write_reset_journal user account expected j stage now later db =
     (case (case stage of
              Reserve c account_revision auth_revision holder \<Rightarrow>
                reserve_refused c account_revision auth_revision holder user account now db
            | Settle _ _ \<Rightarrow> if owned_account db user account = None then Some RefAccountNotFound else None) of
        Some e \<Rightarrow> (Inl e, db)
      | None \<Rightarrow>
          (case swap_journal account expected j db of
             None \<Rightarrow>
               (case stage of
                  Reserve c _ _ _ \<Rightarrow>
                    (case reset_authorize c later db of Some e \<Rightarrow> (Inl e, db) | None \<Rightarrow> (Inr False, db))
                | Settle _ _ \<Rightarrow> (Inr False, db))
           | Some db1 \<Rightarrow>
               (case stage of
                  Reserve c _ _ _ \<Rightarrow>
                    (case reset_authorize c later db1 of Some e \<Rightarrow> (Inl e, db) | None \<Rightarrow> (Inr True, db1))
                | Settle audit code \<Rightarrow> (Inr True, settle_effects account audit code db1))))"

section \<open>Reserving and settling an intent\<close>

text \<open>One round of a loop: what the provider reads answer, the clock, and what other replicas
  do between this replica's read of the journal and its write.\<close>

record round =
  rd_usage :: "redeem_error + int"
  rd_details :: "redeem_error + reset_credit list"
  rd_clock :: int
  rd_now :: nat
  rd_later :: nat
  rd_between :: "login_db \<Rightarrow> login_db"

datatype reserved = Replayed consume_response | Prepared pending | ReserveRefused reset_refusal

definition shared_prepare ::
    "(string \<Rightarrow> int option) \<Rightarrow> (string \<Rightarrow> string) \<Rightarrow> caller \<Rightarrow> string \<Rightarrow> round \<Rightarrow> reset_refusal + pending" where
  "shared_prepare parse key_of c request rd =
     (case rd_usage rd of
        Inl _ \<Rightarrow> Inl RefRead
      | Inr applicable \<Rightarrow>
          if applicable \<le> 0 then Inl RefNothing
          else
            (case rd_details rd of
               Inl _ \<Rightarrow> Inl RefRead
             | Inr credits \<Rightarrow>
                 (case min_by (expiry_cmp parse) (redeemable parse (rd_clock rd) credits) of
                    None \<Rightarrow> Inl RefNoCredit
                  | Some cr \<Rightarrow>
                      Inr \<lparr>pd_request = request, pd_credit = rc_id cr, pd_upstream = key_of request,
                           pd_actor = ca_actor c, pd_joined = []\<rparr>)))"

definition shared_join :: "caller \<Rightarrow> string \<Rightarrow> pending \<Rightarrow> reset_refusal + pending" where
  "shared_join c request p =
     (case pending_join request p of
        Inl _ \<Rightarrow> Inl RefBusy
      | Inr (_, p') \<Rightarrow> Inr (p'\<lparr>pd_actor := (case pd_actor p' of None \<Rightarrow> ca_actor c | Some a \<Rightarrow> Some a)\<rparr>))"

fun reserve_intent ::
    "(string \<Rightarrow> int option) \<Rightarrow> (string \<Rightarrow> string) \<Rightarrow> caller \<Rightarrow> int \<Rightarrow> string \<Rightarrow> string \<Rightarrow> string \<Rightarrow> string
      \<Rightarrow> round list \<Rightarrow> login_db \<Rightarrow> reserved \<times> login_db" where
  "reserve_intent parse key_of c account_revision auth_revision holder account request [] db =
     (ReserveRefused RefBusy, db)"
| "reserve_intent parse key_of c account_revision auth_revision holder account request (rd # rounds) db =
     (case reset_journal (ca_user c) account db of
        Inl e \<Rightarrow> (ReserveRefused e, db)
      | Inr (version, j) \<Rightarrow>
          (case bt_get (jn_completed j) request of
             Some r \<Rightarrow> (Replayed r, db)
           | None \<Rightarrow>
               (case (case jn_pending j of Some p \<Rightarrow> shared_join c request p
                      | None \<Rightarrow> shared_prepare parse key_of c request rd) of
                  Inl e \<Rightarrow> (ReserveRefused e, db)
                | Inr p \<Rightarrow>
                    (case write_reset_journal (ca_user c) account version (j\<lparr>jn_pending := Some p\<rparr>)
                            (Reserve c account_revision auth_revision holder) (rd_now rd) (rd_later rd)
                            (rd_between rd db) of
                       (Inl e, db1) \<Rightarrow> (ReserveRefused e, db1)
                     | (Inr True, db1) \<Rightarrow> (Prepared p, db1)
                     | (Inr False, db1) \<Rightarrow>
                         reserve_intent parse key_of c account_revision auth_revision holder account request rounds db1))))"

text \<open>Settling needs the intent that was reserved, by its key.\<close>

fun settle_intent ::
    "caller \<Rightarrow> string \<Rightarrow> string \<Rightarrow> pending \<Rightarrow> consume_response \<Rightarrow> round list \<Rightarrow> login_db
      \<Rightarrow> (reset_refusal + consume_response) \<times> login_db" where
  "settle_intent c account request p response [] db = (Inl RefBusy, db)"
| "settle_intent c account request p response (rd # rounds) db =
     (case reset_journal (ca_user c) account db of
        Inl e \<Rightarrow> (Inl e, db)
      | Inr (version, j) \<Rightarrow>
          (case bt_get (jn_completed j) request of
             Some r \<Rightarrow> ((case receipt True r of Inl _ \<Rightarrow> Inl RefRejected | Inr x \<Rightarrow> Inr x), db)
           | None \<Rightarrow>
               (case jn_pending j of
                  None \<Rightarrow> (Inl RefBusy, db)
                | Some current \<Rightarrow>
                    if pd_upstream current \<noteq> pd_upstream p then (Inl RefIntentChanged, db)
                    else
                      (case write_reset_journal (ca_user c) account version
                              (complete (pd_joined current @ [pd_request current]) response (j\<lparr>jn_pending := None\<rparr>))
                              (Settle (map_option (\<lambda>actor. (actor, ''reset-outcome:'' @ pd_upstream current))
                                         (pd_actor current)) (cs_code response))
                              (rd_now rd) (rd_later rd) (rd_between rd db) of
                         (Inl e, db1) \<Rightarrow> (Inl e, db1)
                       | (Inr True, db1) \<Rightarrow>
                           ((case receipt False response of Inl _ \<Rightarrow> Inl RefRejected | Inr x \<Rightarrow> Inr x), db1)
                       | (Inr False, db1) \<Rightarrow> settle_intent c account request p response rounds db1))))"

text \<open>The whole redemption under custody; the list says which key and credit were spent.\<close>

definition shared_execute ::
    "(string \<Rightarrow> int option) \<Rightarrow> (string \<Rightarrow> string) \<Rightarrow> caller \<Rightarrow> int \<Rightarrow> string \<Rightarrow> string \<Rightarrow> string \<Rightarrow> string
      \<Rightarrow> round list \<Rightarrow> provider_answer \<Rightarrow> round list \<Rightarrow> login_db
      \<Rightarrow> (reset_refusal + consume_response) \<times> login_db \<times> redeem_event list" where
  "shared_execute parse key_of c account_revision auth_revision holder account request rounds answer settling db =
     (case reserve_intent parse key_of c account_revision auth_revision holder account request (take 8 rounds) db of
        (ReserveRefused e, db1) \<Rightarrow> (Inl e, db1, [])
      | (Replayed r, db1) \<Rightarrow> ((case receipt True r of Inl _ \<Rightarrow> Inl RefRejected | Inr x \<Rightarrow> Inr x), db1, [])
      | (Prepared p, db1) \<Rightarrow>
          (case (case answer of Answered r \<Rightarrow> Some r | ProviderRejected \<Rightarrow> Some unknown_response | _ \<Rightarrow> None) of
             None \<Rightarrow> (Inl RefNoAnswer, db1, [Spend (pd_upstream p) (pd_credit p)])
           | Some response \<Rightarrow>
               (case settle_intent c account request p response (take 8 settling) db1 of
                  (res, db2) \<Rightarrow> (res, db2, [Spend (pd_upstream p) (pd_credit p)]))))"

section \<open>Removing an account\<close>

record removal_request =
  rm_alias :: string
  rm_attempt :: string
  rm_account :: string
  rm_revision :: int
  rm_confirmation :: string

datatype removal_action = Inspect | Commit
datatype removal_result = RemovalReady | Removed | AlreadyRemoved
datatype removal_refusal =
  RmSignIn | RmFreshSignIn | RmResetInProgress | RmNotFound | RmConfirmationChanged | RmAttemptConflict
| RmAccountRemoved | RmAccountLent | RmLoginPending | RmRefreshInProgress | RmActorMissing

definition removal_authorize :: "caller \<Rightarrow> nat \<Rightarrow> login_db \<Rightarrow> removal_refusal option" where
  "removal_authorize c now db =
     (case ca_authority c of
        Machine _ \<Rightarrow> Some RmSignIn
      | Browser session \<Rightarrow>
          if \<not> authority_live now db (ca_user c) (ca_authority c) then Some RmSignIn
          else
            (case bt_get (at_sessions (ld_auth db)) session of
               None \<Rightarrow> Some RmFreshSignIn
             | Some s \<Rightarrow> if fresh_sign_in now s then None else Some RmFreshSignIn))"

definition removal_receipt :: "caller \<Rightarrow> string \<Rightarrow> removal_request \<Rightarrow> pg_account \<Rightarrow> login_db
    \<Rightarrow> (removal_refusal + removal_result) option" where
  "removal_receipt c actor q a db =
     (case bt_get (ld_audit db) (rm_attempt q) of
        None \<Rightarrow> None
      | Some (by, operation, target, result) \<Rightarrow>
          Some (if by = actor \<and> operation = ''account_remove'' \<and> target = rm_account q \<and> result = ''ok''
                   \<and> pga_deleted a \<and> rm_revision q + 1 \<le> i64_max \<and> rm_revision q + 1 = cr_revision (pga_record a)
                then Inr AlreadyRemoved else Inl RmAttemptConflict))"

text \<open>An unended loan of the account, and why an account may not be removed now.\<close>

definition lent :: "string \<Rightarrow> pg_ledger \<Rightarrow> bool" where
  "lent account loans =
     list_ex (\<lambda>g. g_account_id g = account \<and> g_ended_at g = None \<and> g_deleted_at g = None) (pl_loans loans)"

definition removal_refused ::
    "bool \<Rightarrow> caller \<Rightarrow> removal_request \<Rightarrow> string \<Rightarrow> pg_account \<Rightarrow> login_db \<Rightarrow> removal_refusal option" where
  "removal_refused is_lent c q holder a db =
     (if pga_deleted a then Some RmAccountRemoved
      else if cr_revision (pga_record a) \<noteq> rm_revision q then Some RmConfirmationChanged
      else if is_lent then Some RmAccountLent
      else if login_pending db (rm_account q) (ca_user c) then Some RmLoginPending
      else if foreign_lease db (rm_account q) holder then Some RmRefreshInProgress
      else None)"

definition tombstone_account :: "string \<Rightarrow> string \<Rightarrow> nat \<Rightarrow> string \<Rightarrow> string \<Rightarrow> login_db \<Rightarrow> login_db" where
  "tombstone_account account holder now actor attempt db =
     db\<lparr>ld_custody := pg_tombstone account holder now (ld_custody db),
        ld_live := map (\<lambda>((a, m), seen, deleted). ((a, m), seen, deleted \<or> a = account)) (ld_live db),
        ld_resets := (case bt_get (ld_resets db) account of
                        None \<Rightarrow> ld_resets db
                      | Some r \<Rightarrow> bt_put account (r\<lparr>rr_deleted := True\<rparr>) (ld_resets db)),
        ld_audit := bt_put attempt (actor, ''account_remove'', account, ''ok'') (ld_audit db)\<rparr>"

definition remove_account ::
    "pg_ledger \<Rightarrow> caller \<Rightarrow> removal_request \<Rightarrow> string \<Rightarrow> removal_action \<Rightarrow> nat \<Rightarrow> nat \<Rightarrow> login_db
      \<Rightarrow> (removal_refusal + removal_result) \<times> login_db" where
  "remove_account loans c q holder action now later db =
     (case removal_authorize c now db of
        Some e \<Rightarrow> (Inl e, db)
      | None \<Rightarrow>
          if \<not> reset_free db (rm_account q) then (Inl RmResetInProgress, db)
          else
            (case account_row db (rm_account q) of
               None \<Rightarrow> (Inl RmNotFound, db)
             | Some a \<Rightarrow>
                 if cr_user_id (pga_record a) \<noteq> Some (ca_user c) then (Inl RmNotFound, db)
                 else if rm_alias q \<noteq> cr_alias (pga_record a) \<or> rm_confirmation q \<noteq> cr_alias (pga_record a)
                 then (Inl RmConfirmationChanged, db)
                 else
                   (case ca_actor c of
                      None \<Rightarrow> (Inl RmActorMissing, db)
                    | Some actor \<Rightarrow>
                        (case removal_receipt c actor q a db of
                           Some res \<Rightarrow> (res, db)
                         | None \<Rightarrow>
                             (case removal_refused (lent (rm_account q) loans) c q holder a db of
                                Some e \<Rightarrow> (Inl e, db)
                              | None \<Rightarrow>
                                  if action = Inspect then (Inr RemovalReady, db)
                                  else
                                    let db1 = tombstone_account (rm_account q) holder now actor (rm_attempt q) db in
                                    (case removal_authorize c later db1 of
                                       Some e \<Rightarrow> (Inl e, db)
                                     | None \<Rightarrow> (Inr Removed, db1)))))))"

end
