(* ===== verification/SharedAccounts.thy ===== *)
theory SharedAccounts
  imports SharedReset
begin

text \<open>
  Publication of a credential in PostgreSQL together with its identity claims
  (\<open>PostgresStore::fenced_write_observed\<close> and \<open>PostgresStore::save_account\<close> of
  \<open>src/central/storage.rs\<close>, \<open>check_import_identity\<close> of \<open>src/central/storage/identity.rs\<close>).
  \<open>Leases\<close> takes the answer of the claims as an argument; here they are the tables of the
  login journal. The routing observation written beside a credential is left out.
\<close>

definition recorded :: "string \<Rightarrow> claims option \<Rightarrow> login_db \<Rightarrow> login_error + login_db" where
  "recorded account c db = (case c of None \<Rightarrow> Inr db | Some cl \<Rightarrow> record_claims account cl db)"

definition store_record :: "credential_record \<Rightarrow> login_db \<Rightarrow> login_db" where
  "store_record r db =
     db\<lparr>ld_custody := (ld_custody db)\<lparr>pc_accounts := bt_put (cr_account_id r)
        \<lparr>pga_record = r, pga_deleted = False\<rparr> (pc_accounts (ld_custody db))\<rparr>\<rparr>"

definition fenced_write_db ::
    "(string \<Rightarrow> string option) \<Rightarrow> (string \<Rightarrow> claims option) \<Rightarrow> lease \<Rightarrow> credential_record \<Rightarrow> nat \<Rightarrow> login_db
      \<Rightarrow> ((login_error + store_error) + bool) \<times> login_db" where
  "fenced_write_db auth_of claims_of l r now db =
     (if l_account l \<noteq> cr_account_id r then (Inl (Inr LeaseAccountMismatch), db)
      else
        (case claims_from_record auth_of claims_of r of
           Inl e \<Rightarrow> (Inl (Inl e), db)
         | Inr c \<Rightarrow>
             (case account_row db (cr_account_id r) of
                None \<Rightarrow> (Inr False, db)
              | Some a \<Rightarrow>
                  if pga_deleted a \<or> \<not> lease_current l now db then (Inr False, db)
                  else if cr_revision (pga_record a) < cr_revision r
                  then (case recorded (cr_account_id r) c (store_record r db) of
                          Inl _ \<Rightarrow> (Inr False, db) | Inr db' \<Rightarrow> (Inr True, db'))
                  else (Inr (cr_revision (pga_record a) = cr_revision r
                             \<and> cr_vault (pga_record a) = cr_vault r), db))))"

definition save_account_db ::
    "(string \<Rightarrow> string option) \<Rightarrow> (string \<Rightarrow> claims option) \<Rightarrow> credential_record \<Rightarrow> login_db
      \<Rightarrow> ((login_error + store_error) + unit) \<times> login_db" where
  "save_account_db auth_of claims_of r db =
     (case claims_from_record auth_of claims_of r of
        Inl e \<Rightarrow> (Inl (Inl e), db)
      | Inr c \<Rightarrow>
          (let stored = account_row db (cr_account_id r);
               removed = (case stored of None \<Rightarrow> False | Some a \<Rightarrow> pga_deleted a);
               changed = (case stored of None \<Rightarrow> True | Some a \<Rightarrow> cr_revision (pga_record a) < cr_revision r)
           in if removed then (Inl (Inr AccountWasRemoved), db)
              else
                (case (case c of None \<Rightarrow> None | Some cl \<Rightarrow> check_claims (cr_account_id r) cl db) of
                   Some e \<Rightarrow> (Inl (Inl e), db)
                 | None \<Rightarrow>
                     if changed
                     then (case recorded (cr_account_id r) c (store_record r db) of
                             Inl e \<Rightarrow> (Inl (Inl e), db) | Inr db' \<Rightarrow> (Inr (), db'))
                     else if map_option (\<lambda>a. cr_vault (pga_record a)) stored = Some (cr_vault r)
                     then (Inr (), db) else (Inl (Inr WriteFenced), db))))"

definition check_import_identity ::
    "(string \<Rightarrow> claims option) \<Rightarrow> string \<Rightarrow> string \<Rightarrow> login_db \<Rightarrow> login_error + unit" where
  "check_import_identity claims_of account auth db =
     (case claims_of auth of
        None \<Rightarrow> Inl CandidateInvalid
      | Some c \<Rightarrow> (case check_claims account c db of Some e \<Rightarrow> Inl e | None \<Rightarrow> Inr ()))"

section \<open>Recording claims only adds claims\<close>

definition claims_grow :: "login_db \<Rightarrow> login_db \<Rightarrow> bool" where
  "claims_grow db db' =
     (\<exists>x y. db' = db\<lparr>ld_claims := x, ld_legacy_claims := y\<rparr>
        \<and> (\<forall>k v. bt_get (ld_claims db) k = Some v \<longrightarrow> bt_get x k = Some v))"

lemma claims_grow_refl [simp, intro]: "claims_grow db db"
  unfolding claims_grow_def by (rule exI [of _ "ld_claims db"], rule exI [of _ "ld_legacy_claims db"]) simp

lemma claims_grow_trans: "claims_grow a b \<Longrightarrow> claims_grow b c \<Longrightarrow> claims_grow a c"
  unfolding claims_grow_def
proof (elim exE conjE)
  fix x y x' y'
  assume "b = a\<lparr>ld_claims := x, ld_legacy_claims := y\<rparr>" "c = b\<lparr>ld_claims := x', ld_legacy_claims := y'\<rparr>"
    and "\<forall>k v. bt_get (ld_claims a) k = Some v \<longrightarrow> bt_get x k = Some v"
    and "\<forall>k v. bt_get (ld_claims b) k = Some v \<longrightarrow> bt_get x' k = Some v"
  then show "\<exists>x y. c = a\<lparr>ld_claims := x, ld_legacy_claims := y\<rparr>
      \<and> (\<forall>k v. bt_get (ld_claims a) k = Some v \<longrightarrow> bt_get x k = Some v)"
    by (intro exI [of _ x'] exI [of _ y']) simp
qed

lemma claim_insert_grows:
  "claim_insert key account t = Some t' \<Longrightarrow> bt_get t k = Some v \<Longrightarrow> bt_get t' k = Some v"
  by (auto simp: claim_insert_def split: option.splits if_splits)

lemma record_claim_grows: "record_claim account w key db = Inr db' \<Longrightarrow> claims_grow db db'"
  by (auto simp: record_claim_def claims_grow_def split: option.splits) (blast intro: claim_insert_grows)

lemma fold_claims_grow:
  "fold (\<lambda>key res. case res of Inl e \<Rightarrow> Inl e | Inr d \<Rightarrow> record_claim account w key d) keys (Inr db) = Inr db'
     \<Longrightarrow> claims_grow db db'"
proof (induction keys arbitrary: db)
  case (Cons key keys)
  have stuck: "fold (\<lambda>key res. case res of Inl e \<Rightarrow> Inl e | Inr d \<Rightarrow> record_claim account w key d) ks (Inl e) = Inl e"
    for ks e by (induction ks) auto
  from Cons.prems obtain d where "record_claim account w key db = Inr d"
    "fold (\<lambda>key res. case res of Inl e \<Rightarrow> Inl e | Inr d \<Rightarrow> record_claim account w key d) keys (Inr d) = Inr db'"
    by (cases "record_claim account w key db") (auto simp: stuck)
  with Cons.IH show ?case by (blast intro: claims_grow_trans record_claim_grows)
qed simp

lemma record_claims_grow: "record_claims account c db = Inr db' \<Longrightarrow> claims_grow db db'"
  by (auto simp: record_claims_def split: if_splits dest: fold_claims_grow)

lemma recorded_grow: "recorded account c db = Inr db' \<Longrightarrow> claims_grow db db'"
  by (auto simp: recorded_def split: option.splits dest: record_claims_grow)

lemma claims_grow_custody: "claims_grow db db' \<Longrightarrow> ld_custody db' = ld_custody db"
  by (auto simp: claims_grow_def)

section \<open>The fenced store of Leases is implemented\<close>

lemma put_live_record: "\<not> pga_deleted a \<Longrightarrow> a\<lparr>pga_record := r\<rparr> = \<lparr>pga_record = r, pga_deleted = False\<rparr>"
  by (cases a) simp

lemma fenced_write_db_refines:
  assumes "claims_from_record auth_of claims_of r = Inr c"
  shows "let (res, db') = fenced_write_db auth_of claims_of l r now db;
             denied = (case recorded (cr_account_id r) c (store_record r db) of Inl _ \<Rightarrow> True | Inr _ \<Rightarrow> False)
         in (case res of Inl (Inl _) \<Rightarrow> False | Inl (Inr e) \<Rightarrow> (Inl e, ld_custody db')
                  = pg_fenced_write denied l r now (ld_custody db)
              | Inr b \<Rightarrow> (Inr b, ld_custody db') = pg_fenced_write denied l r now (ld_custody db))"
proof (cases "l_account l = cr_account_id r")
  case same: True
  show ?thesis
  proof (cases "account_row db (cr_account_id r)")
    case None
    with same assms show ?thesis
      by (simp add: fenced_write_db_def pg_fenced_write_def account_row_def)
  next
    case (Some a)
    obtain res where res: "recorded (cr_account_id r) c (store_record r db) = res" by blast
    show ?thesis
    proof (cases res)
      case (Inl e)
      with same assms Some res show ?thesis
        by (auto simp: fenced_write_db_def pg_fenced_write_def account_row_def lease_current_def Let_def
            split: option.splits if_splits)
    next
      case (Inr db')
      with res have "ld_custody db' = ld_custody (store_record r db)"
        using recorded_grow claims_grow_custody by blast
      with Inr same assms Some res show ?thesis
        by (auto simp: fenced_write_db_def pg_fenced_write_def account_row_def lease_current_def Let_def store_record_def put_live_record
            split: option.splits if_splits)
    qed
  qed
qed (use assms in \<open>simp add: fenced_write_db_def pg_fenced_write_def\<close>)

end
