(* ===== verification/LoginRuns.thy ===== *)
theory LoginRuns
  imports SharedAccounts
begin

text \<open>
  Runs of every replica over the shared tables. An action is one transaction of some
  replica, with whatever copy of a row, lease, journal or request that replica happens to
  hold, however old; the clock only moves forward, and time may pass between the first and
  the last statement of a transaction. The relation \<open>change\<close> says what one primitive write
  to the tables may do, and every action is a sequence of such writes.
\<close>

section \<open>Actions\<close>

text \<open>What the deployment supplies: the decoders of credentials and the naming of accounts.\<close>

record login_env =
  ev_auth :: "string \<Rightarrow> string option"
  ev_claims :: "string \<Rightarrow> claims option"
  ev_subject :: "string \<Rightarrow> string option"
  ev_key :: "string \<Rightarrow> string \<Rightarrow> string"
  ev_seal :: "login_operation \<Rightarrow> string"

datatype login_action =
  RegisterHolder bool string | RenewHolder string | ReleaseHolder string
| GetLogin string string | ActiveAlias string string
| CreateLogin login_operation | CancelLogin login_operation | HeartbeatLogin login_operation
| SaveLogin login_operation login_phase | AuditTerminal login_operation
| RecoverPolling login_operation string | TakeCandidate login_operation string
| RecoverUnresolved login_operation string | PollingAbsence login_operation bool
| UnpublishedGrant login_operation | PollingClear login_operation
| TakeFailure login_operation string bool
| LegacyHandoff | LoginLease login_operation string
| BeginVerification login_operation lease
| CompleteLogin login_operation lease credential_record int
| AdmitAdd bool bool bool login_operation | ReserveRenewal login_operation
| RefreshLease string string nat | RenewLease lease nat | ReleaseLease lease
| PublishAccount lease credential_record | SaveAccount credential_record
| TakeReset string | DropReset string | WriteReset string string int journal reset_write
| RemoveAccount pg_ledger caller removal_request string removal_action
| ReplaceAuth auth_tables

fun login_act :: "login_env \<Rightarrow> nat \<Rightarrow> nat \<Rightarrow> login_db \<Rightarrow> login_action \<Rightarrow> login_db" where
  "login_act env now later db (RegisterHolder linux h) = snd (login_register_holder linux h now db)"
| "login_act env now later db (RenewHolder h) = snd (login_renew_holder h now db)"
| "login_act env now later db (ReleaseHolder h) = login_release_holder h now db"
| "login_act env now later db (GetLogin user i) = snd (login_get now user i db)"
| "login_act env now later db (ActiveAlias user a) = snd (login_active_alias now user a db)"
| "login_act env now later db (CreateLogin op) = snd (login_create op now db)"
| "login_act env now later db (CancelLogin op) = login_cancel op db"
| "login_act env now later db (HeartbeatLogin op) = snd (login_heartbeat op now db)"
| "login_act env now later db (SaveLogin op phase) =
     snd (snd (login_save (ev_claims env) (ev_subject env) op phase now db))"
| "login_act env now later db (AuditTerminal op) = snd (login_audit_terminal op db)"
| "login_act env now later db (RecoverPolling op h) = snd (snd (login_recover_polling op h now db))"
| "login_act env now later db (TakeCandidate op h) = snd (snd (login_takeover_candidate op h now db))"
| "login_act env now later db (RecoverUnresolved op h) = snd (snd (login_recover_unresolved op h now db))"
| "login_act env now later db (PollingAbsence op canceled) =
     snd (snd (login_record_polling_absence op canceled now db))"
| "login_act env now later db (UnpublishedGrant op) = snd (login_record_unpublished_grant op db)"
| "login_act env now later db (PollingClear op) = snd (login_polling_clear op db)"
| "login_act env now later db (TakeFailure op h grantless) = snd (snd (login_take_failure op h grantless now db))"
| "login_act env now later db LegacyHandoff = snd (confirm_legacy_owners_settled now db)"
| "login_act env now later db (LoginLease op h) = snd (login_account_lease op h now db)"
| "login_act env now later db (BeginVerification op l) = snd (snd (login_begin_verification op l now db))"
| "login_act env now later db (CompleteLogin op l c previous) =
     snd (snd (login_complete (ev_auth env) (ev_claims env) op l c previous now later db))"
| "login_act env now later db (AdmitAdd acknowledged committed reread op) =
     snd (snd (login_admit_add (ev_claims env) (ev_key env) (ev_seal env) acknowledged committed reread op now later db))"
| "login_act env now later db (ReserveRenewal op) = snd (login_reserve_renewal (ev_claims env) op now later db)"
| "login_act env now later db (RefreshLease a h ttl) = snd (refresh_lease a h ttl now db)"
| "login_act env now later db (RenewLease l ttl) = db\<lparr>ld_custody := snd (pg_renew l ttl now (ld_custody db))\<rparr>"
| "login_act env now later db (ReleaseLease l) = db\<lparr>ld_custody := snd (pg_release_lease l now (ld_custody db))\<rparr>"
| "login_act env now later db (PublishAccount l r) =
     snd (fenced_write_db (ev_auth env) (ev_claims env) l r now db)"
| "login_act env now later db (SaveAccount r) = snd (save_account_db (ev_auth env) (ev_claims env) r db)"
| "login_act env now later db (TakeReset a) = snd (reset_custody a db)"
| "login_act env now later db (DropReset a) = drop_custody a db"
| "login_act env now later db (WriteReset user a expected j stage) =
     snd (write_reset_journal user a expected j stage now later db)"
| "login_act env now later db (RemoveAccount loans c q h action) =
     snd (remove_account loans c q h action now later db)"
| "login_act env now later db (ReplaceAuth tables) = db\<lparr>ld_auth := tables\<rparr>"

text \<open>A step waits \<open>gap\<close> and its transaction lasts \<open>dur\<close>.\<close>

type_synonym login_sys = "nat \<times> login_db"
type_synonym login_step = "nat \<times> nat \<times> login_action"

fun login_step :: "login_env \<Rightarrow> login_sys \<Rightarrow> login_step \<Rightarrow> login_sys" where
  "login_step env (clock, db) (gap, dur, act) =
     (clock + gap + dur, login_act env (clock + gap) (clock + gap + dur) db act)"

definition login_run :: "login_env \<Rightarrow> login_sys \<Rightarrow> login_step list \<Rightarrow> login_sys" where
  "login_run env = foldl (login_step env)"

definition empty_auth :: auth_tables where
  "empty_auth = \<lparr>at_devices = [], at_users = [], at_sessions = []\<rparr>"

definition empty_login_db :: login_db where
  "empty_login_db =
     \<lparr>ld_ops = [], ld_holders = [], ld_custody = \<lparr>pc_accounts = [], pc_leases = []\<rparr>, ld_claims = [],
      ld_legacy_claims = [], ld_reservations = [], ld_history = [], ld_audit = [], ld_auth = empty_auth,
      ld_tombstones = [], ld_resets = [], ld_reset_custody = [], ld_reset_audit = [], ld_evidence = [],
      ld_live = []\<rparr>"

section \<open>What a row may become\<close>

definition row_le :: "login_row \<Rightarrow> login_row \<Rightarrow> bool" where
  "row_le r s =
     (lr_user s = lr_user r \<and> lr_id s = lr_id r \<and> lr_alias s = lr_alias r \<and> lr_kind s = lr_kind r
      \<and> lr_device s = lr_device r \<and> lr_browser s = lr_browser r
      \<and> lr_epoch r \<le> lr_epoch s \<and> lr_sequence r \<le> lr_sequence s
      \<and> (lr_epoch s = lr_epoch r \<longrightarrow> lr_holder s = lr_holder r)
      \<and> (lr_sequence s = lr_sequence r \<longrightarrow>
           lr_phase s = lr_phase r \<and> lr_account s = lr_account r \<and> lr_payload s = lr_payload r
           \<and> lr_epoch s = lr_epoch r)
      \<and> (lr_cancel r \<longrightarrow> lr_cancel s) \<and> (lr_failure_reported r \<longrightarrow> lr_failure_reported s)
      \<and> (lr_account r \<noteq> None \<longrightarrow> lr_account s = lr_account r)
      \<and> (lr_phase r \<in> {PCompleted, Canceled} \<longrightarrow> s = r)
      \<and> (lr_phase r \<in> {Failed, Rejected} \<longrightarrow> lr_sequence s = lr_sequence r))"

lemma row_le_refl [simp, intro]: "row_le r r"
  by (simp add: row_le_def)

lemma row_le_trans: "row_le r s \<Longrightarrow> row_le s t \<Longrightarrow> row_le r t"
  unfolding row_le_def by (intro conjI) (auto dest: order_trans antisym)

lemma row_le_key: "row_le r s \<Longrightarrow> row_key s = row_key r"
  by (simp add: row_le_def row_key_def)

definition rows_le :: "login_db \<Rightarrow> login_db \<Rightarrow> bool" where
  "rows_le db db' = (\<forall>k r. bt_get (ld_ops db) k = Some r \<longrightarrow> (\<exists>s. bt_get (ld_ops db') k = Some s \<and> row_le r s))"

lemma rows_le_refl [simp, intro]: "rows_le db db"
  by (simp add: rows_le_def)

lemma rows_le_trans: "rows_le a b \<Longrightarrow> rows_le b c \<Longrightarrow> rows_le a c"
  unfolding rows_le_def by (meson row_le_trans)

lemma rows_le_same: "ld_ops db' = ld_ops db \<Longrightarrow> rows_le db db'"
  by (simp add: rows_le_def)

end
