(* ===== verification/LoginSteps.thy ===== *)
theory LoginSteps
  imports LoginRuns
begin

text \<open>
  Every action of \<open>LoginRuns\<close> is a sequence of primitive writes, each of which keeps the
  promises of its table: \<open>change now D\<close> at the time \<open>now\<close>, where only the reset custodies
  in \<open>D\<close> may be dropped. What holds of every primitive write holds of every run.
\<close>

section \<open>Primitive writes\<close>

definition lease_moves :: "login_db \<Rightarrow> (string, pg_lease) btree \<Rightarrow> bool" where
  "lease_moves db L = (\<forall>a.
     (case bt_get (pc_leases (ld_custody db)) a of
        None \<Rightarrow> bt_get L a = None \<or> reset_free db a \<and> account_live db a
      | Some l \<Rightarrow> (\<exists>l'. bt_get L a = Some l'
          \<and> (pgl_holder l' = pgl_holder l \<and> pgl_epoch l' = pgl_epoch l
             \<or> pgl_epoch l < pgl_epoch l' \<and> reset_free db a \<and> account_live db a))))"

definition account_moves :: "login_db \<Rightarrow> (string, pg_account) btree \<Rightarrow> bool" where
  "account_moves db A = (\<forall>a x. bt_get (pc_accounts (ld_custody db)) a = Some x \<longrightarrow>
     (\<exists>y. bt_get A a = Some y \<and> cr_revision (pga_record x) \<le> cr_revision (pga_record y)
        \<and> (pga_deleted x \<longrightarrow> y = x) \<and> (pga_deleted y \<longrightarrow> pga_deleted x \<or> reset_free db a)))"

definition reset_le :: "(string, reset_row) btree \<Rightarrow> (string, reset_row) btree \<Rightarrow> bool" where
  "reset_le R S = (\<forall>a r. bt_get R a = Some r \<longrightarrow>
     (\<exists>s. bt_get S a = Some s \<and> (rr_deleted r \<longrightarrow> s = r)
        \<and> (rr_revision s = rr_revision r \<and> rr_journal s = rr_journal r \<or> rr_revision r < rr_revision s)))"

definition holder_moves :: "nat \<Rightarrow> (string, holder_row) btree \<Rightarrow> (string, holder_row) btree \<Rightarrow> bool" where
  "holder_moves now H K = (\<forall>h r. bt_get H h = Some r \<longrightarrow>
     (\<exists>s. bt_get K h = Some s \<and> (hr_deleted r \<longrightarrow> s = r) \<and> (hr_expires_at r \<le> now \<longrightarrow> hr_expires_at s \<le> now)))"

inductive change :: "nat \<Rightarrow> string set \<Rightarrow> login_db \<Rightarrow> login_db \<Rightarrow> bool" for now D where
  row: "bt_get (ld_ops db) k = Some r \<Longrightarrow> row_le r s \<Longrightarrow> \<not> clashes s db \<Longrightarrow>
      change now D db (db\<lparr>ld_ops := bt_put k s (ld_ops db)\<rparr>)"
| rows: "(\<And>r. row_le r (f r)) \<Longrightarrow> (\<And>r. open_phase (lr_phase (f r)) \<Longrightarrow> open_phase (lr_phase r)) \<Longrightarrow>
      (\<And>r. lr_account (f r) = lr_account r) \<Longrightarrow>
      change now D db (db\<lparr>ld_ops := bt_map f (ld_ops db)\<rparr>)"
| added: "bt_get (ld_ops db) (row_key r) = None \<Longrightarrow> \<not> clashes r db \<Longrightarrow>
      list_all (reset_free db) (opt_list (lr_account r)) \<Longrightarrow>
      list_all (account_live db) (opt_list (lr_account r)) \<Longrightarrow>
      change now D db (db\<lparr>ld_ops := bt_put (row_key r) r (ld_ops db)\<rparr>)"
| holders: "holder_moves now (ld_holders db) H \<Longrightarrow> change now D db (db\<lparr>ld_holders := H\<rparr>)"
| reservations: "change now D db (db\<lparr>ld_reservations := R, ld_history := S\<rparr>)"
| claims: "claims_grow db db' \<Longrightarrow> change now D db db'"
| audit: "bt_get (ld_audit db) k = None \<Longrightarrow> change now D db (db\<lparr>ld_audit := bt_put k v (ld_audit db)\<rparr>)"
| auth: "change now D db (db\<lparr>ld_auth := T\<rparr>)"
| leases: "lease_moves db L \<Longrightarrow> change now D db (db\<lparr>ld_custody := (ld_custody db)\<lparr>pc_leases := L\<rparr>\<rparr>)"
| accounts: "account_moves db A \<Longrightarrow> change now D db (db\<lparr>ld_custody := (ld_custody db)\<lparr>pc_accounts := A\<rparr>\<rparr>)"
| resets: "reset_le (ld_resets db) R \<Longrightarrow> change now D db (db\<lparr>ld_resets := R\<rparr>)"
| take: "reset_free db a \<Longrightarrow> change now D db (db\<lparr>ld_reset_custody := a # ld_reset_custody db\<rparr>)"
| dropped: "a \<in> D \<Longrightarrow> change now D db (drop_custody a db)"
| side: "change now D db (db\<lparr>ld_evidence := e, ld_live := l, ld_reset_audit := q\<rparr>)"

abbreviation changes :: "nat \<Rightarrow> string set \<Rightarrow> login_db \<Rightarrow> login_db \<Rightarrow> bool" where
  "changes now D \<equiv> (change now D)\<^sup>*\<^sup>*"

lemma change_changes [intro]: "change now D a b \<Longrightarrow> changes now D a b"
  by (rule r_into_rtranclp)

lemma changes_then: "changes now D a b \<Longrightarrow> change now D b c \<Longrightarrow> changes now D a c"
  by (rule rtranclp.rtrancl_into_rtrancl)

lemma changes_keep:
  assumes "\<And>x y. change now D x y \<Longrightarrow> P x \<Longrightarrow> P y"
  shows "changes now D a b \<Longrightarrow> P a \<Longrightarrow> P b"
  by (induction rule: rtranclp_induct) (auto intro: assms)

lemma same_db_custody [simp]: "db\<lparr>ld_custody := ld_custody db\<rparr> = (db :: login_db)"
  by simp

section \<open>Updates of one row\<close>

lemma update_row_SomeD:
  assumes "update_row k cond f db = Inr (Some (s, db'))"
  obtains r where "bt_get (ld_ops db) k = Some r" "cond r" "s = f r" "\<not> clashes (f r) db"
    "db' = db\<lparr>ld_ops := bt_put k (f r) (ld_ops db)\<rparr>"
  using assms by (auto simp: update_row_def split: option.splits if_splits)

lemma update_row_change:
  assumes "update_row k cond f db = Inr (Some (s, db'))" and "\<And>r. cond r \<Longrightarrow> row_le r (f r)"
  shows "change now D db db'"
  using assms by (elim update_row_SomeD) (auto intro: change.row)

lemma update_or_keep_changes:
  assumes "\<And>r. cond r \<Longrightarrow> row_le r (f r)"
  shows "changes now D db (snd (update_or_keep (update_row k cond f db) db))"
proof (cases "update_row k cond f db")
  case (Inr res)
  then show ?thesis
  proof (cases res)
    case (Some p)
    then obtain s db' where "res = Some (s, db')" by (cases p) auto
    with Inr show ?thesis by (auto simp: update_or_keep_def intro: update_row_change assms)
  qed (simp add: update_or_keep_def)
qed (simp add: update_or_keep_def)

lemma audit_login_changes:
  assumes "audit_login op stage result db = Inr (b, db')"
  shows "changes now D db db'"
proof (cases "bt_get (ld_audit db) (audit_key op stage)")
  case None
  then show ?thesis
    using assms change.audit [OF None, of now D]
    by (auto simp: audit_login_def bt_has_def split: authority.splits option.splits)
next
  case (Some x)
  with assms show ?thesis
    by (auto simp: audit_login_def bt_has_def split: authority.splits option.splits)
qed

lemma update_audit_changes:
  assumes "update_row k cond f db = Inr (Some (s, db'))" "audit_login op stage result db' = Inr (b, db'')"
    and "\<And>r. cond r \<Longrightarrow> row_le r (f r)"
  shows "changes now D db db''"
  using update_row_change [OF assms(1,3)] audit_login_changes [OF assms(2)]
  by (blast intro: converse_rtranclp_into_rtranclp)

lemma working_open: "working p \<Longrightarrow> open_phase p"
  by (cases p) (simp_all add: working_def open_phase_def)

lemma polling_not_settled: "polling_phase p \<Longrightarrow> p \<notin> {PCompleted, Canceled, Failed, Rejected}"
  by (cases p) (simp_all add: polling_phase_def)

section \<open>Holders, reads and admission\<close>

lemma register_holder_changes: "changes now D db (snd (login_register_holder linux h now db))"
  by (auto simp: login_register_holder_def bt_has_def holder_moves_def intro!: change.holders)

lemma renew_holder_changes: "changes now D db (snd (login_renew_holder h now db))"
  by (auto simp: login_renew_holder_def holder_moves_def split: option.split intro!: change.holders)

lemma release_holder_changes: "changes now D db (login_release_holder h now db)"
  by (auto simp: login_release_holder_def holder_moves_def split: option.split intro!: change.holders)

lemma expire_changes: "changes now D db (expire_polling_login t user i a db)"
  unfolding expire_polling_login_def
  by (rule change_changes, rule change.rows)
    (auto simp: row_le_def expires_polling_def lost_def open_phase_def)

lemma login_get_changes: "changes now D db (snd (login_get now user i db))"
  by (simp add: login_get_def Let_def expire_changes)

lemma login_active_alias_changes: "changes now D db (snd (login_active_alias now user a db))"
  by (simp add: login_active_alias_def Let_def expire_changes)

lemma login_create_changes: "changes now D db (snd (login_create op now db))"
proof -
  let ?db = "db\<lparr>ld_ops := bt_put (op_key op) (new_row op now) (ld_ops db)\<rparr>"
  have key: "row_key (new_row op now) = op_key op" and acc: "lr_account (new_row op now) = lo_account op"
    by (simp_all add: row_key_def new_row_def op_key_def)
  have put: "change now D db ?db"
    if "renewal_refused op db = None" "\<not> bt_has (ld_ops db) (op_key op)" "\<not> clashes (new_row op now) db"
    using change.added [of db "new_row op now" now D] that
    by (auto simp: key acc bt_has_def renewal_refused_def opt_list_def account_live_def pg_active_def account_row_def
        split: option.splits if_splits)
  have two: "changes now D db db'"
    if "renewal_refused op db = None" "\<not> bt_has (ld_ops db) (op_key op)" "\<not> clashes (new_row op now) db"
      "audit_login op ''start'' ''ok:started'' ?db = Inr (b, db')" for b db'
    by (rule converse_rtranclp_into_rtranclp [OF put [OF that(1-3)] audit_login_changes [OF that(4)]])
  show ?thesis
    unfolding login_create_def using two by (auto split: option.split sum.split)
qed

section \<open>Working on a row\<close>

lemma login_cancel_changes: "changes now D db (login_cancel op db)"
  unfolding login_cancel_def
  by (rule update_or_keep_changes) (auto simp: row_le_def working_def)

lemma login_heartbeat_changes: "changes now D db (snd (login_heartbeat op now db))"
proof -
  have keep: "row_le r (r\<lparr>lr_expires_at := t\<rparr>)" if "working (lr_phase r)" for r t
    using that by (auto simp: row_le_def working_def)
  show ?thesis
    unfolding login_heartbeat_def
    by (simp split: sum.split option.split) (blast intro: update_row_change keep)
qed

lemma login_save_changes: "changes now D db (snd (snd (login_save cf sf op phase now db)))"
proof -
  have keep: "row_le r (r\<lparr>lr_phase := phase, lr_payload := p, lr_sequence := lr_sequence r + 1, lr_workspace := w,
      lr_login := l, lr_uid := u, lr_sub := b\<rparr>)" if "open_phase (lr_phase r)" for r p w l u b
    using that by (simp add: row_le_def open_phase_def)
  obtain op1 where op1: "(if phase = Unresolved then op\<lparr>lo_phase := phase\<rparr> else op) = op1" by blast
  show ?thesis
    unfolding login_save_def Let_def op1
    by (auto split: sum.split option.split
        intro: update_row_change update_audit_changes change_changes keep)
qed

lemma login_audit_terminal_changes: "changes now D db (snd (login_audit_terminal op db))"
  by (auto simp: login_audit_terminal_def split: option.split sum.split intro: audit_login_changes)

section \<open>Recovery and settlement\<close>

lemma release_reservations_change: "change now D db (release_reservations keys db)"
  unfolding release_reservations_def by (rule change.reservations)

lemma recover_polling_changes: "changes now D db (snd (snd (login_recover_polling op h now db)))"
proof -
  have keep: "row_le r (r\<lparr>lr_polling_clear := True, lr_reserved := False, lr_holder := h,
      lr_epoch := lr_epoch r + 1, lr_sequence := lr_sequence r + 1\<rparr>)" if "lr_phase r = ReplicaLost" for r
    using that by (simp add: row_le_def)
  show ?thesis
    unfolding login_recover_polling_def
    by (auto split: sum.split option.split intro: update_row_change keep
        intro!: changes_then [OF change_changes release_reservations_change])
qed

lemma takeover_changes: "changes now D db (snd (snd (login_takeover_candidate op h now db)))"
proof -
  have keep: "row_le r (r\<lparr>lr_holder := h, lr_epoch := lr_epoch r + 1, lr_sequence := lr_sequence r + 1,
      lr_expires_at := t\<rparr>)" if "lr_phase r = Candidate" for r t
    using that by (simp add: row_le_def)
  show ?thesis
    unfolding login_takeover_candidate_def
    by (auto split: sum.split option.split intro: update_row_change keep)
qed

lemma recover_unresolved_changes: "changes now D db (snd (snd (login_recover_unresolved op h now db)))"
proof -
  have keep: "row_le r (r\<lparr>lr_phase := Unresolved, lr_payload := p, lr_holder := h,
      lr_epoch := lr_epoch r + 1, lr_sequence := lr_sequence r + 1\<rparr>)"
    if "lr_phase r = Verifying \<or> lr_phase r = Candidate \<and> x" for r p x
    using that by (auto simp: row_le_def)
  obtain p where p: "(lo_payload op)\<lparr>lp_error := Some (if lo_phase op = Verifying
      then ''relogin_verification_unresolved'' else ''relogin_settlement_unresolved'')\<rparr> = p" by blast
  show ?thesis
    unfolding login_recover_unresolved_def Let_def p
    by (auto split: sum.split option.split intro: update_row_change update_audit_changes change_changes keep)
qed

lemma polling_absence_changes: "changes now D db (snd (snd (login_record_polling_absence op canceled now db)))"
proof -
  have keep: "row_le r (r\<lparr>lr_phase := ph, lr_polling_clear := True, lr_sequence := lr_sequence r + 1,
      lr_payload := p, lr_reserved := v\<rparr>)" if "polling_phase (lr_phase r)" for r ph p v
    using that polling_not_settled [OF that] by (simp add: row_le_def)
  have clear: "row_le r (r\<lparr>lr_polling_clear := True\<rparr>)" if "polling_phase (lr_phase r)" for r
    using that polling_not_settled [OF that] by (simp add: row_le_def)
  obtain p ph where p: "(let p = (lo_payload op)\<lparr>lp_code := None\<rparr>
      in if canceled then p else p\<lparr>lp_error := Some ''relogin_interrupted_retry''\<rparr>) = p"
    and ph: "(if canceled then Canceled else Failed) = ph" by blast
  show ?thesis
    using p unfolding login_record_polling_absence_def Let_def ph
    by (auto split: sum.split option.split authority.split
        intro: update_row_change update_audit_changes change_changes keep clear)
qed

lemma unpublished_grant_changes: "changes now D db (snd (login_record_unpublished_grant op db))"
proof -
  have keep: "row_le r (r\<lparr>lr_phase := Unresolved, lr_sequence := lr_sequence r + 1, lr_payload := p\<rparr>)"
    if "polling_phase (lr_phase r)" for r p
    using that polling_not_settled [OF that] by (simp add: row_le_def)
  show ?thesis
    unfolding login_record_unpublished_grant_def
    by (auto split: sum.split option.split intro: update_row_change update_audit_changes change_changes keep)
qed

lemma polling_clear_changes: "changes now D db (snd (login_polling_clear op db))"
proof -
  have clear: "row_le r (r\<lparr>lr_polling_clear := True\<rparr>)" if "polling_phase (lr_phase r)" for r
    using that polling_not_settled [OF that] by (simp add: row_le_def)
  show ?thesis
    unfolding login_polling_clear_def
    by (auto split: sum.split option.split intro: update_row_change clear)
qed

lemma take_failure_changes: "changes now D db (snd (snd (login_take_failure op h grantless now db)))"
proof -
  obtain res db' where eq: "update_or_keep (update_row (op_key op) (failure_claimable op h grantless now db)
      (\<lambda>r. r\<lparr>lr_failure_reported := True\<rparr>) db) db = (res, db')" by fastforce
  have "changes now D db db'"
    using update_or_keep_changes [of "failure_claimable op h grantless now db"
        "\<lambda>r. r\<lparr>lr_failure_reported := True\<rparr>" now D db "op_key op"]
    by (simp add: eq row_le_def failure_claimable_def)
  then show ?thesis
    by (auto simp: login_take_failure_def eq split: sum.split bool.split)
qed

section \<open>Leases\<close>

lemma legacy_handoff_changes: "changes now D db (snd (confirm_legacy_owners_settled now db))"
  by (auto simp: confirm_legacy_owners_settled_def lease_moves_def split: option.split intro!: change_changes change.leases)

lemma pg_acquire_lease_change:
  assumes "db' = db\<lparr>ld_custody := snd (pg_acquire_lease (reset_free db a) fenced a h ttl now (ld_custody db))\<rparr>"
  shows "changes now D db db'"
proof (cases "snd (pg_acquire_lease (reset_free db a) fenced a h ttl now (ld_custody db)) = ld_custody db")
  case False
  then obtain L where "snd (pg_acquire_lease (reset_free db a) fenced a h ttl now (ld_custody db))
      = (ld_custody db)\<lparr>pc_leases := L\<rparr>" "lease_moves db L"
    by (auto simp: pg_acquire_lease_def Let_def lease_moves_def account_live_def split: option.splits if_splits)
  with assms show ?thesis by (auto intro: change.leases)
qed (use assms in simp)

lemma refresh_lease_changes: "changes now D db (snd (refresh_lease a h ttl now db))"
  by (rule pg_acquire_lease_change [where a = a and fenced = "login_fenced db a" and h = h and ttl = ttl])
    (simp add: refresh_lease_def split: prod.split)

lemma renew_lease_changes: "changes now D db (db\<lparr>ld_custody := snd (pg_renew l ttl now (ld_custody db))\<rparr>)"
proof (cases "snd (pg_renew l ttl now (ld_custody db)) = ld_custody db")
  case False
  then obtain L where "snd (pg_renew l ttl now (ld_custody db)) = (ld_custody db)\<lparr>pc_leases := L\<rparr>" "lease_moves db L"
    by (auto simp: pg_renew_def lease_moves_def split: option.splits if_splits)
  then show ?thesis by (auto intro: change.leases)
qed simp

lemma release_lease_changes: "changes now D db (db\<lparr>ld_custody := snd (pg_release_lease l now (ld_custody db))\<rparr>)"
proof (cases "snd (pg_release_lease l now (ld_custody db)) = ld_custody db")
  case False
  then obtain L where "snd (pg_release_lease l now (ld_custody db)) = (ld_custody db)\<lparr>pc_leases := L\<rparr>"
    "lease_moves db L"
    by (auto simp: pg_release_lease_def lease_moves_def split: option.splits if_splits)
  then show ?thesis by (auto intro: change.leases)
qed simp

lemma login_lease_changes: "changes now D db (snd (login_account_lease op h now db))"
proof -
  have put: "change now D db (db\<lparr>ld_custody := (ld_custody db)\<lparr>pc_leases := bt_put a l (pc_leases (ld_custody db))\<rparr>\<rparr>)"
    if "reset_free db a" "account_live db a"
      "case bt_get (pc_leases (ld_custody db)) a of None \<Rightarrow> True | Some old \<Rightarrow> pgl_epoch old < pgl_epoch l" for a l
    using that by (auto simp: lease_moves_def split: option.splits intro!: change.leases)
  show ?thesis
  proof (cases "lo_account op")
    case (Some account)
    then show ?thesis
      by (auto simp: login_account_lease_def Let_def split: option.split if_splits intro!: change_changes put)
  qed (simp add: login_account_lease_def)
qed

section \<open>Verification and completion\<close>

lemma begin_verification_changes: "changes now D db (snd (snd (login_begin_verification op l now db)))"
proof -
  have keep: "row_le r (r\<lparr>lr_phase := Verifying, lr_sequence := lr_sequence r + 1, lr_evidence := e\<rparr>)"
    if "lr_phase r = Candidate" for r e
    using that by (simp add: row_le_def)
  show ?thesis
    unfolding login_begin_verification_def
    by (auto split: sum.split option.split intro: update_row_change keep)
qed

lemma closed_never_clashes: "\<not> open_phase (lr_phase s) \<Longrightarrow> \<not> clashes s db"
  by (simp add: clashes_def index_clash_def list_ex_iff split_def)

lemma repair_keeps:
  "row_le r (if repaired db a done r then repair_row db a r else r)"
  "lr_phase (if repaired db a done r then repair_row db a r else r) = lr_phase r"
  "lr_account (if repaired db a done r then repair_row db a r else r) = lr_account r"
  by (auto simp: repair_row_def repaired_def repairable_def row_le_def Let_def)

lemma publish_account_moves:
  assumes "completes op l previous now db r" "previous < cr_revision c" "bt_get (pc_accounts (ld_custody db)) (l_account l) = Some a"
  shows "account_moves db (bt_put (l_account l) (publish_credential c a) (pc_accounts (ld_custody db)))"
  using assms
  by (auto simp: account_moves_def completes_def publish_credential_def account_row_def account_live_def pg_active_def)

lemma complete_statement_changes:
  assumes fin: "complete_statement op l c previous now db = Some db'" and rev: "previous < cr_revision c"
  shows "changes now D db db'"
proof -
  obtain r where r: "bt_get (ld_ops db) (op_key op) = Some r" "completes op l previous now db r"
    using fin by (auto simp: complete_statement_def split: option.splits if_splits)
  from r(2) obtain a where a: "bt_get (pc_accounts (ld_custody db)) (l_account l) = Some a"
    by (auto simp: completes_def account_row_def split: option.splits)
  let ?f = "\<lambda>s. if repaired db (l_account l) r s then repair_row db (l_account l) s else s"
  define receipt where "receipt = r\<lparr>lr_phase := PCompleted, lr_sequence := lr_sequence r + 1,
     lr_completed_revision := Some (cr_revision c),
     lr_payload := empty_payload\<lparr>lp_actor := lp_actor (lo_payload op)\<rparr>\<rparr>"
  define keys where "keys = op_key op # map fst (filter (\<lambda>(_, s). repaired db (l_account l) r s) (ld_ops db))"
  define db1 where "db1 = db\<lparr>ld_ops := bt_map ?f (ld_ops db)\<rparr>"
  define db2 where "db2 = db1\<lparr>ld_ops := bt_put (op_key op) receipt (ld_ops db1)\<rparr>"
  define db3 where "db3 = db2\<lparr>ld_custody := (ld_custody db2)\<lparr>pc_accounts :=
      bt_put (l_account l) (publish_credential c a) (pc_accounts (ld_custody db2))\<rparr>\<rparr>"
  have same: "ld_custody db1 = ld_custody db" "ld_custody db2 = ld_custody db"
    "ld_reset_custody db2 = ld_reset_custody db" by (simp_all add: db1_def db2_def)
  have "change now D db db1"
    unfolding db1_def by (rule change.rows) (rule repair_keeps, simp_all only: repair_keeps)
  moreover have "change now D db1 db2"
  proof -
    have "bt_get (ld_ops db1) (op_key op) = Some r"
      using r by (simp add: db1_def repaired_def repairable_def completes_def)
    moreover have "row_le r receipt" using r(2) by (simp add: row_le_def receipt_def completes_def)
    moreover have "\<not> clashes receipt db1" by (rule closed_never_clashes) (simp add: receipt_def open_phase_def)
    ultimately show ?thesis unfolding db2_def by (rule change.row)
  qed
  moreover have "change now D db2 db3"
    unfolding db3_def
  proof (rule change.accounts)
    show "account_moves db2 (bt_put (l_account l) (publish_credential c a) (pc_accounts (ld_custody db2)))"
      using publish_account_moves [OF r(2) rev a]
      by (simp add: account_moves_def same reset_free_def)
  qed
  moreover have "change now D db3 (release_reservations keys db3)" by (rule release_reservations_change)
  moreover have "release_reservations keys db3 = db'"
    using fin r a
    by (simp add: complete_statement_def Let_def db3_def db2_def db1_def keys_def receipt_def)
  ultimately show ?thesis by (metis change_changes changes_then)
qed

definition completed_copy :: "login_operation \<Rightarrow> login_operation" where
  "completed_copy op =
     op\<lparr>lo_phase := PCompleted, lo_sequence := lo_sequence op + 1,
        lo_payload := empty_payload\<lparr>lp_actor := lp_actor (lo_payload op), lp_landed := lp_landed (lo_payload op)\<rparr>\<rparr>"

lemma login_complete_cases:
  obtains (refused) e where "login_complete af cf op l c previous now later db = (Inl e, op, db)"
  | (fin) claims db1 b db2 db3 where
    "lo_account op = Some (l_account l)" "cr_account_id c = l_account l" "previous < cr_revision c"
    "authority_live now db (lo_user op) (lo_authority op)"
    "complete_statement op l c previous now db = Some db1"
    "audit_login op ''terminal'' ''ok:completed'' db1 = Inr (b, db2)"
    "recorded (l_account l) claims db2 = Inr db3"
    "login_complete af cf op l c previous now later db = (Inr (), completed_copy op, db3)"
    "claims_from_record af cf c = Inr claims"
proof -
  let ?c = "login_complete af cf op l c previous now later db"
  show ?thesis
  proof (cases "lo_account op = Some (l_account l) \<and> cr_account_id c = l_account l \<and> previous < cr_revision c
      \<and> authority_live now db (lo_user op) (lo_authority op)")
    case False
    then have "\<exists>e. ?c = (Inl e, op, db)"
      by (auto simp: login_complete_def split: option.split sum.split)
    then show ?thesis using refused by blast
  next
    case ok: True
    show ?thesis
    proof (cases "\<exists>claims db1 b db2 db3. claims_from_record af cf c = Inr claims
        \<and> complete_statement op l c previous now db = Some db1
        \<and> audit_login op ''terminal'' ''ok:completed'' db1 = Inr (b, db2)
        \<and> recorded (l_account l) claims db2 = Inr db3")
      case False
      with ok have "\<exists>e. ?c = (Inl e, op, db)"
        by (auto simp: login_complete_def recorded_def split: option.split sum.split)
      then show ?thesis using refused by blast
    next
      case True
      then obtain claims db1 b db2 db3 where s: "claims_from_record af cf c = Inr claims"
        "complete_statement op l c previous now db = Some db1"
        "audit_login op ''terminal'' ''ok:completed'' db1 = Inr (b, db2)"
        "recorded (l_account l) claims db2 = Inr db3" by blast
      from s(4) have r: "(case claims of None \<Rightarrow> Inr db2 | Some cl \<Rightarrow> record_claims (l_account l) cl db2) = Inr db3"
        by (simp add: recorded_def)
      have "?c = (if case lo_authority op of Machine _ \<Rightarrow> False
            | Browser _ \<Rightarrow> \<not> authority_live later db3 (lo_user op) (lo_authority op)
          then (Inl AuthorityEnded, op, db) else (Inr (), completed_copy op, db3))"
        using ok s(1-3) r by (simp add: login_complete_def completed_copy_def)
      with ok s show ?thesis using refused fin by (metis (no_types))
    qed
  qed
qed

lemma login_complete_changes: "changes now D db (snd (snd (login_complete af cf op l c previous now later db)))"
proof (cases rule: login_complete_cases [of af cf op l c previous now later db])
  case (fin claims db1 b db2 db3)
  note change.claims [OF recorded_grow [OF fin(7)], of now D]
  with complete_statement_changes [OF fin(5,3), of D] audit_login_changes [OF fin(6), of now D]
  have "changes now D db db3" by (metis (no_types, lifting) changes_then rtranclp_trans)
  with fin(8) show ?thesis by simp
qed simp

section \<open>Admission and reservation\<close>

lemma reserve_claim_changes: "reserve_claim own a w key db = Some db' \<Longrightarrow>
    db' = db\<lparr>ld_reservations := ld_reservations db', ld_history := ld_history db'\<rparr>"
  by (auto simp: reserve_claim_def Let_def split: option.splits if_splits)

definition reserving :: "login_db \<Rightarrow> login_db \<Rightarrow> bool" where
  "reserving db db' = (\<exists>x y. db' = db\<lparr>ld_reservations := x, ld_history := y\<rparr>)"

lemma reserving_refl [simp, intro]: "reserving db db"
  unfolding reserving_def by (rule exI [of _ "ld_reservations db"], rule exI [of _ "ld_history db"]) simp

lemma reserving_trans: "reserving a b \<Longrightarrow> reserving b c \<Longrightarrow> reserving a c"
  unfolding reserving_def by (elim exE) (simp, blast)

lemma fold_reserving:
  "fold (\<lambda>key res. Option.bind res (reserve_claim own a w key)) keys (Some db) = Some db' \<Longrightarrow> reserving db db'"
proof (induction keys arbitrary: db)
  case (Cons key keys)
  have stuck: "fold (\<lambda>key res. Option.bind res (reserve_claim own a w key)) ks None = None" for ks
    by (induction ks) auto
  from Cons.prems obtain d where d: "reserve_claim own a w key db = Some d"
    "fold (\<lambda>key res. Option.bind res (reserve_claim own a w key)) keys (Some d) = Some db'"
    by (cases "reserve_claim own a w key db") (auto simp: stuck)
  have "reserving db d" unfolding reserving_def using reserve_claim_changes [OF d(1)] by blast
  with Cons.IH [OF d(2)] show ?case by (blast intro: reserving_trans)
qed simp

lemma reserve_claims_reserving: "reserve_claims op a c db = Some db' \<Longrightarrow> reserving db db'"
  by (simp add: reserve_claims_def fold_reserving)

lemma reserving_change: "reserving db db' \<Longrightarrow> change now D db db'"
  by (auto simp: reserving_def intro: change.reservations)

lemma insert_account_change:
  assumes "account_row db (cr_account_id r) = None"
  shows "change now D db (insert_account r db)"
  unfolding insert_account_def
  by (rule change.accounts) (use assms in \<open>auto simp: account_moves_def account_row_def\<close>)

lemma place_candidate_changes:
  assumes "place_candidate proposed sealed op c db = Inr (Inr ((account, landed), db'))"
  shows "changes now D db db' \<and> ld_ops db' = ld_ops db"
  using assms insert_account_change [of db "new_account sealed op proposed c" now D]
  by (auto simp: place_candidate_def new_account_def insert_account_def split: landing.splits if_splits)

lemma admit_add_cases:
  assumes "admit_add proposed sealed op c now later db = Inr (Inr ((account, landed), db'))"
  obtains r db1 db2 db3 s where
    "authority_live now db (lo_user op) (lo_authority op)"
    "bt_get (ld_ops db) (op_key op) = Some r" "admissible op now db r" "lr_kind r = Add" "lr_account r = None"
    "place_candidate proposed sealed op c db = Inr (Inr ((account, landed), db1))"
    "record_claims account c db1 = Inr db2" "reserve_claims op account c db2 = Some db3"
    "update_row (op_key op) (admissible op now db3)
       (\<lambda>r. r\<lparr>lr_account := Some account, lr_landed_alias := landed, lr_sequence := lr_sequence r + 1\<rparr>) db3
       = Inr (Some (s, db'))"
proof -
  let ?f = "\<lambda>r. r\<lparr>lr_account := Some account, lr_landed_alias := landed, lr_sequence := lr_sequence r + 1\<rparr>"
  obtain r where r: "authority_live now db (lo_user op) (lo_authority op)"
    "bt_get (ld_ops db) (op_key op) = Some r" "admissible op now db r" "lr_kind r = Add" "lr_account r = None"
    using assms by (auto simp: admit_add_def split: if_splits option.splits)
  obtain db1 where db1: "place_candidate proposed sealed op c db = Inr (Inr ((account, landed), db1))"
    using assms r by (auto simp: admit_add_def split: if_splits option.splits sum.splits)
  obtain db2 where db2: "record_claims account c db1 = Inr db2"
    using assms r db1 by (auto simp: admit_add_def split: if_splits option.splits sum.splits)
  obtain db3 where db3: "reserve_claims op account c db2 = Some db3"
    using assms r db1 db2 by (auto simp: admit_add_def split: if_splits option.splits)
  obtain s where "update_row (op_key op) (admissible op now db3) ?f db3 = Inr (Some (s, db'))"
    using assms r db1 db2 db3 by (auto simp: admit_add_def split: if_splits option.splits sum.splits)
  with r db1 db2 db3 show ?thesis by (rule that)
qed

lemma admit_add_changes:
  assumes "admit_add proposed sealed op c now later db = Inr (Inr ((account, landed), db'))"
  shows "changes now D db db'"
  using assms
proof (cases rule: admit_add_cases)
  case (1 r db1 db2 db3 s)
  have ops: "ld_ops db3 = ld_ops db"
    using place_candidate_changes [OF 1(6)] record_claims_grow [OF 1(7)] reserve_claims_reserving [OF 1(8)]
    by (auto simp: claims_grow_def reserving_def)
  from 1(9) obtain r' where r': "bt_get (ld_ops db3) (op_key op) = Some r'" "admissible op now db3 r'"
    "\<not> clashes (r'\<lparr>lr_account := Some account, lr_landed_alias := landed, lr_sequence := lr_sequence r' + 1\<rparr>) db3"
    "db' = db3\<lparr>ld_ops := bt_put (op_key op)
        (r'\<lparr>lr_account := Some account, lr_landed_alias := landed, lr_sequence := lr_sequence r' + 1\<rparr>) (ld_ops db3)\<rparr>"
    by (rule update_row_SomeD)
  have "r' = r" using r'(1) 1(2) ops by simp
  then have "row_le r' (r'\<lparr>lr_account := Some account, lr_landed_alias := landed, lr_sequence := lr_sequence r' + 1\<rparr>)"
    using 1(3,5) by (simp add: row_le_def admissible_def)
  with r' have last': "change now D db3 db'" by (simp add: change.row)
  have "changes now D db db1" using place_candidate_changes [OF 1(6), of now D] by blast
  then have "changes now D db db2" by (rule changes_then) (rule change.claims [OF record_claims_grow [OF 1(7)]])
  then have "changes now D db db3" by (rule changes_then) (rule reserving_change [OF reserve_claims_reserving [OF 1(8)]])
  from this last' show ?thesis by (rule changes_then)
qed

lemma login_admit_add_changes:
  "changes now D db (snd (snd (login_admit_add cf kf seal acknowledged committed reread op now later db)))"
  by (auto simp: login_admit_add_def Let_def split: option.split sum.split intro: admit_add_changes)

lemma reserve_renewal_changes: "changes now D db (snd (login_reserve_renewal cf op now later db))"
  by (auto simp: login_reserve_renewal_def split: option.split
      intro!: reserving_change intro: reserve_claims_reserving)

section \<open>Publication\<close>

lemma store_record_change:
  assumes "case account_row db (cr_account_id r) of None \<Rightarrow> True
     | Some a \<Rightarrow> \<not> pga_deleted a \<and> cr_revision (pga_record a) < cr_revision r"
  shows "change now D db (store_record r db)"
  unfolding store_record_def
  by (rule change.accounts) (use assms in \<open>auto simp: account_moves_def account_row_def split: option.splits\<close>)

lemma store_recorded_changes:
  assumes "case account_row db (cr_account_id r) of None \<Rightarrow> True
     | Some a \<Rightarrow> \<not> pga_deleted a \<and> cr_revision (pga_record a) < cr_revision r"
    and "recorded a c (store_record r db) = Inr db'"
  shows "changes now D db db'"
  using store_record_change [OF assms(1), of now D] change.claims [OF recorded_grow [OF assms(2)], of now D]
  by (metis change_changes changes_then)

lemma fenced_write_db_changes: "changes now D db (snd (fenced_write_db af cf l r t db))"
  unfolding fenced_write_db_def
  by (auto split: option.split sum.split intro!: store_recorded_changes)

lemma save_account_db_changes: "changes now D db (snd (save_account_db af cf r db))"
  unfolding save_account_db_def Let_def
  by (auto split: option.split sum.split intro!: store_recorded_changes)

section \<open>Banked resets and removal\<close>

lemma swap_journal_change: "swap_journal a expected j db = Some db' \<Longrightarrow> change now D db db'"
  by (auto simp: swap_journal_def reset_le_def split: option.splits if_splits intro!: change.resets)

lemma settle_effects_change: "change now D db (settle_effects a audit code db)"
proof -
  have side: "change now D db (db\<lparr>ld_evidence := e, ld_reset_audit := q\<rparr>)" for e q
    using change.side [where e = e and l = "ld_live db" and q = q and db = db] by simp
  obtain e where e: "(if code \<in> {ResetDone, AlreadyRedeemed, UnknownCode}
      then (case bt_get (ld_evidence db) a of
              None \<Rightarrow> db
            | Some e \<Rightarrow> db\<lparr>ld_evidence := bt_put a (e\<lparr>er_deleted := True\<rparr>) (ld_evidence db)\<rparr>)
      else db) = db\<lparr>ld_evidence := e\<rparr>"
  proof (cases "code \<in> {ResetDone, AlreadyRedeemed, UnknownCode} \<and> bt_get (ld_evidence db) a \<noteq> None")
    case True
    then obtain x where "bt_get (ld_evidence db) a = Some x" by auto
    with True show ?thesis
      using that [of "bt_put a (x\<lparr>er_deleted := True\<rparr>) (ld_evidence db)"] by (simp del: insert_iff)
  next
    case False
    then show ?thesis using that [of "ld_evidence db"] by (simp del: insert_iff add: if_split split: option.split)
  qed
  have "\<exists>q. settle_effects a audit code db = db\<lparr>ld_evidence := e, ld_reset_audit := q\<rparr>"
  proof (cases audit)
    case None
    then show ?thesis unfolding settle_effects_def Let_def e by (intro exI [of _ "ld_reset_audit db"]) simp
  next
    case (Some x)
    obtain actor attempt where x: "x = (actor, attempt)" by (cases x)
    show ?thesis
    proof (cases "bt_has (ld_reset_audit db) attempt")
      case True
      then show ?thesis unfolding settle_effects_def Let_def e Some x
        by (intro exI [of _ "ld_reset_audit db"]) simp
    next
      case False
      then show ?thesis unfolding settle_effects_def Let_def e Some x
        by (intro exI [of _ "bt_put attempt (actor, ''account_reset'', a, reset_result code) (ld_reset_audit db)"]) simp
    qed
  qed
  then show ?thesis using side by auto
qed

lemma write_reset_changes: "changes now D db (snd (write_reset_journal user a expected j stage t later db))"
proof (cases "swap_journal a expected j db")
  case None
  then show ?thesis by (auto simp: write_reset_journal_def split: option.split reset_write.split)
next
  case (Some db1)
  note one = swap_journal_change [OF Some, of now D]
  have two: "changes now D db (settle_effects a audit code db1)" for audit code
    by (rule changes_then [OF change_changes [OF one] settle_effects_change])
  show ?thesis
    using one two by (auto simp: write_reset_journal_def Some split: option.split reset_write.split)
qed

lemma reset_custody_changes: "changes now D db (snd (reset_custody a db))"
  by (auto simp: reset_custody_def intro: change.take)

lemma tombstone_changes:
  assumes "bt_get (ld_audit db) attempt = None" "reset_free db a"
    "account_row db a = Some x" "\<not> pga_deleted x"
  shows "changes now D db (tombstone_account a h t actor attempt db)"
proof -
  let ?c = "pg_tombstone a h t (ld_custody db)"
  let ?R = "case bt_get (ld_resets db) a of None \<Rightarrow> ld_resets db
     | Some r \<Rightarrow> bt_put a (r\<lparr>rr_deleted := True\<rparr>) (ld_resets db)"
  let ?L = "map (\<lambda>((b, m), seen, deleted). ((b, m), seen, deleted \<or> b = a)) (ld_live db)"
  define db1 where "db1 = db\<lparr>ld_custody := (ld_custody db)\<lparr>pc_accounts := pc_accounts ?c\<rparr>\<rparr>"
  define db2 where "db2 = db1\<lparr>ld_custody := (ld_custody db1)\<lparr>pc_leases := pc_leases ?c\<rparr>\<rparr>"
  define db3 where "db3 = db2\<lparr>ld_resets := ?R\<rparr>"
  define db4 where "db4 = db3\<lparr>ld_evidence := ld_evidence db, ld_live := ?L, ld_reset_audit := ld_reset_audit db\<rparr>"
  have "change now D db db1"
    unfolding db1_def
    by (rule change.accounts) (use assms in \<open>auto simp: account_moves_def account_row_def pg_tombstone_def\<close>)
  moreover have "change now D db1 db2"
    unfolding db2_def
    by (rule change.leases) (auto simp: db1_def lease_moves_def pg_tombstone_def split: option.split)
  moreover have "change now D db2 db3"
    unfolding db3_def
    by (rule change.resets) (auto simp: db2_def db1_def reset_le_def split: option.split)
  moreover have "change now D db3 db4" unfolding db4_def by (rule change.side)
  moreover have "change now D db4 (db4\<lparr>ld_audit := bt_put attempt (actor, ''account_remove'', a, ''ok'') (ld_audit db4)\<rparr>)"
    by (rule change.audit) (use assms in \<open>simp add: db4_def db3_def db2_def db1_def\<close>)
  moreover have "db4\<lparr>ld_audit := bt_put attempt (actor, ''account_remove'', a, ''ok'') (ld_audit db4)\<rparr>
      = tombstone_account a h t actor attempt db"
    by (simp add: tombstone_account_def db4_def db3_def db2_def db1_def pg_tombstone_def)
  ultimately show ?thesis by (metis change_changes changes_then)
qed

lemma remove_account_cases:
  obtains (kept) res where "remove_account loans c q h action t later db = (res, db)" "res \<noteq> Inr Removed"
  | (fin) a actor where
    "removal_authorize c t db = None" "reset_free db (rm_account q)"
    "account_row db (rm_account q) = Some a" "cr_user_id (pga_record a) = Some (ca_user c)"
    "rm_alias q = cr_alias (pga_record a)" "rm_confirmation q = cr_alias (pga_record a)"
    "ca_actor c = Some actor" "bt_get (ld_audit db) (rm_attempt q) = None"
    "removal_refused (lent (rm_account q) loans) c q h a db = None" "action = Commit"
    "remove_account loans c q h action t later db
      = (Inr Removed, tombstone_account (rm_account q) h t actor (rm_attempt q) db)"
proof -
  let ?r = "remove_account loans c q h action t later db"
  show ?thesis
  proof (cases "fst ?r = Inr Removed")
    case False
    have "snd ?r = db" using False
      by (auto simp: remove_account_def Let_def split: option.splits if_splits)
    then show ?thesis using False kept [of "fst ?r"] by (metis prod.collapse)
  next
    case True
    have auth: "removal_authorize c t db = None" "reset_free db (rm_account q)"
      using True by (auto simp: remove_account_def split: option.splits if_splits)
    obtain a where a: "account_row db (rm_account q) = Some a" "cr_user_id (pga_record a) = Some (ca_user c)"
        "rm_alias q = cr_alias (pga_record a)" "rm_confirmation q = cr_alias (pga_record a)"
      using True auth by (auto simp: remove_account_def split: option.splits if_splits)
    obtain actor where actor: "ca_actor c = Some actor"
      using True auth a by (auto simp: remove_account_def split: option.splits)
    have rec: "removal_receipt c actor q a db = None"
    proof (rule ccontr)
      assume "removal_receipt c actor q a db \<noteq> None"
      then have "\<exists>x. removal_receipt c actor q a db = Some x \<and> x \<noteq> Inr Removed"
        by (auto simp: removal_receipt_def split: option.splits)
      with True auth a actor show False by (auto simp: remove_account_def)
    qed
    have refused: "removal_refused (lent (rm_account q) loans) c q h a db = None"
      using True auth a actor rec by (auto simp: remove_account_def split: option.splits)
    have commit: "action = Commit"
      using True auth a actor rec refused by (cases action) (auto simp: remove_account_def)
    have "?r = (Inr Removed, tombstone_account (rm_account q) h t actor (rm_attempt q) db)"
      using True auth a actor rec refused commit
      by (auto simp: remove_account_def Let_def split: option.splits)
    moreover have "bt_get (ld_audit db) (rm_attempt q) = None"
      using rec by (auto simp: removal_receipt_def split: option.splits)
    ultimately show ?thesis using fin auth a actor refused commit by blast
  qed
qed

lemma remove_account_changes: "changes now D db (snd (remove_account loans c q h action t later db))"
proof (cases rule: remove_account_cases [of loans c q h action t later db])
  case (fin a actor)
  then have "\<not> pga_deleted a" by (auto simp: removal_refused_def split: if_splits)
  from tombstone_changes [OF fin(8,2,3) this] fin(11) show ?thesis by simp
qed simp

section \<open>Every action\<close>

fun dropped_by :: "login_action \<Rightarrow> string set" where
  "dropped_by (DropReset a) = {a}"
| "dropped_by _ = {}"

lemmas action_changes =
  register_holder_changes renew_holder_changes release_holder_changes login_get_changes login_active_alias_changes
  login_create_changes login_cancel_changes login_heartbeat_changes login_save_changes login_audit_terminal_changes
  recover_polling_changes takeover_changes recover_unresolved_changes polling_absence_changes
  unpublished_grant_changes polling_clear_changes take_failure_changes legacy_handoff_changes login_lease_changes
  begin_verification_changes login_complete_changes login_admit_add_changes reserve_renewal_changes
  refresh_lease_changes renew_lease_changes release_lease_changes fenced_write_db_changes save_account_db_changes
  reset_custody_changes write_reset_changes remove_account_changes

lemma login_act_changes: "changes now (dropped_by act) db (login_act env now later db act)"
  by (cases act) (simp_all only: login_act.simps action_changes change_changes change.auth change.dropped
      dropped_by.simps singletonI)

end
