(* ===== verification/LoginFacts.thy ===== *)
theory LoginFacts
  imports LoginSteps
begin

text \<open>
  What every run of the shared tables keeps: the invariant of the login journal and the
  order its tables move in, proved for each primitive write and lifted to runs through
  \<open>monotone_system\<close>; and the properties of logins, identities, leases and removals over runs.
\<close>

section \<open>The journal invariant\<close>

definition journal_ok :: "login_db \<Rightarrow> bool" where
  "journal_ok db =
     (bt_keyed row_key (ld_ops db)
      \<and> (\<forall>k r k' s. bt_get (ld_ops db) k = Some r \<longrightarrow> bt_get (ld_ops db) k' = Some s \<longrightarrow> k \<noteq> k' \<longrightarrow> \<not> index_clash r s))"

lemma index_clash_sym: "index_clash r s = index_clash s r"
  unfolding index_clash_def lower_eq_def by metis

lemma not_clashesD:
  "\<not> clashes s db \<Longrightarrow> bt_get (ld_ops db) k = Some r \<Longrightarrow> k \<noteq> row_key s \<Longrightarrow> \<not> index_clash s r"
  by (auto simp: clashes_def list_ex_iff dest: map_of_SomeD)

lemma journal_ok_put:
  assumes "journal_ok db" "\<not> clashes s db" "k = row_key s"
  shows "journal_ok (db\<lparr>ld_ops := bt_put k s (ld_ops db)\<rparr>)"
proof -
  have apart: "\<not> index_clash s r" "\<not> index_clash r s" if "bt_get (ld_ops db) k' = Some r" "k' \<noteq> k" for k' r
    using not_clashesD [OF assms(2) that(1)] that(2) assms(3) by (simp_all add: index_clash_sym [of r])
  have "bt_keyed row_key (bt_put k s (ld_ops db))"
    using assms(1,3) unfolding journal_ok_def by (blast intro: bt_keyed_put)
  moreover have "\<not> index_clash r t" if "((bt_get (ld_ops db))(k \<mapsto> s)) k' = Some r"
      "((bt_get (ld_ops db))(k \<mapsto> s)) k'' = Some t" "k' \<noteq> k''" for k' k'' r t
    using that assms(1) apart [of k' r] apart [of k'' t] unfolding journal_ok_def
    by (cases "k' = k"; cases "k'' = k") (simp, simp, simp, metis fun_upd_other)
  ultimately show ?thesis unfolding journal_ok_def by (simp del: fun_upd_apply)
qed

lemma journal_ok_same: "ld_ops db' = ld_ops db \<Longrightarrow> journal_ok db' = journal_ok db"
  by (simp add: journal_ok_def)

lemma change_journal_ok: "change now D db db' \<Longrightarrow> journal_ok db \<Longrightarrow> journal_ok db'"
proof (induction rule: change.induct)
  case (row db k r s)
  then have "k = row_key s" using bt_keyed_get [of row_key "ld_ops db" k r]
    by (simp add: journal_ok_def row_le_key)
  with row show ?case by (simp add: journal_ok_put)
next
  case (rows f db)
  have key: "row_key (f r) = row_key r" for r by (rule row_le_key [OF rows(1)])
  have clash: "index_clash (f r) (f s) \<Longrightarrow> index_clash r s" for r s
    using rows(1) [of r] rows(1) [of s] rows(2) rows(3)
    by (auto simp: index_clash_def row_le_def)
  have "bt_keyed row_key (bt_map f (ld_ops db))" using rows(4) key by (auto simp: journal_ok_def intro: bt_keyed_map)
  moreover have "\<not> index_clash r s" if m: "map_option f (bt_get (ld_ops db) k) = Some r"
      "map_option f (bt_get (ld_ops db) k') = Some s" "k \<noteq> k'" for k k' r s
  proof -
    obtain r0 s0 where r0: "bt_get (ld_ops db) k = Some r0" "bt_get (ld_ops db) k' = Some s0" "r = f r0" "s = f s0"
      using m(1,2) unfolding map_option_eq_Some by blast
    with rows(4) clash m(3) show ?thesis unfolding journal_ok_def by metis
  qed
  ultimately show ?case unfolding journal_ok_def by (simp del: map_option_eq_Some)
next
  case (added db r)
  then show ?case by (simp add: journal_ok_put)
next
  case (claims db db')
  then show ?case by (auto simp: claims_grow_def journal_ok_def)
qed (simp_all add: journal_ok_def drop_custody_def)

lemma journal_ok_empty: "journal_ok empty_login_db"
  by (simp add: journal_ok_def empty_login_db_def)

section \<open>The order of the tables\<close>

text \<open>A lease keeps its holder or moves to a higher epoch; a stored credential never goes
  back and a removed account stays as it is; claims, audit rows and reset rows only move on.\<close>

definition lease_order :: "login_db \<Rightarrow> login_db \<Rightarrow> bool" where
  "lease_order db db' = (\<forall>a l. bt_get (pc_leases (ld_custody db)) a = Some l \<longrightarrow>
     (\<exists>l'. bt_get (pc_leases (ld_custody db')) a = Some l'
        \<and> (pgl_epoch l < pgl_epoch l' \<or> pgl_epoch l = pgl_epoch l' \<and> pgl_holder l = pgl_holder l')))"

definition account_order :: "login_db \<Rightarrow> login_db \<Rightarrow> bool" where
  "account_order db db' = (\<forall>a x. account_row db a = Some x \<longrightarrow>
     (\<exists>y. account_row db' a = Some y \<and> cr_revision (pga_record x) \<le> cr_revision (pga_record y)
        \<and> (pga_deleted x \<longrightarrow> y = x)))"

definition table_order :: "('k, 'v) btree \<Rightarrow> ('k, 'v) btree \<Rightarrow> bool" where
  "table_order t u = (\<forall>k v. bt_get t k = Some v \<longrightarrow> bt_get u k = Some v)"

definition db_le :: "login_db \<Rightarrow> login_db \<Rightarrow> bool" where
  "db_le db db' =
     (rows_le db db' \<and> lease_order db db' \<and> account_order db db'
      \<and> table_order (ld_claims db) (ld_claims db') \<and> table_order (ld_audit db) (ld_audit db')
      \<and> reset_le (ld_resets db) (ld_resets db'))"

lemma table_order_refl [simp]: "table_order t t"
  by (simp add: table_order_def)

lemma lease_order_same [simp]: "ld_custody db' = ld_custody db \<Longrightarrow> lease_order db db'"
  by (simp add: lease_order_def)

lemma account_order_same [simp]:
  "pc_accounts (ld_custody db') = pc_accounts (ld_custody db) \<Longrightarrow> account_order db db'"
  by (simp add: account_order_def account_row_def)

lemma reset_le_refl [simp]: "reset_le R R"
  by (simp add: reset_le_def)

lemma db_le_refl: "db_le db db"
  by (simp add: db_le_def)

lemma pointwise_trans:
  assumes "\<And>x y z. R x y \<Longrightarrow> R y z \<Longrightarrow> R x z"
    and "\<forall>k x. f k = Some x \<longrightarrow> (\<exists>y. g k = Some y \<and> R x y)"
    and "\<forall>k x. g k = Some x \<longrightarrow> (\<exists>y. h k = Some y \<and> R x y)"
  shows "\<forall>k x. f k = Some x \<longrightarrow> (\<exists>y. h k = Some y \<and> R x y)"
  using assms by metis

lemma lease_order_trans: "lease_order a b \<Longrightarrow> lease_order b c \<Longrightarrow> lease_order a c"
  unfolding lease_order_def
  by (rule pointwise_trans [where R = "\<lambda>l l'. pgl_epoch l < pgl_epoch l' \<or> pgl_epoch l = pgl_epoch l' \<and> pgl_holder l = pgl_holder l'"])
    auto

lemma account_order_trans: "account_order a b \<Longrightarrow> account_order b c \<Longrightarrow> account_order a c"
  unfolding account_order_def
  by (rule pointwise_trans [where R = "\<lambda>x y. cr_revision (pga_record x) \<le> cr_revision (pga_record y) \<and> (pga_deleted x \<longrightarrow> y = x)"])
    auto

lemma reset_le_trans: "reset_le a b \<Longrightarrow> reset_le b c \<Longrightarrow> reset_le a c"
  unfolding reset_le_def
  by (rule pointwise_trans [where R = "\<lambda>r s. (rr_deleted r \<longrightarrow> s = r)
      \<and> (rr_revision s = rr_revision r \<and> rr_journal s = rr_journal r \<or> rr_revision r < rr_revision s)"])
    auto

lemma db_le_trans: "db_le a b \<Longrightarrow> db_le b c \<Longrightarrow> db_le a c"
  unfolding db_le_def
  by (auto intro: rows_le_trans lease_order_trans account_order_trans reset_le_trans simp: table_order_def)

lemma change_db_le: "change now D db db' \<Longrightarrow> db_le db db'"
proof (induction rule: change.induct)
  case (row db k r s)
  then show ?case by (auto simp: db_le_def rows_le_def)
next
  case (rows f db)
  then show ?case by (auto simp: db_le_def rows_le_def)
next
  case (added db r)
  then show ?case by (auto simp: db_le_def rows_le_def)
next
  case (claims db db')
  then show ?case by (auto simp: db_le_def claims_grow_def rows_le_def table_order_def)
next
  case (audit db k v)
  then show ?case by (auto simp: db_le_def rows_le_same table_order_def)
next
  case (leases db L)
  have "lease_order db (db\<lparr>ld_custody := (ld_custody db)\<lparr>pc_leases := L\<rparr>\<rparr>)"
    unfolding lease_order_def
  proof (intro allI impI)
    fix a l assume "bt_get (pc_leases (ld_custody db)) a = Some l"
    with leases [unfolded lease_moves_def, THEN spec, of a]
    show "\<exists>l'. bt_get (pc_leases (ld_custody (db\<lparr>ld_custody := (ld_custody db)\<lparr>pc_leases := L\<rparr>\<rparr>))) a = Some l'
        \<and> (pgl_epoch l < pgl_epoch l' \<or> pgl_epoch l = pgl_epoch l' \<and> pgl_holder l = pgl_holder l')"
      by auto
  qed
  then show ?case by (simp add: db_le_def rows_le_same)
next
  case (accounts db A)
  then show ?case
    by (auto simp: db_le_def rows_le_same lease_order_def account_order_def account_moves_def account_row_def)
next
  case (resets db R)
  then show ?case by (simp add: db_le_def rows_le_same)
qed (simp_all add: db_le_def rows_le_same drop_custody_def)

lemma changes_journal_ok: "changes now D db db' \<Longrightarrow> journal_ok db \<Longrightarrow> journal_ok db'"
  by (rule changes_keep [OF change_journal_ok])

lemma changes_db_le: "changes now D db db' \<Longrightarrow> db_le db db'"
  by (rule changes_keep [where P = "db_le db"]) (auto intro: db_le_trans change_db_le db_le_refl)

section \<open>Runs\<close>

interpretation login_journal: monotone_system "login_step env" "\<lambda>(_, db). journal_ok db"
    "\<lambda>(t, db) (t', db'). t \<le> t' \<and> db_le db db'"
proof (unfold_locales, goal_cases)
  case (1 s e)
  then show ?case by (cases s; cases e) (auto intro: changes_journal_ok login_act_changes)
next
  case (2 s)
  then show ?case by (cases s) (simp add: db_le_refl)
next
  case (3 s t u)
  then show ?case by (cases s; cases t; cases u) (auto intro: db_le_trans)
next
  case (4 s e)
  then show ?case by (cases s; cases e) (auto intro: changes_db_le login_act_changes)
qed

interpretation login_order: monotone_system "login_step env" "\<lambda>_. True"
    "\<lambda>(t, db) (t', db'). t \<le> t' \<and> db_le db db'"
proof (unfold_locales, goal_cases)
  case (2 s)
  then show ?case by (cases s) (simp add: db_le_refl)
next
  case (3 s t u)
  then show ?case by (cases s; cases t; cases u) (auto intro: db_le_trans)
next
  case (4 s e)
  then show ?case by (cases s; cases e) (auto intro: changes_db_le login_act_changes)
qed simp

lemma run_db_le: "login_run env (t, db) steps = (t', db') \<Longrightarrow> t \<le> t' \<and> db_le db db'"
  using login_order.run_le [of "(t, db)" env steps] by (simp add: login_run_def)

lemma run_snd_le: "db_le db (snd (login_run env (t, db) steps))"
  using run_db_le [of env t db steps] by (cases "login_run env (t, db) steps") auto

lemma db_le_row:
  assumes "db_le db db'" "bt_get (ld_ops db) k = Some r"
  obtains s where "bt_get (ld_ops db') k = Some s" "row_le r s"
  using assms unfolding db_le_def rows_le_def by blast

section \<open>Properties of the journal\<close>

text \<open>C2: one login at a time. Whatever the replicas do from an empty database, with whatever
  stale copies, no two open logins are on one account, or on one alias of one user.\<close>

theorem one_open_login:
  "sorted_wrt (\<lambda>r s. \<not> index_clash r s) (bt_values (ld_ops (snd (login_run env (0, empty_login_db) steps))))"
proof -
  let ?db = "snd (login_run env (0, empty_login_db) steps)"
  have ok: "journal_ok ?db"
    using login_journal.run_inv [of "(0, empty_login_db)" env steps]
    by (simp add: login_run_def journal_ok_empty split_def)
  then have order: "bt_ok (ld_ops ?db)" unfolding journal_ok_def by (blast intro: bt_keyed_ok)
  have pair: "\<not> index_clash (snd e) (snd e')" if "e \<in> set (ld_ops ?db)" "e' \<in> set (ld_ops ?db)" "fst e < fst e'" for e e'
    using ok that bt_get_in_iff [OF order, of "fst e" "snd e"] bt_get_in_iff [OF order, of "fst e'" "snd e'"]
    unfolding journal_ok_def by (metis order_less_irrefl prod.collapse)
  have "sorted_wrt (\<lambda>e e'. fst e < fst e') (ld_ops ?db)"
    using order by (simp add: bt_ok_def sorted_wrt_map)
  then have "sorted_wrt (\<lambda>e e'. \<not> index_clash (snd e) (snd e')) (ld_ops ?db)"
    by (rule sorted_wrt_mono_rel [rotated]) (rule pair)
  then show ?thesis by (simp add: bt_values_def sorted_wrt_map)
qed

text \<open>C39: what a login may become. Over any run its row stays; epoch and sequence never go
  back, an epoch keeps its holder, and a sequence number stands for one phase, account,
  payload and epoch. A completed or canceled row never changes again, a failed or rejected
  one keeps its phase, and an account, a cancellation and a failure report are never taken
  back.\<close>

theorem login_rows_only_advance:
  "case bt_get (ld_ops db) k of
     None \<Rightarrow> True
   | Some r \<Rightarrow>
       (case bt_get (ld_ops (snd (login_run env (t, db) steps))) k of
          None \<Rightarrow> False
        | Some s \<Rightarrow>
            lr_epoch r \<le> lr_epoch s \<and> lr_sequence r \<le> lr_sequence s
            \<and> (if lr_epoch s = lr_epoch r then lr_holder s = lr_holder r else True)
            \<and> (if lr_sequence s = lr_sequence r
               then lr_phase s = lr_phase r \<and> lr_account s = lr_account r \<and> lr_payload s = lr_payload r
                 \<and> lr_epoch s = lr_epoch r
               else True)
            \<and> (case lr_phase r of
                 PCompleted \<Rightarrow> s = r | Canceled \<Rightarrow> s = r
               | Failed \<Rightarrow> lr_phase s = Failed | Rejected \<Rightarrow> lr_phase s = Rejected | _ \<Rightarrow> True)
            \<and> (case lr_account r of None \<Rightarrow> True | Some a \<Rightarrow> lr_account s = Some a)
            \<and> (if lr_cancel r then lr_cancel s else True)
            \<and> (if lr_failure_reported r then lr_failure_reported s else True))"
proof (cases "bt_get (ld_ops db) k")
  case (Some r)
  from db_le_row [OF run_snd_le Some, of env t steps] obtain s where
    "bt_get (ld_ops (snd (login_run env (t, db) steps))) k = Some s" "row_le r s" .
  with Some show ?thesis by (simp add: row_le_def split: login_phase.split option.split)
qed simp

section \<open>Stale workers\<close>

lemma update_row_stale:
  assumes "bt_get (ld_ops db) k = Some r" "\<not> cond r"
  shows "update_row k cond f db = Inr None"
  using assms by (simp add: update_row_def)

definition stale :: "login_operation \<Rightarrow> login_db \<Rightarrow> bool" where
  "stale op db = (case bt_get (ld_ops db) (op_key op) of None \<Rightarrow> False | Some r \<Rightarrow> lo_epoch op < lr_epoch r)"

lemma stale_run:
  assumes "stale op db"
  shows "stale op (snd (login_run env (t, db) steps))"
proof -
  obtain r where r: "bt_get (ld_ops db) (op_key op) = Some r" "lo_epoch op < lr_epoch r"
    using assms by (auto simp: stale_def split: option.splits)
  from db_le_row [OF run_snd_le r(1)] obtain s where
    "bt_get (ld_ops (snd (login_run env (t, db) steps))) (op_key op) = Some s" "row_le r s" .
  with r(2) show ?thesis by (simp add: stale_def row_le_def)
qed

text \<open>The actions with a copy of a row that compare the row's incarnation with the copy's.\<close>

definition worker_actions ::
    "login_operation \<Rightarrow> string \<Rightarrow> bool \<Rightarrow> lease \<Rightarrow> credential_record \<Rightarrow> int \<Rightarrow> login_phase \<Rightarrow> login_action list" where
  "worker_actions op h flag l c previous phase =
     [HeartbeatLogin op, SaveLogin op phase, RecoverPolling op h, TakeCandidate op h, RecoverUnresolved op h,
      PollingAbsence op flag, UnpublishedGrant op, PollingClear op, TakeFailure op h flag,
      BeginVerification op l, CompleteLogin op l c previous, AdmitAdd flag flag flag op, ReserveRenewal op]"

lemma stale_update:
  assumes "stale op db" "\<And>r. cond r \<Longrightarrow> same_incarnation op r"
  shows "update_row (op_key op) cond f db = Inr None"
proof -
  obtain r where r: "bt_get (ld_ops db) (op_key op) = Some r" "lo_epoch op < lr_epoch r"
    using assms(1) by (auto simp: stale_def split: option.splits)
  then have "\<not> cond r" using assms(2) [of r] by (auto simp: same_incarnation_def)
  with r(1) show ?thesis by (rule update_row_stale)
qed

lemma stale_updates:
  assumes "stale op db"
  shows "update_row (op_key op) (\<lambda>r. same_incarnation op r \<and> P r) f db = Inr None"
    "update_row (op_key op) (\<lambda>r. same_version op r \<and> P r) f db = Inr None"
    "update_row (op_key op) (\<lambda>r. b \<and> same_version op r \<and> P r) f db = Inr None"
    "update_row (op_key op) (failure_claimable op h grantless now db) f db = Inr None"
  by (rule stale_update [OF assms]; simp add: same_version_def failure_claimable_def)+

lemma stale_refused:
  assumes "stale op db"
  shows "\<exists>e. login_heartbeat op now db = (Inl e, db)"
    and "\<exists>e op'. login_save cf sf op phase now db = (Inl e, op', db)"
    and "login_recover_polling op h now db = (Inr False, op, db)"
    and "login_takeover_candidate op h now db = (Inr False, op, db)"
    and "login_recover_unresolved op h now db = (Inr False, op, db)"
    and "login_record_polling_absence op flag now db = (Inl LoginFenced, op, db)"
    and "login_record_unpublished_grant op db = (Inl LoginFenced, db)"
    and "\<exists>e. login_polling_clear op db = (Inl e, db)"
    and "login_take_failure op h flag now db = (Inr False, op, db)"
    and "login_begin_verification op l now db = (Inl LoginFenced, op, db)"
    and "\<exists>e. login_complete af cf op l c previous now later db = (Inl e, op, db)"
proof -
  note upd = stale_updates [OF assms]
  show "\<exists>e. login_heartbeat op now db = (Inl e, db)"
    by (simp add: login_heartbeat_def upd split: option.split)
  obtain op1 where op1: "(if phase = Unresolved then op\<lparr>lo_phase := phase\<rparr> else op) = op1"
    "stale op1 db" "op_key op1 = op_key op"
    using that assms by (cases "phase = Unresolved") (auto simp: stale_def op_key_def split: option.splits)
  show "\<exists>e op'. login_save cf sf op phase now db = (Inl e, op', db)"
    unfolding login_save_def Let_def op1(1)
    by (auto simp: stale_updates [OF op1(2)] split: option.split)
  show "login_recover_polling op h now db = (Inr False, op, db)"
    by (simp add: login_recover_polling_def upd)
  show "login_takeover_candidate op h now db = (Inr False, op, db)"
    by (simp add: login_takeover_candidate_def upd)
  show "login_recover_unresolved op h now db = (Inr False, op, db)"
    by (simp add: login_recover_unresolved_def Let_def upd)
  show "login_record_polling_absence op flag now db = (Inl LoginFenced, op, db)"
    by (simp add: login_record_polling_absence_def Let_def upd split: authority.split)
  show "login_record_unpublished_grant op db = (Inl LoginFenced, db)"
    by (simp add: login_record_unpublished_grant_def upd)
  show "\<exists>e. login_polling_clear op db = (Inl e, db)"
    by (simp add: login_polling_clear_def upd)
  show "login_take_failure op h flag now db = (Inr False, op, db)"
    by (simp add: login_take_failure_def upd update_or_keep_def)
  show "login_begin_verification op l now db = (Inl LoginFenced, op, db)"
    by (simp add: login_begin_verification_def upd)
  have "complete_statement op l c previous now db = None"
    using assms
    by (auto simp: complete_statement_def completes_def same_version_def same_incarnation_def stale_def split: option.splits)
  then show "\<exists>e. login_complete af cf op l c previous now later db = (Inl e, op, db)"
    by (cases rule: login_complete_cases [of af cf op l c previous now later db]) auto
qed

lemma stale_not_admitted:
  assumes "stale op db"
  shows "\<exists>res. login_admit_add cf kf seal acknowledged committed reread op now later db = (res, op, db) \<and> res \<noteq> Inr Ready"
    and "\<exists>res. login_reserve_renewal cf op now later db = (res, db) \<and> res \<noteq> Inr True"
proof -
  have no: "\<not> admissible op now db r" if "bt_get (ld_ops db) (op_key op) = Some r" for r
    using assms that by (auto simp: stale_def admissible_def same_version_def same_incarnation_def)
  have "admit_add proposed sealed op c now later db \<noteq> Inr (Inr x)" for proposed sealed c x
    using no by (auto simp: admit_add_def split: option.split)
  moreover have "admitted_row op later db = None"
    using assms by (auto simp: stale_def admitted_row_def same_incarnation_def split: option.split)
  ultimately show "\<exists>res. login_admit_add cf kf seal acknowledged committed reread op now later db = (res, op, db) \<and> res \<noteq> Inr Ready"
    by (auto simp: login_admit_add_def Let_def split: option.split sum.split)
  show "\<exists>res. login_reserve_renewal cf op now later db = (res, db) \<and> res \<noteq> Inr True"
    using no by (auto simp: login_reserve_renewal_def split: option.split)
qed

text \<open>A cancellation compares no epoch, but it asks for no more than the cancellation of its row.\<close>

abbreviation canceled_row :: "login_row \<Rightarrow> login_row" where
  "canceled_row r \<equiv> r\<lparr>lr_cancel := True\<rparr>"

lemma login_cancel_only_requests:
  "(login_cancel op db)\<lparr>ld_ops := ld_ops db\<rparr> = db
    \<and> map_option canceled_row (bt_get (ld_ops (login_cancel op db)) k) = map_option canceled_row (bt_get (ld_ops db) k)"
  by (auto simp: login_cancel_def update_or_keep_def update_row_def split: option.split)


end
