(* ===== verification/SharedFacts.thy ===== *)
theory SharedFacts
  imports LoginFacts
begin

text \<open>
  Properties of completion, failure reports, replicas that stop renewing, identities,
  banked resets and removals, over the runs of \<open>LoginRuns\<close>.
\<close>

section \<open>Completion\<close>

lemma bt_del_put: "bt_del k (bt_put k v m) = bt_del k m"
  by (induction m) (auto simp: bt_del_def)

lemma claim_insert_owns: "claim_insert key account t = Some t' \<Longrightarrow> bt_get t' key = Some (account, False)"
  by (auto simp: claim_insert_def split: option.splits if_splits)

lemma record_claim_owns: "record_claim account w key db = Inr db' \<Longrightarrow> bt_get (ld_claims db') (w, key) = Some (account, False)"
  by (auto simp: record_claim_def dest: claim_insert_owns split: option.splits)

lemma claims_grow_get: "claims_grow db db' \<Longrightarrow> bt_get (ld_claims db) k = Some v \<Longrightarrow> bt_get (ld_claims db') k = Some v"
  unfolding claims_grow_def by (elim exE conjE) (simp del: split_paired_All)

lemma fold_claims_own:
  assumes "fold (\<lambda>key res. case res of Inl e \<Rightarrow> Inl e | Inr d \<Rightarrow> record_claim account w key d) keys (Inr db) = Inr db'"
    and "key \<in> set keys"
  shows "bt_get (ld_claims db') (w, key) = Some (account, False)"
  using assms
proof (induction keys arbitrary: db)
  case (Cons k keys)
  have stuck: "fold (\<lambda>key res. case res of Inl e \<Rightarrow> Inl e | Inr d \<Rightarrow> record_claim account w key d) ks (Inl e) = Inl e"
    for ks e by (induction ks) auto
  from Cons.prems obtain d where d: "record_claim account w k db = Inr d"
    "fold (\<lambda>key res. case res of Inl e \<Rightarrow> Inl e | Inr d \<Rightarrow> record_claim account w key d) keys (Inr d) = Inr db'"
    by (cases "record_claim account w k db") (auto simp: stuck)
  show ?case
  proof (cases "key \<in> set keys")
    case True
    with Cons.IH [OF d(2)] show ?thesis .
  next
    case False
    with Cons.prems have "key = k" by simp
    with record_claim_owns [OF d(1)] claims_grow_get [OF fold_claims_grow [OF d(2)]] show ?thesis by simp
  qed
qed simp

lemma record_claims_own:
  "record_claims account c db = Inr db' \<Longrightarrow> key \<in> set (claim_keys c)
     \<Longrightarrow> bt_get (ld_claims db') (cl_workspace c, key) = Some (account, False)"
  by (auto simp: record_claims_def split: if_splits intro: fold_claims_own)

lemma audit_login_frame:
  "audit_login op stage result db = Inr (b, db') \<Longrightarrow> \<exists>a. db' = db\<lparr>ld_audit := a\<rparr>"
  by (auto simp: audit_login_def split: authority.splits option.splits if_splits)
    (metis login_db.surjective login_db.update_convs(8))+

lemma complete_statement_shape:
  assumes "complete_statement op l c previous now db = Some db1"
  obtains r a s where
    "bt_get (ld_ops db) (op_key op) = Some r" "completes op l previous now db r"
    "account_row db (l_account l) = Some a" "cr_revision (pga_record a) = previous" "\<not> pga_deleted a"
    "bt_get (ld_ops db1) (op_key op) = Some s" "lr_phase s = PCompleted" "lr_sequence s = lr_sequence r + 1"
    "lr_completed_revision s = Some (cr_revision c)" "lp_candidate (lr_payload s) = None"
    "pc_accounts (ld_custody db1) = bt_put (l_account l) (publish_credential c a) (pc_accounts (ld_custody db))"
    "\<forall>(_, owner, deleted) \<in> set (ld_reservations db1). owner = op_key op \<longrightarrow> deleted"
proof -
  obtain r where r: "bt_get (ld_ops db) (op_key op) = Some r" "completes op l previous now db r"
    using assms by (auto simp: complete_statement_def split: option.splits if_splits)
  from r(2) obtain a where a: "account_row db (l_account l) = Some a" "cr_revision (pga_record a) = previous"
    "\<not> pga_deleted a"
    by (auto simp: completes_def account_row_def account_live_def pg_active_def split: option.splits)
  let ?s = "r\<lparr>lr_phase := PCompleted, lr_sequence := lr_sequence r + 1, lr_completed_revision := Some (cr_revision c),
      lr_payload := empty_payload\<lparr>lp_actor := lp_actor (lo_payload op)\<rparr>\<rparr>"
  have "bt_get (ld_ops db1) (op_key op) = Some ?s"
    "pc_accounts (ld_custody db1) = bt_put (l_account l) (publish_credential c a) (pc_accounts (ld_custody db))"
    "\<forall>(_, owner, deleted) \<in> set (ld_reservations db1). owner = op_key op \<longrightarrow> deleted"
    using assms r a
    by (auto simp: complete_statement_def Let_def release_reservations_def account_row_def bt_map_def)
  with r a show ?thesis by (intro that [of r a ?s]) (simp_all add: empty_payload_def)
qed

text \<open>C4: completion publishes all or nothing. A completed login held the account lease and its
  own row at the version it names, verified, uncanceled, unexpired, with a live holder and a
  live caller; then the receipt, the new credential over exactly the revision it was based
  on, its claims and the release of its reservations appear together, and no other account
  changes. A refused completion changes nothing.\<close>

theorem completion_all_or_nothing:
  "case login_complete auth_of claims_of op l c previous now later db of
     (Inl _, op', db') \<Rightarrow> op' = op \<and> db' = db
   | (Inr _, op', db') \<Rightarrow>
       lease_current l now db \<and> previous < cr_revision c
       \<and> authority_live now db (lo_user op) (lo_authority op)
       \<and> (case (bt_get (ld_ops db) (op_key op), bt_get (ld_ops db') (op_key op)) of
            (Some r, Some s) \<Rightarrow>
              lr_holder r = lo_holder op \<and> lr_epoch r = lo_epoch op \<and> lr_sequence r = lo_sequence op
              \<and> lr_phase r = Verifying \<and> \<not> lr_cancel r \<and> now < lr_expires_at r \<and> holder_live now db (lo_holder op)
              \<and> lr_phase s = PCompleted \<and> lr_sequence s = lr_sequence r + 1
              \<and> lr_completed_revision s = Some (cr_revision c) \<and> lp_candidate (lr_payload s) = None
          | _ \<Rightarrow> False)
       \<and> (case (account_row db (l_account l), account_row db' (l_account l)) of
            (Some a, Some b) \<Rightarrow>
              \<not> pga_deleted a \<and> cr_revision (pga_record a) = previous
              \<and> cr_vault (pga_record b) = cr_vault c \<and> cr_revision (pga_record b) = cr_revision c
          | _ \<Rightarrow> False)
       \<and> bt_del (l_account l) (pc_accounts (ld_custody db')) = bt_del (l_account l) (pc_accounts (ld_custody db))
       \<and> list_all (\<lambda>(_, _, deleted). deleted) (filter (\<lambda>(_, owner, _). owner = op_key op) (ld_reservations db'))
       \<and> (case claims_from_record auth_of claims_of c of
            Inr (Some cl) \<Rightarrow>
              list_all (\<lambda>key. bt_get (ld_claims db') (cl_workspace cl, key) = Some (l_account l, False)) (claim_keys cl)
          | _ \<Rightarrow> True)"
proof (cases rule: login_complete_cases [of auth_of claims_of op l c previous now later db])
  case (fin claims db1 b db2 db3)
  from fin(5) obtain r a s where f:
    "bt_get (ld_ops db) (op_key op) = Some r" "completes op l previous now db r"
    "account_row db (l_account l) = Some a" "cr_revision (pga_record a) = previous" "\<not> pga_deleted a"
    "bt_get (ld_ops db1) (op_key op) = Some s" "lr_phase s = PCompleted" "lr_sequence s = lr_sequence r + 1"
    "lr_completed_revision s = Some (cr_revision c)" "lp_candidate (lr_payload s) = None"
    "pc_accounts (ld_custody db1) = bt_put (l_account l) (publish_credential c a) (pc_accounts (ld_custody db))"
    "\<forall>(_, owner, deleted) \<in> set (ld_reservations db1). owner = op_key op \<longrightarrow> deleted"
    by (rule complete_statement_shape)
  have same: "ld_ops db3 = ld_ops db1" "ld_custody db3 = ld_custody db1" "ld_reservations db3 = ld_reservations db1"
    using audit_login_frame [OF fin(6)] recorded_grow [OF fin(7)] by (auto simp: claims_grow_def)
  have own: "bt_get (ld_claims db3) (cl_workspace cl, key) = Some (l_account l, False)"
    if "claims = Some cl" "key \<in> set (claim_keys cl)" for cl key
    using fin(7) that by (simp add: recorded_def record_claims_own)
  have acc: "account_row db3 (l_account l) = Some (publish_credential c a)"
    by (simp add: account_row_def same f)
  have del: "bt_del (l_account l) (pc_accounts (ld_custody db3)) = bt_del (l_account l) (pc_accounts (ld_custody db))"
    by (simp add: same f bt_del_put)
  have rel: "list_all (\<lambda>(_, _, deleted). deleted) (filter (\<lambda>(_, owner, _). owner = op_key op) (ld_reservations db3))"
    using f(12) by (auto simp: same list_all_iff)
  have cl: "case claims_from_record auth_of claims_of c of
      Inr (Some cl) \<Rightarrow>
        list_all (\<lambda>key. bt_get (ld_claims db3) (cl_workspace cl, key) = Some (l_account l, False)) (claim_keys cl)
    | _ \<Rightarrow> True"
    using own fin(9) by (simp add: list_all_iff split: option.split)
  show ?thesis
    using f(1-10) fin(3,4) acc del rel cl
    by (simp add: fin(8) same publish_credential_def completes_def same_version_def same_incarnation_def)
qed simp

section \<open>Failure reports\<close>

definition reports_failure :: "string \<times> string \<Rightarrow> login_sys \<Rightarrow> login_step \<Rightarrow> bool" where
  "reports_failure k sys step =
     (case step of
        (gap, _, TakeFailure op h grantless) \<Rightarrow>
          op_key op = k \<and> fst (login_take_failure op h grantless (fst sys + gap) (snd sys)) = Inr True
      | _ \<Rightarrow> False)"

fun failures_reported :: "login_env \<Rightarrow> string \<times> string \<Rightarrow> login_sys \<Rightarrow> login_step list \<Rightarrow> nat" where
  "failures_reported env k sys [] = 0"
| "failures_reported env k sys (st # steps) =
     (if reports_failure k sys st then 1 else 0) + failures_reported env k (login_step env sys st) steps"

definition reported :: "string \<times> string \<Rightarrow> login_db \<Rightarrow> bool" where
  "reported k db = (case bt_get (ld_ops db) k of None \<Rightarrow> False | Some r \<Rightarrow> lr_failure_reported r)"

lemma reported_le: "db_le db db' \<Longrightarrow> reported k db \<Longrightarrow> reported k db'"
  by (cases "bt_get (ld_ops db) k") (auto simp: reported_def row_le_def elim!: db_le_row)

lemma step_db_le: "db_le (snd sys) (snd (login_step env sys st))"
  using run_snd_le [of "snd sys" env "fst sys" "[st]"] by (simp add: login_run_def)

lemma take_failure_True:
  assumes "fst (login_take_failure op h grantless now db) = Inr True"
  shows "\<not> reported (op_key op) db" "reported (op_key op) (snd (snd (login_take_failure op h grantless now db)))"
proof -
  let ?u = "update_row (op_key op) (failure_claimable op h grantless now db) (\<lambda>r. r\<lparr>lr_failure_reported := True\<rparr>) db"
  obtain s db' where u: "?u = Inr (Some (s, db'))"
    using assms by (auto simp: login_take_failure_def update_or_keep_def split: sum.splits option.splits bool.splits)
  then obtain r where r: "bt_get (ld_ops db) (op_key op) = Some r" "failure_claimable op h grantless now db r"
    "db' = db\<lparr>ld_ops := bt_put (op_key op) (r\<lparr>lr_failure_reported := True\<rparr>) (ld_ops db)\<rparr>"
    by (rule update_row_SomeD)
  then show "\<not> reported (op_key op) db" by (simp add: reported_def failure_claimable_def)
  show "reported (op_key op) (snd (snd (login_take_failure op h grantless now db)))"
    using u r(3) by (simp add: login_take_failure_def update_or_keep_def reported_def)
qed

lemma reports_once:
  assumes "reports_failure k sys st"
  shows "\<not> reported k (snd sys)" "reported k (snd (login_step env sys st))"
proof -
  obtain gap dur op h g where st: "st = (gap, dur, TakeFailure op h g)" "op_key op = k"
    "fst (login_take_failure op h g (fst sys + gap) (snd sys)) = Inr True"
    using assms by (auto simp: reports_failure_def split: prod.splits login_action.splits)
  from take_failure_True [OF st(3)] st(1,2)
  show "\<not> reported k (snd sys)" "reported k (snd (login_step env sys st))"
    by (cases sys; simp)+
qed

lemma no_second_report: "reported k (snd sys) \<Longrightarrow> failures_reported env k sys steps = 0"
proof (induction steps arbitrary: sys)
  case (Cons st steps)
  have "reported k (snd (login_step env sys st))" by (rule reported_le [OF step_db_le Cons.prems])
  with Cons show ?case using reports_once(1) by fastforce
qed simp

text \<open>a failure is told once. Over any run of any replicas, at most one claim to report the
  failure of a login is granted.\<close>

theorem failure_reported_at_most_once: "failures_reported env k sys steps \<le> 1"
proof (induction steps arbitrary: sys)
  case (Cons st steps)
  show ?case
  proof (cases "reports_failure k sys st")
    case True
    from no_second_report [OF reports_once(2) [OF True, of env], of env steps] True show ?thesis by simp
  next
    case False
    with Cons.IH show ?thesis by simp
  qed
qed simp

section \<open>A replica that stopped renewing\<close>

definition expired_holder :: "string \<Rightarrow> login_sys \<Rightarrow> bool" where
  "expired_holder h sys =
     (case bt_get (ld_holders (snd sys)) h of None \<Rightarrow> False | Some r \<Rightarrow> hr_expires_at r \<le> fst sys)"

lemma change_holders: "change now D db db' \<Longrightarrow> expired_holder h (now, db) \<Longrightarrow> expired_holder h (now, db')"
proof (induction rule: change.induct)
  case (holders db H)
  then obtain r where "bt_get (ld_holders db) h = Some r" "hr_expires_at r \<le> now"
    by (auto simp: expired_holder_def split: option.splits)
  with holders(1) obtain s where "bt_get H h = Some s" "hr_expires_at s \<le> now"
    unfolding holder_moves_def by blast
  then show ?case by (simp add: expired_holder_def)
next
  case (claims db db')
  then show ?case by (auto simp: claims_grow_def expired_holder_def split: option.splits)
qed (auto simp: expired_holder_def drop_custody_def split: option.splits)

lemma expired_later: "expired_holder h (t, db) \<Longrightarrow> t \<le> t' \<Longrightarrow> expired_holder h (t', db)"
  by (auto simp: expired_holder_def split: option.splits)

interpretation holder_expiry: guarded_system "login_step env" "expired_holder h"
proof
  fix sys :: login_sys and st :: login_step
  assume a: "expired_holder h sys"
  obtain t db gap dur act where e: "sys = (t, db)" "st = (gap, dur, act)" by (cases sys; cases st)
  have "expired_holder h (t + gap, login_act env (t + gap) (t + gap + dur) db act)"
    by (rule changes_keep [OF change_holders login_act_changes]) (use a e in \<open>auto intro: expired_later\<close>)
  then show "expired_holder h (login_step env sys st)" by (auto simp: e intro: expired_later)
qed

lemma expired_not_live: "expired_holder h (t, db) \<Longrightarrow> t \<le> now \<Longrightarrow> \<not> holder_live now db h"
  by (auto simp: expired_holder_def holder_live_def split: option.splits)

lemma dead_update:
  assumes "\<not> holder_live now db h" "\<And>r. cond r \<Longrightarrow> holder_live now db h"
  shows "update_row k cond f db = Inr None"
  using assms by (auto simp: update_row_def split: option.split)

lemma dead_updates:
  assumes "\<not> holder_live now db h"
  shows "update_row k (\<lambda>r. A r \<and> B r \<and> C r \<and> D r \<and> holder_live now db h \<and> E r) f db = Inr None"
    "update_row k (\<lambda>r. A r \<and> B r \<and> C r \<and> holder_live now db h) f db = Inr None"
    "update_row k (\<lambda>r. A r \<and> B r \<and> C r \<and> D r \<and> G r \<and> holder_live now db h \<and> E r) f db = Inr None"
  by (rule dead_update [OF assms]; simp)+

lemma dead_holder_refused:
  assumes dead: "\<not> holder_live now db (lo_holder op)"
  shows "\<exists>e. login_heartbeat op now db = (Inl e, db)"
    and "\<exists>e op'. login_save cf sf op phase now db = (Inl e, op', db)"
    and "login_begin_verification op l now db = (Inl LoginFenced, op, db)"
    and "\<exists>e. login_complete af cf op l c previous now later db = (Inl e, op, db)"
    and "\<exists>res. login_account_lease op h now db = (res, db) \<and> (case res of Inr (Some _) \<Rightarrow> False | _ \<Rightarrow> True)"
proof -
  show "\<exists>e. login_heartbeat op now db = (Inl e, db)"
    by (simp add: login_heartbeat_def dead_updates [OF dead] split: option.split)
  show "\<exists>e op'. login_save cf sf op phase now db = (Inl e, op', db)"
  proof -
    obtain op1 where op1: "(if phase = Unresolved then op\<lparr>lo_phase := phase\<rparr> else op) = op1"
      and live: "\<not> holder_live now db (lo_holder op1)"
      using that dead by (cases "phase = Unresolved") auto
    show ?thesis
      unfolding login_save_def Let_def op1
      by (auto simp: dead_updates [OF live] split: option.split)
  qed
  show "login_begin_verification op l now db = (Inl LoginFenced, op, db)"
    by (simp add: login_begin_verification_def dead_updates [OF dead])
  have "complete_statement op l c previous now db = None"
    using dead by (auto simp: complete_statement_def completes_def split: option.splits)
  then show "\<exists>e. login_complete af cf op l c previous now later db = (Inl e, op, db)"
    by (cases rule: login_complete_cases [of af cf op l c previous now later db]) auto
  have "\<not> login_may_claim op account now db" for account
    using dead by (auto simp: login_may_claim_def list_ex_iff)
  then show "\<exists>res. login_account_lease op h now db = (res, db) \<and> (case res of Inr (Some _) \<Rightarrow> False | _ \<Rightarrow> True)"
    by (auto simp: login_account_lease_def Let_def split: option.split)
qed

text \<open>a replica that missed its renewals stays out. Once the registration of a holder has
  expired, after any run (its own late renewals included) it is not live at any later time,
  and its workers can neither keep, save, verify or complete a login nor take the account's
  lease for one.\<close>

theorem expired_holder_stays_out:
  assumes "bt_get (ld_holders db) (lo_holder op) = Some r" and "hr_expires_at r \<le> t"
    and "login_run env (t, db) steps = (t', db')"
  shows "\<not> holder_live (t' + gap) db' (lo_holder op)
    \<and> list_all (\<lambda>act. login_act env (t' + gap) later db' act = db')
        [HeartbeatLogin op, SaveLogin op phase, BeginVerification op l, CompleteLogin op l c previous, LoginLease op h]
    \<and> isl (fst (login_heartbeat op (t' + gap) db'))
    \<and> isl (fst (login_save (ev_claims env) (ev_subject env) op phase (t' + gap) db'))
    \<and> (case fst (login_account_lease op h (t' + gap) db') of Inr (Some _) \<Rightarrow> False | _ \<Rightarrow> True)"
proof -
  have "expired_holder (lo_holder op) (t, db)" using assms(1,2) by (simp add: expired_holder_def)
  from holder_expiry.run_inv [OF this, of env steps] assms(3)
  have dead: "\<not> holder_live (t' + gap) db' (lo_holder op)"
    using expired_not_live [of "lo_holder op" t' db' "t' + gap"] by (simp add: login_run_def)
  note no = dead_holder_refused [OF dead]
  obtain e1 where "login_heartbeat op (t' + gap) db' = (Inl e1, db')" using no(1) by blast
  moreover obtain e2 op' where "login_save (ev_claims env) (ev_subject env) op phase (t' + gap) db' = (Inl e2, op', db')"
    using no(2) by blast
  moreover obtain e3 where
    "login_complete (ev_auth env) (ev_claims env) op l c previous (t' + gap) later db' = (Inl e3, op, db')"
    using no(4) by blast
  moreover obtain res where "login_account_lease op h (t' + gap) db' = (res, db')"
    "case res of Inr (Some _) \<Rightarrow> False | _ \<Rightarrow> True" using no(5) [of h] by blast
  ultimately show ?thesis using dead no(3) by simp
qed

end
