(* ===== verification/CustodyFacts.thy ===== *)
theory CustodyFacts
  imports SharedFacts
begin

text \<open>
  Properties that span the login journal, the leases, the identity claims, the reset
  custody and the removal of accounts, over the runs of \<open>LoginRuns\<close>.
\<close>

section \<open>An identity stays with its account\<close>

lemma recorded_foreign:
  assumes "bt_get (ld_claims db) (cl_workspace cl, key) = Some (owner, gone)" "key \<in> set (claim_keys cl)"
    and "account \<noteq> owner"
  shows "\<exists>e. recorded account (Some cl) db = Inl e"
proof (cases "recorded account (Some cl) db")
  case (Inr db')
  then have "record_claims account cl db = Inr db'" by (simp add: recorded_def)
  with assms record_claims_own [OF this assms(2)] claims_grow_get [OF record_claims_grow [OF this] assms(1)]
  show ?thesis by simp
qed simp

lemma db_le_claims: "db_le db db' \<Longrightarrow> bt_get (ld_claims db) k = Some v \<Longrightarrow> bt_get (ld_claims db') k = Some v"
  unfolding db_le_def table_order_def by blast

text \<open>C16: a login identity never moves to another account. Once a claim of a credential is
  recorded for an account, after any run it still is, and no import, publication or completed
  login of another account with that claim changes anything.\<close>

theorem identity_never_moves:
  assumes "bt_get (ld_claims db) (cl_workspace cl, key) = Some (owner, gone)"
    and "key \<in> set (claim_keys cl)"
    and "claims_from_record (ev_auth env) (ev_claims env) r = Inr (Some cl)"
    and "cr_account_id r \<noteq> owner"
  shows "let db' = snd (login_run env (t, db) steps) in
     bt_get (ld_claims db') (cl_workspace cl, key) = Some (owner, gone)
     \<and> list_all (\<lambda>act. login_act env now later db' act = db')
         [SaveAccount r, PublishAccount l r, CompleteLogin op l r previous]"
proof -
  let ?db = "snd (login_run env (t, db) steps)"
  have own: "bt_get (ld_claims ?db) (cl_workspace cl, key) = Some (owner, gone)"
    by (rule db_le_claims [OF run_snd_le assms(1)])
  obtain e where e: "recorded (cr_account_id r) (Some cl) (store_record r ?db) = Inl e"
    using recorded_foreign [of "store_record r ?db" cl key owner gone "cr_account_id r"] own assms(2,4)
    by (auto simp: store_record_def)
  have "snd (save_account_db (ev_auth env) (ev_claims env) r ?db) = ?db"
    by (simp add: save_account_db_def assms(3) Let_def e split: option.split)
  moreover have "snd (fenced_write_db (ev_auth env) (ev_claims env) l r now ?db) = ?db"
    by (simp add: fenced_write_db_def assms(3) e split: option.split)
  moreover have "snd (snd (login_complete (ev_auth env) (ev_claims env) op l r previous now later ?db)) = ?db"
  proof (cases rule: login_complete_cases [of "ev_auth env" "ev_claims env" op l r previous now later ?db])
    case (fin claims db1 b db2 db3)
    have "db_le ?db db2"
      using changes_db_le [OF complete_statement_changes [OF fin(5,3), of "{}"]]
        changes_db_le [OF audit_login_changes [OF fin(6), of now "{}"]] by (rule db_le_trans)
    from recorded_foreign [OF db_le_claims [OF this own] assms(2), of "l_account l"] fin(2,7,9) assms(3,4)
    show ?thesis by auto
  qed simp
  ultimately show ?thesis using own by (simp add: Let_def)
qed

section \<open>The custody of a reset\<close>

definition held_pair :: "login_db \<Rightarrow> string \<Rightarrow> (string \<times> int) option" where
  "held_pair db a = map_option (\<lambda>l. (pgl_holder l, pgl_epoch l)) (bt_get (pc_leases (ld_custody db)) a)"

definition under_custody :: "string \<Rightarrow> (string \<times> int) option \<Rightarrow> bool \<Rightarrow> login_db \<Rightarrow> bool" where
  "under_custody a p live db =
     (a \<in> set (ld_reset_custody db) \<and> held_pair db a = p \<and> (live \<longrightarrow> account_live db a))"

lemma change_under_custody:
  "change now D db db' \<Longrightarrow> a \<notin> D \<Longrightarrow> under_custody a p live db \<Longrightarrow> under_custody a p live db'"
proof (induction rule: change.induct)
  case (leases db L)
  then have "\<not> reset_free db a" by (simp add: under_custody_def reset_free_def)
  with leases show ?case
    by (force simp: under_custody_def held_pair_def lease_moves_def account_live_def pg_active_def
        split: option.splits dest: spec [of _ a])
next
  case (accounts db A)
  then have "\<not> reset_free db a" by (simp add: under_custody_def reset_free_def)
  with accounts show ?case
    by (auto simp: under_custody_def held_pair_def account_moves_def account_live_def pg_active_def
        split: option.splits dest: spec [of _ a])
next
  case (dropped b db)
  then have "a \<noteq> b" by blast
  with dropped show ?case
    by (auto simp: under_custody_def drop_custody_def held_pair_def account_live_def pg_active_def)
next
  case (claims db db')
  then show ?case
    by (auto simp: claims_grow_def under_custody_def held_pair_def account_live_def pg_active_def)
qed (simp_all add: under_custody_def held_pair_def account_live_def pg_active_def)

lemma run_under_custody:
  assumes "under_custody a p live db" "list_all (\<lambda>(_, _, act). act \<noteq> DropReset a) steps"
  shows "under_custody a p live (snd (login_run env (t, db) steps))"
  using assms
proof (induction steps arbitrary: t db)
  case (Cons st steps)
  obtain gap dur act where st: "st = (gap, dur, act)" by (cases st)
  have "a \<notin> dropped_by act" using Cons.prems(2) by (cases act) (auto simp: st)
  then have "under_custody a p live (login_act env (t + gap) (t + gap + dur) db act)"
    using changes_keep [where P = "under_custody a p live", OF _ login_act_changes] Cons.prems(1)
      change_under_custody by blast
  from Cons.IH [OF this] Cons.prems(2) show ?case by (simp add: login_run_def st)
qed (simp add: login_run_def)

text \<open>C11: a reset under custody has the account to itself. While one replica holds the custody
  of an account's reset, whatever all replicas do, the account's lease keeps its holder and
  epoch, a live account is not removed, no other replica obtains the custody, no refresh and
  no login obtains a lease and no removal is committed.\<close>

theorem reset_custody_excludes:
  assumes "a \<in> set (ld_reset_custody db)" and "list_all (\<lambda>(_, _, act). act \<noteq> DropReset a) steps"
  shows "let db' = snd (login_run env (t, db) steps) in
     held_pair db' a = held_pair db a
     \<and> (if account_live db a then account_live db' a else True)
     \<and> fst (reset_custody a db') = Inl RefInProgress
     \<and> isl (fst (refresh_lease a h ttl now db'))
     \<and> (if lo_account op = Some a
        then (case fst (login_account_lease op h now db') of Inr (Some _) \<Rightarrow> False | _ \<Rightarrow> True) else True)
     \<and> (if lo_account op = Some a then isl (fst (login_create op now db')) else True)
     \<and> (if rm_account q = a then isl (fst (remove_account loans c q h Commit now later db')) else True)"
proof -
  let ?db = "snd (login_run env (t, db) steps)"
  have u: "under_custody a (held_pair db a) (account_live db a) ?db"
    by (rule run_under_custody [OF _ assms(2)]) (simp add: under_custody_def assms(1))
  then have busy: "\<not> reset_free ?db a" by (simp add: under_custody_def reset_free_def)
  have "fst (reset_custody a ?db) = Inl RefInProgress" using busy by (simp add: reset_custody_def)
  moreover have "isl (fst (refresh_lease a h ttl now ?db))"
    using busy by (simp add: refresh_lease_def pg_acquire_lease_def Let_def split: option.split)
  moreover have "case fst (login_account_lease op h now ?db) of Inr (Some _) \<Rightarrow> False | _ \<Rightarrow> True"
    if "lo_account op = Some a"
    using busy that by (simp add: login_account_lease_def Let_def split: option.split)
  moreover have "isl (fst (login_create op now ?db))" if "lo_account op = Some a"
    using busy that by (simp add: login_create_def renewal_refused_def)
  moreover have "isl (fst (remove_account loans c q h Commit now later ?db))" if "rm_account q = a"
    using busy that by (simp add: remove_account_def split: option.split)
  ultimately show ?thesis using u by (simp add: Let_def under_custody_def)
qed

section \<open>Compare and swap\<close>

lemma settle_effects_resets: "ld_resets (settle_effects a audit code db) = ld_resets db"
  by (simp add: settle_effects_def Let_def split: option.split prod.split)

lemma write_reset_True:
  assumes "write_reset_journal user a v j stage now later db = (Inr True, db1)"
  obtains r where "bt_get (ld_resets db1) a = Some r" "v \<noteq> 0 \<longrightarrow> v < rr_revision r"
proof -
  obtain d where d: "swap_journal a v j db = Some d" "ld_resets db1 = ld_resets d"
    using assms by (auto simp: write_reset_journal_def settle_effects_resets split: option.splits reset_write.splits)
  then have "\<exists>r. bt_get (ld_resets db1) a = Some r \<and> (v \<noteq> 0 \<longrightarrow> v < rr_revision r)"
    by (auto simp: swap_journal_def split: option.splits if_splits)
  then show ?thesis using that by blast
qed

text \<open>no reset journal update is lost. Once a write based on a revision has succeeded, no
  replica that read the journal at that revision can write any more, after any run: its
  write is refused or reports that it must read again, and changes nothing.\<close>

theorem stale_reset_write_refused:
  assumes "write_reset_journal user a v j stage now later db = (Inr True, db1)"
  shows "let db' = snd (login_run env (t, db1) steps);
             res = write_reset_journal user' a v j' stage' now' later' db'
         in snd res = db' \<and> (case fst res of Inr written \<Rightarrow> \<not> written | Inl _ \<Rightarrow> True)"
proof -
  let ?db = "snd (login_run env (t, db1) steps)"
  obtain r where r: "bt_get (ld_resets db1) a = Some r" "v \<noteq> 0 \<longrightarrow> v < rr_revision r"
    by (rule write_reset_True [OF assms])
  have "reset_le (ld_resets db1) (ld_resets ?db)" using run_snd_le [of db1 env t steps] by (simp add: db_le_def)
  with r(1) obtain s where s: "bt_get (ld_resets ?db) a = Some s" "rr_revision r \<le> rr_revision s"
    unfolding reset_le_def by (metis less_imp_le order_refl)
  then have "swap_journal a v j' ?db = None" using r(2) by (auto simp: swap_journal_def)
  then show ?thesis
    by (simp add: Let_def write_reset_journal_def split: option.split reset_write.split)
qed

section \<open>Removing an account\<close>

text \<open>C38: an account is removed only when nobody uses it. A removal commits only for a caller
  freshly signed in on a live browser session, who names the alias and the revision as they
  are, while no reset holds custody, no loan of the account is unended, no login fences it
  or adds an account for the caller, and no other holder has its lease; otherwise nothing
  changes.\<close>

theorem removal_only_when_idle:
  "case remove_account loans c q holder action now later db of
     (Inr Removed, db') \<Rightarrow>
       action = Commit \<and> removal_authorize c now db = None \<and> rm_account q \<notin> set (ld_reset_custody db)
       \<and> (case account_row db (rm_account q) of
            None \<Rightarrow> False
          | Some a \<Rightarrow>
              \<not> pga_deleted a \<and> cr_user_id (pga_record a) = Some (ca_user c)
              \<and> cr_alias (pga_record a) = rm_alias q \<and> rm_confirmation q = rm_alias q
              \<and> cr_revision (pga_record a) = rm_revision q)
       \<and> filter (\<lambda>g. g_account_id g = rm_account q \<and> g_ended_at g = None \<and> g_deleted_at g = None) (pl_loans loans) = []
       \<and> \<not> login_fenced db (rm_account q)
       \<and> list_all (\<lambda>r. lr_phase r \<notin> {Starting, Pending})
           (filter (\<lambda>r. lr_account r = Some (rm_account q) \<or> lr_user r = ca_user c \<and> lr_kind r = Add)
             (bt_values (ld_ops db)))
       \<and> (case bt_get (pc_leases (ld_custody db)) (rm_account q) of
            None \<Rightarrow> True | Some l \<Rightarrow> if pgl_holder l = holder then True else pgl_released l)
   | (_, db') \<Rightarrow> db' = db"
proof (cases rule: remove_account_cases [of loans c q holder action now later db])
  case (kept res)
  then show ?thesis by (cases res) (auto split: removal_result.split)
next
  case (fin a actor)
  have r: "\<not> pga_deleted a" "cr_revision (pga_record a) = rm_revision q" "\<not> lent (rm_account q) loans"
    "\<not> login_pending db (rm_account q) (ca_user c)" "\<not> foreign_lease db (rm_account q) holder"
    using fin(9) by (simp_all add: removal_refused_def split: if_splits)
  have "filter (\<lambda>g. g_account_id g = rm_account q \<and> g_ended_at g = None \<and> g_deleted_at g = None) (pl_loans loans) = []"
    using r(3) by (auto simp: lent_def list_ex_iff filter_empty_conv)
  moreover have "\<not> login_fenced db (rm_account q)"
    using r(4) by (auto simp: login_pending_def login_fenced_def list_ex_iff)
  moreover have "list_all (\<lambda>r. lr_phase r \<notin> {Starting, Pending})
      (filter (\<lambda>r. lr_account r = Some (rm_account q) \<or> lr_user r = ca_user c \<and> lr_kind r = Add) (bt_values (ld_ops db)))"
    using r(4) by (auto simp: login_pending_def list_ex_iff list_all_iff)
  moreover have "case bt_get (pc_leases (ld_custody db)) (rm_account q) of
      None \<Rightarrow> True | Some l \<Rightarrow> if pgl_holder l = holder then True else pgl_released l"
    using r(5) by (auto simp: foreign_lease_def split: option.splits)
  ultimately show ?thesis
    unfolding fin(11) using r(1,2) fin(1-6,10) by (simp add: reset_free_def)
qed

lemma tombstoned:
  assumes "account_row db a = Some x" "\<not> pga_deleted x"
  shows "account_row (tombstone_account a h t actor attempt db) a
      = Some (x\<lparr>pga_record := (pga_record x)\<lparr>cr_revision := cr_revision (pga_record x) + 1\<rparr>, pga_deleted := True\<rparr>)"
    "bt_get (ld_audit (tombstone_account a h t actor attempt db)) attempt
      = Some (actor, ''account_remove'', a, ''ok'')"
  using assms by (simp_all add: tombstone_account_def pg_tombstone_def account_row_def)

lemma removed_row_refuses:
  assumes "account_row db a = Some x" "pga_deleted x"
  shows "isl (fst (refresh_lease a h ttl now db))"
    and "cr_account_id r = a \<Longrightarrow> login_act env now later db (SaveAccount r) = db"
    and "cr_account_id r = a \<Longrightarrow> login_act env now later db (PublishAccount l r) = db"
    and "cr_account_id r = a \<Longrightarrow> login_act env now later db (CompleteLogin op l r previous) = db"
proof -
  have gone: "\<not> account_live db a" using assms by (simp add: account_live_def pg_active_def account_row_def)
  then show "isl (fst (refresh_lease a h ttl now db))"
    by (simp add: refresh_lease_def pg_acquire_lease_def Let_def account_live_def split: option.split)
  show "cr_account_id r = a \<Longrightarrow> login_act env now later db (SaveAccount r) = db"
    using assms by (simp add: save_account_db_def Let_def split: sum.split)
  show "cr_account_id r = a \<Longrightarrow> login_act env now later db (PublishAccount l r) = db"
    using assms by (simp add: fenced_write_db_def split: sum.split)
  assume a: "cr_account_id r = a"
  show "login_act env now later db (CompleteLogin op l r previous) = db"
  proof (cases rule: login_complete_cases [of "ev_auth env" "ev_claims env" op l r previous now later db])
    case (fin claims db1 b db2 db3)
    then have "account_live db (l_account l)"
      by (auto simp: complete_statement_def completes_def split: option.splits if_splits)
    with gone fin(2) a show ?thesis by simp
  qed simp
qed

text \<open>C20: a removed account stays removed, and its removal can be asked for again. After a
  removal and any run, the account is still a tombstone of the next revision, no refresh,
  import, publication or completed login touches it, and the same request of the same caller,
  with whatever loans, holder and action, changes nothing and answers that the account was
  removed already, exactly when the caller's sign-in still allows a removal (otherwise it answers
  the missing or outdated sign-in) and no replica holds the custody of a reset of the account
  (otherwise it answers that a reset is in progress).\<close>

theorem removal_final_and_idempotent:
  assumes "remove_account loans c q holder Commit now later db = (Inr Removed, db1)"
    and "rm_revision q < i64_max"
  shows "let db' = snd (login_run env (t, db1) steps);
             again = remove_account loans' c q holder' action now' later' db'
         in (case account_row db' (rm_account q) of
               None \<Rightarrow> False
             | Some a \<Rightarrow> pga_deleted a \<and> cr_revision (pga_record a) = rm_revision q + 1)
           \<and> isl (fst (refresh_lease (rm_account q) h ttl now' db'))
           \<and> (if cr_account_id r = rm_account q
              then list_all (\<lambda>act. login_act env now' later' db' act = db')
                     [SaveAccount r, PublishAccount l r, CompleteLogin op l r previous]
              else True)
           \<and> snd again = db'
           \<and> fst again = (case removal_authorize c now' db' of
               Some e \<Rightarrow> Inl e
             | None \<Rightarrow> if reset_free db' (rm_account q) then Inr AlreadyRemoved else Inl RmResetInProgress)"
  using assms(1)
proof (cases rule: remove_account_cases [of loans c q holder Commit now later db])
  case (fin a actor)
  let ?db = "snd (login_run env (t, db1) steps)"
  have live: "\<not> pga_deleted a" "cr_revision (pga_record a) = rm_revision q"
    using fin(9) by (simp_all add: removal_refused_def split: if_splits)
  define x where "x = a\<lparr>pga_record := (pga_record a)\<lparr>cr_revision := cr_revision (pga_record a) + 1\<rparr>, pga_deleted := True\<rparr>"
  have db1: "db1 = tombstone_account (rm_account q) holder now actor (rm_attempt q) db"
    using assms(1) fin(11) by simp
  have le: "db_le db1 ?db" by (rule run_snd_le)
  have row1: "account_row db1 (rm_account q) = Some x" "pga_deleted x"
    using tombstoned(1) [OF fin(3) live(1)] by (simp_all add: db1 x_def)
  have row: "account_row ?db (rm_account q) = Some x"
    using le row1 unfolding db_le_def account_order_def by blast
  have "bt_get (ld_audit db1) (rm_attempt q) = Some (actor, ''account_remove'', rm_account q, ''ok'')"
    using tombstoned(2) [OF fin(3) live(1)] by (simp add: db1)
  then have aud: "bt_get (ld_audit ?db) (rm_attempt q) = Some (actor, ''account_remove'', rm_account q, ''ok'')"
    using le unfolding db_le_def table_order_def by blast
  have rec: "removal_receipt c actor q x ?db = Some (Inr AlreadyRemoved)"
    using live assms(2) by (simp add: removal_receipt_def aud x_def)
  have same: "cr_user_id (pga_record x) = Some (ca_user c)" "rm_alias q = cr_alias (pga_record x)"
    "rm_confirmation q = cr_alias (pga_record x)"
    using fin(4-6) by (simp_all add: x_def)
  have again: "remove_account loans' c q holder' action now' later' ?db
      = ((case removal_authorize c now' ?db of Some e \<Rightarrow> Inl e
          | None \<Rightarrow> if reset_free ?db (rm_account q) then Inr AlreadyRemoved else Inl RmResetInProgress), ?db)"
    using same(1) by (simp add: remove_account_def row same(2,3) fin(7) rec flip: same(2) split: option.split)
  have "pga_deleted x" "cr_revision (pga_record x) = rm_revision q + 1" using live by (simp_all add: x_def)
  moreover have "list_all (\<lambda>act. login_act env now' later' ?db act = ?db)
      [SaveAccount r, PublishAccount l r, CompleteLogin op l r previous]" if "cr_account_id r = rm_account q"
    using removed_row_refuses(2-4) [OF row row1(2) that] by simp
  moreover have "isl (fst (refresh_lease (rm_account q) h ttl now' ?db))"
    by (rule removed_row_refuses(1) [OF row row1(2)])
  ultimately show ?thesis by (simp add: Let_def row again)
qed simp

section \<open>Progress\<close>

lemma bt_put_in: "e \<in> set (bt_put k v m) \<Longrightarrow> e = (k, v) \<or> e \<in> set m"
  by (induction m) (auto split: if_splits)

lemma same_index_no_clash:
  assumes "journal_ok db" "bt_get (ld_ops db) k = Some r" "row_key s = k"
    and "lr_account s = lr_account r" "lr_alias s = lr_alias r" "lr_user s = lr_user r"
    and "open_phase (lr_phase r)"
  shows "\<not> clashes s db"
proof
  assume "clashes s db"
  then obtain k' t where t: "(k', t) \<in> set (ld_ops db)" "k' \<noteq> k" "index_clash s t"
    using assms(3) by (auto simp: clashes_def list_ex_iff)
  have "bt_get (ld_ops db) k' = Some t"
    using assms(1) t(1) unfolding journal_ok_def by (elim conjE) (simp add: bt_get_in_iff [OF bt_keyed_ok])
  moreover have "index_clash r t" using t(3) assms(4-7) by (simp add: index_clash_def)
  ultimately show False using assms(1,2) t(2) unfolding journal_ok_def by blast
qed

text \<open>C36: an abandoned login is picked up. Let a login be a candidate, its replica registered
  with its life bound to its parent, not released and past its time, the login's own time run
  out, no lease of the login on its account unreleased, and that account, if it has one, live and
  the user's. Then any registered live replica that asks for it with the current copy gets it:
  the next epoch, the saved credential, a fresh deadline, and a heartbeat of the new worker is
  accepted; the old worker's copy is stale from then on. A candidate whose replica died holding
  the account's lease is not handed over this way.\<close>

theorem abandoned_candidate_recovered:
  assumes "journal_ok db" and "bt_get (ld_ops db) k = Some r" and "lr_phase r = Candidate"
    and "case bt_get (ld_holders db) (lr_holder r) of
           None \<Rightarrow> False | Some h \<Rightarrow> hr_bound h \<and> \<not> hr_deleted h \<and> hr_expires_at h \<le> now"
    and "lr_expires_at r \<le> now" and "\<not> login_lease_held r db" and "holder_live now db h"
    and "op_account_live r db"
  shows "case login_takeover_candidate (read_row now r) h now db of
      (res, op', db') \<Rightarrow>
        res = Inr True \<and> lo_holder op' = h \<and> lo_epoch op' = lr_epoch r + 1
        \<and> lp_candidate (lo_payload op') = lp_candidate (lr_payload r)
        \<and> map_option (read_row now) (bt_get (ld_ops db') k) = Some op'
        \<and> \<not> isl (fst (login_heartbeat op' now db')) \<and> stale (read_row now r) db'"
proof -
  define s where "s = r\<lparr>lr_holder := h, lr_epoch := lr_epoch r + 1, lr_sequence := lr_sequence r + 1,
      lr_expires_at := now + op_ttl\<rparr>"
  have key: "row_key r = k" using assms(1,2) unfolding journal_ok_def by (blast dest: bt_keyed_get)
  then have op: "op_key (read_row now r) = k" by (simp add: op_key_def read_row_def row_key_def)
  have skey: "row_key s = k" using key by (simp add: s_def row_key_def)
  have free: "\<not> clashes s db"
    by (rule same_index_no_clash [OF assms(1,2) skey]) (simp_all add: s_def assms(3) open_phase_def)
  define db' where "db' = db\<lparr>ld_ops := bt_put k s (ld_ops db)\<rparr>"
  have held: "holder_row_is (\<lambda>x. hr_bound x \<and> (lr_holder r = h \<and> now < hr_expires_at x
      \<or> lr_expires_at r \<le> now \<and> hr_expires_at x \<le> now)) db (lr_holder r)"
    using assms(4,5) by (auto simp: holder_row_is_def split: option.splits)
  have ver: "same_version (read_row now r) r" by (simp add: same_version_def same_incarnation_def read_row_def)
  have take: "login_takeover_candidate (read_row now r) h now db = (Inr True, read_row now s, db')"
  proof -
    have "lo_phase (read_row now r) = Candidate" by (simp add: read_row_def assms(3))
    then show ?thesis
      using free held ver assms(2,3,6,7)
      by (simp add: login_takeover_candidate_def op update_row_def db'_def flip: s_def)
  qed
  have live': "holder_live now db' h" using assms(7) by (simp add: db'_def holder_live_def)
  have heart: "\<not> isl (fst (login_heartbeat (read_row now s) now db'))"
  proof -
    let ?s = "s\<lparr>lr_expires_at := now + op_ttl\<rparr>"
    have eq: "?s = s" by (simp add: s_def)
    have k': "op_key (read_row now s) = k" using skey by (simp add: op_key_def read_row_def row_key_def)
    have "op_account_live s db'"
      using assms(8) by (auto simp: op_account_live_def s_def db'_def account_live_def account_user_def account_row_def
          split: option.splits)
    moreover have "same_incarnation (read_row now s) s" by (simp add: same_incarnation_def read_row_def)
    moreover have "bt_get (ld_ops db') k = Some s" by (simp add: db'_def)
    moreover have "\<not> clashes s db'"
      using free skey unfolding clashes_def db'_def list_ex_iff by (fastforce dest: bt_put_in)
    moreover have "lr_phase s = Candidate" "now < lr_expires_at s" "lo_holder (read_row now s) = h"
      by (simp_all add: s_def op_ttl_def read_row_def assms(3))
    ultimately show ?thesis
      using live' by (simp add: login_heartbeat_def k' update_row_def working_def eq)
  qed
  have epochs: "lo_epoch (read_row now r) = lr_epoch r" "lr_epoch s = lr_epoch r + 1"
    by (simp_all add: read_row_def s_def)
  then have "stale (read_row now r) db'" by (simp add: stale_def op db'_def)
  then show ?thesis
    using heart by (simp add: take) (simp add: db'_def s_def read_row_def)
qed

lemma quiet_swap:
  assumes "reset_journal user account db = Inr (v, j)"
    and "case bt_get (ld_resets db) account of None \<Rightarrow> True | Some r \<Rightarrow> rr_revision r \<noteq> 0"
  shows "swap_journal account v j' db \<noteq> None"
  using assms by (auto simp: reset_journal_def swap_journal_def split: if_splits option.splits)

lemma quiet_write:
  assumes "reset_journal user account db = Inr (v, j)"
    and "case bt_get (ld_resets db) account of None \<Rightarrow> True | Some r \<Rightarrow> rr_revision r \<noteq> 0"
  shows "fst (write_reset_journal user' account v j' stage now later db) \<noteq> Inr False"
  using quiet_swap [OF assms, of j']
  by (auto simp: write_reset_journal_def split: option.split reset_write.split)

text \<open>the retry loops end as soon as nobody interferes. A round of reserving or settling an
  intent in which no other replica writes between the read and the write decides the
  request, whatever rounds were left.\<close>

theorem quiet_round_decides:
  assumes "rd_between rd = (\<lambda>x. x)"
    and "case bt_get (ld_resets db) account of None \<Rightarrow> True | Some r \<Rightarrow> rr_revision r \<noteq> 0"
  shows "reserve_intent parse key_of c arev auth holder account request (rd # rounds) db
           = reserve_intent parse key_of c arev auth holder account request [rd] db
       \<and> settle_intent c account request p response (rd # rounds) db
           = settle_intent c account request p response [rd] db"
proof (cases "reset_journal (ca_user c) account db")
  case (Inr x)
  then obtain v j where x: "reset_journal (ca_user c) account db = Inr (v, j)" by (cases x) auto
  note q = quiet_write [OF x assms(2)]
  have w: "\<exists>e d. write_reset_journal (ca_user c) account v j' stage now later db = (Inl e, d)
      \<or> write_reset_journal (ca_user c) account v j' stage now later db = (Inr True, d)" for j' stage now later
    using q [of "ca_user c" j' stage now later]
    by (cases "write_reset_journal (ca_user c) account v j' stage now later db"; cases "fst (write_reset_journal (ca_user c) account v j' stage now later db)") auto
  have r: "reserve_intent parse key_of c arev auth holder account request (rd # rounds) db
      = reserve_intent parse key_of c arev auth holder account request [rd] db"
  proof (cases "case jn_pending j of Some p \<Rightarrow> shared_join c request p | None \<Rightarrow> shared_prepare parse key_of c request rd")
    case (Inr p')
    from w [of "j\<lparr>jn_pending := Some p'\<rparr>" "Reserve c arev auth holder" "rd_now rd" "rd_later rd"] Inr
    show ?thesis by (auto simp: x assms(1) split: option.split)
  qed (simp add: x split: option.split)
  have t: "settle_intent c account request p response (rd # rounds) db = settle_intent c account request p response [rd] db"
  proof (cases "jn_pending j")
    case (Some cur)
    from w [of "complete (pd_joined cur @ [pd_request cur]) response (j\<lparr>jn_pending := None\<rparr>)"
        "Settle (map_option (\<lambda>actor. (actor, ''reset-outcome:'' @ pd_upstream cur)) (pd_actor cur)) (cs_code response)"
        "rd_now rd" "rd_later rd"] Some
    show ?thesis by (auto simp: x assms(1) split: option.split)
  qed (simp add: x split: option.split)
  from r t show ?thesis by simp
qed simp

section \<open>The provider is asked last\<close>

lemma swap_journal_stores:
  "swap_journal a v j db = Some db' \<Longrightarrow> \<exists>r. bt_get (ld_resets db') a = Some r \<and> rr_journal r = j \<and> \<not> rr_deleted r"
  by (auto simp: swap_journal_def split: option.splits if_splits)

lemma prepared_is_durable:
  "reserve_intent parse key_of c arev auth holder account request rounds db = (Prepared p, db1)
     \<Longrightarrow> \<exists>r. bt_get (ld_resets db1) account = Some r \<and> jn_pending (rr_journal r) = Some p \<and> \<not> rr_deleted r"
proof (induction rounds arbitrary: db)
  case (Cons rd rounds)
  then obtain v j where x: "reset_journal (ca_user c) account db = Inr (v, j)"
    by (auto split: sum.splits)
  obtain p' where p': "(case jn_pending j of Some p \<Rightarrow> shared_join c request p
      | None \<Rightarrow> shared_prepare parse key_of c request rd) = Inr p'"
    using Cons.prems by (auto simp: x split: option.splits sum.splits)
  obtain res d where w: "write_reset_journal (ca_user c) account v (j\<lparr>jn_pending := Some p'\<rparr>)
      (Reserve c arev auth holder) (rd_now rd) (rd_later rd) (rd_between rd db) = (res, d)" by fastforce
  have "bt_get (jn_completed j) request = None" using Cons.prems by (auto simp: x split: option.splits)
  with Cons.prems p' w have step: "(case res of Inl e \<Rightarrow> (ReserveRefused e, d) | Inr True \<Rightarrow> (Prepared p', d)
      | Inr False \<Rightarrow> reserve_intent parse key_of c arev auth holder account request rounds d) = (Prepared p, db1)"
    by (auto simp: x split: sum.splits bool.splits)
  show ?case
  proof (cases res)
    case (Inr b)
    show ?thesis
    proof (cases b)
      case True
      with step Inr have eq: "p' = p" "d = db1" by auto
      have "swap_journal account v (j\<lparr>jn_pending := Some p'\<rparr>) (rd_between rd db) = Some d"
        using w Inr True by (auto simp: write_reset_journal_def split: option.splits)
      from swap_journal_stores [OF this] eq show ?thesis by auto
    qed (use step Inr Cons.IH [of d] in simp)
  qed (use step in simp)
qed simp

text \<open>the provider is asked only after the intent is stored. A shared redemption asks the
  provider at most once, with the key and the credit of the intent its reservation left in
  the account's journal; a refused or replayed request asks nothing, and when no answer
  arrives the stored intent stays as it is.\<close>

theorem provider_asked_after_intent:
  "case (shared_execute parse key_of c arev auth holder account request rounds answer settling db,
         reserve_intent parse key_of c arev auth holder account request (take 8 rounds) db) of
     ((res, db', events), (Prepared p, db1)) \<Rightarrow>
       events = [Spend (pd_upstream p) (pd_credit p)]
       \<and> (case bt_get (ld_resets db1) account of
            None \<Rightarrow> False | Some r \<Rightarrow> jn_pending (rr_journal r) = Some p \<and> \<not> rr_deleted r)
       \<and> (case answer of Answered _ \<Rightarrow> True | ProviderRejected \<Rightarrow> True | _ \<Rightarrow> res = Inl RefNoAnswer \<and> db' = db1)
   | ((res, db', events), (_, db1)) \<Rightarrow> events = [] \<and> db' = db1"
proof -
  obtain r db1 where r: "reserve_intent parse key_of c arev auth holder account request (take 8 rounds) db = (r, db1)"
    by fastforce
  show ?thesis
  proof (cases r)
    case (Prepared p)
    with prepared_is_durable r obtain row where
      "bt_get (ld_resets db1) account = Some row" "jn_pending (rr_journal row) = Some p" "\<not> rr_deleted row" by blast
    with r Prepared show ?thesis
      by (cases answer) (auto simp: shared_execute_def split: prod.split)
  qed (simp_all add: r shared_execute_def)
qed

section \<open>Admission\<close>

lemma land_owned:
  assumes "land db user c owners selected = Landed i al"
    and "\<forall>(j, x) \<in> set owners. account_row db j = Some x \<and> \<not> pga_deleted x"
    and "selected = Landed i al \<longrightarrow> P"
    and "\<And>x. account_row db i = Some x \<Longrightarrow> \<not> pga_deleted x \<Longrightarrow> cr_user_id (pga_record x) = Some user
       \<Longrightarrow> identity_agrees db (Some (cl_workspace c)) (login_uid (cl_logins c)) (login_sub (cl_logins c)) i \<Longrightarrow> P"
  shows P
  using assms
proof (induction owners arbitrary: selected)
  case (Cons e owners)
  obtain j x where e: "e = (j, x)" by (cases e)
  let ?agree = "identity_agrees db (Some (cl_workspace c)) (login_uid (cl_logins c)) (login_sub (cl_logins c)) j"
  from Cons.prems(1) have ok: "?agree" "cr_user_id (pga_record x) = Some user" "selected = NewAccount"
    "land db user c owners (Landed j (cr_alias (pga_record x))) = Landed i al"
    by (auto simp: e split: if_splits)
  have "Landed j (cr_alias (pga_record x)) = Landed i al \<longrightarrow> P"
    using Cons.prems(2,4) ok(1,2) by (auto simp: e)
  then show ?case using Cons.IH [OF ok(4)] Cons.prems(2,4) by auto
qed simp

lemma owners_are_rows:
  assumes "bt_ok (pc_accounts (ld_custody db))"
  shows "\<forall>(j, x) \<in> set (claim_owners db c). account_row db j = Some x \<and> \<not> pga_deleted x"
  using bt_get_in_iff [OF assms]
  by (auto simp: claim_owners_def workspace_accounts_def account_row_def dest!: in_set_takeD)

lemma place_candidate_owned:
  assumes "place_candidate proposed sealed op c db = Inr (Inr ((account, landed), db'))"
    and "bt_ok (pc_accounts (ld_custody db))"
  shows "account_user db' account = Some (lo_user op) \<and> account_live db' account
    \<and> (if account_live db account
       then identity_agrees db (Some (cl_workspace c)) (login_uid (cl_logins c)) (login_sub (cl_logins c)) account
       else account_row db account = None)"
proof (cases "landing_of db (lo_user op) c")
  case (Landed i al)
  then have land: "land db (lo_user op) c (claim_owners db c) NewAccount = Landed i al"
    by (auto simp: landing_of_def split: if_splits)
  have eq: "account = i" "db' = db" using assms(1) Landed by (auto simp: place_candidate_def split: if_splits)
  show ?thesis
    by (rule land_owned [OF land owners_are_rows [OF assms(2)]])
      (auto simp: eq account_user_def account_live_def pg_active_def account_row_def)
next
  case NewAccount
  then show ?thesis
    using assms(1)
    by (auto simp: place_candidate_def new_account_def insert_account_def account_user_def account_live_def pg_active_def
        account_row_def split: if_splits)
qed (use assms(1) in \<open>auto simp: place_candidate_def\<close>)

text \<open>How an admission ends: the transaction was settled and says so, or the row of the login in
  the tables it left names an account of an earlier admission, or there is no success; then an
  acknowledged transaction left nothing.\<close>

lemma login_admit_add_cases:
  obtains (refused) res d where
    "login_admit_add cf kf seal acknowledged committed reread op now later db = (res, op, d)" "res \<noteq> Inr Ready"
    "acknowledged \<longrightarrow> d = db"
  | (earlier) auth cl account landed op' where
    "lp_candidate (lo_payload op) = Some auth" "cf auth = Some cl" "reread"
    "login_admit_add cf kf seal acknowledged committed reread op now later db = (Inr Ready, op', db)"
    "admitted_row op later db = Some (account, landed)" "lo_account op' = Some account"
  | (admitted) auth cl account landed db' account' landed' op' where
    "lp_candidate (lo_payload op) = Some auth" "cf auth = Some cl"
    "admit_add (kf (lo_user op) (lo_alias op)) (seal op) op cl now later db = Inr (Inr ((account, landed), db'))"
    "login_admit_add cf kf seal acknowledged committed reread op now later db = (Inr Ready, op', db')"
    "lo_account op' = Some account' \<and> ((account', landed') = (account, landed) \<or> admitted_row op later db' = Some (account', landed'))"
proof -
  let ?adm = "login_admit_add cf kf seal acknowledged committed reread op now later db"
  consider (stop) res where "?adm = (res, op, db)" "res \<noteq> Inr Ready"
    | (tx) auth cl where "lp_candidate (lo_payload op) = Some auth" "cf auth = Some cl" "claim_keys cl \<noteq> []"
    by (cases "lp_candidate (lo_payload op)"; cases "cf (the (lp_candidate (lo_payload op)))";
        cases "claim_keys (the (cf (the (lp_candidate (lo_payload op))))) = []") (auto simp: login_admit_add_def)
  then show ?thesis
  proof cases
    case tx
    let ?a = "admit_add (kf (lo_user op) (lo_alias op)) (seal op) op cl now later db"
    consider (error) e where "?a = Inl e" | (reason) e where "?a = Inr (Inl e)"
      | (settled) account landed db' where "?a = Inr (Inr ((account, landed), db'))"
      by (cases ?a; cases "projr ?a"; cases "projr (projr ?a)"; cases "fst (projr (projr ?a))") auto
    then show ?thesis
    proof cases
      case (error e)
      show ?thesis
        by (cases acknowledged; cases reread; cases "admitted_row op later db"; cases "e = UniqueViolation")
          (auto simp: login_admit_add_def Let_def tx error intro: refused earlier [OF tx(1,2)])
    next
      case (reason e)
      show ?thesis
        by (cases acknowledged; cases reread; cases "admitted_row op later db")
          (auto simp: login_admit_add_def Let_def tx reason intro: refused earlier [OF tx(1,2)])
    next
      case (settled account landed db')
      show ?thesis
        by (cases acknowledged; cases reread; cases committed; cases "admitted_row op later db"; cases "admitted_row op later db'")
          (auto simp: login_admit_add_def Let_def tx settled intro: refused earlier [OF tx(1,2)] admitted [OF tx(1,2) settled])
    qed
  qed (auto intro: refused)
qed

text \<open>C23: an added login lands on an account of its own user. When an admission is answered
  with success (also one whose answers were lost, by the journal row read again), then the
  account is live and belongs to the caller, it is new or agrees with the candidate's identity,
  every claim of the candidate is recorded for it, and the login's row names it at the next
  sequence; or this transaction left nothing and the row of the login, of the same incarnation,
  already named the account at the next sequence, which an earlier admission of the same copy
  did. Every other answer leaves the copy as it was, and the tables too where the transaction
  was acknowledged.\<close>

theorem admission_lands_on_own_account:
  assumes "bt_ok (pc_accounts (ld_custody db))"
  shows "case login_admit_add claims_of key_of seal acknowledged committed reread op now later db of
     (Inr Ready, op', db') \<Rightarrow>
       (case (lo_account op', Option.bind (lp_candidate (lo_payload op)) claims_of, bt_get (ld_ops db') (op_key op)) of
          (Some a, Some cl, Some s) \<Rightarrow>
            lr_account s = Some a \<and> lr_kind s = Add \<and> lr_phase s = Candidate \<and> lr_holder s = lo_holder op
            \<and> lr_epoch s = lo_epoch op \<and> lr_sequence s = lo_sequence op + 1
            \<and> (if bt_get (ld_ops db) (op_key op) = Some s then db' = db \<and> reread
               else account_user db' a = Some (lo_user op) \<and> account_live db' a
                 \<and> (if account_live db a
                    then identity_agrees db (Some (cl_workspace cl)) (login_uid (cl_logins cl)) (login_sub (cl_logins cl)) a
                    else account_row db a = None)
                 \<and> list_all (\<lambda>key. bt_get (ld_claims db') (cl_workspace cl, key) = Some (a, False)) (claim_keys cl))
        | _ \<Rightarrow> False)
   | (_, op', db') \<Rightarrow> op' = op \<and> (if acknowledged then db' = db else True)"
proof -
  let ?adm = "login_admit_add claims_of key_of seal acknowledged committed reread op now later db"
  show ?thesis
  proof (cases rule: login_admit_add_cases [of claims_of key_of seal acknowledged committed reread op now later db])
    case s: (refused res d)
    then show ?thesis by (cases res; cases "projr res") auto
  next
    case s: (earlier auth cl account landed op')
    then show ?thesis
      by (auto simp: admitted_row_def same_incarnation_def split: option.splits if_splits)
  next
    case s: (admitted auth cl account landed db2 account' landed' op')
    from s(3) obtain r db0 db1 db3 row where a:
      "bt_get (ld_ops db) (op_key op) = Some r" "admissible op now db r" "lr_kind r = Add" "lr_account r = None"
      "place_candidate (key_of (lo_user op) (lo_alias op)) (seal op) op cl db = Inr (Inr ((account, landed), db0))"
      "record_claims account cl db0 = Inr db1" "reserve_claims op account cl db1 = Some db3"
      "update_row (op_key op) (admissible op now db3)
         (\<lambda>r. r\<lparr>lr_account := Some account, lr_landed_alias := landed, lr_sequence := lr_sequence r + 1\<rparr>) db3
         = Inr (Some (row, db2))"
      by (rule admit_add_cases)
    from a(8) obtain r' where r': "bt_get (ld_ops db3) (op_key op) = Some r'"
      "db2 = db3\<lparr>ld_ops := bt_put (op_key op)
         (r'\<lparr>lr_account := Some account, lr_landed_alias := landed, lr_sequence := lr_sequence r' + 1\<rparr>) (ld_ops db3)\<rparr>"
      by (rule update_row_SomeD)
    have frame: "ld_ops db3 = ld_ops db" "ld_custody db3 = ld_custody db0" "ld_claims db3 = ld_claims db1"
      using place_candidate_changes [OF a(5)] record_claims_grow [OF a(6)] reserve_claims_reserving [OF a(7)]
      by (auto simp: claims_grow_def reserving_def)
    then have rr: "r' = r" using r'(1) a(1) by simp
    have same: "account_user db2 = account_user db0" "account_live db2 = account_live db0"
      by (simp_all add: fun_eq_iff r'(2) account_user_def account_row_def account_live_def pg_active_def frame)
    have owned: "account_user db2 account = Some (lo_user op)" "account_live db2 account"
      "if account_live db account
       then identity_agrees db (Some (cl_workspace cl)) (login_uid (cl_logins cl)) (login_sub (cl_logins cl)) account
       else account_row db account = None"
      using place_candidate_owned [OF a(5) assms] unfolding same by blast+
    have claimed: "list_all (\<lambda>key. bt_get (ld_claims db2) (cl_workspace cl, key) = Some (account, False)) (claim_keys cl)"
      using record_claims_own [OF a(6)] by (simp add: r'(2) frame list_all_iff)
    have named: "bt_get (ld_ops db2) (op_key op)
        = Some (r\<lparr>lr_account := Some account, lr_landed_alias := landed, lr_sequence := lr_sequence r + 1\<rparr>)"
      by (simp add: r'(2) rr)
    have v: "lr_phase r = Candidate" "lr_epoch r = lo_epoch op" "lr_sequence r = lo_sequence op"
      using a(2) by (simp_all add: admissible_def same_version_def same_incarnation_def)
    have "account' = account"
      using s(5) by (auto simp: admitted_row_def named split: if_splits)
    moreover have "lr_holder r = lo_holder op" using a(2) by (simp add: admissible_def same_version_def same_incarnation_def)
    moreover have "r \<noteq> r\<lparr>lr_account := Some account, lr_landed_alias := landed, lr_sequence := lo_sequence op + 1\<rparr>"
      using v(3)
      by (cases r) simp
    ultimately show ?thesis using owned claimed named v a(1,3) s(5) by (auto simp: s(1,2,4))
  qed
qed

end
