(* ===== verification/LoginDemo.thy ===== *)
theory LoginDemo
  imports CustodyFacts
begin

text \<open>
  A small deployment on which the properties over runs are applied: a user with one account,
  a login taken over from one replica by another, and a removal. Each witness uses its
  property at this state, with every hypothesis discharged there.
\<close>

definition demo_claims :: claims where
  "demo_claims = \<lparr>cl_workspace = ''w'', cl_logins = \<lparr>login_uid = None, login_sub = Some ''s''\<rparr>\<rparr>"

definition demo_env :: login_env where
  "demo_env =
     \<lparr>ev_auth = (\<lambda>v. if v = ''vault'' then Some ''cred'' else None),
      ev_claims = (\<lambda>a. if a = ''cred'' then Some demo_claims else None),
      ev_subject = (\<lambda>_. Some ''s''), ev_key = (\<lambda>u a. u @ ''/'' @ a), ev_seal = (\<lambda>_. ''vault'')\<rparr>"

definition demo_record :: credential_record where
  "demo_record =
     \<lparr>cr_account_id = ''acct'', cr_user_id = Some ''u'', cr_alias = ''work'', cr_workspace = Some ''w'',
      cr_login = Some ''s'', cr_vault = ''vault'', cr_revision = 3\<rparr>"

definition demo_row :: login_row where
  "demo_row =
     \<lparr>lr_user = ''u'', lr_id = ''l1'', lr_account = None, lr_alias = ''new'', lr_device = ''laptop'',
      lr_browser = None, lr_kind = Add, lr_phase = Candidate, lr_sequence = 4, lr_holder = ''pod2'',
      lr_epoch = 2, lr_expires_at = 40, lr_deadline = 900, lr_cancel = False, lr_payload = empty_payload,
      lr_reserved = True, lr_evidence = [], lr_completed_revision = None, lr_landed_alias = None,
      lr_workspace = None, lr_login = None, lr_uid = None, lr_sub = None, lr_polling_clear = False,
      lr_failure_reported = False\<rparr>"

text \<open>The copy of the replica that had the row before.\<close>

definition demo_copy :: login_operation where
  "demo_copy = (read_row 10 demo_row)\<lparr>lo_epoch := 1, lo_sequence := 3, lo_holder := ''pod1''\<rparr>"

definition demo_db :: login_db where
  "demo_db = empty_login_db
     \<lparr>ld_ops := [((''u'', ''l1''), demo_row)],
      ld_holders := [(''pod1'', \<lparr>hr_expires_at = 9, hr_bound = True, hr_deleted = False\<rparr>),
                     (''pod2'', \<lparr>hr_expires_at = 40, hr_bound = True, hr_deleted = False\<rparr>),
                     (''pod3'', \<lparr>hr_expires_at = 90, hr_bound = True, hr_deleted = False\<rparr>)],
      ld_claims := [((''w'', ''sub'', ''s''), ''acct'', False)],
      ld_custody := \<lparr>pc_accounts = [(''acct'', \<lparr>pga_record = demo_record, pga_deleted = False\<rparr>)],
                     pc_leases = []\<rparr>\<rparr>"

lemmas demo_defs = demo_db_def demo_row_def demo_copy_def demo_record_def demo_env_def demo_claims_def
  empty_login_db_def empty_auth_def


theorem expired_holder_stays_out_witness:
  "\<not> holder_live 12 (snd (login_run demo_env (10, demo_db) [(1, 0, RenewHolder ''pod1'')])) ''pod1''"
proof -
  obtain t' db' where run: "login_run demo_env (10, demo_db) [(1, 0, RenewHolder ''pod1'')] = (t', db')"
    by fastforce
  then have "t' = 11" by (auto simp: login_run_def)
  have "bt_get (ld_holders demo_db) (lo_holder demo_copy) = Some \<lparr>hr_expires_at = 9, hr_bound = True, hr_deleted = False\<rparr>"
    by (simp add: demo_defs)
  from expired_holder_stays_out [OF this _ run, of 1] \<open>t' = 11\<close> run show ?thesis
    by (simp add: demo_copy_def)
qed

theorem identity_never_moves_witness:
  "login_act demo_env 20 20 (snd (login_run demo_env (10, demo_db) [(1, 0, RenewHolder ''pod2'')]))
     (SaveAccount (demo_record\<lparr>cr_account_id := ''other''\<rparr>))
   = snd (login_run demo_env (10, demo_db) [(1, 0, RenewHolder ''pod2'')])"
proof -
  have "bt_get (ld_claims demo_db) (cl_workspace demo_claims, (''sub'', ''s'')) = Some (''acct'', False)"
    "(''sub'', ''s'') \<in> set (claim_keys demo_claims)"
    "claims_from_record (ev_auth demo_env) (ev_claims demo_env) (demo_record\<lparr>cr_account_id := ''other''\<rparr>)
       = Inr (Some demo_claims)"
    "cr_account_id (demo_record\<lparr>cr_account_id := ''other''\<rparr>) \<noteq> ''acct''"
    by (simp_all add: demo_defs claim_keys_def claims_from_record_def)
  from identity_never_moves [OF this, of 10 "[(1, 0, RenewHolder ''pod2'')]" 20 20]
  show ?thesis by (simp add: Let_def)
qed

text \<open>A second replica asks for the reset another one holds.\<close>

definition demo_reset_db :: login_db where
  "demo_reset_db = demo_db\<lparr>ld_reset_custody := [''acct'']\<rparr>"

theorem reset_custody_excludes_witness:
  "isl (fst (refresh_lease ''acct'' ''pod2'' 60 20
      (snd (login_run demo_env (10, demo_reset_db) [(1, 0, TakeReset ''acct''), (1, 0, DropReset ''b'')]))))"
proof -
  have "''acct'' \<in> set (ld_reset_custody demo_reset_db)"
    "list_all (\<lambda>(_, _, act). act \<noteq> DropReset ''acct'') [(1, 0, TakeReset ''acct''), (1, 0, DropReset ''b'')]"
    by (simp_all add: demo_reset_db_def)
  from reset_custody_excludes [OF this, of demo_env 10 "''pod2''" 60 20]
  show ?thesis by (simp add: Let_def)
qed

definition demo_wrote :: login_db where
  "demo_wrote = demo_db\<lparr>ld_resets := [(''acct'', \<lparr>rr_revision = 1, rr_journal = empty_journal, rr_deleted = False\<rparr>)]\<rparr>"

theorem stale_reset_write_refused_witness:
  "snd (write_reset_journal ''u'' ''acct'' 0 empty_journal (Settle None NoCredit) 30 30
      (snd (login_run demo_env (20, demo_wrote) [(1, 0, TakeReset ''acct'')])))
   = snd (login_run demo_env (20, demo_wrote) [(1, 0, TakeReset ''acct'')])"
proof -
  have "write_reset_journal ''u'' ''acct'' 0 empty_journal (Settle None NothingToReset) 20 20 demo_db = (Inr True, demo_wrote)"
    by (simp add: write_reset_journal_def owned_account_def account_row_def swap_journal_def settle_effects_def
        demo_wrote_def demo_defs)
  from stale_reset_write_refused [OF this, of demo_env 20 "[(1, 0, TakeReset ''acct'')]" "''u''" empty_journal
      "Settle None NoCredit" 30 30]
  show ?thesis by (simp add: Let_def)
qed

text \<open>A caller signed in at 5 removes the account at 20.\<close>

definition demo_caller :: caller where
  "demo_caller = \<lparr>ca_user = ''u'', ca_authority = Browser ''tok'', ca_actor = Some ''u@x''\<rparr>"

definition demo_removal :: removal_request where
  "demo_removal = \<lparr>rm_alias = ''work'', rm_attempt = ''a1'', rm_account = ''acct'', rm_revision = 3,
     rm_confirmation = ''work''\<rparr>"

definition demo_idle :: login_db where
  "demo_idle = demo_db\<lparr>ld_ops := [],
     ld_auth := \<lparr>at_devices = [], at_users = [(''u'', True, False)],
        at_sessions = [(''tok'', \<lparr>sn_user = ''u'', sn_signed_in = 5, sn_expires_at = 500, sn_verified = True\<rparr>)]\<rparr>\<rparr>"

definition no_loans :: pg_ledger where
  "no_loans = \<lparr>pl_loans = [], pl_audit = [], pl_accounts = []\<rparr>"

lemmas demo_removal_defs = demo_caller_def demo_removal_def demo_idle_def no_loans_def

lemma demo_still_signed_in:
  "removal_authorize demo_caller 20 (tombstone_account a holder t actor attempt demo_idle) = None"
  by (simp add: tombstone_account_def removal_authorize_def fresh_sign_in_def user_live_def demo_removal_defs demo_defs)

lemma demo_removed:
  "remove_account no_loans demo_caller demo_removal ''pod1'' Commit 20 20 demo_idle
     = (Inr Removed, tombstone_account ''acct'' ''pod1'' 20 ''u@x'' ''a1'' demo_idle)"
proof -
  have auth0: "removal_authorize demo_caller 20 demo_idle = None"
    by (simp add: removal_authorize_def fresh_sign_in_def user_live_def demo_removal_defs demo_defs)
  have ref: "removal_refused (lent ''acct'' no_loans) demo_caller demo_removal ''pod1''
      \<lparr>pga_record = demo_record, pga_deleted = False\<rparr> demo_idle = None"
    by (simp add: removal_refused_def lent_def login_pending_def foreign_lease_def bt_values_def demo_removal_defs demo_defs)
  have row: "account_row demo_idle ''acct'' = Some \<lparr>pga_record = demo_record, pga_deleted = False\<rparr>"
    "reset_free demo_idle ''acct''" "bt_get (ld_audit demo_idle) ''a1'' = None"
    by (simp_all add: account_row_def reset_free_def demo_idle_def demo_db_def empty_login_db_def)
  have q: "rm_account demo_removal = ''acct''" "rm_attempt demo_removal = ''a1''" "rm_alias demo_removal = ''work''"
    "rm_confirmation demo_removal = ''work''" "ca_user demo_caller = ''u''" "ca_actor demo_caller = Some ''u@x''"
    "cr_user_id demo_record = Some ''u''" "cr_alias demo_record = ''work''"
    by (simp_all add: demo_caller_def demo_removal_def demo_record_def)
  have again: "removal_authorize demo_caller 20 (tombstone_account ''acct'' ''pod1'' 20 ''u@x'' ''a1'' demo_idle) = None"
    by (simp add: demo_still_signed_in)
  show ?thesis
    by (simp add: remove_account_def auth0 row q removal_receipt_def ref again Let_def)
qed

theorem removal_final_and_idempotent_witness:
  "isl (fst (refresh_lease ''acct'' ''pod2'' 60 40
      (snd (login_run demo_env (20, tombstone_account ''acct'' ''pod1'' 20 ''u@x'' ''a1'' demo_idle)
              [(1, 0, SaveAccount demo_record)]))))
   \<and> fst (remove_account no_loans demo_caller demo_removal ''pod2'' Commit 20 20
        (tombstone_account ''acct'' ''pod1'' 20 ''u@x'' ''a1'' demo_idle)) = Inr AlreadyRemoved"
proof
  show "isl (fst (refresh_lease ''acct'' ''pod2'' 60 40
      (snd (login_run demo_env (20, tombstone_account ''acct'' ''pod1'' 20 ''u@x'' ''a1'' demo_idle)
              [(1, 0, SaveAccount demo_record)]))))"
    using removal_final_and_idempotent [OF demo_removed, of demo_env 20 "[(1, 0, SaveAccount demo_record)]" no_loans "''pod1''"
        Commit 40 40 "''pod2''" 60]
    by (simp add: Let_def demo_removal_def i64_max_def)
  have "reset_free (tombstone_account ''acct'' ''pod1'' 20 ''u@x'' ''a1'' demo_idle) ''acct''"
    by (simp add: reset_free_def tombstone_account_def demo_idle_def demo_db_def empty_login_db_def)
  moreover have "rm_revision demo_removal < i64_max" "rm_account demo_removal = ''acct''"
    by (simp_all add: demo_removal_def i64_max_def)
  ultimately show "fst (remove_account no_loans demo_caller demo_removal ''pod2'' Commit 20 20
        (tombstone_account ''acct'' ''pod1'' 20 ''u@x'' ''a1'' demo_idle)) = Inr AlreadyRemoved"
    using removal_final_and_idempotent [OF demo_removed, of demo_env 20 "[]" no_loans "''pod2''" Commit 20 20]
    by (simp add: Let_def login_run_def demo_still_signed_in)
qed

theorem abandoned_candidate_recovered_witness:
  "fst (login_takeover_candidate (read_row 50 demo_row) ''pod3'' 50 demo_db) = Inr True"
proof -
  have ok: "journal_ok demo_db"
    by (auto simp: journal_ok_def demo_defs row_key_def bt_keyed_def split: if_splits)
  have row: "bt_get (ld_ops demo_db) (''u'', ''l1'') = Some demo_row" by (simp add: demo_db_def)
  have "lr_phase demo_row = Candidate" "lr_expires_at demo_row \<le> 50" "\<not> login_lease_held demo_row demo_db"
    "holder_live 50 demo_db ''pod3''" "op_account_live demo_row demo_db"
    "case bt_get (ld_holders demo_db) (lr_holder demo_row) of
       None \<Rightarrow> False | Some h \<Rightarrow> hr_bound h \<and> \<not> hr_deleted h \<and> hr_expires_at h \<le> 50"
    by (simp_all add: demo_defs login_lease_held_def holder_live_def op_account_live_def)
  from abandoned_candidate_recovered [OF ok row this(1,6,2,3,4,5)] show ?thesis
    by (cases "login_takeover_candidate (read_row 50 demo_row) ''pod3'' 50 demo_db") simp
qed

definition quiet_round :: round where
  "quiet_round = \<lparr>rd_usage = Inr 1, rd_details = Inr [], rd_clock = 20, rd_now = 20, rd_later = 20,
     rd_between = (\<lambda>db. db)\<rparr>"

theorem quiet_round_decides_witness:
  "reserve_intent (\<lambda>_. None) (\<lambda>r. r) demo_caller 3 ''rev'' ''pod1'' ''acct'' ''r1'' [quiet_round, quiet_round] demo_wrote
     = reserve_intent (\<lambda>_. None) (\<lambda>r. r) demo_caller 3 ''rev'' ''pod1'' ''acct'' ''r1'' [quiet_round] demo_wrote"
  using quiet_round_decides [of quiet_round demo_wrote "''acct''" "\<lambda>_. None" "\<lambda>r. r" demo_caller 3 "''rev''" "''pod1''" "''r1''"
      "[quiet_round]"]
  by (simp add: quiet_round_def demo_wrote_def)

text \<open>The added login of the user lands on the account its claim belongs to.\<close>

definition demo_candidate :: login_operation where
  "demo_candidate = (read_row 10 demo_row)\<lparr>lo_payload := empty_payload\<lparr>lp_candidate := Some ''cred''\<rparr>\<rparr>"

definition demo_adding :: login_db where
  "demo_adding = demo_db\<lparr>ld_auth := \<lparr>at_devices = [(''laptop'', \<lparr>dv_user = ''u'', dv_tenant = ''sawmills'',
       dv_revoked = False, dv_deleted = False\<rparr>)], at_users = [(''u'', True, False)], at_sessions = []\<rparr>\<rparr>"

lemma demo_admitted:
  "fst (login_admit_add (ev_claims demo_env) (ev_key demo_env) (ev_seal demo_env) True True True demo_candidate 20 20 demo_adding)
     = Inr Ready"
  by code_simp

theorem admission_lands_on_own_account_witness:
  "case login_admit_add (ev_claims demo_env) (ev_key demo_env) (ev_seal demo_env) True True True demo_candidate 20 20 demo_adding of
     (res, op', db') \<Rightarrow>
       res = Inr Ready \<and> (case lo_account op' of None \<Rightarrow> False | Some a \<Rightarrow> account_user db' a = Some ''u'')"
proof -
  let ?adm = "login_admit_add (ev_claims demo_env) (ev_key demo_env) (ev_seal demo_env) True True True demo_candidate 20 20 demo_adding"
  have ok: "bt_ok (pc_accounts (ld_custody demo_adding))" by (simp add: demo_adding_def demo_db_def)
  have user: "lo_user demo_candidate = ''u''" by (simp add: demo_candidate_def read_row_def demo_row_def)
  have row: "map_option lr_sequence (bt_get (ld_ops demo_adding) (op_key demo_candidate)) = Some (lo_sequence demo_candidate)"
    by code_simp
  obtain op' db' where eq: "?adm = (Inr Ready, op', db')" using demo_admitted by (cases ?adm) auto
  show ?thesis
    using admission_lands_on_own_account [where claims_of = "ev_claims demo_env" and key_of = "ev_key demo_env"
        and seal = "ev_seal demo_env" and acknowledged = True and committed = True and reread = True and op = demo_candidate
        and now = 20 and later = 20, OF ok] user row
    by (auto simp: eq split: option.splits if_splits)
qed

end
