(* ===== verification/Spec2Isabelle.thy ===== *)
theory Spec2Isabelle
  imports RolloutDemo OpenFilesFacts RegistryDemo ProfileDemo TokenDemo OwnerLogFacts LoanFacts Leases Capacity Streaks LoginDemo
begin

text \<open>
  codexctl keeps several Codex logins for one person or one company. Locally it saves each login
  in a profile directory and switches the live \<open>auth.json\<close> between them. Centrally a server with
  one or more replicas owns the accounts: it lends them to machines, serves access tokens,
  renews and removes logins, redeems banked usage resets and decides which account a
  session should use; the relay on the machine applies that advice to upstream failures.

  \<^bold>\<open>Reading order.\<close> \<open>Prelude\<close> (bytes, \<open>str\<close> operations, \<open>Result\<close>, saturating
  integers and the locales \<open>guarded_system\<close> and \<open>monotone_system\<close> for runs), \<open>BTree\<close>
  (\<open>BTreeMap\<close> in key order), \<open>Floats\<close> (\<open>f64\<close> with rational values, NaN and infinities, under a
  rounding parameter), \<open>Json\<close>. Each component then has a theory of operations and, where it is
  large, one of facts and one of concrete witnesses.

  \<^item> Names and tokens: \<open>Aliases\<close> (\<open>src/store.rs\<close>, \<open>src/central/loans.rs\<close>) and \<open>Tokens\<close>
    (\<open>src/api.rs\<close>, claims of an access token).
  \<^item> Local profiles: \<open>Profiles\<close>, \<open>ProfileOwner\<close>, \<open>ProfileOps\<close> translate \<open>src/profile.rs\<close> over a store
    of files. An operation is a trace of single writes, each of which may fail and after each of which the
    process may die; \<open>ProfileFacts\<close> carries an invariant through every trace (locale
    \<open>crash_invariant\<close>), \<open>OwnerFacts\<close>, \<open>CaptureFacts\<close>, \<open>ProfileSafety\<close> state what survives, and
    \<open>ProfileDemo\<close> applies them.
  \<^item> Loans: \<open>Loans\<close> (rules), \<open>CentralState\<close> and \<open>LoanStore\<close> (file mode of \<open>src/central/storage.rs\<close>
    and \<open>src/central/storage/loans.rs\<close>, with the readings taken before the lock as arguments),
    \<open>LoanBackends\<close> (the PostgreSQL statements, the same contract in the locale \<open>loan_ledger\<close>),
    \<open>LoanModes\<close> (\<open>CentralStore\<close>: file, PostgreSQL, dual) and \<open>LoanFacts\<close>.
  \<^item> Credential custody: \<open>Leases\<close> (refresh leases, fenced writes, enrollment challenges; the locale
    \<open>fenced_store\<close> is interpreted for file and PostgreSQL), \<open>SharedAccounts\<close>.
  \<^item> Shared logins: \<open>LoginState\<close>, \<open>LoginJournal\<close>, \<open>LoginRecovery\<close> translate
    \<open>src/central/storage/login.rs\<close>; \<open>LoginIdentity\<close> is \<open>src/central/storage/identity.rs\<close>, \<open>SharedReset\<close>
    \<open>src/central/storage/resets.rs\<close> and \<open>src/central/resets/shared.rs\<close>, with account removal.
    \<open>LoginRuns\<close> lets every replica take any transaction with any stale copy at any time;
    \<open>LoginSteps\<close> reduces a transaction to primitive writes, \<open>LoginFacts\<close>, \<open>SharedFacts\<close>,
    \<open>CustodyFacts\<close> prove what holds over all runs, \<open>LoginDemo\<close> applies it.
  \<^item> Usage and selection: \<open>Usage\<close> (readings, \<open>src/api.rs\<close>, \<open>src/statusline.rs\<close>), \<open>Select\<close>
    (\<open>src/central/remote.rs\<close>), \<open>Capacity\<close> (\<open>src/central/capacity.rs\<close>), \<open>Streaks\<close>
    (\<open>src/relay/policy.rs\<close>), \<open>ResetJournal\<close> (\<open>src/central/resets.rs\<close>).
  \<^item> Token serving: \<open>Vaults\<close> (\<open>src/central/vault.rs\<close>), \<open>FastPath\<close>, \<open>TokenEvidence\<close>, \<open>LeaseWait\<close>
    (\<open>src/central/fast_path.rs\<close> and the token request of \<open>src/central/managed/owner_request.rs\<close>),
    \<open>TokenFacts\<close>, \<open>TokenDemo\<close>; \<open>OwnerLog\<close>, \<open>OwnerLogFacts\<close> (\<open>src/central/owner_refresh.rs\<close>).
  \<^item> Registry: \<open>Registry\<close>, \<open>RegistryFacts\<close>, \<open>RegistryDemo\<close> (users, devices, browser sessions, live
    sessions, relay limiter and audit of \<open>src/central/storage/browser.rs\<close>,
    \<open>src/central/enrollment/identity.rs\<close> and \<open>src/central/storage.rs\<close>).
  \<^item> Old sessions: \<open>Rollouts\<close>, \<open>RolloutFacts\<close>, \<open>RolloutDemo\<close> (the repair of rollout headers in
    \<open>src/central/sessions.rs\<close>, with other processes acting between any two looks at the files and between the last look and
    the rename),
    \<open>OpenFiles\<close>, \<open>OpenFilesFacts\<close> (its reading of \<open>lsof\<close> and of the mount table; climbing a stack of
    mounts is a \<open>partial_function\<close> because on a table whose root is its own parent it does not return).

  \<^bold>\<open>How the code is read.\<close> A struct is a record, an enum a datatype, \<open>Result\<close> the sum
  type with the error on the left, a panic or refusal a branch of its own. A PostgreSQL transaction is a
  function from tables to tables with \<open>now()\<close> as argument; what its locks serialise is a
  single step, what they leave open (a row read before the lock, a copy kept by a
  worker, a row skipped as locked) is an arbitrary argument. Widths matter where the code
  saturates or wraps: revisions and counters saturate at their type's end or are taken modulo
  \<open>2 ^ 32\<close> or \<open>2 ^ 64\<close>; the epochs of leases and logins, which only ever grow by one, are unbounded,
  which agrees with the code's 64-bit integers below \<open>2 ^ 63\<close> acquisitions. Times are integers
  in seconds, microseconds or nanoseconds.

  \<^bold>\<open>What the lemmas show.\<close> Per component: lookup and frame lemmas for each operation, the
  invariant and the order its state moves in, and the exact success condition of each
  operation. Over runs: a fence once passed stays passed (leases, login epochs, reset revisions, revoked
  machines), tombstones and receipts are final, identities never move, tables stay inside
  their bounds. Between backends: file mode, PostgreSQL and dual mode answer alike.

  \<^bold>\<open>Bounds.\<close> The limits are the code's constants: 256 redemption receipts, a lease wait of 15
  seconds with at most 35 polls and 601 tries, 8,192 bytes a line and 30 lines a minute for the
  child log, 1,024 browser sessions. Loops end by structural
  recursion or by a measure, except the token loop, which is given 601 turns; \<open>lease_wait_ends\<close>
  shows that they are never used up.

  \<^bold>\<open>Parameters.\<close> Code outside \<open>src/\<close> is an argument: the digest, the
  authenticated cipher (sealing then opening gives the plain text back), parsers of JSON, of times and of tokens, the
  rounding of doubles, letter tables of Unicode beyond ASCII, the host's file system results.

  \<^bold>\<open>Not modelled.\<close> Starting and speaking to native child processes, HTTP
  transport, sockets and timers, command-line parsing, terminal output and HTML rendering are input
  and output around the decisions modelled here. Schema migration and backfill are SQL text that runs once.
  Calls into the operating system (permissions, fsync, process identity) are reduced to success or failure.
\<close>

end
